(* ===== verification/Prelude.thy ===== *)
theory Prelude
  imports Main "HOL-Library.Word" "HOL-Library.Monad_Syntax"
begin

text \<open>
  Shared vocabulary of the development: the machine words and byte vectors of
  \<open>src/native_smb\<close>, bounds-checked reads, the little-endian field codecs that
  every message of the protocol is made of, the result type of the decoders and
  the simplification rules that carry reads through concatenated encodings.

  A byte vector is a list of 8-bit words. A read outside a vector is undefined
  behaviour in the C++; here it is the value \<open>None\<close>, so that "this decoder never
  reads out of bounds" is a statement of the model and not an assumption.
\<close>

unbundle bit_operations_syntax

type_synonym u8 = "8 word"
type_synonym u16 = "16 word"
type_synonym u32 = "32 word"
type_synonym u64 = "64 word"
type_synonym bytes = "u8 list"

named_theorems wire \<open>rules that move a read or a slice through an encoding\<close>

section \<open>Bounds-checked access\<close>

definition byte_at :: "bytes \<Rightarrow> nat \<Rightarrow> u8 option" where
  "byte_at d i = (if i < length d then Some (d ! i) else None)"

definition slice :: "bytes \<Rightarrow> nat \<Rightarrow> nat \<Rightarrow> bytes option" where
  "slice d a b = (if a \<le> b \<and> b \<le> length d then Some (take (b - a) (drop a d)) else None)"

lemma byte_at_in [simp]: "i < length d \<Longrightarrow> byte_at d i = Some (d ! i)"
  by (simp add: byte_at_def)

lemma byte_at_eq_None [simp]: "byte_at d i = None \<longleftrightarrow> length d \<le> i"
  by (auto simp: byte_at_def)

lemma slice_in: "a \<le> b \<Longrightarrow> b \<le> length d \<Longrightarrow> slice d a b = Some (take (b - a) (drop a d))"
  by (simp add: slice_def)

lemma slice_eq_None [simp]: "slice d a b = None \<longleftrightarrow> \<not> (a \<le> b \<and> b \<le> length d)"
  by (auto simp: slice_def)

lemma slice_length: "slice d a b = Some s \<Longrightarrow> length s = b - a"
  by (auto simp: slice_def split: if_splits)

lemma byte_at_Cons_0 [wire]: "byte_at (x # xs) 0 = Some x"
  by (simp add: byte_at_def)

lemma byte_at_Cons [wire]: "0 < i \<Longrightarrow> byte_at (x # xs) i = byte_at xs (i - 1)"
  by (auto simp: byte_at_def nth_Cons split: nat.splits)

lemma byte_at_append [wire]: "length xs \<le> i \<Longrightarrow> byte_at (xs @ ys) i = byte_at ys (i - length xs)"
  by (auto simp: byte_at_def nth_append)

lemma byte_at_prefix: "i < length xs \<Longrightarrow> byte_at (xs @ ys) i = byte_at xs i"
  by (auto simp: byte_at_def nth_append)

lemma slice_Cons [wire]: "0 < a \<Longrightarrow> a \<le> b \<Longrightarrow> slice (x # xs) a b = slice xs (a - 1) (b - 1)"
  by (auto simp: slice_def drop_Cons' )

lemma slice_append [wire]:
  "length xs \<le> a \<Longrightarrow> a \<le> b \<Longrightarrow> slice (xs @ ys) a b = slice ys (a - length xs) (b - length xs)"
  by (auto simp: slice_def)

lemma slice_prefix: "b \<le> length xs \<Longrightarrow> slice (xs @ ys) a b = slice xs a b"
  by (auto simp: slice_def)

lemma slice_0 [wire]: "b = length xs \<Longrightarrow> slice (xs @ ys) 0 b = Some xs"
  by (simp add: slice_def)

lemma slice_all [wire]: "b = length xs \<Longrightarrow> slice xs 0 b = Some xs"
  by (simp add: slice_def)

section \<open>Little-endian fields\<close>

text \<open>
  \<open>appendU16Le\<close>, \<open>appendU32Le\<close> and \<open>appendU64Le\<close> push the bytes of a word, least
  significant first; here each is the list of bytes pushed, and a message is the
  concatenation of its fields.
\<close>

definition le16 :: "u16 \<Rightarrow> bytes" where
  "le16 v = [ucast (v AND 0xFF), ucast (drop_bit 8 v AND 0xFF)]"

definition le32 :: "u32 \<Rightarrow> bytes" where
  "le32 v = map (\<lambda>shift. ucast (drop_bit shift v AND 0xFF)) [0, 8, 16, 24]"

definition le64 :: "u64 \<Rightarrow> bytes" where
  "le64 v = map (\<lambda>shift. ucast (drop_bit shift v AND 0xFF)) [0, 8, 16, 24, 32, 40, 48, 56]"

definition readU16Le :: "bytes \<Rightarrow> nat \<Rightarrow> u16 option" where
  "readU16Le d i = do {
     b0 \<leftarrow> byte_at d i; b1 \<leftarrow> byte_at d (i + 1);
     Some (ucast b0 OR push_bit 8 (ucast b1)) }"

definition readU32Le :: "bytes \<Rightarrow> nat \<Rightarrow> u32 option" where
  "readU32Le d i = do {
     b0 \<leftarrow> byte_at d i; b1 \<leftarrow> byte_at d (i + 1); b2 \<leftarrow> byte_at d (i + 2); b3 \<leftarrow> byte_at d (i + 3);
     Some (ucast b0 OR push_bit 8 (ucast b1) OR push_bit 16 (ucast b2) OR push_bit 24 (ucast b3)) }"

text \<open>\<open>readU64Le\<close> is a loop from the last byte to the first: shift left, then or.\<close>

fun readBackwards :: "bytes \<Rightarrow> nat \<Rightarrow> nat \<Rightarrow> u64 \<Rightarrow> u64 option" where
  "readBackwards d i 0 acc = Some acc"
| "readBackwards d i (Suc n) acc = do {
     b \<leftarrow> byte_at d (i + n);
     readBackwards d i n (push_bit 8 acc OR ucast b) }"

definition readU64Le :: "bytes \<Rightarrow> nat \<Rightarrow> u64 option" where
  "readU64Le d i = readBackwards d i 8 0"

lemma length_le [simp]: "length (le16 v) = 2" "length (le32 w) = 4" "length (le64 x) = 8"
  by (simp_all add: le16_def le32_def le64_def)

lemma readU16Le_in: "i + 2 \<le> length d \<Longrightarrow> readU16Le d i = Some (ucast (d ! i) OR push_bit 8 (ucast (d ! (i + 1))))"
  by (simp add: readU16Le_def)

lemma readU16Le_eq_None [simp]: "readU16Le d i = None \<longleftrightarrow> length d < i + 2"
  by (auto simp: readU16Le_def bind_eq_None_conv)

lemma readU32Le_eq_None [simp]: "readU32Le d i = None \<longleftrightarrow> length d < i + 4"
  by (auto simp: readU32Le_def bind_eq_None_conv)

lemma readBackwards_None: "readBackwards d i n acc = None \<longleftrightarrow> 0 < n \<and> length d < i + n"
  by (induction n arbitrary: acc) (auto simp: bind_eq_None_conv byte_at_def)

lemma readU64Le_eq_None [simp]: "readU64Le d i = None \<longleftrightarrow> length d < i + 8"
  by (simp add: readU64Le_def readBackwards_None)

lemma readU16Le_append [wire]: "length xs \<le> i \<Longrightarrow> readU16Le (xs @ ys) i = readU16Le ys (i - length xs)"
  by (simp add: readU16Le_def byte_at_append Suc_diff_le)

lemma readU32Le_append [wire]: "length xs \<le> i \<Longrightarrow> readU32Le (xs @ ys) i = readU32Le ys (i - length xs)"
  by (simp add: readU32Le_def byte_at_append Suc_diff_le)

lemma readBackwards_append:
  "length xs \<le> i \<Longrightarrow> readBackwards (xs @ ys) i n acc = readBackwards ys (i - length xs) n acc"
  by (induction n arbitrary: acc) (simp_all add: byte_at_append)

lemma readU64Le_append [wire]: "length xs \<le> i \<Longrightarrow> readU64Le (xs @ ys) i = readU64Le ys (i - length xs)"
  by (simp add: readU64Le_def readBackwards_append)

lemma readU16Le_Cons [wire]: "0 < i \<Longrightarrow> readU16Le (x # ys) i = readU16Le ys (i - 1)"
  using readU16Le_append [of "[x]" i ys] by simp

lemma readU32Le_Cons [wire]: "0 < i \<Longrightarrow> readU32Le (x # ys) i = readU32Le ys (i - 1)"
  using readU32Le_append [of "[x]" i ys] by simp

lemma readU64Le_Cons [wire]: "0 < i \<Longrightarrow> readU64Le (x # ys) i = readU64Le ys (i - 1)"
  using readU64Le_append [of "[x]" i ys] by simp

lemma readU16Le_prefix: "i + 2 \<le> length xs \<Longrightarrow> readU16Le (xs @ ys) i = readU16Le xs i"
  by (simp add: readU16Le_def byte_at_prefix del: byte_at_in)

lemma readU32Le_prefix: "i + 4 \<le> length xs \<Longrightarrow> readU32Le (xs @ ys) i = readU32Le xs i"
  by (simp add: readU32Le_def byte_at_prefix del: byte_at_in)

text \<open>Reading back a field that was just written gives the field.\<close>

lemma low_byte:
  "ucast (v AND 0xFF :: 'a::len word) = (ucast v :: u8)" if "8 \<le> LENGTH('a)"
proof (rule bit_word_eqI)
  fix n assume "n < LENGTH(8)"
  have m: "(0xFF :: 'a word) = mask 8" by (simp add: mask_eq_exp_minus_1)
  show "bit (ucast (v AND 0xFF) :: u8) n = bit (ucast v :: u8) n"
    using \<open>n < LENGTH(8)\<close> that unfolding m by (auto simp: bit_simps)
qed

lemma join16: "(ucast (ucast v :: u8) :: u16) OR push_bit 8 (ucast (ucast (drop_bit 8 v) :: u8)) = v" (is "?l = _")
proof (rule bit_word_eqI)
  fix n assume "n < LENGTH(16)"
  then show "bit ?l n = bit v n"
    by (cases "n < 8") (auto simp: bit_simps)
qed

lemma join32: "ucast (ucast v :: u8) OR push_bit 8 (ucast (ucast (drop_bit 8 v) :: u8))
     OR push_bit 16 (ucast (ucast (drop_bit 16 v) :: u8))
     OR push_bit 24 (ucast (ucast (drop_bit 24 v) :: u8)) = (v :: u32)" (is "?l = _")
proof (rule bit_word_eqI)
  fix n assume n: "n < LENGTH(32)"
  consider "n < 8" | "8 \<le> n" "n < 16" | "16 \<le> n" "n < 24" | "24 \<le> n" by linarith
  then show "bit ?l n = bit v n"
    using n by cases (auto simp: bit_simps)
qed

lemma readBackwards_join:
  assumes "i + n \<le> length d" "n * 8 \<le> 64"
    and "\<And>k. k < n \<Longrightarrow> d ! (i + k) = ucast (drop_bit (8 * k) v)"
  shows "readBackwards d i n (drop_bit (8 * n) v) = Some v"
  using assms
proof (induction n)
  case 0 then show ?case by simp
next
  case (Suc n)
  have "push_bit 8 (drop_bit (8 * Suc n) v) OR ucast (ucast (drop_bit (8 * n) v) :: u8) = drop_bit (8 * n) v"
  proof (rule bit_word_eqI)
    fix m assume "m < LENGTH(64)"
    then show "bit (push_bit 8 (drop_bit (8 * Suc n) v) OR ucast (ucast (drop_bit (8 * n) v) :: u8)) m = bit (drop_bit (8 * n) v) m"
      by (cases "m < 8") (auto simp: bit_simps add.assoc)
  qed
  with Suc show ?case by (simp add: byte_at_def)
qed

lemma readU16Le_le16 [wire]: "readU16Le (le16 v @ ys) 0 = Some v"
  by (simp add: readU16Le_def le16_def byte_at_def low_byte join16)

lemma readU32Le_le32 [wire]: "readU32Le (le32 v @ ys) 0 = Some v"
  by (simp add: readU32Le_def le32_def byte_at_def low_byte join32)

lemma readU64Le_le64 [wire]: "readU64Le (le64 v @ ys) 0 = Some v"
proof -
  have "le64 v @ ys = le64 v @ ys" ..
  have "k < 8 \<Longrightarrow> (le64 v @ ys) ! (0 + k) = ucast (drop_bit (8 * k) v)" for k
    by (auto simp: le64_def low_byte nth_append less_Suc_eq numeral_eq_Suc)
  from readBackwards_join [of 0 8 "le64 v @ ys" v, OF _ _ this]
  show ?thesis by (simp add: readU64Le_def)
qed

lemma read_le_all [wire]:
  "readU16Le (le16 a) 0 = Some a" "readU32Le (le32 b) 0 = Some b" "readU64Le (le64 c) 0 = Some c"
  using readU16Le_le16 [of a "[]"] readU32Le_le32 [of b "[]"] readU64Le_le64 [of c "[]"] by simp_all

lemma readU64Le_prefix: "i + 8 \<le> length xs \<Longrightarrow> readU64Le (xs @ ys) i = readU64Le xs i"
proof -
  have "n \<le> 8 \<Longrightarrow> i + 8 \<le> length xs \<Longrightarrow> readBackwards (xs @ ys) i n acc = readBackwards xs i n acc" for n acc
    by (induction n arbitrary: acc) (simp_all add: byte_at_prefix del: byte_at_in)
  then show "i + 8 \<le> length xs \<Longrightarrow> ?thesis" by (simp add: readU64Le_def)
qed

section \<open>Equality of words bit by bit\<close>

lemma no_bit_above: 
  assumes "c \<le> m" "unat m < 2 ^ k" "k \<le> n" shows "\<not> bit (c :: 'a::len word) n"
proof 
  assume "bit c n"
  then have "odd (unat c div 2 ^ n)"
    by (simp add: bit_unsigned_iff flip: bit_iff_odd)
  then have "unat c div 2 ^ n \<noteq> 0" by (metis even_zero)
  then have "2 ^ n \<le> unat c" by (metis div_less not_less)
  also have "unat c < 2 ^ k" using assms(1,2) by (simp add: word_le_nat_alt)
  finally show False using assms(3) by simp
qed

lemma u8_eqI: "list_all (\<lambda>n. bit x n = bit y n) [0,1,2,3,4,5,6,7] \<Longrightarrow> x = (y :: u8)"
  proof (rule bit_word_eqI)
  fix n assume all: "list_all (\<lambda>n. bit x n = bit y n) [0,1,2,3,4,5,6,7]" and n: "n < LENGTH(8)"
  from n have "n \<in> set [0..<8]" by simp
  moreover have "[0..<8] = [0,1,2,3,4,5,6,7]" by code_simp
  ultimately show "bit x n = bit y n" using all unfolding list_all_iff by metis
qed
lemma u32_eqI: "list_all (\<lambda>n. bit x n = bit y n) [0,1,2,3,4,5,6,7,8,9,10,11,12,13,14,15,16,17,18,19,20,21,22,23,24,25,26,27,28,29,30,31] \<Longrightarrow> x = (y :: u32)"
  proof (rule bit_word_eqI)
  fix n assume all: "list_all (\<lambda>n. bit x n = bit y n) [0,1,2,3,4,5,6,7,8,9,10,11,12,13,14,15,16,17,18,19,20,21,22,23,24,25,26,27,28,29,30,31]" and n: "n < LENGTH(32)"
  from n have "n \<in> set [0..<32]" by simp
  moreover have "[0..<32] = [0,1,2,3,4,5,6,7,8,9,10,11,12,13,14,15,16,17,18,19,20,21,22,23,24,25,26,27,28,29,30,31]" by code_simp
  ultimately show "bit x n = bit y n" using all unfolding list_all_iff by metis
qed

lemma unat_ucast_fits: "unat (c :: 'a::len word) < 2 ^ LENGTH('b::len) \<Longrightarrow> unat (ucast c :: 'b word) = unat c"
  by (simp add: unsigned_ucast_eq unsigned_take_bit_eq take_bit_nat_eq_self)

lemma unat_ucast_wider: "LENGTH('a::len) \<le> LENGTH('b::len) \<Longrightarrow> unat (ucast (c :: 'a word) :: 'b word) = unat c"
proof (rule unat_ucast_fits)
  assume le: "LENGTH('a) \<le> LENGTH('b)"
  have "unat c < 2 ^ LENGTH('a)" by (rule unsigned_less)
  also have "(2 :: nat) ^ LENGTH('a) \<le> 2 ^ LENGTH('b)" using le by (simp add: power_increasing)
  finally show "unat c < 2 ^ LENGTH('b)" .
qed

lemma le32_join: "le32 (ucast b0 OR push_bit 8 (ucast b1) OR push_bit 16 (ucast b2) OR push_bit 24 (ucast b3)) = [b0, b1, b2, b3]"
proof -
  have no: "8 \<le> n \<Longrightarrow> \<not> bit (b :: u8) n" for n b using bit_imp_le_length [of b n] by auto
  let ?v = "ucast b0 OR push_bit 8 (ucast b1) OR push_bit 16 (ucast b2) OR push_bit 24 (ucast b3) :: u32"
  have "ucast ?v = b0" "ucast (drop_bit 8 ?v) = b1" "ucast (drop_bit 16 ?v) = b2" "ucast (drop_bit 24 ?v) = b3"
    by (rule u8_eqI, simp add: bit_simps no)+
  then show ?thesis by (simp add: le32_def low_byte)
qed

section \<open>Option-valued code\<close>

text \<open>
  Two facts decide every bounds question: a block is undefined exactly when one of
  its reads is, and the readers are undefined exactly outside the vector.
\<close>

lemmas in_bounds = bind_eq_None_conv not_less not_le

end
