(* ===== verification/NativeTypes.thy ===== *)
theory NativeTypes
  imports Prelude
begin

text \<open>
  The types every part of \<open>src/native_smb\<close> shares (\<open>SmbNative.h\<close> and the head of
  \<open>Protocol.h\<close>): error codes, security policies, dialect and command numbers, the
  NTSTATUS table, and \<open>DecodeResult\<close>, the value each fallible operation returns.

  An enumeration with a fixed underlying type that the code also fills by a cast from
  the wire (\<open>Dialect\<close>, \<open>Command\<close>, \<open>ShareType\<close>) is the word of that type, because the
  cast admits every value; an enumeration that is only ever written by the program
  (\<open>ErrorCode\<close>, \<open>SecurityPolicy\<close>) is a datatype.
\<close>

section \<open>Enumerations and constants\<close>

datatype ErrorCode =
    EcNone | EcCancelled | EcTimeout | EcDnsError | EcServerUnavailable | EcShareUnavailable
  | EcAuthenticationFailed | EcPermissionDenied | EcProtocolUnsupported | EcFileNotFound
  | EcAlreadyExists | EcDirectoryNotEmpty | EcInvalidPath | EcNetworkError | EcIoError
  | EcUnsupportedCapability | EcInternalError

datatype SecurityPolicy = Required | Preferred | Disabled

type_synonym Dialect = u16
type_synonym Command = u16

abbreviation (input) Smb202 :: Dialect where "Smb202 \<equiv> 0x0202"
abbreviation (input) Smb210 :: Dialect where "Smb210 \<equiv> 0x0210"
abbreviation (input) Smb300 :: Dialect where "Smb300 \<equiv> 0x0300"
abbreviation (input) Smb302 :: Dialect where "Smb302 \<equiv> 0x0302"
abbreviation (input) Smb311 :: Dialect where "Smb311 \<equiv> 0x0311"

abbreviation (input) CmdNegotiate :: Command where "CmdNegotiate \<equiv> 0x0000"
abbreviation (input) CmdSessionSetup :: Command where "CmdSessionSetup \<equiv> 0x0001"
abbreviation (input) CmdLogoff :: Command where "CmdLogoff \<equiv> 0x0002"
abbreviation (input) CmdTreeConnect :: Command where "CmdTreeConnect \<equiv> 0x0003"
abbreviation (input) CmdTreeDisconnect :: Command where "CmdTreeDisconnect \<equiv> 0x0004"
abbreviation (input) CmdCreate :: Command where "CmdCreate \<equiv> 0x0005"
abbreviation (input) CmdClose :: Command where "CmdClose \<equiv> 0x0006"
abbreviation (input) CmdRead :: Command where "CmdRead \<equiv> 0x0008"
abbreviation (input) CmdWrite :: Command where "CmdWrite \<equiv> 0x0009"
abbreviation (input) CmdIoctl :: Command where "CmdIoctl \<equiv> 0x000B"
abbreviation (input) CmdQueryDirectory :: Command where "CmdQueryDirectory \<equiv> 0x000E"
abbreviation (input) CmdChangeNotify :: Command where "CmdChangeNotify \<equiv> 0x000F"
abbreviation (input) CmdQueryInfo :: Command where "CmdQueryInfo \<equiv> 0x0010"
abbreviation (input) CmdSetInfo :: Command where "CmdSetInfo \<equiv> 0x0011"

abbreviation (input) CapDfs :: u32 where "CapDfs \<equiv> 0x01"
abbreviation (input) CapLargeMtu :: u32 where "CapLargeMtu \<equiv> 0x04"
abbreviation (input) CapEncryption :: u32 where "CapEncryption \<equiv> 0x40"

abbreviation (input) kSmb2HeaderSize :: nat where "kSmb2HeaderSize \<equiv> 64"
abbreviation (input) kDirectTcpHeaderSize :: nat where "kDirectTcpHeaderSize \<equiv> 4"
abbreviation (input) kMaxDirectTcpPayloadLength :: nat where "kMaxDirectTcpPayloadLength \<equiv> 0x00FFFFFF"
abbreviation (input) kSmb2ProtocolId :: u32 where "kSmb2ProtocolId \<equiv> 0x424D53FE"
abbreviation (input) kSmb2ProcessId :: u32 where "kSmb2ProcessId \<equiv> 0x0000FEFF"
abbreviation (input) kFlagServerToRedir :: u32 where "kFlagServerToRedir \<equiv> 0x00000001"
abbreviation (input) kFlagSigned :: u32 where "kFlagSigned \<equiv> 0x00000008"

abbreviation (input) kStatusSuccess :: u32 where "kStatusSuccess \<equiv> 0x00000000"
abbreviation (input) kStatusNotifyEnumDir :: u32 where "kStatusNotifyEnumDir \<equiv> 0x0000010C"
abbreviation (input) kStatusNoMoreFiles :: u32 where "kStatusNoMoreFiles \<equiv> 0x80000006"
abbreviation (input) kStatusInvalidParameter :: u32 where "kStatusInvalidParameter \<equiv> 0xC000000D"
abbreviation (input) kStatusNoSuchFile :: u32 where "kStatusNoSuchFile \<equiv> 0xC000000F"
abbreviation (input) kStatusInvalidDeviceRequest :: u32 where "kStatusInvalidDeviceRequest \<equiv> 0xC0000010"
abbreviation (input) kStatusMoreProcessingRequired :: u32 where "kStatusMoreProcessingRequired \<equiv> 0xC0000016"
abbreviation (input) kStatusAccessDenied :: u32 where "kStatusAccessDenied \<equiv> 0xC0000022"
abbreviation (input) kStatusObjectNameNotFound :: u32 where "kStatusObjectNameNotFound \<equiv> 0xC0000034"
abbreviation (input) kStatusObjectNameCollision :: u32 where "kStatusObjectNameCollision \<equiv> 0xC0000035"
abbreviation (input) kStatusObjectPathNotFound :: u32 where "kStatusObjectPathNotFound \<equiv> 0xC000003A"
abbreviation (input) kStatusObjectPathSyntaxBad :: u32 where "kStatusObjectPathSyntaxBad \<equiv> 0xC000003B"
abbreviation (input) kStatusSharingViolation :: u32 where "kStatusSharingViolation \<equiv> 0xC0000043"
abbreviation (input) kStatusLogonFailure :: u32 where "kStatusLogonFailure \<equiv> 0xC000006D"
abbreviation (input) kStatusAccountRestriction :: u32 where "kStatusAccountRestriction \<equiv> 0xC000006E"
abbreviation (input) kStatusInvalidLogonHours :: u32 where "kStatusInvalidLogonHours \<equiv> 0xC000006F"
abbreviation (input) kStatusInvalidWorkstation :: u32 where "kStatusInvalidWorkstation \<equiv> 0xC0000070"
abbreviation (input) kStatusPasswordExpired :: u32 where "kStatusPasswordExpired \<equiv> 0xC0000071"
abbreviation (input) kStatusAccountDisabled :: u32 where "kStatusAccountDisabled \<equiv> 0xC0000072"
abbreviation (input) kStatusIoTimeout :: u32 where "kStatusIoTimeout \<equiv> 0xC00000B5"
abbreviation (input) kStatusFileIsADirectory :: u32 where "kStatusFileIsADirectory \<equiv> 0xC00000BA"
abbreviation (input) kStatusNotSupported :: u32 where "kStatusNotSupported \<equiv> 0xC00000BB"
abbreviation (input) kStatusNetworkNameDeleted :: u32 where "kStatusNetworkNameDeleted \<equiv> 0xC00000C9"
abbreviation (input) kStatusNetworkAccessDenied :: u32 where "kStatusNetworkAccessDenied \<equiv> 0xC00000CA"
abbreviation (input) kStatusBadNetworkName :: u32 where "kStatusBadNetworkName \<equiv> 0xC00000CC"
abbreviation (input) kStatusDirectoryNotEmpty :: u32 where "kStatusDirectoryNotEmpty \<equiv> 0xC0000101"
abbreviation (input) kStatusNotADirectory :: u32 where "kStatusNotADirectory \<equiv> 0xC0000103"
abbreviation (input) kStatusPathNotCovered :: u32 where "kStatusPathNotCovered \<equiv> 0xC0000257"

definition capabilityMask :: "u32 list \<Rightarrow> u32" where
  "capabilityMask values = fold (\<lambda>value mask. mask OR value) values 0"

fun securityModeForPolicy :: "SecurityPolicy \<Rightarrow> u16" where
  "securityModeForPolicy Required = 0x0001 OR 0x0002"
| "securityModeForPolicy Preferred = 0x0001"
| "securityModeForPolicy Disabled = 0"

definition defaultInitialDialects :: "Dialect list" where
  "defaultInitialDialects = [Smb202, Smb210, Smb300, Smb302, Smb311]"

text \<open>The names of the commands in messages (\<open>commandName\<close> of the transport and of the signing).\<close>

definition commandNames :: "(Command \<times> string) list" where
  "commandNames =
    [(0x0000, ''NEGOTIATE''), (0x0001, ''SESSION_SETUP''), (0x0002, ''LOGOFF''), (0x0003, ''TREE_CONNECT''),
     (0x0004, ''TREE_DISCONNECT''), (0x0005, ''CREATE''), (0x0006, ''CLOSE''), (0x0007, ''FLUSH''),
     (0x0008, ''READ''), (0x0009, ''WRITE''), (0x000A, ''LOCK''), (0x000B, ''IOCTL''), (0x000C, ''CANCEL''),
     (0x000D, ''ECHO''), (0x000E, ''QUERY_DIRECTORY''), (0x000F, ''CHANGE_NOTIFY''), (0x0010, ''QUERY_INFO''),
     (0x0011, ''SET_INFO''), (0x0012, ''OPLOCK_BREAK'')]"

definition commandName :: "Command \<Rightarrow> string" where
  "commandName command = (case map_of commandNames command of Some name \<Rightarrow> name | None \<Rightarrow> ''UNKNOWN'')"

section \<open>Results\<close>

record ProtocolError =
  pe_code :: ErrorCode
  pe_message :: string
  pe_messagesUsed :: u64

datatype 'a DecodeResult = Success 'a | Failure ProtocolError

definition failureUsing :: "ErrorCode \<Rightarrow> string \<Rightarrow> u64 \<Rightarrow> 'a DecodeResult" where
  "failureUsing code message used =
     Failure \<lparr>pe_code = code, pe_message = message, pe_messagesUsed = used\<rparr>"

definition failure :: "ErrorCode \<Rightarrow> string \<Rightarrow> 'a DecodeResult" where
  "failure code message = failureUsing code message 0"

text \<open>The recurring \<open>failure(error.code, error.message)\<close>: an inner error passed on.\<close>

definition failureFrom :: "ProtocolError \<Rightarrow> 'a DecodeResult" where
  "failureFrom e = failure (pe_code e) (pe_message e)"

lemma failure_simps [simp]:
  "failure c m \<noteq> Success v" "Success v \<noteq> failure c m"
  "failureUsing c m n \<noteq> Success v" "Success v \<noteq> failureUsing c m n"
  "failureFrom e \<noteq> Success v" "Success v \<noteq> failureFrom e"
  by (simp_all add: failure_def failureUsing_def failureFrom_def)

lemma passing_Success [simp]:
  "(case r of Success x \<Rightarrow> f x | Failure e \<Rightarrow> Some (failureFrom e)) = Some (Success v) \<longleftrightarrow>
     (\<exists>x. r = Success x \<and> f x = Some (Success v))"
  by (cases r) auto

lemma passing_None [simp]:
  "(case r of Success x \<Rightarrow> f x | Failure e \<Rightarrow> Some (failureFrom e)) = None \<longleftrightarrow>
     (\<exists>x. r = Success x \<and> f x = None)"
  by (cases r) auto

section \<open>NTSTATUS\<close>

definition errorCodeForNtStatus :: "u32 \<Rightarrow> ErrorCode" where
  "errorCodeForNtStatus status =
    (if status = kStatusSuccess \<or> status = kStatusNotifyEnumDir then EcNone
     else if status \<in> {kStatusLogonFailure, kStatusAccountRestriction, kStatusInvalidLogonHours,
                       kStatusInvalidWorkstation, kStatusPasswordExpired, kStatusAccountDisabled}
     then EcAuthenticationFailed
     else if status \<in> {kStatusAccessDenied, kStatusNetworkAccessDenied, kStatusSharingViolation}
     then EcPermissionDenied
     else if status \<in> {kStatusBadNetworkName, kStatusNetworkNameDeleted, kStatusPathNotCovered}
     then EcShareUnavailable
     else if status \<in> {kStatusNoSuchFile, kStatusObjectNameNotFound, kStatusObjectPathNotFound}
     then EcFileNotFound
     else if status = kStatusObjectNameCollision then EcAlreadyExists
     else if status = kStatusDirectoryNotEmpty then EcDirectoryNotEmpty
     else if status \<in> {kStatusObjectPathSyntaxBad, kStatusNotADirectory, kStatusFileIsADirectory}
     then EcInvalidPath
     else if status \<in> {kStatusInvalidParameter, kStatusInvalidDeviceRequest}
     then EcUnsupportedCapability
     else if status = kStatusIoTimeout then EcTimeout
     else if status = kStatusNotSupported then EcProtocolUnsupported
     else EcNetworkError)"

definition ntStatusNames :: "(u32 \<times> string) list" where
  "ntStatusNames =
    [(kStatusSuccess, ''STATUS_SUCCESS''),
     (kStatusNotifyEnumDir, ''STATUS_NOTIFY_ENUM_DIR''),
     (kStatusNoSuchFile, ''STATUS_NO_SUCH_FILE''),
     (kStatusAccessDenied, ''STATUS_ACCESS_DENIED''),
     (kStatusObjectNameNotFound, ''STATUS_OBJECT_NAME_NOT_FOUND''),
     (kStatusObjectNameCollision, ''STATUS_OBJECT_NAME_COLLISION''),
     (kStatusObjectPathNotFound, ''STATUS_OBJECT_PATH_NOT_FOUND''),
     (kStatusObjectPathSyntaxBad, ''STATUS_OBJECT_PATH_SYNTAX_BAD''),
     (kStatusInvalidParameter, ''STATUS_INVALID_PARAMETER''),
     (kStatusInvalidDeviceRequest, ''STATUS_INVALID_DEVICE_REQUEST''),
     (kStatusMoreProcessingRequired, ''STATUS_MORE_PROCESSING_REQUIRED''),
     (kStatusSharingViolation, ''STATUS_SHARING_VIOLATION''),
     (kStatusLogonFailure, ''STATUS_LOGON_FAILURE''),
     (kStatusAccountRestriction, ''STATUS_ACCOUNT_RESTRICTION''),
     (kStatusInvalidLogonHours, ''STATUS_INVALID_LOGON_HOURS''),
     (kStatusInvalidWorkstation, ''STATUS_INVALID_WORKSTATION''),
     (kStatusPasswordExpired, ''STATUS_PASSWORD_EXPIRED''),
     (kStatusAccountDisabled, ''STATUS_ACCOUNT_DISABLED''),
     (kStatusIoTimeout, ''STATUS_IO_TIMEOUT''),
     (kStatusFileIsADirectory, ''STATUS_FILE_IS_A_DIRECTORY''),
     (kStatusNotSupported, ''STATUS_NOT_SUPPORTED''),
     (kStatusNetworkNameDeleted, ''STATUS_NETWORK_NAME_DELETED''),
     (kStatusNetworkAccessDenied, ''STATUS_NETWORK_ACCESS_DENIED''),
     (kStatusBadNetworkName, ''STATUS_BAD_NETWORK_NAME''),
     (kStatusDirectoryNotEmpty, ''STATUS_DIRECTORY_NOT_EMPTY''),
     (kStatusNotADirectory, ''STATUS_NOT_A_DIRECTORY''),
     (kStatusPathNotCovered, ''STATUS_PATH_NOT_COVERED''),
     (kStatusNoMoreFiles, ''STATUS_NO_MORE_FILES'')]"

definition ntStatusName :: "u32 \<Rightarrow> string" where
  "ntStatusName status =
     (case map_of ntStatusNames status of Some name \<Rightarrow> name | None \<Rightarrow> ''STATUS_UNMAPPED'')"

text \<open>Upper-case hexadecimal with leading zeros, as the stream manipulators print it.\<close>

definition hexDigit :: "nat \<Rightarrow> char" where
  "hexDigit n = ''0123456789ABCDEF'' ! n"

definition hexUpper :: "nat \<Rightarrow> 'a::len word \<Rightarrow> string" where
  "hexUpper digits v = map (\<lambda>i. hexDigit (unat (drop_bit (4 * i) v AND 15))) (rev [0..<digits])"

definition ntStatusFailureMessage :: "u32 \<Rightarrow> string \<Rightarrow> string" where
  "ntStatusFailureMessage status operation =
     operation @ '' failed with '' @ ntStatusName status @ '' (0x'' @ hexUpper 8 status @ '').''"

definition failureFromNtStatus :: "u32 \<Rightarrow> string \<Rightarrow> 'a DecodeResult" where
  "failureFromNtStatus status operation =
     failure (errorCodeForNtStatus status) (ntStatusFailureMessage status operation)"

lemma errorCodeForNtStatus_None:
  "errorCodeForNtStatus s = EcNone \<longleftrightarrow> s = kStatusSuccess \<or> s = kStatusNotifyEnumDir"
  by (simp add: errorCodeForNtStatus_def)

lemma failureFromNtStatus_simps [simp]:
  "failureFromNtStatus s m \<noteq> Success v" "Success v \<noteq> failureFromNtStatus s m"
  by (simp_all add: failureFromNtStatus_def)

lemma failureFromNtStatus_code:
  "failureFromNtStatus s m = Failure e \<Longrightarrow> pe_code e = errorCodeForNtStatus s"
  by (auto simp: failureFromNtStatus_def failure_def failureUsing_def)

lemma length_hexUpper [simp]: "length (hexUpper n v) = n"
  by (simp add: hexUpper_def)

end
