(* ===== verification/Utf16.thy ===== *)
theory Utf16
  imports NativeTypes
begin

text \<open>
  The text codec of \<open>Protocol.cpp\<close>: names travel as UTF-16LE and live in the program
  as UTF-8 byte strings. \<open>encodeUtf16Le\<close> throws on malformed input, \<open>decodeUtf16Le\<close>
  returns a failure. The specification side is a list of Unicode scalar values with its
  two encodings, \<open>utf8\<close> and \<open>utf16\<close>; the lemmas relate the loops to it.
\<close>

section \<open>The code\<close>

text \<open>One round of the loop of \<open>encodeUtf16Le\<close>: the code point at the head of the
  remaining text and the number of bytes it consumed, or the exception.\<close>

definition utf8Head :: "bytes \<Rightarrow> string + u32 \<times> nat" where
  "utf8Head t =
    (let first = t ! 0; size = length t in
     if first AND 0x80 = 0 then Inr (ucast first, 1)
     else if first AND 0xE0 = 0xC0 \<and> 1 < size then
       (let second = t ! 1 in
        if second AND 0xC0 \<noteq> 0x80 then Inl ''Invalid UTF-8 continuation byte.''
        else Inr (push_bit 6 (ucast (first AND 0x1F)) OR ucast (second AND 0x3F), 2))
     else if first AND 0xF0 = 0xE0 \<and> 2 < size then
       (let second = t ! 1; third = t ! 2 in
        if second AND 0xC0 \<noteq> 0x80 \<or> third AND 0xC0 \<noteq> 0x80
        then Inl ''Invalid UTF-8 continuation byte.''
        else Inr (push_bit 12 (ucast (first AND 0x0F)) OR push_bit 6 (ucast (second AND 0x3F))
                  OR ucast (third AND 0x3F), 3))
     else if first AND 0xF8 = 0xF0 \<and> 3 < size then
       (let second = t ! 1; third = t ! 2; fourth = t ! 3 in
        if second AND 0xC0 \<noteq> 0x80 \<or> third AND 0xC0 \<noteq> 0x80 \<or> fourth AND 0xC0 \<noteq> 0x80
        then Inl ''Invalid UTF-8 continuation byte.''
        else Inr (push_bit 18 (ucast (first AND 0x07)) OR push_bit 12 (ucast (second AND 0x3F))
                  OR push_bit 6 (ucast (third AND 0x3F)) OR ucast (fourth AND 0x3F), 4))
     else Inl ''Invalid UTF-8 sequence.'')"

definition utf16Units :: "u32 \<Rightarrow> string + bytes" where
  "utf16Units codePoint =
    (if codePoint \<le> 0xFFFF then Inr (le16 (ucast codePoint))
     else if codePoint \<le> 0x10FFFF then
       (let adjusted = codePoint - 0x10000 in
        Inr (le16 (ucast (0xD800 + drop_bit 10 adjusted)) @
             le16 (ucast (0xDC00 + (adjusted AND 0x3FF)))))
     else Inl ''Unicode code point is out of range.'')"

lemma utf8Head_consumes: "utf8Head t = Inr (cp, n) \<Longrightarrow> 0 < n"
  by (auto simp: utf8Head_def Let_def split: if_splits)

function encodeUtf16Le :: "bytes \<Rightarrow> string + bytes" where
  "encodeUtf16Le t =
    (if t = [] then Inr []
     else case utf8Head t of Inl e \<Rightarrow> Inl e
       | Inr (codePoint, consumed) \<Rightarrow>
           (case utf16Units codePoint of Inl e \<Rightarrow> Inl e
            | Inr units \<Rightarrow>
                (case encodeUtf16Le (drop consumed t) of Inl e \<Rightarrow> Inl e
                 | Inr rest \<Rightarrow> Inr (units @ rest))))"
  by pat_completeness auto
termination
  by (relation "measure length") (auto dest: utf8Head_consumes)

declare encodeUtf16Le.simps [simp del]

definition appendUtf8CodePoint :: "u32 \<Rightarrow> bytes" where
  "appendUtf8CodePoint codePoint =
    (if codePoint \<le> 0x7F then [ucast codePoint]
     else if codePoint \<le> 0x7FF then
       [ucast (0xC0 OR drop_bit 6 codePoint), ucast (0x80 OR (codePoint AND 0x3F))]
     else if codePoint \<le> 0xFFFF then
       [ucast (0xE0 OR drop_bit 12 codePoint), ucast (0x80 OR (drop_bit 6 codePoint AND 0x3F)),
        ucast (0x80 OR (codePoint AND 0x3F))]
     else
       [ucast (0xF0 OR drop_bit 18 codePoint), ucast (0x80 OR (drop_bit 12 codePoint AND 0x3F)),
        ucast (0x80 OR (drop_bit 6 codePoint AND 0x3F)), ucast (0x80 OR (codePoint AND 0x3F))])"

definition surrogatePair :: "u16 \<Rightarrow> u16 \<Rightarrow> u32" where
  "surrogatePair unit next =
     0x10000 + (push_bit 10 (ucast (unit - 0xD800)) OR ucast (next - 0xDC00))"

function decodeUtf16Loop :: "bytes \<Rightarrow> nat \<Rightarrow> bytes \<Rightarrow> bytes DecodeResult option" where
  "decodeUtf16Loop d offset out =
    (if offset < length d then do {
       unit \<leftarrow> readU16Le d offset;
       if 0xD800 \<le> unit \<and> unit \<le> 0xDBFF then
         (if length d \<le> offset + 3
          then Some (failure EcIoError ''UTF-16LE high surrogate is truncated.'')
          else do {
            next \<leftarrow> readU16Le d (offset + 2);
            if next < 0xDC00 \<or> 0xDFFF < next
            then Some (failure EcIoError ''UTF-16LE high surrogate is not paired.'')
            else decodeUtf16Loop d (offset + 4)
                   (out @ appendUtf8CodePoint (surrogatePair unit next)) })
       else if 0xDC00 \<le> unit \<and> unit \<le> 0xDFFF
       then Some (failure EcIoError ''UTF-16LE low surrogate has no high surrogate.'')
       else decodeUtf16Loop d (offset + 2) (out @ appendUtf8CodePoint (ucast unit)) }
     else Some (Success out))"
  by pat_completeness auto
termination
  by (relation "measure (\<lambda>(d, offset, out). length d - offset)") auto

declare decodeUtf16Loop.simps [simp del]

definition decodeUtf16Le :: "bytes \<Rightarrow> bytes DecodeResult option" where
  "decodeUtf16Le d =
    (if length d mod 2 \<noteq> 0
     then Some (failure EcIoError ''UTF-16LE buffer has odd byte length.'')
     else decodeUtf16Loop d 0 [])"

section \<open>Scalar values and their encodings\<close>

definition scalar :: "u32 \<Rightarrow> bool" where
  "scalar c \<longleftrightarrow> c \<le> 0xD7FF \<or> 0xE000 \<le> c \<and> c \<le> 0x10FFFF"

definition utf8 :: "u32 list \<Rightarrow> bytes" where
  "utf8 cs = concat (map appendUtf8CodePoint cs)"

definition utf16 :: "u32 list \<Rightarrow> bytes" where
  "utf16 cs = concat (map (\<lambda>c. case utf16Units c of Inl _ \<Rightarrow> [] | Inr units \<Rightarrow> units) cs)"

lemma utf8_simps [simp]: "utf8 [] = []" "utf8 (c # cs) = appendUtf8CodePoint c @ utf8 cs"
  by (simp_all add: utf8_def)

lemma appendUtf8CodePoint_not_Nil [simp]: "appendUtf8CodePoint c \<noteq> []"
  by (simp add: appendUtf8CodePoint_def)

lemma utf8Head_1: 
  assumes c: "c \<le> 0x7F"
  shows "utf8Head (appendUtf8CodePoint c @ t) = Inr (c, 1)"
proof -
  have b: "7 \<le> n \<Longrightarrow> \<not> bit c n" for n using no_bit_above [OF c, of 7 n] by simp
  have 1: "(ucast c :: u8) AND 0x80 = 0"
    by (rule u8_eqI) (simp add: bit_simps b)
  have 2: "(ucast (ucast c :: u8) :: u32) = c"
    by (rule u32_eqI) (simp add: bit_simps b)
  show ?thesis using c 1 2 by (simp add: utf8Head_def appendUtf8CodePoint_def)
qed

lemma utf8Head_2: 
  assumes c: "0x7F < c" "c \<le> 0x7FF"
  shows "utf8Head (appendUtf8CodePoint c @ t) = Inr (c, 2)"
proof -
  have b: "11 \<le> n \<Longrightarrow> \<not> bit c n" for n using no_bit_above [OF c(2), of 11 n] by simp
  let ?f = "ucast (0xC0 OR drop_bit 6 c) :: u8" and ?s = "ucast (0x80 OR (c AND 0x3F)) :: u8"
  have 1: "?f AND 0x80 = 0x80" "?f AND 0xE0 = 0xC0" "?s AND 0xC0 = 0x80"
    by (rule u8_eqI, simp add: bit_simps b)+
  have 2: "push_bit 6 (ucast (?f AND 0x1F)) OR ucast (?s AND 0x3F) = c"
    by (rule u32_eqI) (simp add: bit_simps b)
  have "\<not> c \<le> 0x7F" using c by (simp add: word_le_nat_alt word_less_nat_alt)
  then show ?thesis using c 1 2 by (simp add: utf8Head_def appendUtf8CodePoint_def)
qed

lemma utf8Head_3: 
  assumes c: "0x7FF < c" "c \<le> 0xFFFF"
  shows "utf8Head (appendUtf8CodePoint c @ t) = Inr (c, 3)"
proof -
  have b: "16 \<le> n \<Longrightarrow> \<not> bit c n" for n using no_bit_above [OF c(2), of 16 n] by simp
  let ?f = "ucast (0xE0 OR drop_bit 12 c) :: u8" and ?s = "ucast (0x80 OR (drop_bit 6 c AND 0x3F)) :: u8"
    and ?t = "ucast (0x80 OR (c AND 0x3F)) :: u8"
  have 1: "?f AND 0x80 = 0x80" "?f AND 0xE0 = 0xE0" "?f AND 0xF0 = 0xE0" "?s AND 0xC0 = 0x80" "?t AND 0xC0 = 0x80"
    by (rule u8_eqI, simp add: bit_simps b)+
  have 2: "push_bit 12 (ucast (?f AND 0x0F)) OR push_bit 6 (ucast (?s AND 0x3F)) OR ucast (?t AND 0x3F) = c"
    by (rule u32_eqI) (simp add: bit_simps b)
  have "\<not> c \<le> 0x7F" using c by (simp add: word_le_nat_alt word_less_nat_alt)
  then show ?thesis using c 1 2 by (simp add: utf8Head_def appendUtf8CodePoint_def)
qed

lemma utf8Head_4: 
  assumes c: "0xFFFF < c" "c \<le> 0x10FFFF"
  shows "utf8Head (appendUtf8CodePoint c @ t) = Inr (c, 4)"
proof -
  have b: "21 \<le> n \<Longrightarrow> \<not> bit c n" for n using no_bit_above [OF c(2), of 21 n] by simp
  let ?f = "ucast (0xF0 OR drop_bit 18 c) :: u8" and ?s = "ucast (0x80 OR (drop_bit 12 c AND 0x3F)) :: u8"
    and ?t = "ucast (0x80 OR (drop_bit 6 c AND 0x3F)) :: u8" and ?q = "ucast (0x80 OR (c AND 0x3F)) :: u8"
  have 1: "?f AND 0x80 = 0x80" "?f AND 0xE0 = 0xE0" "?f AND 0xF0 = 0xF0" "?f AND 0xF8 = 0xF0" 
     "?s AND 0xC0 = 0x80" "?t AND 0xC0 = 0x80" "?q AND 0xC0 = 0x80"
    by (rule u8_eqI, simp add: bit_simps b)+
  have 2: "push_bit 18 (ucast (?f AND 0x07)) OR push_bit 12 (ucast (?s AND 0x3F)) 
      OR push_bit 6 (ucast (?t AND 0x3F)) OR ucast (?q AND 0x3F) = c"
    by (rule u32_eqI) (simp add: bit_simps b)
  have "\<not> c \<le> 0x7F" "\<not> c \<le> 0x7FF" using c by (simp_all add: word_le_nat_alt word_less_nat_alt)
  then show ?thesis using c 1 2 by (simp add: utf8Head_def appendUtf8CodePoint_def)
qed

lemma length_appendUtf8CodePoint:
  "length (appendUtf8CodePoint c) = (if c \<le> 0x7F then 1 else if c \<le> 0x7FF then 2 else if c \<le> 0xFFFF then 3 else 4)"
  by (simp add: appendUtf8CodePoint_def)

lemma utf8Head_append:
  assumes "c \<le> 0x10FFFF"
  shows "utf8Head (appendUtf8CodePoint c @ t) = Inr (c, length (appendUtf8CodePoint c))"
proof -
  consider "c \<le> 0x7F" | "\<not> c \<le> 0x7F" "c \<le> 0x7FF" | "\<not> c \<le> 0x7F" "\<not> c \<le> 0x7FF" "c \<le> 0xFFFF"
    | "\<not> c \<le> 0x7F" "\<not> c \<le> 0x7FF" "\<not> c \<le> 0xFFFF"
    by blast
  then show ?thesis
    by cases (simp_all add: utf8Head_1 utf8Head_2 utf8Head_3 utf8Head_4 length_appendUtf8CodePoint assms)
qed
lemma surrogate_add:
  assumes "d \<le> (0x3FF :: u32)" "b = 0xD800 \<or> b = 0xDC00"
  shows "unat (ucast (b + d) :: u16) = unat b + unat d"
proof -
  have "unat (b + d) = unat b + unat d"
    using assms by (subst unat_add_lem [symmetric]) (auto simp: word_le_nat_alt)
  then show ?thesis using assms by (auto simp: unsigned_ucast_eq word_le_nat_alt take_bit_nat_def)
qed

lemma surrogate_sub:
  assumes "b \<le> (u :: u16)" 
  shows "unat (ucast (u - b) :: u32) = unat u - unat b"
proof -
  have "unat u < 2 ^ 16" using unsigned_less [of u] by simp
  then show ?thesis using unat_sub [OF assms] by (simp add: unsigned_ucast_eq take_bit_nat_eq_self)
qed

lemma split10: "push_bit 10 (drop_bit 10 a) OR (a AND 0x3FF) = (a :: u32)"
proof -
  have m: "(0x3FF :: u32) = mask 10" by (simp add: mask_eq_exp_minus_1)
  show ?thesis unfolding m by (rule bit_word_eqI) (auto simp: bit_simps)
qed

lemma join10: 
  assumes "m \<le> 0x3FF" "k \<le> 0x3FF"
  shows "drop_bit 10 (push_bit 10 m OR k) = (m :: u32)" "(push_bit 10 m OR k) AND 0x3FF = k"
    "push_bit 10 m OR k \<le> 0xFFFFF"
proof -
  have bm: "10 \<le> n \<Longrightarrow> \<not> bit m n" and bk: "10 \<le> n \<Longrightarrow> \<not> bit k n" for n
    using no_bit_above [OF assms(1), of 10 n] no_bit_above [OF assms(2), of 10 n] by simp_all
  have dm: "bit m n \<Longrightarrow> n < 10" and dk: "bit k n \<Longrightarrow> n < 10" for n using bm bk not_le by blast+
  have ma: "(0x3FF :: u32) = mask 10" "(0xFFFFF :: u32) = mask 20" by (simp_all add: mask_eq_exp_minus_1)
  show "drop_bit 10 (push_bit 10 m OR k) = m"
    by (rule bit_word_eqI) (use bk in \<open>auto simp: bit_simps dest: dm\<close>)
  show "(push_bit 10 m OR k) AND 0x3FF = k" unfolding ma
    by (rule bit_word_eqI) (auto simp: bit_simps dest: dm dk)
  have "take_bit 20 (push_bit 10 m OR k) = push_bit 10 m OR k"
    by (rule bit_word_eqI) (auto simp: bit_simps dest: dm dk)
  then show "push_bit 10 m OR k \<le> 0xFFFFF" unfolding ma 
    by (metis take_bit_eq_mask word_and_le1)
qed

lemma surrogate_encode:
  assumes "0xFFFF < c" "c \<le> 0x10FFFF"
  defines "u \<equiv> ucast (0xD800 + drop_bit 10 (c - 0x10000)) :: u16"
    and "v \<equiv> ucast (0xDC00 + ((c - 0x10000) AND 0x3FF)) :: u16"
  shows "0xD800 \<le> u" "u \<le> 0xDBFF" "0xDC00 \<le> v" "v \<le> 0xDFFF" "surrogatePair u v = c"
    "utf16Units c = Inr (le16 u @ le16 v)"
proof -
  let ?a = "c - 0x10000"
  have a: "unat ?a < 0x100000" using assms(1,2) by (simp add: unat_sub word_le_nat_alt word_less_nat_alt)
  have d: "drop_bit 10 ?a \<le> 0x3FF" using a by (simp add: word_le_nat_alt unat_drop_bit_eq drop_bit_nat_def)
  have k: "?a AND 0x3FF \<le> 0x3FF" by (rule word_and_le1)
  have u: "unat u = 0xD800 + unat (drop_bit 10 ?a)" unfolding u_def by (subst surrogate_add [OF d]) simp_all
  have v: "unat v = 0xDC00 + unat (?a AND 0x3FF)" unfolding v_def by (subst surrogate_add [OF k]) simp_all
  show ub: "0xD800 \<le> u" "u \<le> 0xDBFF" and vb: "0xDC00 \<le> v" "v \<le> 0xDFFF"
    using u v d k by (simp_all add: word_le_nat_alt)
  have "ucast (u - 0xD800) = drop_bit 10 ?a" "ucast (v - 0xDC00) = ?a AND 0x3FF"
    by (rule word_unat_eq_iff [THEN iffD2], simp add: surrogate_sub ub vb u v)+
  then show "surrogatePair u v = c" by (simp add: surrogatePair_def split10)
  show "utf16Units c = Inr (le16 u @ le16 v)"
    using assms(1,2) by (simp add: utf16Units_def u_def v_def Let_def not_le [symmetric])
qed

lemma surrogate_decode:
  assumes "0xD800 \<le> u" "u \<le> 0xDBFF" "0xDC00 \<le> v" "v \<le> 0xDFFF"
  shows "0xFFFF < surrogatePair u v" "surrogatePair u v \<le> 0x10FFFF"
    "utf16Units (surrogatePair u v) = Inr (le16 u @ le16 v)"
proof -
  let ?m = "ucast (u - 0xD800) :: u32" and ?k = "ucast (v - 0xDC00) :: u32"
  have m: "unat ?m = unat u - 0xD800" and k: "unat ?k = unat v - 0xDC00"
    using assms by (simp_all add: surrogate_sub)
  have mk: "?m \<le> 0x3FF" "?k \<le> 0x3FF" using assms m k by (simp_all add: word_le_nat_alt)
  note j = join10 [OF mk]
  have s: "unat (surrogatePair u v) = 0x10000 + unat (push_bit 10 ?m OR ?k)"
    unfolding surrogatePair_def using j(3)
      unat_add_lem [of "0x10000 :: u32" "push_bit 10 ?m OR ?k"] by (simp add: word_le_nat_alt)
  show lo: "0xFFFF < surrogatePair u v" and hi: "surrogatePair u v \<le> 0x10FFFF"
    using s j(3) by (simp_all add: word_le_nat_alt word_less_nat_alt)
  have a: "surrogatePair u v - 0x10000 = push_bit 10 ?m OR ?k" by (simp add: surrogatePair_def)
  have "(ucast (0xD800 + ?m) :: u16) = u" "(ucast (0xDC00 + ?k) :: u16) = v"
    using assms m k mk by (simp_all add: word_unat_eq_iff surrogate_add word_le_nat_alt)
  moreover have "drop_bit 10 (surrogatePair u v - 0x10000) = ?m" "(surrogatePair u v - 0x10000) AND 0x3FF = ?k"
    unfolding a by (fact j)+
  ultimately show "utf16Units (surrogatePair u v) = Inr (le16 u @ le16 v)"
    using lo hi by (simp add: utf16Units_def Let_def not_le [symmetric])
qed

section \<open>The loops against the specification\<close>

lemma utf16_simps [simp]: "utf16 [] = []"
  by (simp add: utf16_def)

lemma utf16_Cons: "utf16Units c = Inr units \<Longrightarrow> utf16 (c # cs) = units @ utf16 cs"
  by (simp add: utf16_def)

lemma utf16Units_in_range: "c \<le> 0x10FFFF \<Longrightarrow> \<exists>units. utf16Units c = Inr units"
  by (simp add: utf16Units_def Let_def)

lemma scalar_in_range: "scalar c \<Longrightarrow> c \<le> 0x10FFFF"
  by (auto simp: scalar_def word_le_nat_alt)

lemma encodeUtf16Le_step:
  assumes "c \<le> 0x10FFFF" "utf16Units c = Inr units" "encodeUtf16Le t = Inr rest"
  shows "encodeUtf16Le (appendUtf8CodePoint c @ t) = Inr (units @ rest)"
  using assms by (subst encodeUtf16Le.simps) (simp add: utf8Head_append)

lemma encodeUtf16Le_utf8:
  assumes "list_all scalar cs" shows "encodeUtf16Le (utf8 cs) = Inr (utf16 cs)"
  using assms
proof (induction cs)
  case Nil
  show ?case by (subst encodeUtf16Le.simps) simp
next
  case (Cons c cs)
  then have c: "c \<le> 0x10FFFF" by (auto intro: scalar_in_range)
  then obtain units where "utf16Units c = Inr units" using utf16Units_in_range by blast
  with c Cons show ?case by (simp add: utf16_Cons encodeUtf16Le_step)
qed

lemma u8_no_high_bit: "8 \<le> n \<Longrightarrow> \<not> bit (b :: u8) n"
  using bit_imp_le_length [of b n] by auto

lemma le16_join: "le16 (ucast b0 OR push_bit 8 (ucast b1)) = [b0, b1]"
proof -
  have "ucast (ucast b0 OR push_bit 8 (ucast b1) :: u16) = b0"
    "ucast (drop_bit 8 (ucast b0 OR push_bit 8 (ucast b1)) :: u16) = b1"
    by (rule u8_eqI, simp add: bit_simps u8_no_high_bit)+
  then show ?thesis by (simp add: le16_def low_byte)
qed

lemma readU16Le_drop: "readU16Le d i = Some u \<Longrightarrow> drop i d = le16 u @ drop (i + 2) d"
  by (auto simp: readU16Le_def byte_at_def bind_eq_Some_conv le16_join Cons_nth_drop_Suc split: if_splits)

lemma decodeUtf16Loop_total: "even (length d - offset) \<Longrightarrow> decodeUtf16Loop d offset out \<noteq> None"
proof (induction d offset out rule: decodeUtf16Loop.induct)
  case (1 d offset out)
  show ?case
  proof (cases "offset < length d")
    case False then show ?thesis by (subst decodeUtf16Loop.simps) simp
  next
    case True
    with 1(3) have "offset + 2 \<le> length d" by presburger
    then obtain u where u: "readU16Le d offset = Some u" by (cases "readU16Le d offset") auto
    have ev: "even (length d - (offset + 2))" "even (length d - (offset + 4))" using 1(3) True by presburger+
    have "decodeUtf16Loop d (offset + 2) (out @ appendUtf8CodePoint (ucast u)) \<noteq> None"
      if "\<not> (0xD800 \<le> u \<and> u \<le> 0xDBFF)" "\<not> (0xDC00 \<le> u \<and> u \<le> 0xDFFF)"
      using 1(2) [OF True u that] ev by simp
    moreover have "decodeUtf16Loop d (offset + 4) (out @ appendUtf8CodePoint (surrogatePair u v)) \<noteq> None"
      if "0xD800 \<le> u \<and> u \<le> 0xDBFF" "\<not> length d \<le> offset + 3" "readU16Le d (offset + 2) = Some v"
         "\<not> (v < 0xDC00 \<or> 0xDFFF < v)" for v
      using 1(1) [OF True u that] ev by simp
    ultimately show ?thesis
      using True u
      by (subst decodeUtf16Loop.simps)
        (cases "readU16Le d (offset + 2)"; auto simp: bind_eq_None_conv simp del: not_None_eq)
  qed
qed

lemma decodeUtf16Le_total: "decodeUtf16Le d \<noteq> None"
  using decodeUtf16Loop_total [of d 0 "[]"] by (simp add: decodeUtf16Le_def even_iff_mod_2_eq_zero)

lemma decodeUtf16Loop_utf16:
  assumes "list_all scalar cs"
  shows "decodeUtf16Loop (p @ utf16 cs) (length p) out = Some (Success (out @ utf8 cs))"
  using assms
proof (induction cs arbitrary: p out)
  case Nil
  show ?case by (subst decodeUtf16Loop.simps) simp
next
  case (Cons c cs)
  show ?case
  proof (cases "c \<le> 0xFFFF")
    case True
    then have u: "utf16Units c = Inr (le16 (ucast c))" by (simp add: utf16Units_def)
    have c: "(ucast (ucast c :: u16) :: u32) = c"
      using True by (simp add: word_unat_eq_iff unat_ucast_wider unat_ucast_fits word_le_nat_alt)
    have "\<not> (0xD800 \<le> (ucast c :: u16) \<and> (ucast c :: u16) \<le> 0xDFFF)"
      using True Cons.prems by (auto simp: scalar_def word_le_nat_alt unat_ucast_fits)
    then have "\<not> (0xD800 \<le> (ucast c :: u16) \<and> (ucast c :: u16) \<le> 0xDBFF)" "\<not> (0xDC00 \<le> (ucast c :: u16) \<and> (ucast c :: u16) \<le> 0xDFFF)"
      by (auto simp: word_le_nat_alt)
    then show ?thesis using Cons.IH [of "p @ le16 (ucast c)"] Cons.prems c
      by (subst decodeUtf16Loop.simps) (auto simp: utf16_Cons [OF u] wire)
  next
    case False
    then have "0xFFFF < c" "c \<le> 0x10FFFF" using Cons.prems by (simp_all add: scalar_in_range not_le)
    note s = surrogate_encode [OF this]
    then show ?thesis
      using Cons.IH [of "p @ le16 u @ le16 v" for u v] Cons.prems
      by (subst decodeUtf16Loop.simps) (simp add: utf16_Cons [OF s(6)] wire not_less [symmetric])
  qed
qed

lemma length_utf16Units: "utf16Units c = Inr u \<Longrightarrow> even (length u)"
  by (auto simp: utf16Units_def Let_def split: if_splits)

lemma even_length_utf16: "even (length (utf16 cs))"
  by (induction cs) (auto simp: utf16_def dest: length_utf16Units split: sum.splits)

lemma decodeUtf16Le_utf16:
  assumes "list_all scalar cs" shows "decodeUtf16Le (utf16 cs) = Some (Success (utf8 cs))"
  using decodeUtf16Loop_utf16 [OF assms, of "[]" "[]"] even_length_utf16 [of cs]
  by (simp add: decodeUtf16Le_def even_iff_mod_2_eq_zero)

lemma decodeUtf16Loop_sound:
  assumes "decodeUtf16Loop d offset out = Some (Success t)" "offset \<le> length d" "even (length d - offset)"
  shows "\<exists>cs. list_all scalar cs \<and> drop offset d = utf16 cs \<and> t = out @ utf8 cs"
  using assms
proof (induction d offset out rule: decodeUtf16Loop.induct)
  case (1 d offset out)
  show ?case
  proof (cases "offset < length d")
    case False
    then have "decodeUtf16Loop d offset out = Some (Success out)" by (subst decodeUtf16Loop.simps) simp
    with "1.prems" False show ?thesis by (intro exI [of _ "[]"]) simp
  next
    case True
    with "1.prems" have "offset + 2 \<le> length d" by presburger
    then obtain u where u: "readU16Le d offset = Some u" by (cases "readU16Le d offset") auto
    note drop1 = readU16Le_drop [OF u]
    have step: "(if 0xD800 \<le> u \<and> u \<le> 0xDBFF then
         (if length d \<le> offset + 3
          then Some (failure EcIoError ''UTF-16LE high surrogate is truncated.'')
          else do {
            next \<leftarrow> readU16Le d (offset + 2);
            if next < 0xDC00 \<or> 0xDFFF < next
            then Some (failure EcIoError ''UTF-16LE high surrogate is not paired.'')
            else decodeUtf16Loop d (offset + 4)
                   (out @ appendUtf8CodePoint (surrogatePair u next)) })
       else if 0xDC00 \<le> u \<and> u \<le> 0xDFFF
       then Some (failure EcIoError ''UTF-16LE low surrogate has no high surrogate.'')
       else decodeUtf16Loop d (offset + 2) (out @ appendUtf8CodePoint (ucast u))) = Some (Success t)"
      using "1.prems"(1) True u by (subst (asm) decodeUtf16Loop.simps) simp
    show ?thesis
    proof (cases "0xD800 \<le> u \<and> u \<le> 0xDBFF")
      case hi: True
      with step obtain v where v: "readU16Le d (offset + 2) = Some v" "\<not> (v < 0xDC00 \<or> 0xDFFF < v)"
        "\<not> length d \<le> offset + 3"
        "decodeUtf16Loop d (offset + 4) (out @ appendUtf8CodePoint (surrogatePair u v)) = Some (Success t)"
        by (auto simp: bind_eq_Some_conv split: if_splits)
      have "offset + 4 \<le> length d" "even (length d - (offset + 4))" using v(3) "1.prems"(3) True by presburger+
      from "1.IH"(1) [OF True u hi v(3) v(1) v(2) v(4) this] obtain cs where
        cs: "list_all scalar cs" "drop (offset + 4) d = utf16 cs" "t = (out @ appendUtf8CodePoint (surrogatePair u v)) @ utf8 cs" by blast
      have s: "0xFFFF < surrogatePair u v" "surrogatePair u v \<le> 0x10FFFF"
        "utf16Units (surrogatePair u v) = Inr (le16 u @ le16 v)"
        using surrogate_decode [of u v] hi v(2) by (auto simp: not_less)
      have "scalar (surrogatePair u v)" using s by (simp add: scalar_def word_le_nat_alt word_less_nat_alt)
      moreover have "offset + 2 + 2 = offset + 4" by simp
      then have "drop (offset + 2) d = le16 v @ drop (offset + 4) d"
        using readU16Le_drop [OF v(1)] by metis
      then have "drop offset d = le16 u @ le16 v @ drop (offset + 4) d" using drop1 by simp
      ultimately show ?thesis using cs
        by (intro exI [of _ "surrogatePair u v # cs"]) (simp add: utf16_Cons [OF s(3)])
    next
      case lo: False
      with step have nl: "\<not> (0xDC00 \<le> u \<and> u \<le> 0xDFFF)"
        and rest: "decodeUtf16Loop d (offset + 2) (out @ appendUtf8CodePoint (ucast u)) = Some (Success t)"
        by (auto split: if_splits)
      have "offset + 2 \<le> length d" "even (length d - (offset + 2))" using "1.prems"(3) True by presburger+
      from "1.IH"(2) [OF True u lo nl rest this] obtain cs where
        cs: "list_all scalar cs" "drop (offset + 2) d = utf16 cs" "t = (out @ appendUtf8CodePoint (ucast u)) @ utf8 cs" by blast
      have uu: "unat (ucast u :: u32) = unat u" by (simp add: unat_ucast_wider)
      have "unat u < 2 ^ 16" using unsigned_less [of u] by simp
      then have u32: "(ucast u :: u32) \<le> 0xFFFF" by (simp add: word_le_nat_alt uu)
      have "(ucast (ucast u :: u32) :: u16) = u"
        using \<open>unat u < 2 ^ 16\<close> by (simp add: word_unat_eq_iff unat_ucast_wider unat_ucast_fits)
      then have units: "utf16Units (ucast u) = Inr (le16 u)" using u32 by (simp add: utf16Units_def)
      have "scalar (ucast u)" using lo nl u32 uu by (auto simp: scalar_def word_le_nat_alt)
      with cs drop1 units show ?thesis
        by (intro exI [of _ "ucast u # cs"]) (simp add: utf16_Cons)
    qed
  qed
qed

lemma decodeUtf16Le_sound:
  assumes "decodeUtf16Le d = Some (Success t)"
  obtains cs where "list_all scalar cs" "d = utf16 cs" "t = utf8 cs"
  using assms decodeUtf16Loop_sound [of d 0 "[]" t]
  by (auto simp: decodeUtf16Le_def even_iff_mod_2_eq_zero split: if_splits)

lemma ucast_u8_le: "(ucast (x :: u8) :: u32) \<le> 0xFFFF"
proof -
  have "unat x < 2 ^ 8" using unsigned_less [of x] by simp
  then show ?thesis by (simp add: word_le_nat_alt unat_ucast_wider)
qed

lemma encodeUtf16Le_size:
  "encodeUtf16Le t = Inr b \<Longrightarrow> even (length b) \<and> length b \<le> 2 * length t"
proof (induction t arbitrary: b rule: encodeUtf16Le.induct)
  case (1 t)
  show ?case
  proof (cases "t = []")
    case True
    with "1.prems" show ?thesis by (simp add: encodeUtf16Le.simps)
  next
    case False
    with "1.prems" obtain cp n units rest where
      s: "utf8Head t = Inr (cp, n)" "utf16Units cp = Inr units" "encodeUtf16Le (drop n t) = Inr rest" "b = units @ rest"
      by (subst (asm) encodeUtf16Le.simps) (auto split: sum.splits)
    have IH: "even (length rest) \<and> length rest \<le> 2 * length (drop n t)"
      using "1.IH" [OF False s(1) refl s(2,3)] .
    have "n \<le> length t" "length units \<le> 2 * n"
      using s(1,2) False
      by (auto simp: utf8Head_def utf16Units_def Let_def Suc_le_eq ucast_u8_le split: if_splits)
    with IH s(2,4) show ?thesis by (auto dest: length_utf16Units)
  qed
qed

text \<open>
  Every name the decoder accepts from the wire is re-encoded by \<open>encodeUtf16Le\<close> to
  exactly the bytes it came from, so a listed entry can be opened again under the name
  the server sent.
\<close>
lemma decodeUtf16Le_encodes_back:
  assumes "decodeUtf16Le d = Some (Success t)"
  shows "encodeUtf16Le t = Inr d"
  using assms by (rule decodeUtf16Le_sound) (simp add: encodeUtf16Le_utf8)

lemma decodeUtf16Le_encodes_back_witness:
  "encodeUtf16Le [0x61, 0xF0, 0x9F, 0x98, 0x80] = Inr [0x61, 0, 0x3D, 0xD8, 0x00, 0xDE]"
proof -
  have "decodeUtf16Le [0x61, 0, 0x3D, 0xD8, 0x00, 0xDE] = Some (Success [0x61, 0xF0, 0x9F, 0x98, 0x80])"
    by (simp add: decodeUtf16Le_def decodeUtf16Loop.simps readU16Le_def byte_at_def
        appendUtf8CodePoint_def surrogatePair_def)
  then show ?thesis by (rule decodeUtf16Le_encodes_back)
qed

text \<open>
  C33. On well-formed text (any sequence of Unicode scalar values in UTF-8) the encoder
  does not throw, its output is the UTF-16LE encoding of the same scalar values, and the
  decoder turns that output back into the text.
\<close>
theorem utf16_roundtrip:
  assumes "list_all scalar cs"
  shows "encodeUtf16Le (utf8 cs) = Inr (utf16 cs) \<and> decodeUtf16Le (utf16 cs) = Some (Success (utf8 cs))"
  using assms by (simp add: encodeUtf16Le_utf8 decodeUtf16Le_utf16)

theorem utf16_roundtrip_witness:
  "encodeUtf16Le (utf8 [0x41, 0x20AC, 0x1F600]) = Inr (utf16 [0x41, 0x20AC, 0x1F600]) \<and>
   decodeUtf16Le (utf16 [0x41, 0x20AC, 0x1F600]) = Some (Success (utf8 [0x41, 0x20AC, 0x1F600]))"
  by (rule utf16_roundtrip) (simp add: scalar_def)

text \<open>
  The encoder is more liberal than UTF-8: an overlong form of the path separator and the
  UTF-8 form of a lone surrogate are both accepted, and the second is encoded to bytes
  that the program's own decoder refuses.
\<close>
lemma encodeUtf16Le_accepts_overlong: "encodeUtf16Le [0xC0, 0xAF] = encodeUtf16Le [0x2F]"
  by (simp add: encodeUtf16Le.simps utf8Head_def utf16Units_def)

lemma encodeUtf16Le_accepts_surrogate:
  "\<exists>b. encodeUtf16Le [0xED, 0xA0, 0x80] = Inr b \<and> (\<forall>t. decodeUtf16Le b \<noteq> Some (Success t))"
  by (simp add: encodeUtf16Le.simps utf8Head_def utf16Units_def le16_def decodeUtf16Le_def
      decodeUtf16Loop.simps readU16Le_def byte_at_def)

end
