(* ===== verification/Header.thy ===== *)
theory Header
  imports NativeTypes
begin

text \<open>
  The SMB2 sync header and the Direct TCP frame of \<open>Protocol.cpp\<close>, and the checks with
  which every response decoder starts: header, command, direction flag, status, minimum
  size and structure size. The checks are the same code in each decoder of the C++ and
  differ in the command, the names in the messages and the two sizes; here they are two
  combinators, \<open>responseHeader\<close> and \<open>responseBody\<close>, that take these as arguments.
\<close>

section \<open>The sync header\<close>

record Smb2SyncHeader =
  hdr_creditCharge :: u16
  hdr_status :: u32
  hdr_command :: Command
  hdr_creditRequest :: u16
  hdr_flags :: u32
  hdr_nextCommand :: u32
  hdr_messageId :: u64
  hdr_treeId :: u32
  hdr_sessionId :: u64
  hdr_signature :: bytes

definition defaultHeader :: Smb2SyncHeader where
  "defaultHeader =
     \<lparr>hdr_creditCharge = 0, hdr_status = 0, hdr_command = CmdNegotiate, hdr_creditRequest = 1,
      hdr_flags = 0, hdr_nextCommand = 0, hdr_messageId = 0, hdr_treeId = 0, hdr_sessionId = 0,
      hdr_signature = replicate 16 0\<rparr>"

text \<open>\<open>std::array<std::uint8_t, 16>\<close> always has 16 elements; the list that models it does
  when the header is well formed.\<close>

definition wf_header :: "Smb2SyncHeader \<Rightarrow> bool" where
  "wf_header h \<longleftrightarrow> length (hdr_signature h) = 16"

definition encodeSmb2SyncHeader :: "Smb2SyncHeader \<Rightarrow> bytes" where
  "encodeSmb2SyncHeader h =
     le32 kSmb2ProtocolId @ le16 64 @ le16 (hdr_creditCharge h) @ le32 (hdr_status h) @
     le16 (hdr_command h) @ le16 (hdr_creditRequest h) @ le32 (hdr_flags h) @
     le32 (hdr_nextCommand h) @ le64 (hdr_messageId h) @ le32 kSmb2ProcessId @
     le32 (hdr_treeId h) @ le64 (hdr_sessionId h) @ hdr_signature h"

definition decodeSmb2SyncHeader :: "bytes \<Rightarrow> Smb2SyncHeader DecodeResult option" where
  "decodeSmb2SyncHeader d =
    (if length d < kSmb2HeaderSize
     then Some (failure EcIoError ''SMB2 header buffer is shorter than 64 bytes.'')
     else do {
       protocolId \<leftarrow> readU32Le d 0;
       if protocolId \<noteq> kSmb2ProtocolId
       then Some (failure EcProtocolUnsupported ''Invalid SMB2 protocol identifier.'')
       else do {
         structureSize \<leftarrow> readU16Le d 4;
         if structureSize \<noteq> 64
         then Some (failure EcProtocolUnsupported ''Invalid SMB2 header structure size.'')
         else do {
           creditCharge \<leftarrow> readU16Le d 6;
           status \<leftarrow> readU32Le d 8;
           command \<leftarrow> readU16Le d 12;
           creditRequest \<leftarrow> readU16Le d 14;
           flags \<leftarrow> readU32Le d 16;
           nextCommand \<leftarrow> readU32Le d 20;
           messageId \<leftarrow> readU64Le d 24;
           treeId \<leftarrow> readU32Le d 36;
           sessionId \<leftarrow> readU64Le d 40;
           signature \<leftarrow> slice d 48 64;
           Some (Success
             \<lparr>hdr_creditCharge = creditCharge, hdr_status = status, hdr_command = command,
              hdr_creditRequest = creditRequest, hdr_flags = flags, hdr_nextCommand = nextCommand,
              hdr_messageId = messageId, hdr_treeId = treeId, hdr_sessionId = sessionId,
              hdr_signature = signature\<rparr>) } } })"

lemma wf_defaultHeader [simp]: "wf_header defaultHeader"
  by (simp add: wf_header_def defaultHeader_def)

lemma length_encodeSmb2SyncHeader [simp]:
  "wf_header h \<Longrightarrow> length (encodeSmb2SyncHeader h) = 64"
  by (simp add: encodeSmb2SyncHeader_def wf_header_def)

lemma decodeSmb2SyncHeader_encode:
  "wf_header h \<Longrightarrow> decodeSmb2SyncHeader (encodeSmb2SyncHeader h @ body) = Some (Success h)"
  by (simp add: decodeSmb2SyncHeader_def encodeSmb2SyncHeader_def wf_header_def wire)

lemma decodeSmb2SyncHeader_total: "decodeSmb2SyncHeader d \<noteq> None"
  by (simp add: decodeSmb2SyncHeader_def in_bounds del: not_None_eq)

lemma decodeSmb2SyncHeader_Success:
  assumes "decodeSmb2SyncHeader d = Some (Success h)"
  shows "64 \<le> length d" "wf_header h"
  using assms
  by (auto simp: decodeSmb2SyncHeader_def bind_eq_Some_conv wf_header_def not_less
      dest: slice_length split: if_splits)

section \<open>The checks at the head of a response decoder\<close>

definition responseHeader ::
  "Command \<Rightarrow> string \<Rightarrow> string \<Rightarrow> bytes \<Rightarrow> (Smb2SyncHeader \<Rightarrow> 'a DecodeResult option) \<Rightarrow> 'a DecodeResult option"
where
  "responseHeader command article name d continue = do {
     headerResult \<leftarrow> decodeSmb2SyncHeader d;
     case headerResult of
       Failure e \<Rightarrow> Some (failureFrom e)
     | Success header \<Rightarrow>
         if hdr_command header \<noteq> command
         then Some (failure EcProtocolUnsupported (''SMB2 response is not '' @ article @ '' response.''))
         else if hdr_flags header AND kFlagServerToRedir = 0
         then Some (failure EcProtocolUnsupported
                (name @ '' response is missing server-to-redirector flag.''))
         else continue header }"

definition responseBody ::
  "string \<Rightarrow> nat \<Rightarrow> u16 \<Rightarrow> bytes \<Rightarrow> 'a DecodeResult option \<Rightarrow> 'a DecodeResult option"
where
  "responseBody name fixedSize structureSize d continue =
    (if length d < kSmb2HeaderSize + fixedSize
     then Some (failure EcIoError (name @ '' response buffer is shorter than fixed response.''))
     else do {
       size \<leftarrow> readU16Le d kSmb2HeaderSize;
       if size \<noteq> structureSize
       then Some (failure EcProtocolUnsupported (''Invalid '' @ name @ '' response structure size.''))
       else continue })"

text \<open>The common case: the only accepted status is \<open>STATUS_SUCCESS\<close>.\<close>

definition successResponse ::
  "Command \<Rightarrow> string \<Rightarrow> string \<Rightarrow> nat \<Rightarrow> u16 \<Rightarrow> bytes \<Rightarrow>
   (Smb2SyncHeader \<Rightarrow> 'a DecodeResult option) \<Rightarrow> 'a DecodeResult option"
where
  "successResponse command article name fixedSize structureSize d continue =
     responseHeader command article name d (\<lambda>header.
       if hdr_status header \<noteq> kStatusSuccess
       then Some (failureFromNtStatus (hdr_status header) name)
       else responseBody name fixedSize structureSize d (continue header))"

text \<open>A server message that passes the header checks for a command.\<close>

definition answers :: "Command \<Rightarrow> bytes \<Rightarrow> Smb2SyncHeader \<Rightarrow> bool" where
  "answers command d header \<longleftrightarrow> decodeSmb2SyncHeader d = Some (Success header) \<and>
     hdr_command header = command \<and> hdr_flags header AND kFlagServerToRedir \<noteq> 0"

lemma responseHeader_total:
  assumes "\<And>h. answers command d h \<Longrightarrow> k h \<noteq> None"
  shows "responseHeader command article name d k \<noteq> None"
  using assms decodeSmb2SyncHeader_total [of d]
  by (auto simp: responseHeader_def answers_def split: DecodeResult.splits)

lemma responseBody_total:
  assumes "64 + fixedSize \<le> length d \<Longrightarrow> k \<noteq> None" "2 \<le> fixedSize"
  shows "responseBody name fixedSize structureSize d k \<noteq> None"
  using assms by (auto simp: responseBody_def in_bounds simp del: not_None_eq)

lemma responseBody_eq_None:
  "2 \<le> fixedSize \<Longrightarrow>
   responseBody name fixedSize structureSize d k = None \<longleftrightarrow>
     64 + fixedSize \<le> length d \<and> readU16Le d 64 = Some structureSize \<and> k = None"
  by (auto simp: responseBody_def in_bounds)

lemma successResponse_total:
  assumes "\<And>h. 64 + fixedSize \<le> length d \<Longrightarrow> k h \<noteq> None" "2 \<le> fixedSize"
  shows "successResponse command article name fixedSize structureSize d k \<noteq> None"
  unfolding successResponse_def
  by (rule responseHeader_total) (auto intro!: responseBody_total [simplified] assms [simplified])

lemma responseHeader_Success:
  "responseHeader command article name d k = Some (Success v) \<longleftrightarrow>
     (\<exists>h. answers command d h \<and> k h = Some (Success v))"
proof (cases "decodeSmb2SyncHeader d")
  case None
  then show ?thesis by (simp add: decodeSmb2SyncHeader_total)
next
  case (Some r)
  then show ?thesis by (cases r) (auto simp: responseHeader_def answers_def)
qed

lemma responseBody_Success:
  "responseBody name fixedSize structureSize d k = Some (Success v) \<longleftrightarrow>
     64 + fixedSize \<le> length d \<and> readU16Le d 64 = Some structureSize \<and> k = Some (Success v)"
  by (auto simp: responseBody_def bind_eq_Some_conv split: if_splits)

lemma successResponse_Success:
  "successResponse command article name fixedSize structureSize d k = Some (Success v) \<longleftrightarrow>
     (\<exists>h. answers command d h \<and> hdr_status h = kStatusSuccess \<and> 64 + fixedSize \<le> length d \<and>
          readU16Le d 64 = Some structureSize \<and> k h = Some (Success v))"
  by (auto simp: successResponse_def responseHeader_Success responseBody_Success split: if_splits)

lemma answers_unique: "answers command d h \<Longrightarrow> answers command d h' \<Longrightarrow> h' = h"
  by (simp add: answers_def)

lemma answers_encode:
  "wf_header h \<Longrightarrow> answers command (encodeSmb2SyncHeader h @ body) h' \<longleftrightarrow>
     h' = h \<and> hdr_command h = command \<and> hdr_flags h AND kFlagServerToRedir \<noteq> 0"
  by (auto simp: answers_def decodeSmb2SyncHeader_encode)

section \<open>Direct TCP frames\<close>

definition encodeDirectTcpFrame :: "bytes \<Rightarrow> string + bytes" where
  "encodeDirectTcpFrame smb2Message =
    (if kMaxDirectTcpPayloadLength < length smb2Message
     then Inl ''SMB2 Direct TCP payload is too large.''
     else let len = word_of_nat (length smb2Message) :: u32 in
       Inr ([0, ucast (drop_bit 16 len AND 0xFF), ucast (drop_bit 8 len AND 0xFF), ucast (len AND 0xFF)]
            @ smb2Message))"

definition decodeDirectTcpPayloadLength :: "bytes \<Rightarrow> u32 DecodeResult option" where
  "decodeDirectTcpPayloadLength d =
    (if length d < kDirectTcpHeaderSize
     then Some (failure EcIoError ''SMB2 Direct TCP header buffer is shorter than 4 bytes.'')
     else do {
       marker \<leftarrow> byte_at d 0;
       if marker \<noteq> 0
       then Some (failure EcProtocolUnsupported ''Invalid SMB2 Direct TCP header marker.'')
       else do {
         b1 \<leftarrow> byte_at d 1; b2 \<leftarrow> byte_at d 2; b3 \<leftarrow> byte_at d 3;
         Some (Success (push_bit 16 (ucast b1) OR push_bit 8 (ucast b2) OR ucast b3)) } })"

definition decodeDirectTcpPayload :: "bytes \<Rightarrow> bytes DecodeResult option" where
  "decodeDirectTcpPayload d = do {
     payloadLength \<leftarrow> decodeDirectTcpPayloadLength d;
     case payloadLength of
       Failure e \<Rightarrow> Some (failureFrom e)
     | Success len \<Rightarrow>
         if length d < kDirectTcpHeaderSize + unat len
         then Some (failure EcIoError ''SMB2 Direct TCP frame is shorter than declared payload.'')
         else do {
           payload \<leftarrow> slice d kDirectTcpHeaderSize (kDirectTcpHeaderSize + unat len);
           Some (Success payload) } }"

lemma frame_length_bytes:
  assumes "n \<le> 0xFFFFFF"
  defines "len \<equiv> word_of_nat n :: u32"
  shows "unat (push_bit 16 (ucast (ucast (drop_bit 16 len AND 0xFF) :: u8)) OR
     push_bit 8 (ucast (ucast (drop_bit 8 len AND 0xFF) :: u8)) OR ucast (ucast (len AND 0xFF) :: u8) :: u32) = n"
proof -
  have n: "unat len = n" using assms(1) by (simp add: len_def unsigned_of_nat take_bit_nat_eq_self)
  then have "len \<le> 0xFFFFFF" using assms(1) by (simp add: word_le_nat_alt)
  then have b: "24 \<le> k \<Longrightarrow> \<not> bit len k" for k using no_bit_above [of len _ 24 k] by simp
  have "push_bit 16 (ucast (ucast (drop_bit 16 len AND 0xFF) :: u8)) OR
     push_bit 8 (ucast (ucast (drop_bit 8 len AND 0xFF) :: u8)) OR ucast (ucast (len AND 0xFF) :: u8) = len"
    by (rule u32_eqI) (simp add: low_byte bit_simps b)
  with n show ?thesis by simp
qed

lemma encodeDirectTcpFrame_Inr:
  "length m \<le> kMaxDirectTcpPayloadLength \<Longrightarrow> \<exists>f. encodeDirectTcpFrame m = Inr f"
  by (simp add: encodeDirectTcpFrame_def Let_def)

lemma decodeDirectTcpPayload_encode:
  assumes "encodeDirectTcpFrame m = Inr f"
  shows "decodeDirectTcpPayload (f @ trailing) = Some (Success m)"
  using assms
  by (auto simp: encodeDirectTcpFrame_def decodeDirectTcpPayload_def decodeDirectTcpPayloadLength_def
      Let_def wire frame_length_bytes split: if_splits)

lemma decodeDirectTcpPayloadLength_total: "decodeDirectTcpPayloadLength d \<noteq> None"
  by (auto simp: decodeDirectTcpPayloadLength_def in_bounds simp del: not_None_eq)

lemma decodeDirectTcpPayload_total: "decodeDirectTcpPayload d \<noteq> None"
  using decodeDirectTcpPayloadLength_total [of d]
  by (auto simp: decodeDirectTcpPayload_def in_bounds split: DecodeResult.splits simp del: not_None_eq)

lemma decodeDirectTcpPayload_cases:
  obtains p where "decodeDirectTcpPayload d = Some (Success p)"
  | e where "decodeDirectTcpPayload d = Some (Failure e)"
  using decodeDirectTcpPayload_total [of d] by (metis DecodeResult.exhaust not_None_eq)

lemma four_bytes: "length (x :: bytes) = 4 \<Longrightarrow> \<exists>b0 b1 b2 b3. x = [b0, b1, b2, b3]"
  by (auto simp: length_Suc_conv numeral_eq_Suc)

definition wholeFrame :: "bytes \<Rightarrow> bool" where
  "wholeFrame f \<longleftrightarrow> (\<exists>p. decodeDirectTcpPayload f = Some (Success p) \<and> length f = kDirectTcpHeaderSize + length p)"

text \<open>A frame that holds nothing but its message is what encoding the message gives.\<close>

lemma encode_wholeFrame:
  assumes "decodeDirectTcpPayload f = Some (Success p)" "length f = kDirectTcpHeaderSize + length p"
  shows "encodeDirectTcpFrame p = Inr f"
proof -
  have "length (take 4 f) = 4" using assms(2) by simp
  then obtain b0 b1 b2 b3 where "take 4 f = [b0, b1, b2, b3]" using four_bytes by blast
  then obtain q where f: "f = b0 # b1 # b2 # b3 # q" by (metis append_Cons append_Nil append_take_drop_id)
  let ?n = "push_bit 16 (ucast b1) OR push_bit 8 (ucast b2) OR ucast b3 :: u32"
  from assms have 0: "b0 = 0" and n: "unat ?n = length p" and q: "q = p"
    by (auto simp: f decodeDirectTcpPayload_def decodeDirectTcpPayloadLength_def byte_at_def slice_def split: if_splits)
  have no: "8 \<le> n \<Longrightarrow> \<not> bit (b :: u8) n" for n b using bit_imp_le_length [of b n] by auto
  have w: "word_of_nat (length p) = ?n" unfolding n [symmetric] by simp
  have bytes: "ucast (drop_bit 16 ?n AND 0xFF) = b1" "ucast (drop_bit 8 ?n AND 0xFF) = b2" "ucast (?n AND 0xFF) = b3"
    by (rule u8_eqI, simp add: low_byte bit_simps no)+
  have "?n \<le> 0xFFFFFF"
  proof -
    have "?n = ?n AND mask 24" by (rule bit_word_eqI) (auto simp: bit_simps dest: bit_imp_le_length)
    moreover have "?n AND mask 24 \<le> mask 24" by (rule word_and_le1)
    ultimately show ?thesis by (simp add: mask_eq_exp_minus_1)
  qed
  then have "length p \<le> 0xFFFFFF" using n by (simp add: word_le_nat_alt)
  with bytes show ?thesis by (simp add: encodeDirectTcpFrame_def Let_def w f 0 q)
qed

end
