(* ===== verification/Requests.thy ===== *)
theory Requests
  imports Header Utf16
begin

text \<open>
  The request builders of \<open>Protocol.cpp\<close>. A builder is the encoded header followed by
  the fields it appends, in the order it appends them; a \<open>throw\<close> is \<open>Inl\<close> of the
  exception's message. \<open>std::size_t\<close> is 64 bits wide, so a vector's size is a \<open>nat\<close>
  that is narrowed where the code narrows it (\<open>static_cast\<close> is \<open>word_of_nat\<close>, \<open>ucast\<close>).
\<close>

section \<open>Options\<close>

record FileId =
  fid_persistent :: u64
  fid_volatileId :: u64

definition appendFileId :: "FileId \<Rightarrow> bytes" where
  "appendFileId f = le64 (fid_persistent f) @ le64 (fid_volatileId f)"

record NegotiateRequestOptions =
  neg_dialects :: "Dialect list"
  neg_signing :: SecurityPolicy
  neg_capabilities :: u32
  neg_clientGuid :: bytes

record SessionSetupRequestOptions =
  sso_flags :: u8
  sso_signing :: SecurityPolicy
  sso_capabilities :: u32
  sso_previousSessionId :: u64
  sso_securityBuffer :: bytes

record TreeConnectRequestOptions =
  tco_server :: bytes
  tco_share :: bytes
  tco_flags :: u16

record CreateRequestOptions =
  cro_path :: bytes
  cro_requestedOplockLevel :: u8
  cro_impersonationLevel :: u32
  cro_desiredAccess :: u32
  cro_fileAttributes :: u32
  cro_shareAccess :: u32
  cro_createDisposition :: u32
  cro_createOptions :: u32
  cro_createContexts :: bytes

record CloseRequestOptions =
  clo_fileId :: FileId
  clo_flags :: u16

record ReadRequestOptions =
  rdo_fileId :: FileId
  rdo_length :: u32
  rdo_offset :: u64
  rdo_flags :: u8
  rdo_minimumCount :: u32
  rdo_channel :: u32
  rdo_remainingBytes :: u32
  rdo_channelInfo :: bytes

record WriteRequestOptions =
  wro_fileId :: FileId
  wro_data :: bytes
  wro_offset :: u64
  wro_channel :: u32
  wro_remainingBytes :: u32
  wro_channelInfo :: bytes
  wro_flags :: u32

record IoctlRequestOptions =
  ioo_ctlCode :: u32
  ioo_fileId :: FileId
  ioo_input :: bytes
  ioo_maxInputResponse :: u32
  ioo_maxOutputResponse :: u32
  ioo_flags :: u32

record CopyChunk =
  cc_sourceOffset :: u64
  cc_targetOffset :: u64
  cc_length :: u32

record SetInfoRequestOptions =
  sio_fileId :: FileId
  sio_infoType :: u8
  sio_fileInfoClass :: u8
  sio_buffer :: bytes
  sio_additionalInformation :: u32

record QueryInfoRequestOptions =
  qio_fileId :: FileId
  qio_infoType :: u8
  qio_fileInfoClass :: u8
  qio_outputBufferLength :: u32
  qio_inputBuffer :: bytes
  qio_additionalInformation :: u32
  qio_flags :: u32

record QueryDirectoryRequestOptions =
  qdo_fileId :: FileId
  qdo_pattern :: bytes
  qdo_informationClass :: u8
  qdo_flags :: u8
  qdo_fileIndex :: u32
  qdo_outputBufferLength :: u32

record ChangeNotifyRequestOptions =
  cno_fileId :: FileId
  cno_flags :: u16
  cno_outputBufferLength :: u32
  cno_completionFilter :: u32

text \<open>The header of a request: everything not named here keeps its default.\<close>

definition requestHeader :: "Command \<Rightarrow> u64 \<Rightarrow> u32 \<Rightarrow> u64 \<Rightarrow> u16 \<Rightarrow> u16 \<Rightarrow> Smb2SyncHeader" where
  "requestHeader command messageId treeId sessionId charge request =
     defaultHeader\<lparr>hdr_command := command, hdr_messageId := messageId, hdr_treeId := treeId,
       hdr_sessionId := sessionId, hdr_creditCharge := charge, hdr_creditRequest := request\<rparr>"

lemma wf_requestHeader [simp]: "wf_header (requestHeader c m t s ch rq)"
  by (simp add: requestHeader_def wf_header_def defaultHeader_def)

lemma requestHeader_simps [simp]:
  "hdr_command (requestHeader c m t s ch rq) = c" "hdr_messageId (requestHeader c m t s ch rq) = m"
  "hdr_treeId (requestHeader c m t s ch rq) = t" "hdr_sessionId (requestHeader c m t s ch rq) = s"
  "hdr_creditCharge (requestHeader c m t s ch rq) = ch" "hdr_creditRequest (requestHeader c m t s ch rq) = rq"
  "hdr_flags (requestHeader c m t s ch rq) = 0" "hdr_status (requestHeader c m t s ch rq) = 0"
  by (simp_all add: requestHeader_def defaultHeader_def)

section \<open>NEGOTIATE\<close>

definition appendPadding :: "bytes \<Rightarrow> nat \<Rightarrow> bytes" where
  "appendPadding d alignment =
    (let remainder = length d mod alignment in
     if remainder = 0 then d else d @ replicate (alignment - remainder) 0)"

definition negotiateContextSalt :: "bytes \<Rightarrow> bytes" where
  "negotiateContextSalt clientGuid = clientGuid @ clientGuid"

definition appendNegotiateContext :: "bytes \<Rightarrow> u16 \<Rightarrow> bytes \<Rightarrow> bytes" where
  "appendNegotiateContext d type payload =
     appendPadding (d @ le16 type @ le16 (word_of_nat (length payload)) @ le32 0 @ payload) 8"

definition buildPreauthIntegrityContext :: "bytes \<Rightarrow> bytes" where
  "buildPreauthIntegrityContext clientGuid =
    (let salt = negotiateContextSalt clientGuid in
     le16 1 @ le16 (word_of_nat (length salt)) @ le16 0x0001 @ salt)"

definition buildEncryptionCapabilitiesContext :: bytes where
  "buildEncryptionCapabilitiesContext = le16 1 @ le16 0x0001"

definition effectiveDialects :: "NegotiateRequestOptions \<Rightarrow> Dialect list" where
  "effectiveDialects options =
    (if neg_dialects options = [] then defaultInitialDialects else neg_dialects options)"

text \<open>The message up to and with the dialect array: header, fixed part, dialects.\<close>

definition negotiateFixedPart :: "NegotiateRequestOptions \<Rightarrow> u64 \<Rightarrow> u32 \<Rightarrow> u16 \<Rightarrow> bytes" where
  "negotiateFixedPart options messageId contextOffset contextCount =
    (let dialects = effectiveDialects options;
         header = defaultHeader\<lparr>hdr_command := CmdNegotiate, hdr_messageId := messageId, hdr_creditRequest := 1\<rparr> in
     encodeSmb2SyncHeader header @ le16 36 @ le16 (word_of_nat (length dialects)) @
       le16 (securityModeForPolicy (neg_signing options)) @ le16 0 @ le32 (neg_capabilities options) @
       neg_clientGuid options @ le32 contextOffset @ le16 contextCount @ le16 0 @
       concat (map le16 dialects))"

definition buildNegotiateRequest :: "NegotiateRequestOptions \<Rightarrow> u64 \<Rightarrow> string + bytes" where
  "buildNegotiateRequest options messageId =
    (let dialects = effectiveDialects options in
     if 65535 < length dialects then Inl ''Too many SMB dialects in negotiate request.''
     else
       let includeSmb311Contexts = Smb311 \<in> set dialects;
           includeEncryptionContext = neg_capabilities options AND CapEncryption \<noteq> 0;
           contextCount = (if includeSmb311Contexts then (if includeEncryptionContext then 2 else 1) else 0);
           contextOffset = (if includeSmb311Contexts
             then word_of_nat ((kSmb2HeaderSize + 36 + length dialects * 2 + 7) div 8 * 8) else 0);
           fixed = negotiateFixedPart options messageId contextOffset contextCount
       in Inr (if includeSmb311Contexts then
           let preauth = appendNegotiateContext (appendPadding fixed 8) 0x0001
                 (buildPreauthIntegrityContext (neg_clientGuid options))
           in if includeEncryptionContext
              then appendNegotiateContext preauth 0x0002 buildEncryptionCapabilitiesContext
              else preauth
         else fixed))"

section \<open>Session and tree\<close>

definition buildSessionSetupRequest :: "SessionSetupRequestOptions \<Rightarrow> u64 \<Rightarrow> u64 \<Rightarrow> string + bytes" where
  "buildSessionSetupRequest options messageId sessionId =
    (if 65535 < length (sso_securityBuffer options)
     then Inl ''SMB2 SESSION_SETUP security buffer is too large.''
     else Inr (encodeSmb2SyncHeader (requestHeader CmdSessionSetup messageId 0 sessionId 1 1) @
       le16 25 @ [sso_flags options, ucast (securityModeForPolicy (sso_signing options))] @
       le32 (sso_capabilities options) @ le32 0 @ le16 (64 + 24) @
       le16 (word_of_nat (length (sso_securityBuffer options))) @
       le64 (sso_previousSessionId options) @ sso_securityBuffer options))"

definition uncPath :: "TreeConnectRequestOptions \<Rightarrow> string + bytes" where
  "uncPath options =
    (if tco_server options = [] \<or> tco_share options = []
     then Inl ''SMB tree connect requires server and share.''
     else Inr ([0x5C, 0x5C] @ tco_server options @ [0x5C] @ tco_share options))"

definition buildTreeConnectRequest :: "TreeConnectRequestOptions \<Rightarrow> u64 \<Rightarrow> u64 \<Rightarrow> string + bytes" where
  "buildTreeConnectRequest options messageId sessionId =
    (case uncPath options of Inl e \<Rightarrow> Inl e | Inr unc \<Rightarrow>
     case encodeUtf16Le unc of Inl e \<Rightarrow> Inl e | Inr path \<Rightarrow>
       if 65535 < length path then Inl ''SMB2 TREE_CONNECT path is too large.''
       else Inr (encodeSmb2SyncHeader (requestHeader CmdTreeConnect messageId 0 sessionId 1 1) @
         le16 9 @ le16 (tco_flags options) @ le16 (64 + 8) @ le16 (word_of_nat (length path)) @ path))"

definition buildTreeDisconnectRequest :: "u64 \<Rightarrow> u32 \<Rightarrow> u64 \<Rightarrow> bytes" where
  "buildTreeDisconnectRequest messageId treeId sessionId =
     encodeSmb2SyncHeader (requestHeader CmdTreeDisconnect messageId treeId sessionId 1 1) @ le16 4 @ le16 0"

definition buildLogoffRequest :: "u64 \<Rightarrow> u64 \<Rightarrow> bytes" where
  "buildLogoffRequest messageId sessionId =
     encodeSmb2SyncHeader (requestHeader CmdLogoff messageId 0 sessionId 1 1) @ le16 4 @ le16 0"

section \<open>Files\<close>

definition buildCreateRequest :: "CreateRequestOptions \<Rightarrow> u64 \<Rightarrow> u32 \<Rightarrow> u64 \<Rightarrow> string + bytes" where
  "buildCreateRequest options messageId treeId sessionId =
    (case encodeUtf16Le (cro_path options) of Inl e \<Rightarrow> Inl e | Inr name \<Rightarrow>
     let contexts = cro_createContexts options in
     if 65535 < length name then Inl ''SMB2 CREATE name is too large.''
     else if 0xFFFFFFFF < length contexts then Inl ''SMB2 CREATE contexts are too large.''
     else let createContextsOffset = (if contexts = [] then 0 else word_of_nat (120 + length name)) in
       Inr (encodeSmb2SyncHeader (requestHeader CmdCreate messageId treeId sessionId 1 1) @
         le16 57 @ [0, cro_requestedOplockLevel options] @ le32 (cro_impersonationLevel options) @
         le64 0 @ le64 0 @ le32 (cro_desiredAccess options) @ le32 (cro_fileAttributes options) @
         le32 (cro_shareAccess options) @ le32 (cro_createDisposition options) @
         le32 (cro_createOptions options) @ le16 (64 + 56) @ le16 (word_of_nat (length name)) @
         le32 createContextsOffset @ le32 (word_of_nat (length contexts)) @ name @ contexts @
         (if name = [] \<and> contexts = [] then [0] else [])))"

definition buildCloseRequest :: "CloseRequestOptions \<Rightarrow> u64 \<Rightarrow> u32 \<Rightarrow> u64 \<Rightarrow> bytes" where
  "buildCloseRequest options messageId treeId sessionId =
     encodeSmb2SyncHeader (requestHeader CmdClose messageId treeId sessionId 1 1) @
     le16 24 @ le16 (clo_flags options) @ le32 0 @ appendFileId (clo_fileId options)"

definition readCreditCharge :: "u32 \<Rightarrow> u16" where
  "readCreditCharge len = (if 0 < len then ucast (1 + (len - 1) div 65536) else 1)"

definition buildReadRequest :: "ReadRequestOptions \<Rightarrow> u64 \<Rightarrow> u32 \<Rightarrow> u64 \<Rightarrow> string + bytes" where
  "buildReadRequest options messageId treeId sessionId =
    (if 65535 < length (rdo_channelInfo options) then Inl ''SMB2 READ channel info is too large.''
     else let charge = readCreditCharge (rdo_length options);
              channelInfoOffset = (if rdo_channelInfo options = [] then 0 else 64 + 48) in
       Inr (encodeSmb2SyncHeader (requestHeader CmdRead messageId treeId sessionId charge (max 1 charge)) @
         le16 49 @ [0, rdo_flags options] @ le32 (rdo_length options) @ le64 (rdo_offset options) @
         appendFileId (rdo_fileId options) @ le32 (rdo_minimumCount options) @
         le32 (rdo_channel options) @ le32 (rdo_remainingBytes options) @ le16 channelInfoOffset @
         le16 (word_of_nat (length (rdo_channelInfo options))) @ rdo_channelInfo options @
         (if rdo_channelInfo options = [] then [0] else [])))"

definition writeCreditCharge :: "nat \<Rightarrow> u16" where
  "writeCreditCharge len = (if len = 0 then 1 else word_of_nat (1 + (len - 1) div 65536))"

definition buildWriteRequest :: "WriteRequestOptions \<Rightarrow> u64 \<Rightarrow> u32 \<Rightarrow> u64 \<Rightarrow> string + bytes" where
  "buildWriteRequest options messageId treeId sessionId =
    (let payload = wro_data options; channelInfo = wro_channelInfo options in
     if 0xFFFFFFFF < length payload then Inl ''SMB2 WRITE data is too large.''
     else if 65535 < length channelInfo then Inl ''SMB2 WRITE channel info is too large.''
     else let charge = writeCreditCharge (length payload);
              dataOffset = (if payload = [] then 0 else 64 + 48);
              channelInfoOffset = (if channelInfo = [] then 0 else word_of_nat (112 + length payload)) in
       Inr (encodeSmb2SyncHeader (requestHeader CmdWrite messageId treeId sessionId charge (max 1 charge)) @
         le16 49 @ le16 dataOffset @ le32 (word_of_nat (length payload)) @ le64 (wro_offset options) @
         appendFileId (wro_fileId options) @ le32 (wro_channel options) @
         le32 (wro_remainingBytes options) @ le16 channelInfoOffset @
         le16 (word_of_nat (length channelInfo)) @ le32 (wro_flags options) @ payload @ channelInfo))"

definition buildIoctlRequest :: "IoctlRequestOptions \<Rightarrow> u64 \<Rightarrow> u32 \<Rightarrow> u64 \<Rightarrow> string + bytes" where
  "buildIoctlRequest options messageId treeId sessionId =
    (let input = ioo_input options in
     if 0xFFFFFFFF < length input then Inl ''SMB2 IOCTL input buffer is too large.''
     else Inr (encodeSmb2SyncHeader (requestHeader CmdIoctl messageId treeId sessionId 1 1) @
       le16 57 @ le16 0 @ le32 (ioo_ctlCode options) @ appendFileId (ioo_fileId options) @
       le32 (if input = [] then 0 else 64 + 56) @ le32 (word_of_nat (length input)) @
       le32 (ioo_maxInputResponse options) @ le32 0 @ le32 0 @ le32 (ioo_maxOutputResponse options) @
       le32 (ioo_flags options) @ le32 0 @ input @ (if input = [] then [0] else [])))"

definition buildSrvCopyChunkRequest :: "bytes \<Rightarrow> CopyChunk list \<Rightarrow> string + bytes" where
  "buildSrvCopyChunkRequest resumeKey chunks =
    (if length resumeKey < 24 then Inl ''SRV_COPYCHUNK requires a 24-byte resume key.''
     else if 0xFFFFFFFF < length chunks then Inl ''Too many SRV_COPYCHUNK chunks.''
     else Inr (take 24 resumeKey @ le32 (word_of_nat (length chunks)) @ le32 0 @
       concat (map (\<lambda>chunk. le64 (cc_sourceOffset chunk) @ le64 (cc_targetOffset chunk) @
                            le32 (cc_length chunk) @ le32 0) chunks)))"

definition buildSymbolicLinkReparseBuffer :: "bytes \<Rightarrow> bytes \<Rightarrow> bool \<Rightarrow> string + bytes" where
  "buildSymbolicLinkReparseBuffer substituteName printName relative =
    (if substituteName = [] then Inl ''SMB2 symlink substitute name is empty.''
     else case encodeUtf16Le substituteName of Inl e \<Rightarrow> Inl e | Inr substitute \<Rightarrow>
       case encodeUtf16Le (if printName = [] then substituteName else printName) of Inl e \<Rightarrow> Inl e
       | Inr print \<Rightarrow>
         if 65535 < length substitute \<or> 65535 < length print \<or>
            65535 < length substitute + length print + 12
         then Inl ''SMB2 symlink reparse buffer is too large.''
         else Inr (le32 0xA000000C @ le16 (word_of_nat (12 + length substitute + length print)) @
           le16 0 @ le16 0 @ le16 (word_of_nat (length substitute)) @
           le16 (word_of_nat (length substitute)) @ le16 (word_of_nat (length print)) @
           le32 (if relative then 1 else 0) @ substitute @ print))"

definition buildSetInfoRequest :: "SetInfoRequestOptions \<Rightarrow> u64 \<Rightarrow> u32 \<Rightarrow> u64 \<Rightarrow> string + bytes" where
  "buildSetInfoRequest options messageId treeId sessionId =
    (let buffer = sio_buffer options in
     if 0xFFFFFFFF < length buffer then Inl ''SMB2 SET_INFO buffer is too large.''
     else Inr (encodeSmb2SyncHeader (requestHeader CmdSetInfo messageId treeId sessionId 1 1) @
       le16 33 @ [sio_infoType options, sio_fileInfoClass options] @
       le32 (word_of_nat (length buffer)) @ le16 (if buffer = [] then 0 else 64 + 32) @ le16 0 @
       le32 (sio_additionalInformation options) @ appendFileId (sio_fileId options) @ buffer))"

definition buildQueryInfoRequest :: "QueryInfoRequestOptions \<Rightarrow> u64 \<Rightarrow> u32 \<Rightarrow> u64 \<Rightarrow> string + bytes" where
  "buildQueryInfoRequest options messageId treeId sessionId =
    (let input = qio_inputBuffer options in
     if 0xFFFFFFFF < length input then Inl ''SMB2 QUERY_INFO input buffer is too large.''
     else Inr (encodeSmb2SyncHeader (requestHeader CmdQueryInfo messageId treeId sessionId 1 1) @
       le16 41 @ [qio_infoType options, qio_fileInfoClass options] @
       le32 (qio_outputBufferLength options) @ le16 (if input = [] then 0 else 64 + 40) @ le16 0 @
       le32 (word_of_nat (length input)) @ le32 (qio_additionalInformation options) @
       le32 (qio_flags options) @ appendFileId (qio_fileId options) @ input))"

definition buildFileDispositionInformation :: "bool \<Rightarrow> bytes" where
  "buildFileDispositionInformation deletePending = [if deletePending then 1 else 0]"

definition buildRenameOrLinkInformation :: "string \<Rightarrow> bytes \<Rightarrow> bool \<Rightarrow> string + bytes" where
  "buildRenameOrLinkInformation kind newPath replaceIfExists =
    (case encodeUtf16Le newPath of Inl e \<Rightarrow> Inl e | Inr name \<Rightarrow>
     if name = [] then Inl (''SMB2 '' @ kind @ '' target path is empty.'')
     else if 0xFFFFFFFF < length name then Inl (''SMB2 '' @ kind @ '' target path is too large.'')
     else let d = [if replaceIfExists then 1 else 0] @ replicate 7 0 @ le64 0 @
                  le32 (word_of_nat (length name)) @ name
       in Inr (d @ replicate (24 - length d) 0))"

definition buildFileRenameInformation :: "bytes \<Rightarrow> bool \<Rightarrow> string + bytes" where
  "buildFileRenameInformation = buildRenameOrLinkInformation ''rename''"

definition buildFileLinkInformation :: "bytes \<Rightarrow> bool \<Rightarrow> string + bytes" where
  "buildFileLinkInformation = buildRenameOrLinkInformation ''hardlink''"

definition buildQueryDirectoryRequest :: "QueryDirectoryRequestOptions \<Rightarrow> u64 \<Rightarrow> u32 \<Rightarrow> u64 \<Rightarrow> string + bytes" where
  "buildQueryDirectoryRequest options messageId treeId sessionId =
    (case encodeUtf16Le (qdo_pattern options) of Inl e \<Rightarrow> Inl e | Inr pattern \<Rightarrow>
     if 65535 < length pattern then Inl ''SMB2 QUERY_DIRECTORY pattern is too large.''
     else Inr (encodeSmb2SyncHeader (requestHeader CmdQueryDirectory messageId treeId sessionId 1 1) @
       le16 33 @ [qdo_informationClass options, qdo_flags options] @ le32 (qdo_fileIndex options) @
       appendFileId (qdo_fileId options) @ le16 (if pattern = [] then 0 else 64 + 32) @
       le16 (word_of_nat (length pattern)) @ le32 (qdo_outputBufferLength options) @ pattern))"

definition buildChangeNotifyRequest :: "ChangeNotifyRequestOptions \<Rightarrow> u64 \<Rightarrow> u32 \<Rightarrow> u64 \<Rightarrow> bytes" where
  "buildChangeNotifyRequest options messageId treeId sessionId =
     encodeSmb2SyncHeader (requestHeader CmdChangeNotify messageId treeId sessionId
       (readCreditCharge (cno_outputBufferLength options)) 1) @
     le16 32 @ le16 (cno_flags options) @ le32 (cno_outputBufferLength options) @
     appendFileId (cno_fileId options) @ le32 (cno_completionFilter options) @ le32 0"

section \<open>What a request carries\<close>

text \<open>The server's view of a part of a request: an offset field and a length field, read
  by \<open>rdOffset\<close> and \<open>rdLength\<close>, that address the bytes \<open>b\<close> of the message.\<close>

definition addresses :: "(bytes \<Rightarrow> nat option) \<Rightarrow> (bytes \<Rightarrow> nat option) \<Rightarrow> bytes \<Rightarrow> bytes \<Rightarrow> bool" where
  "addresses rdOffset rdLength m b \<longleftrightarrow>
     (\<exists>offset len. rdOffset m = Some offset \<and> rdLength m = Some len \<and>
        slice m offset (offset + len) = Some b)"

definition at16 :: "nat \<Rightarrow> bytes \<Rightarrow> nat option" where
  "at16 p m = map_option unat (readU16Le m p)"

definition at32 :: "nat \<Rightarrow> bytes \<Rightarrow> nat option" where
  "at32 p m = map_option unat (readU32Le m p)"

lemma unat_of_nat16: "n \<le> 65535 \<Longrightarrow> unat (word_of_nat n :: u16) = n"
  by (simp add: unsigned_of_nat take_bit_nat_eq_self)

lemma unat_of_nat32: "n \<le> 0xFFFFFFFF \<Longrightarrow> unat (word_of_nat n :: u32) = n"
  by (simp add: unsigned_of_nat take_bit_nat_eq_self)

lemma unat_112_plus: "n \<le> 65423 \<Longrightarrow> unat (112 + word_of_nat n :: u16) = 112 + n"
  using unat_of_nat16 [of "112 + n"] by simp

lemma unat_120_plus: "n \<le> 65535 \<Longrightarrow> unat (120 + word_of_nat n :: u32) = 120 + n"
  using unat_of_nat32 [of "120 + n"] by simp

lemma slice_empty: "a \<le> length xs \<Longrightarrow> slice xs a a = Some []"
  by (simp add: slice_def)

lemmas request_parts = addresses_def at16_def at32_def unat_of_nat16 unat_of_nat32 wire Let_def
  appendFileId_def unat_112_plus unat_120_plus slice_empty not_less

lemma buildWriteRequest_addresses_data:
  assumes "buildWriteRequest options messageId treeId sessionId = Inr m" "wro_data options \<noteq> []"
  shows "addresses (at16 66) (at32 68) m (wro_data options)"
  using assms by (auto simp: buildWriteRequest_def request_parts split: if_splits)

lemma buildWriteRequest_addresses_channel:
  assumes "buildWriteRequest options messageId treeId sessionId = Inr m" "wro_channelInfo options \<noteq> []"
    "length (wro_data options) + 112 \<le> 65535"
  shows "addresses (at16 104) (at16 106) m (wro_channelInfo options)"
  using assms by (auto simp: buildWriteRequest_def request_parts split: if_splits)

lemma buildCreateRequest_addresses:
  assumes "buildCreateRequest options messageId treeId sessionId = Inr m"
  shows "\<exists>name. encodeUtf16Le (cro_path options) = Inr name \<and> addresses (at16 108) (at16 110) m name \<and>
    (cro_createContexts options \<noteq> [] \<longrightarrow> addresses (at32 112) (at32 116) m (cro_createContexts options))"
  using assms by (auto simp: buildCreateRequest_def request_parts split: if_splits sum.splits)

lemma buildSessionSetupRequest_addresses:
  assumes "buildSessionSetupRequest options messageId sessionId = Inr m"
  shows "addresses (at16 76) (at16 78) m (sso_securityBuffer options)"
  using assms by (auto simp: buildSessionSetupRequest_def request_parts split: if_splits)

lemma buildTreeConnectRequest_addresses:
  assumes "buildTreeConnectRequest options messageId sessionId = Inr m"
  shows "\<exists>unc path. uncPath options = Inr unc \<and> encodeUtf16Le unc = Inr path \<and>
     addresses (at16 68) (at16 70) m path"
  using assms by (auto simp: buildTreeConnectRequest_def request_parts split: if_splits sum.splits)

lemma buildIoctlRequest_addresses:
  assumes "buildIoctlRequest options messageId treeId sessionId = Inr m" "ioo_input options \<noteq> []"
  shows "addresses (at32 88) (at32 92) m (ioo_input options)"
  using assms by (auto simp: buildIoctlRequest_def request_parts split: if_splits)

lemma buildSetInfoRequest_addresses:
  assumes "buildSetInfoRequest options messageId treeId sessionId = Inr m" "sio_buffer options \<noteq> []"
  shows "addresses (at16 72) (at32 68) m (sio_buffer options)"
  using assms by (auto simp: buildSetInfoRequest_def request_parts split: if_splits)

lemma buildQueryInfoRequest_addresses:
  assumes "buildQueryInfoRequest options messageId treeId sessionId = Inr m" "qio_inputBuffer options \<noteq> []"
  shows "addresses (at16 72) (at32 76) m (qio_inputBuffer options)"
  using assms by (auto simp: buildQueryInfoRequest_def request_parts split: if_splits)

lemma buildQueryDirectoryRequest_addresses:
  assumes "buildQueryDirectoryRequest options messageId treeId sessionId = Inr m"
    "encodeUtf16Le (qdo_pattern options) = Inr pattern" "pattern \<noteq> []"
  shows "addresses (at16 88) (at16 90) m pattern"
  using assms by (auto simp: buildQueryDirectoryRequest_def request_parts split: if_splits sum.splits)

lemma buildReadRequest_addresses:
  assumes "buildReadRequest options messageId treeId sessionId = Inr m" "rdo_channelInfo options \<noteq> []"
  shows "addresses (at16 108) (at16 110) m (rdo_channelInfo options)"
  using assms by (auto simp: buildReadRequest_def request_parts split: if_splits)


section \<open>The NEGOTIATE message\<close>

lemma readU16Le_concat:
  "i < length xs \<Longrightarrow> readU16Le (concat (map le16 xs) @ ys) (2 * i) = Some (xs ! i)"
proof (induction xs arbitrary: i)
  case Nil
  then show ?case by simp
next
  case (Cons x xs)
  then show ?case by (cases i) (simp_all add: wire)
qed

lemma length_concat_le16 [simp]: "length (concat (map le16 xs)) = 2 * length xs"
  by (induction xs) simp_all

lemma appendPadding_eq: "\<exists>k. appendPadding d a = d @ replicate k 0"
  by (auto simp: appendPadding_def Let_def intro: exI [of _ 0])

lemma round_up_8: "n + (if n mod 8 = 0 then 0 else 8 - n mod 8) = (n + 7) div 8 * (8 :: nat)"
proof -
  define q r where "q = n div 8" and "r = n mod 8"
  have n: "n = 8 * q + r" and r: "r < 8" by (simp_all add: q_def r_def)
  have "(n + 7) div 8 = q + (r + 7) div 8" unfolding n add.assoc by (simp add: div_mult_self1 [of 8 _ q, simplified])
  moreover have "(r + 7) div 8 = (if r = 0 then 0 else 1)" using r by (auto intro: div_nat_eqI)
  moreover have "n mod 8 = r" by (simp add: r_def)
  ultimately show ?thesis using n r by simp
qed

lemma length_appendPadding: "length (appendPadding d 8) = (length d + 7) div 8 * 8"
  using round_up_8 [of "length d"] by (simp add: appendPadding_def Let_def split: if_splits)

lemma appendNegotiateContext_eq:
  "\<exists>z. appendNegotiateContext d t p = d @ le16 t @ le16 (word_of_nat (length p)) @ le32 0 @ p @ z"
  using appendPadding_eq [of "d @ le16 t @ le16 (word_of_nat (length p)) @ le32 0 @ p" 8]
  by (auto simp: appendNegotiateContext_def)

lemma length_appendNegotiateContext:
  "length (appendNegotiateContext d t p) = (length d + length p + 15) div 8 * 8"
  by (simp add: appendNegotiateContext_def length_appendPadding add.commute)

lemma length_buildPreauthIntegrityContext:
  "length guid = 16 \<Longrightarrow> length (buildPreauthIntegrityContext guid) = 38"
  by (simp add: buildPreauthIntegrityContext_def negotiateContextSalt_def Let_def)




lemma length_buildEncryptionCapabilitiesContext: "length buildEncryptionCapabilitiesContext = 4"
  by (simp add: buildEncryptionCapabilitiesContext_def)

lemma negotiateFixedPart_fields:
  assumes "length (neg_clientGuid options) = 16"
  defines "dialects \<equiv> effectiveDialects options"
  shows "length (negotiateFixedPart options messageId offset count) = 100 + 2 * length dialects"
    and "readU16Le (negotiateFixedPart options messageId offset count @ pad) 66 = Some (word_of_nat (length dialects))"
    and "readU32Le (negotiateFixedPart options messageId offset count @ pad) 92 = Some offset"
    and "readU16Le (negotiateFixedPart options messageId offset count @ pad) 96 = Some count"
    and "\<And>i. i < length dialects \<Longrightarrow>
      readU16Le (negotiateFixedPart options messageId offset count @ pad) (100 + 2 * i) = Some (dialects ! i)"
  using assms(1)
  by (simp_all add: negotiateFixedPart_def wire Let_def dialects_def wf_header_def defaultHeader_def
      readU16Le_concat)

definition negotiateContextStart :: "NegotiateRequestOptions \<Rightarrow> nat" where
  "negotiateContextStart options = (100 + length (effectiveDialects options) * 2 + 7) div 8 * 8"

text \<open>The message in its two shapes.\<close>

lemma buildNegotiateRequest_cases [consumes 1, case_names plain contexts]:
  assumes "buildNegotiateRequest options messageId = Inr m"
  obtains (plain) "Smb311 \<notin> set (effectiveDialects options)" "m = negotiateFixedPart options messageId 0 0"
  | (contexts) count pre where "Smb311 \<in> set (effectiveDialects options)"
      "pre = appendNegotiateContext (appendPadding (negotiateFixedPart options messageId
               (word_of_nat (negotiateContextStart options)) count) 8) 1
               (buildPreauthIntegrityContext (neg_clientGuid options))"
      "neg_capabilities options AND CapEncryption = 0 \<Longrightarrow> count = 1 \<and> m = pre"
      "neg_capabilities options AND CapEncryption \<noteq> 0 \<Longrightarrow>
         count = 2 \<and> m = appendNegotiateContext pre 2 buildEncryptionCapabilitiesContext"
  using assms
  by (auto simp: buildNegotiateRequest_def Let_def negotiateContextStart_def simp del: of_nat_mult of_nat_add split: if_splits)


lemma negotiateContext_parts:
  assumes "length (neg_clientGuid options) = 16"
    and "pre = appendNegotiateContext (appendPadding (negotiateFixedPart options messageId offset count) 8) 1
               (buildPreauthIntegrityContext (neg_clientGuid options))"
  defines "start \<equiv> negotiateContextStart options"
  obtains pad z where "pre = (negotiateFixedPart options messageId offset count @ pad) @ le16 1 @ le16 38 @ le32 0 @
        buildPreauthIntegrityContext (neg_clientGuid options) @ z"
    "length (negotiateFixedPart options messageId offset count @ pad) = start" "length pre = start + 48"
proof -
  let ?p = "appendPadding (negotiateFixedPart options messageId offset count) 8"
  obtain k where k: "?p = negotiateFixedPart options messageId offset count @ replicate k 0"
    using appendPadding_eq by blast
  obtain z where z: "pre = ?p @ le16 1 @ le16 38 @ le32 0 @ buildPreauthIntegrityContext (neg_clientGuid options) @ z"
    using appendNegotiateContext_eq [of ?p 1 "buildPreauthIntegrityContext (neg_clientGuid options)"]
    by (auto simp: assms(2) length_buildPreauthIntegrityContext [OF assms(1)])
  have p: "length ?p = start"
    by (simp add: length_appendPadding negotiateFixedPart_fields [OF assms(1)] start_def negotiateContextStart_def
        add.commute mult.commute)
  have "(8 * s + 53) div 8 * 8 = 8 * s + 48" for s :: nat by simp
  then have "length pre = start + 48"
    unfolding assms(2) length_appendNegotiateContext length_buildPreauthIntegrityContext [OF assms(1)] p
    by (simp add: start_def negotiateContextStart_def mult.commute)
  then show ?thesis using that [of "replicate k 0" z] z p unfolding k by simp
qed

lemma buildNegotiateRequest_contexts:
  assumes m: "buildNegotiateRequest options messageId = Inr m" and guid: "length (neg_clientGuid options) = 16"
    and inc: "Smb311 \<in> set (effectiveDialects options)"
  defines "start \<equiv> negotiateContextStart options" and "P \<equiv> buildPreauthIntegrityContext (neg_clientGuid options)"
  obtains count pad y rest where
    "m = negotiateFixedPart options messageId (word_of_nat start) count @ pad @ le16 1 @ le16 38 @ le32 0 @ P @ y @ rest"
    "length (negotiateFixedPart options messageId (word_of_nat start) count) + length pad = start"
    "length P = 38" "length y = 2"
    "neg_capabilities options AND CapEncryption \<noteq> 0 \<Longrightarrow>
       count = 2 \<and> (\<exists>z. rest = le16 2 @ le16 4 @ le32 0 @ buildEncryptionCapabilitiesContext @ z)"
  using m
proof (cases rule: buildNegotiateRequest_cases)
  case plain
  then show ?thesis using inc by simp
next
  case (contexts count pre)
  obtain pad y where pre: "pre = (negotiateFixedPart options messageId (word_of_nat start) count @ pad) @ le16 1 @ le16 38 @ le32 0 @ P @ y"
    and start: "length (negotiateFixedPart options messageId (word_of_nat start) count @ pad) = start"
    and len: "length pre = start + 48"
    using negotiateContext_parts [OF guid contexts(2)] unfolding start_def P_def by metis
  have P: "length P = 38" unfolding P_def by (rule length_buildPreauthIntegrityContext [OF guid])
  have y: "length y = 2" using len start P unfolding pre by simp
  have "\<exists>z. m = pre @ z \<and> (neg_capabilities options AND CapEncryption \<noteq> 0 \<longrightarrow>
     (\<exists>x. z = le16 2 @ le16 4 @ le32 0 @ buildEncryptionCapabilitiesContext @ x))"
    using contexts(3,4) appendNegotiateContext_eq [of pre 2 buildEncryptionCapabilitiesContext]
    by (cases "neg_capabilities options AND CapEncryption = 0") (auto simp: buildEncryptionCapabilitiesContext_def)
  then obtain rest where "m = pre @ rest" "neg_capabilities options AND CapEncryption \<noteq> 0 \<Longrightarrow>
     (\<exists>x. rest = le16 2 @ le16 4 @ le32 0 @ buildEncryptionCapabilitiesContext @ x)" by blast
  with pre start P y contexts(4) show ?thesis by (intro that [of count pad y rest]) auto
qed

lemma buildNegotiateRequest_layout:
  assumes m: "buildNegotiateRequest options messageId = Inr m" and guid: "length (neg_clientGuid options) = 16"
  defines "dialects \<equiv> effectiveDialects options" and "start \<equiv> negotiateContextStart options"
  shows "at16 66 m = Some (length dialects) \<and>
    (\<forall>i < length dialects. readU16Le m (100 + 2 * i) = Some (dialects ! i)) \<and>
    (Smb311 \<in> set dialects \<longrightarrow> at32 92 m = Some start \<and> readU16Le m start = Some 1 \<and>
      at16 (start + 2) m = Some 38 \<and>
      slice m (start + 8) (start + 46) = Some (buildPreauthIntegrityContext (neg_clientGuid options))) \<and>
    (Smb311 \<in> set dialects \<longrightarrow> neg_capabilities options AND CapEncryption \<noteq> 0 \<longrightarrow>
      at16 96 m = Some 2 \<and> readU16Le m (start + 48) = Some 2 \<and> at16 (start + 50) m = Some 4 \<and>
      slice m (start + 56) (start + 60) = Some buildEncryptionCapabilitiesContext)"
proof (cases "Smb311 \<in> set dialects")
  case False
  have n: "length dialects \<le> 65535" using m by (auto simp: buildNegotiateRequest_def Let_def dialects_def split: if_splits)
  with m False show ?thesis
    using negotiateFixedPart_fields(2,5) [OF guid, where messageId = messageId and offset = 0 and count = 0 and pad = "[]"]
    by (auto elim!: buildNegotiateRequest_cases simp: at16_def dialects_def unat_of_nat16)
next
  case True
  have n: "length dialects \<le> 65535" using m by (auto simp: buildNegotiateRequest_def Let_def dialects_def split: if_splits)
  then have s: "start \<le> 0xFFFFFFFF" by (simp add: start_def negotiateContextStart_def dialects_def)
  obtain count pad y rest where parts:
    "m = negotiateFixedPart options messageId (word_of_nat start) count @ pad @ le16 1 @ le16 38 @ le32 0 @
       buildPreauthIntegrityContext (neg_clientGuid options) @ y @ rest"
    "length (negotiateFixedPart options messageId (word_of_nat start) count) + length pad = start"
    "length (buildPreauthIntegrityContext (neg_clientGuid options)) = 38" "length y = 2"
    "neg_capabilities options AND CapEncryption \<noteq> 0 \<Longrightarrow>
       count = 2 \<and> (\<exists>z. rest = le16 2 @ le16 4 @ le32 0 @ buildEncryptionCapabilitiesContext @ z)"
    using buildNegotiateRequest_contexts [OF m guid True [unfolded dialects_def]] unfolding start_def by metis
  note F = negotiateFixedPart_fields(2-5) [OF guid, where messageId = messageId and offset = "word_of_nat start" and count = count, folded dialects_def]
  obtain A where A: "A = negotiateFixedPart options messageId (word_of_nat start) count @ pad" by simp
  have m_A: "m = A @ le16 1 @ le16 38 @ le32 0 @
       buildPreauthIntegrityContext (neg_clientGuid options) @ y @ rest" and lA: "length A = start"
    using parts(1,2) by (simp_all add: A)
  have "at16 66 m = Some (length dialects)" "at32 92 m = Some start" "at16 96 m = Some (unat count)"
    "\<forall>i < length dialects. readU16Le m (100 + 2 * i) = Some (dialects ! i)"
    using F n s unfolding parts(1) by (simp_all add: at16_def at32_def unat_of_nat16 unat_of_nat32)
  moreover have "readU16Le m start = Some 1" "at16 (start + 2) m = Some 38"
    "slice m (start + 8) (start + 46) = Some (buildPreauthIntegrityContext (neg_clientGuid options))"
    unfolding m_A by (simp_all add: at16_def wire lA parts(3))
  moreover have "count = 2 \<and> readU16Le m (start + 48) = Some 2 \<and> at16 (start + 50) m = Some 4 \<and>
      slice m (start + 56) (start + 60) = Some buildEncryptionCapabilitiesContext"
    if enc: "neg_capabilities options AND CapEncryption \<noteq> 0"
  proof -
    from parts(5) [OF enc] obtain z where "count = 2"
      "rest = le16 2 @ le16 4 @ le32 0 @ buildEncryptionCapabilitiesContext @ z" by blast
    then show ?thesis unfolding m_A by (simp add: at16_def wire lA parts(3,4) length_buildEncryptionCapabilitiesContext)
  qed
  ultimately show ?thesis by auto
qed

section \<open>Headers and credits\<close>

lemma request_headers:
  "buildSessionSetupRequest so mid sid = Inr m \<Longrightarrow>
     decodeSmb2SyncHeader m = Some (Success (requestHeader CmdSessionSetup mid 0 sid 1 1))"
  "buildTreeConnectRequest tc mid sid = Inr m \<Longrightarrow>
     decodeSmb2SyncHeader m = Some (Success (requestHeader CmdTreeConnect mid 0 sid 1 1))"
  "decodeSmb2SyncHeader (buildTreeDisconnectRequest mid tid sid) =
     Some (Success (requestHeader CmdTreeDisconnect mid tid sid 1 1))"
  "decodeSmb2SyncHeader (buildLogoffRequest mid sid) = Some (Success (requestHeader CmdLogoff mid 0 sid 1 1))"
  "buildCreateRequest co mid tid sid = Inr m \<Longrightarrow>
     decodeSmb2SyncHeader m = Some (Success (requestHeader CmdCreate mid tid sid 1 1))"
  "decodeSmb2SyncHeader (buildCloseRequest cl mid tid sid) =
     Some (Success (requestHeader CmdClose mid tid sid 1 1))"
  "buildReadRequest ro mid tid sid = Inr m \<Longrightarrow>
     decodeSmb2SyncHeader m = Some (Success (requestHeader CmdRead mid tid sid
       (readCreditCharge (rdo_length ro)) (max 1 (readCreditCharge (rdo_length ro)))))"
  "buildWriteRequest wo mid tid sid = Inr m \<Longrightarrow>
     decodeSmb2SyncHeader m = Some (Success (requestHeader CmdWrite mid tid sid
       (writeCreditCharge (length (wro_data wo))) (max 1 (writeCreditCharge (length (wro_data wo))))))"
  "buildIoctlRequest io mid tid sid = Inr m \<Longrightarrow>
     decodeSmb2SyncHeader m = Some (Success (requestHeader CmdIoctl mid tid sid 1 1))"
  "buildSetInfoRequest si mid tid sid = Inr m \<Longrightarrow>
     decodeSmb2SyncHeader m = Some (Success (requestHeader CmdSetInfo mid tid sid 1 1))"
  "buildQueryInfoRequest qi mid tid sid = Inr m \<Longrightarrow>
     decodeSmb2SyncHeader m = Some (Success (requestHeader CmdQueryInfo mid tid sid 1 1))"
  "buildQueryDirectoryRequest qd mid tid sid = Inr m \<Longrightarrow>
     decodeSmb2SyncHeader m = Some (Success (requestHeader CmdQueryDirectory mid tid sid 1 1))"
  "decodeSmb2SyncHeader (buildChangeNotifyRequest cn mid tid sid) =
     Some (Success (requestHeader CmdChangeNotify mid tid sid (readCreditCharge (cno_outputBufferLength cn)) 1))"
  by (auto simp: buildSessionSetupRequest_def buildTreeConnectRequest_def buildTreeDisconnectRequest_def
      buildLogoffRequest_def buildCreateRequest_def buildCloseRequest_def buildReadRequest_def
      buildWriteRequest_def buildIoctlRequest_def buildSetInfoRequest_def buildQueryInfoRequest_def
      buildQueryDirectoryRequest_def buildChangeNotifyRequest_def Let_def decodeSmb2SyncHeader_encode
      split: if_splits sum.splits)

text \<open>The charge is the number of 64 KiB blocks, rounded up, as long as that fits 16 bits.\<close>

lemma blocks_up: "0 < n \<Longrightarrow> 1 + (n - 1) div 65536 = (n + 65535) div (65536 :: nat)"
  by (cases n) (simp_all add: div_add_self2 [symmetric])

lemma unat_readCreditCharge:
  "unat (readCreditCharge len) =
     (if len = 0 then 1 else (unat len + 65535) div 65536 mod 65536)"
proof (cases "len = 0")
  case True
  then show ?thesis by (simp add: readCreditCharge_def)
next
  case False
  then have pos: "0 < unat len" by (simp add: unat_gt_0)
  have "unat (len - 1) = unat len - 1" using False by (simp add: unat_minus_one)
  moreover have "unat (1 + (len - 1) div 65536) = 1 + unat ((len - 1) div 65536)"
  proof -
    have "unat ((len - 1) div 65536) < 2 ^ 16"
      using unsigned_less [of "len - 1", where 'a=nat] by (simp add: unat_div less_mult_imp_div_less)
    then show ?thesis by (subst unat_add_lem [THEN iffD1]) simp_all
  qed
  ultimately have "unat (1 + (len - 1) div 65536) = (unat len + 65535) div 65536"
    using blocks_up [OF pos] by (simp add: unat_div)
  then show ?thesis using False
    by (simp add: readCreditCharge_def word_gt_0 unsigned_ucast_eq unsigned_take_bit_eq take_bit_eq_mod)
qed

lemma unat_writeCreditCharge:
  "unat (writeCreditCharge n) = (if n = 0 then 1 else (n + 65535) div 65536 mod 65536)"
proof (cases "n = 0")
  case False
  then have "unat (word_of_nat (1 + (n - 1) div 65536) :: u16) = (n + 65535) div 65536 mod 65536"
    using blocks_up [of n] by (simp only: unsigned_of_nat take_bit_eq_mod) simp
  then show ?thesis using False by (simp add: writeCreditCharge_def)
qed (simp add: writeCreditCharge_def)

section \<open>Properties\<close>

text \<open>
  The NEGOTIATE message is well formed for every set of options: the count and the
  array of dialects are the ones asked for, and when SMB 3.1.1 is among them the context
  offset is the position, aligned to 8, of a pre-authentication context of 38 bytes,
  followed when encryption is offered by the encryption context the count announces.
\<close>
lemma negotiate_request_layout:
  assumes "buildNegotiateRequest options messageId = Inr m" "length (neg_clientGuid options) = 16"
  shows "at16 66 m = Some (length (effectiveDialects options)) \<and>
    (\<forall>i < length (effectiveDialects options). readU16Le m (100 + 2 * i) = Some (effectiveDialects options ! i)) \<and>
    (Smb311 \<in> set (effectiveDialects options) \<longrightarrow>
      (let start = negotiateContextStart options in
        start mod 8 = 0 \<and> at32 92 m = Some start \<and> readU16Le m start = Some 1 \<and> at16 (start + 2) m = Some 38 \<and>
        slice m (start + 8) (start + 46) = Some (buildPreauthIntegrityContext (neg_clientGuid options)) \<and>
        (neg_capabilities options AND CapEncryption \<noteq> 0 \<longrightarrow>
          at16 96 m = Some 2 \<and> readU16Le m (start + 48) = Some 2 \<and> at16 (start + 50) m = Some 4 \<and>
          slice m (start + 56) (start + 60) = Some buildEncryptionCapabilitiesContext)))"
  using buildNegotiateRequest_layout [OF assms] by (auto simp: Let_def negotiateContextStart_def)

lemma negotiate_request_layout_witness:
  "\<exists>m. buildNegotiateRequest \<lparr>neg_dialects = [], neg_signing = Required, neg_capabilities = CapEncryption,
          neg_clientGuid = replicate 16 7\<rparr> 0 = Inr m \<and> at32 92 m = Some 112 \<and> readU16Le m 160 = Some 2"
  (is "\<exists>m. buildNegotiateRequest ?o 0 = Inr m \<and> _")
proof -
  obtain m where m: "buildNegotiateRequest ?o 0 = Inr m"
    by (simp add: buildNegotiateRequest_def effectiveDialects_def defaultInitialDialects_def Let_def)
  have "negotiateContextStart ?o = 112"
    by (simp add: negotiateContextStart_def effectiveDialects_def defaultInitialDialects_def)
  with negotiate_request_layout [OF m] m show ?thesis
    by (auto simp: effectiveDialects_def defaultInitialDialects_def Let_def)
qed

text \<open>
  A WRITE request says where its data is: the offset and length fields of the message
  address exactly the caller's bytes, and so do the fields for the channel information as
  long as its offset fits the 16 bits the protocol gives it. Its header carries the
  caller's ids and the charge of the data.
\<close>
lemma write_request_addresses_data:
  assumes "buildWriteRequest options messageId treeId sessionId = Inr m"
  shows "decodeSmb2SyncHeader m = Some (Success (requestHeader CmdWrite messageId treeId sessionId
       (writeCreditCharge (length (wro_data options))) (max 1 (writeCreditCharge (length (wro_data options)))))) \<and>
    (wro_data options \<noteq> [] \<longrightarrow> addresses (at16 66) (at32 68) m (wro_data options)) \<and>
    (wro_channelInfo options \<noteq> [] \<and> length (wro_data options) \<le> 65423 \<longrightarrow>
       addresses (at16 104) (at16 106) m (wro_channelInfo options))"
  using assms buildWriteRequest_addresses_data [OF assms] buildWriteRequest_addresses_channel [OF assms]
  by (simp add: request_headers)

lemma write_request_addresses_data_witness:
  "\<exists>m. buildWriteRequest \<lparr>wro_fileId = \<lparr>fid_persistent = 1, fid_volatileId = 2\<rparr>, wro_data = [7, 8, 9], wro_offset = 0,
          wro_channel = 0, wro_remainingBytes = 0, wro_channelInfo = [5], wro_flags = 0\<rparr> 4 5 6 = Inr m \<and>
        addresses (at16 66) (at32 68) m [7, 8, 9] \<and> addresses (at16 104) (at16 106) m [5]"
  (is "\<exists>m. buildWriteRequest ?o 4 5 6 = Inr m \<and> _")
proof -
  obtain m where m: "buildWriteRequest ?o 4 5 6 = Inr m" by (simp add: buildWriteRequest_def Let_def)
  with write_request_addresses_data [OF m] show ?thesis by simp
qed

text \<open>
  A CREATE request addresses the UTF-16 form of the path and, when there are any, the
  create contexts; TREE_CONNECT addresses the UTF-16 form of the UNC path, SESSION_SETUP
  its token and SET_INFO its buffer.
\<close>
lemma requests_address_payloads:
  "(buildCreateRequest co mid tid sid = Inr m \<longrightarrow>
      (\<exists>name. encodeUtf16Le (cro_path co) = Inr name \<and> addresses (at16 108) (at16 110) m name \<and>
        (cro_createContexts co \<noteq> [] \<longrightarrow> addresses (at32 112) (at32 116) m (cro_createContexts co)))) \<and>
   (buildTreeConnectRequest tc mid sid = Inr m \<longrightarrow>
      (\<exists>unc path. uncPath tc = Inr unc \<and> encodeUtf16Le unc = Inr path \<and> addresses (at16 68) (at16 70) m path)) \<and>
   (buildSessionSetupRequest so mid sid = Inr m \<longrightarrow> addresses (at16 76) (at16 78) m (sso_securityBuffer so)) \<and>
   (buildSetInfoRequest si mid tid sid = Inr m \<and> sio_buffer si \<noteq> [] \<longrightarrow>
      addresses (at16 72) (at32 68) m (sio_buffer si))"
  using buildCreateRequest_addresses buildTreeConnectRequest_addresses buildSessionSetupRequest_addresses
    buildSetInfoRequest_addresses by blast

lemma requests_address_payloads_witness:
  "\<exists>m. buildTreeConnectRequest \<lparr>tco_server = [0x73], tco_share = [0x64], tco_flags = 0\<rparr> 3 9 = Inr m \<and>
       addresses (at16 68) (at16 70) m [0x5C, 0, 0x5C, 0, 0x73, 0, 0x5C, 0, 0x64, 0]"
  (is "\<exists>m. buildTreeConnectRequest ?o 3 9 = Inr m \<and> _")
proof -
  have unc: "uncPath ?o = Inr [0x5C, 0x5C, 0x73, 0x5C, 0x64]" by (simp add: uncPath_def)
  have path: "encodeUtf16Le [0x5C, 0x5C, 0x73, 0x5C, 0x64] = Inr [0x5C, 0, 0x5C, 0, 0x73, 0, 0x5C, 0, 0x64, 0]"
    by (simp add: encodeUtf16Le.simps utf8Head_def utf16Units_def le16_def)
  obtain m where m: "buildTreeConnectRequest ?o 3 9 = Inr m"
    by (simp add: buildTreeConnectRequest_def unc path)
  from requests_address_payloads [THEN conjunct2, THEN conjunct1, rule_format, OF m] m unc path
  show ?thesis by auto
qed

text \<open>
  The credit charge of READ, CHANGE_NOTIFY and WRITE is the number of 64 KiB blocks
  the payload spans, rounded up and at least one, reduced modulo 65536: correct for every
  payload up to 0xFFFF0000 bytes and zero, not 65536, for the block above it.
\<close>
lemma credit_charge_blocks:
  "unat (readCreditCharge len) = (if len = 0 then 1 else (unat len + 65535) div 65536 mod 65536) \<and>
   unat (writeCreditCharge n) = (if n = 0 then 1 else (n + 65535) div 65536 mod 65536)"
  by (simp add: unat_readCreditCharge unat_writeCreditCharge)

lemma credit_charge_truncated: "readCreditCharge 0xFFFF0001 = 0" "writeCreditCharge 0xFFFF0001 = 0"
  by (simp_all add: readCreditCharge_def writeCreditCharge_def)

text \<open>The offset of the channel information is cut to 16 bits when the data before it is longer.\<close>

lemma write_channel_offset_truncated:
  assumes "length payload = 65424"
  shows "\<exists>m. buildWriteRequest \<lparr>wro_fileId = f, wro_data = payload, wro_offset = 0, wro_channel = 0,
      wro_remainingBytes = 0, wro_channelInfo = [1], wro_flags = 0\<rparr> 4 5 6 = Inr m \<and> at16 104 m = Some 0"
  using assms by (simp add: buildWriteRequest_def Let_def at16_def appendFileId_def wire)

end
