(* ===== verification/Responses.thy ===== *)
theory Responses
  imports Requests
begin

text \<open>
  The response decoders of \<open>Protocol.cpp\<close> with a fixed layout, from NEGOTIATE to
  QUERY_INFO, and the information buffers decoded by themselves. The decoders whose
  body is a chain of entries are in the theory Listings. The locale
  \<open>response_decoder\<close> states what every exchange relies on: a decoder always returns
  (no read leaves the buffer), and a success answers the command with an accepted status.
\<close>

section \<open>Buffers a response points to\<close>

text \<open>The test for a variable part, written out in each decoder (a lambda in IOCTL):
  an empty part is fine anywhere, another one has to lie behind the header and inside
  the message. The sums are \<open>std::size_t\<close>, so 64 bits wide, and cannot wrap.\<close>

definition bufferInBounds :: "nat \<Rightarrow> nat \<Rightarrow> nat \<Rightarrow> bool" where
  "bufferInBounds n offset count =
     (let limit = offset + count in
      count = 0 \<or> (kSmb2HeaderSize \<le> offset \<and> limit \<le> n \<and> offset \<le> limit))"

definition assignBuffer :: "bytes \<Rightarrow> nat \<Rightarrow> nat \<Rightarrow> bytes option" where
  "assignBuffer d offset count = (if 0 < count then slice d offset (offset + count) else Some [])"

lemma assignBuffer_in: "bufferInBounds (length d) offset count \<Longrightarrow> assignBuffer d offset count \<noteq> None"
  by (auto simp: bufferInBounds_def assignBuffer_def Let_def simp del: not_None_eq)

lemma assignBuffer_Some:
  "assignBuffer d offset count = Some b \<longleftrightarrow>
     (count = 0 \<and> b = []) \<or> (0 < count \<and> slice d offset (offset + count) = Some b)"
  by (auto simp: assignBuffer_def)

lemma assignBuffer_length: "assignBuffer d offset count = Some b \<Longrightarrow> length b = count"
  by (auto simp: assignBuffer_Some dest: slice_length)

section \<open>NEGOTIATE\<close>

record NegotiateResponse =
  ner_securityMode :: u16
  ner_dialect :: Dialect
  ner_negotiateContextCount :: u16
  ner_serverGuid :: bytes
  ner_capabilities :: u32
  ner_maxTransactSize :: u32
  ner_maxReadSize :: u32
  ner_maxWriteSize :: u32
  ner_systemTime :: u64
  ner_serverStartTime :: u64
  ner_securityBuffer :: bytes
  ner_negotiateContextOffset :: u32

definition isOfferedDialect :: "Dialect \<Rightarrow> Dialect list \<Rightarrow> bool" where
  "isOfferedDialect dialect offered = (dialect \<in> set offered)"

definition decodeNegotiateResponse :: "bytes \<Rightarrow> Dialect list \<Rightarrow> NegotiateResponse DecodeResult option" where
  "decodeNegotiateResponse d offeredDialects =
     successResponse CmdNegotiate ''a NEGOTIATE'' ''SMB2 NEGOTIATE'' 64 65 d (\<lambda>header. do {
       dialect \<leftarrow> readU16Le d (64 + 4);
       if \<not> isOfferedDialect dialect offeredDialects
       then Some (failure EcProtocolUnsupported ''Server selected an SMB dialect that was not offered.'')
       else do {
         securityBufferOffset \<leftarrow> readU16Le d (64 + 56);
         securityBufferLength \<leftarrow> readU16Le d (64 + 58);
         let securityBufferEnd = unat securityBufferOffset + unat securityBufferLength;
         if unat securityBufferOffset < kSmb2HeaderSize \<or> length d < securityBufferEnd \<or>
            securityBufferEnd < unat securityBufferOffset
         then Some (failure EcIoError ''SMB2 NEGOTIATE response security buffer is out of bounds.'')
         else do {
           securityMode \<leftarrow> readU16Le d (64 + 2);
           negotiateContextCount \<leftarrow> readU16Le d (64 + 6);
           serverGuid \<leftarrow> slice d (64 + 8) (64 + 24);
           capabilities \<leftarrow> readU32Le d (64 + 24);
           maxTransactSize \<leftarrow> readU32Le d (64 + 28);
           maxReadSize \<leftarrow> readU32Le d (64 + 32);
           maxWriteSize \<leftarrow> readU32Le d (64 + 36);
           systemTime \<leftarrow> readU64Le d (64 + 40);
           serverStartTime \<leftarrow> readU64Le d (64 + 48);
           negotiateContextOffset \<leftarrow> readU32Le d (64 + 60);
           securityBuffer \<leftarrow> slice d (unat securityBufferOffset) securityBufferEnd;
           Some (Success
             \<lparr>ner_securityMode = securityMode, ner_dialect = dialect,
              ner_negotiateContextCount = negotiateContextCount, ner_serverGuid = serverGuid,
              ner_capabilities = capabilities, ner_maxTransactSize = maxTransactSize,
              ner_maxReadSize = maxReadSize, ner_maxWriteSize = maxWriteSize,
              ner_systemTime = systemTime, ner_serverStartTime = serverStartTime,
              ner_securityBuffer = securityBuffer,
              ner_negotiateContextOffset = negotiateContextOffset\<rparr>) } } })"

section \<open>SESSION_SETUP\<close>

record SessionSetupResponse =
  ssr_status :: u32
  ssr_sessionId :: u64
  ssr_sessionFlags :: u16
  ssr_securityBuffer :: bytes
  ssr_requestPayload :: bytes
  ssr_responsePayload :: bytes
  ssr_moreProcessingRequired :: bool
  ssr_guestSession :: bool
  ssr_nullSession :: bool
  ssr_encryptData :: bool

definition decodeSessionSetupResponse :: "bytes \<Rightarrow> SessionSetupResponse DecodeResult option" where
  "decodeSessionSetupResponse d =
     responseHeader CmdSessionSetup ''a SESSION_SETUP'' ''SMB2 SESSION_SETUP'' d (\<lambda>header.
       let status = hdr_status header in
       if status \<noteq> kStatusSuccess \<and> status \<noteq> kStatusMoreProcessingRequired
       then Some (failureFromNtStatus status ''SMB2 SESSION_SETUP'')
       else responseBody ''SMB2 SESSION_SETUP'' 8 9 d (do {
         securityBufferOffset \<leftarrow> readU16Le d (64 + 4);
         securityBufferLength \<leftarrow> readU16Le d (64 + 6);
         if \<not> bufferInBounds (length d) (unat securityBufferOffset) (unat securityBufferLength)
         then Some (failure EcIoError ''SMB2 SESSION_SETUP response security buffer is out of bounds.'')
         else do {
           sessionFlags \<leftarrow> readU16Le d (64 + 2);
           securityBuffer \<leftarrow> assignBuffer d (unat securityBufferOffset) (unat securityBufferLength);
           Some (Success
             \<lparr>ssr_status = status, ssr_sessionId = hdr_sessionId header,
              ssr_sessionFlags = sessionFlags, ssr_securityBuffer = securityBuffer,
              ssr_requestPayload = [], ssr_responsePayload = [],
              ssr_moreProcessingRequired = (status = kStatusMoreProcessingRequired),
              ssr_guestSession = (sessionFlags AND 0x0001 \<noteq> 0),
              ssr_nullSession = (sessionFlags AND 0x0002 \<noteq> 0),
              ssr_encryptData = (sessionFlags AND 0x0004 \<noteq> 0)\<rparr>) } }))"

section \<open>TREE_CONNECT, TREE_DISCONNECT, LOGOFF\<close>

record TreeConnectResponse =
  tcr_shareType :: u8
  tcr_shareFlags :: u32
  tcr_capabilities :: u32
  tcr_maximalAccess :: u32
  tcr_isDfs :: bool
  tcr_isDfsRoot :: bool
  tcr_requiresEncryption :: bool

definition decodeTreeConnectResponse :: "bytes \<Rightarrow> TreeConnectResponse DecodeResult option" where
  "decodeTreeConnectResponse d =
     successResponse CmdTreeConnect ''a TREE_CONNECT'' ''SMB2 TREE_CONNECT'' 16 16 d (\<lambda>header. do {
       shareType \<leftarrow> byte_at d (64 + 2);
       shareFlags \<leftarrow> readU32Le d (64 + 4);
       capabilities \<leftarrow> readU32Le d (64 + 8);
       maximalAccess \<leftarrow> readU32Le d (64 + 12);
       Some (Success
         \<lparr>tcr_shareType = shareType, tcr_shareFlags = shareFlags, tcr_capabilities = capabilities,
          tcr_maximalAccess = maximalAccess,
          tcr_isDfs = (shareFlags AND 0x00000001 \<noteq> 0 \<or> capabilities AND 0x00000008 \<noteq> 0),
          tcr_isDfsRoot = (shareFlags AND 0x00000002 \<noteq> 0),
          tcr_requiresEncryption = (shareFlags AND 0x00008000 \<noteq> 0)\<rparr>) })"

text \<open>The responses of TREE_DISCONNECT, LOGOFF and SET_INFO carry the status alone.\<close>

definition decodeTreeDisconnectResponse :: "bytes \<Rightarrow> u32 DecodeResult option" where
  "decodeTreeDisconnectResponse d =
     successResponse CmdTreeDisconnect ''a TREE_DISCONNECT'' ''SMB2 TREE_DISCONNECT'' 4 4 d
       (\<lambda>header. Some (Success (hdr_status header)))"

definition decodeLogoffResponse :: "bytes \<Rightarrow> u32 DecodeResult option" where
  "decodeLogoffResponse d =
     successResponse CmdLogoff ''a LOGOFF'' ''SMB2 LOGOFF'' 4 4 d
       (\<lambda>header. Some (Success (hdr_status header)))"

section \<open>CREATE, CLOSE\<close>

record CreateResponse =
  crr_oplockLevel :: u8
  crr_flags :: u8
  crr_createAction :: u32
  crr_creationTime :: u64
  crr_lastAccessTime :: u64
  crr_lastWriteTime :: u64
  crr_changeTime :: u64
  crr_allocationSize :: u64
  crr_endOfFile :: u64
  crr_fileAttributes :: u32
  crr_fileId :: FileId
  crr_isReparsePoint :: bool

definition decodeCreateResponse :: "bytes \<Rightarrow> CreateResponse DecodeResult option" where
  "decodeCreateResponse d =
     successResponse CmdCreate ''a CREATE'' ''SMB2 CREATE'' 88 89 d (\<lambda>header. do {
       oplockLevel \<leftarrow> byte_at d (64 + 2);
       flags \<leftarrow> byte_at d (64 + 3);
       createAction \<leftarrow> readU32Le d (64 + 4);
       creationTime \<leftarrow> readU64Le d (64 + 8);
       lastAccessTime \<leftarrow> readU64Le d (64 + 16);
       lastWriteTime \<leftarrow> readU64Le d (64 + 24);
       changeTime \<leftarrow> readU64Le d (64 + 32);
       allocationSize \<leftarrow> readU64Le d (64 + 40);
       endOfFile \<leftarrow> readU64Le d (64 + 48);
       fileAttributes \<leftarrow> readU32Le d (64 + 56);
       persistent \<leftarrow> readU64Le d (64 + 64);
       volatileId \<leftarrow> readU64Le d (64 + 72);
       Some (Success
         \<lparr>crr_oplockLevel = oplockLevel, crr_flags = flags, crr_createAction = createAction,
          crr_creationTime = creationTime, crr_lastAccessTime = lastAccessTime,
          crr_lastWriteTime = lastWriteTime, crr_changeTime = changeTime,
          crr_allocationSize = allocationSize, crr_endOfFile = endOfFile,
          crr_fileAttributes = fileAttributes,
          crr_fileId = \<lparr>fid_persistent = persistent, fid_volatileId = volatileId\<rparr>,
          crr_isReparsePoint = (flags AND 0x01 \<noteq> 0 \<or> fileAttributes AND 0x00000400 \<noteq> 0)\<rparr>) })"

record CloseResponse =
  clr_status :: u32
  clr_flags :: u16
  clr_creationTime :: u64
  clr_lastAccessTime :: u64
  clr_lastWriteTime :: u64
  clr_changeTime :: u64
  clr_allocationSize :: u64
  clr_endOfFile :: u64
  clr_fileAttributes :: u32
  clr_hasPostQueryAttributes :: bool

definition decodeCloseResponse :: "bytes \<Rightarrow> CloseResponse DecodeResult option" where
  "decodeCloseResponse d =
     successResponse CmdClose ''a CLOSE'' ''SMB2 CLOSE'' 60 60 d (\<lambda>header. do {
       flags \<leftarrow> readU16Le d (64 + 2);
       creationTime \<leftarrow> readU64Le d (64 + 8);
       lastAccessTime \<leftarrow> readU64Le d (64 + 16);
       lastWriteTime \<leftarrow> readU64Le d (64 + 24);
       changeTime \<leftarrow> readU64Le d (64 + 32);
       allocationSize \<leftarrow> readU64Le d (64 + 40);
       endOfFile \<leftarrow> readU64Le d (64 + 48);
       fileAttributes \<leftarrow> readU32Le d (64 + 56);
       Some (Success
         \<lparr>clr_status = hdr_status header, clr_flags = flags, clr_creationTime = creationTime,
          clr_lastAccessTime = lastAccessTime, clr_lastWriteTime = lastWriteTime,
          clr_changeTime = changeTime, clr_allocationSize = allocationSize,
          clr_endOfFile = endOfFile, clr_fileAttributes = fileAttributes,
          clr_hasPostQueryAttributes = (flags AND 0x0001 \<noteq> 0)\<rparr>) })"

section \<open>READ, WRITE\<close>

record ReadResponse =
  rdr_status :: u32
  rdr_dataOffset :: u8
  rdr_dataRemaining :: u32
  rdr_flags :: u8
  rdr_data :: bytes

definition decodeReadResponse :: "bytes \<Rightarrow> ReadResponse DecodeResult option" where
  "decodeReadResponse d =
     successResponse CmdRead ''a READ'' ''SMB2 READ'' 16 17 d (\<lambda>header. do {
       dataOffset \<leftarrow> byte_at d (64 + 2);
       dataLength \<leftarrow> readU32Le d (64 + 4);
       if \<not> bufferInBounds (length d) (unat dataOffset) (unat dataLength)
       then Some (failure EcIoError ''SMB2 READ response data is out of bounds.'')
       else do {
         dataRemaining \<leftarrow> readU32Le d (64 + 8);
         flags \<leftarrow> readU32Le d (64 + 12);
         payload \<leftarrow> assignBuffer d (unat dataOffset) (unat dataLength);
         Some (Success
           \<lparr>rdr_status = hdr_status header, rdr_dataOffset = dataOffset,
            rdr_dataRemaining = dataRemaining, rdr_flags = ucast (flags AND 0xFF),
            rdr_data = payload\<rparr>) } })"

record WriteResponse =
  wrr_status :: u32
  wrr_count :: u32
  wrr_remaining :: u32
  wrr_writeChannelInfoOffset :: u16
  wrr_writeChannelInfoLength :: u16

definition decodeWriteResponse :: "bytes \<Rightarrow> WriteResponse DecodeResult option" where
  "decodeWriteResponse d =
     successResponse CmdWrite ''a WRITE'' ''SMB2 WRITE'' 16 17 d (\<lambda>header. do {
       count \<leftarrow> readU32Le d (64 + 4);
       remaining \<leftarrow> readU32Le d (64 + 8);
       channelInfoOffset \<leftarrow> readU16Le d (64 + 12);
       channelInfoLength \<leftarrow> readU16Le d (64 + 14);
       Some (Success
         \<lparr>wrr_status = hdr_status header, wrr_count = count, wrr_remaining = remaining,
          wrr_writeChannelInfoOffset = channelInfoOffset,
          wrr_writeChannelInfoLength = channelInfoLength\<rparr>) })"

section \<open>IOCTL, SET_INFO, QUERY_INFO\<close>

record IoctlResponse =
  ior_status :: u32
  ior_ctlCode :: u32
  ior_fileId :: FileId
  ior_input :: bytes
  ior_output :: bytes
  ior_flags :: u32

definition decodeIoctlResponse :: "bytes \<Rightarrow> IoctlResponse DecodeResult option" where
  "decodeIoctlResponse d =
     successResponse CmdIoctl ''an IOCTL'' ''SMB2 IOCTL'' 48 49 d (\<lambda>header. do {
       inputOffset \<leftarrow> readU32Le d (64 + 24);
       inputCount \<leftarrow> readU32Le d (64 + 28);
       outputOffset \<leftarrow> readU32Le d (64 + 32);
       outputCount \<leftarrow> readU32Le d (64 + 36);
       if \<not> bufferInBounds (length d) (unat inputOffset) (unat inputCount) \<or>
          \<not> bufferInBounds (length d) (unat outputOffset) (unat outputCount)
       then Some (failure EcIoError ''SMB2 IOCTL response buffer is out of bounds.'')
       else do {
         ctlCode \<leftarrow> readU32Le d (64 + 4);
         persistent \<leftarrow> readU64Le d (64 + 8);
         volatileId \<leftarrow> readU64Le d (64 + 16);
         flags \<leftarrow> readU32Le d (64 + 40);
         input \<leftarrow> assignBuffer d (unat inputOffset) (unat inputCount);
         out \<leftarrow> assignBuffer d (unat outputOffset) (unat outputCount);
         Some (Success
           \<lparr>ior_status = hdr_status header, ior_ctlCode = ctlCode,
            ior_fileId = \<lparr>fid_persistent = persistent, fid_volatileId = volatileId\<rparr>,
            ior_input = input, ior_output = out, ior_flags = flags\<rparr>) } })"

record CopyChunkResponse =
  ccr_chunksWritten :: u32
  ccr_chunkBytesWritten :: u32
  ccr_totalBytesWritten :: u32

definition decodeSrvCopyChunkResponse :: "bytes \<Rightarrow> CopyChunkResponse DecodeResult option" where
  "decodeSrvCopyChunkResponse d =
    (if length d < 12
     then Some (failure EcIoError ''SRV_COPYCHUNK response buffer is shorter than fixed response.'')
     else do {
       chunksWritten \<leftarrow> readU32Le d 0;
       chunkBytesWritten \<leftarrow> readU32Le d 4;
       totalBytesWritten \<leftarrow> readU32Le d 8;
       Some (Success \<lparr>ccr_chunksWritten = chunksWritten, ccr_chunkBytesWritten = chunkBytesWritten,
                      ccr_totalBytesWritten = totalBytesWritten\<rparr>) })"

definition decodeSetInfoResponse :: "bytes \<Rightarrow> u32 DecodeResult option" where
  "decodeSetInfoResponse d =
     successResponse CmdSetInfo ''a SET_INFO'' ''SMB2 SET_INFO'' 2 2 d
       (\<lambda>header. Some (Success (hdr_status header)))"

record QueryInfoResponse =
  qir_status :: u32
  qir_outputBufferOffset :: u16
  qir_buffer :: bytes

definition decodeQueryInfoResponse :: "bytes \<Rightarrow> QueryInfoResponse DecodeResult option" where
  "decodeQueryInfoResponse d =
     successResponse CmdQueryInfo ''a QUERY_INFO'' ''SMB2 QUERY_INFO'' 8 9 d (\<lambda>header. do {
       outputOffset \<leftarrow> readU16Le d (64 + 2);
       outputLength \<leftarrow> readU32Le d (64 + 4);
       if \<not> bufferInBounds (length d) (unat outputOffset) (unat outputLength)
       then Some (failure EcIoError ''SMB2 QUERY_INFO response output buffer is out of bounds.'')
       else do {
         buffer \<leftarrow> assignBuffer d (unat outputOffset) (unat outputLength);
         Some (Success \<lparr>qir_status = hdr_status header, qir_outputBufferOffset = outputOffset,
                        qir_buffer = buffer\<rparr>) } })"

section \<open>File information buffers\<close>

record FileBasicInformation =
  fbi_creationTime :: u64
  fbi_lastAccessTime :: u64
  fbi_lastWriteTime :: u64
  fbi_changeTime :: u64
  fbi_fileAttributes :: u32

definition buildFileBasicInformation :: "FileBasicInformation \<Rightarrow> bytes" where
  "buildFileBasicInformation info =
     le64 (fbi_creationTime info) @ le64 (fbi_lastAccessTime info) @ le64 (fbi_lastWriteTime info) @
     le64 (fbi_changeTime info) @ le32 (fbi_fileAttributes info) @ le32 0"

definition decodeFileBasicInformation :: "bytes \<Rightarrow> FileBasicInformation DecodeResult option" where
  "decodeFileBasicInformation d =
    (if length d < 40
     then Some (failure EcIoError ''FILE_BASIC_INFORMATION buffer is shorter than 40 bytes.'')
     else do {
       creationTime \<leftarrow> readU64Le d 0;
       lastAccessTime \<leftarrow> readU64Le d 8;
       lastWriteTime \<leftarrow> readU64Le d 16;
       changeTime \<leftarrow> readU64Le d 24;
       fileAttributes \<leftarrow> readU32Le d 32;
       Some (Success \<lparr>fbi_creationTime = creationTime, fbi_lastAccessTime = lastAccessTime,
                      fbi_lastWriteTime = lastWriteTime, fbi_changeTime = changeTime,
                      fbi_fileAttributes = fileAttributes\<rparr>) })"

record FileStandardInformation =
  fsi_allocationSize :: u64
  fsi_endOfFile :: u64
  fsi_numberOfLinks :: u32
  fsi_deletePending :: bool
  fsi_directory :: bool

definition decodeFileStandardInformation :: "bytes \<Rightarrow> FileStandardInformation DecodeResult option" where
  "decodeFileStandardInformation d =
    (if length d < 24
     then Some (failure EcIoError ''FILE_STANDARD_INFORMATION buffer is shorter than 24 bytes.'')
     else do {
       allocationSize \<leftarrow> readU64Le d 0;
       endOfFile \<leftarrow> readU64Le d 8;
       numberOfLinks \<leftarrow> readU32Le d 16;
       deletePending \<leftarrow> byte_at d 20;
       directory \<leftarrow> byte_at d 21;
       Some (Success \<lparr>fsi_allocationSize = allocationSize, fsi_endOfFile = endOfFile,
                      fsi_numberOfLinks = numberOfLinks, fsi_deletePending = (deletePending \<noteq> 0),
                      fsi_directory = (directory \<noteq> 0)\<rparr>) })"

section \<open>No decoder reads outside the message\<close>

lemma decodeNegotiateResponse_total: "decodeNegotiateResponse d offered \<noteq> None"
  unfolding decodeNegotiateResponse_def
  by (rule successResponse_total) (auto simp: in_bounds Let_def simp del: not_None_eq)

lemma decodeSessionSetupResponse_total: "decodeSessionSetupResponse d \<noteq> None"
  unfolding decodeSessionSetupResponse_def Let_def
  by (rule responseHeader_total)
     (auto simp: responseBody_eq_None in_bounds assignBuffer_in simp del: not_None_eq)

lemma decodeTreeConnectResponse_total: "decodeTreeConnectResponse d \<noteq> None"
  unfolding decodeTreeConnectResponse_def
  by (rule successResponse_total) (auto simp: in_bounds simp del: not_None_eq)

lemma decodeCreateResponse_total: "decodeCreateResponse d \<noteq> None"
  unfolding decodeCreateResponse_def
  by (rule successResponse_total) (auto simp: in_bounds simp del: not_None_eq)

lemma decodeCloseResponse_total: "decodeCloseResponse d \<noteq> None"
  unfolding decodeCloseResponse_def
  by (rule successResponse_total) (auto simp: in_bounds simp del: not_None_eq)

lemma decodeReadResponse_total: "decodeReadResponse d \<noteq> None"
  unfolding decodeReadResponse_def
  by (rule successResponse_total) (auto simp: in_bounds assignBuffer_in simp del: not_None_eq)

lemma decodeWriteResponse_total: "decodeWriteResponse d \<noteq> None"
  unfolding decodeWriteResponse_def
  by (rule successResponse_total) (auto simp: in_bounds simp del: not_None_eq)

lemma decodeIoctlResponse_total: "decodeIoctlResponse d \<noteq> None"
  unfolding decodeIoctlResponse_def
  by (rule successResponse_total) (auto simp: in_bounds assignBuffer_in simp del: not_None_eq)

lemma decodeQueryInfoResponse_total: "decodeQueryInfoResponse d \<noteq> None"
  unfolding decodeQueryInfoResponse_def
  by (rule successResponse_total) (auto simp: in_bounds assignBuffer_in simp del: not_None_eq)

lemma decodeStatusResponse_total:
  "decodeTreeDisconnectResponse d \<noteq> None" "decodeLogoffResponse d \<noteq> None" "decodeSetInfoResponse d \<noteq> None"
  unfolding decodeTreeDisconnectResponse_def decodeLogoffResponse_def decodeSetInfoResponse_def
  by (rule successResponse_total; simp)+

lemma decodeSrvCopyChunkResponse_total: "decodeSrvCopyChunkResponse d \<noteq> None"
  by (auto simp: decodeSrvCopyChunkResponse_def in_bounds simp del: not_None_eq)

lemma decodeFileInformation_total:
  "decodeFileBasicInformation d \<noteq> None" "decodeFileStandardInformation d \<noteq> None"
  by (auto simp: decodeFileBasicInformation_def decodeFileStandardInformation_def in_bounds
      simp del: not_None_eq)

section \<open>The contract of a response decoder\<close>

locale response_decoder =
  fixes decode :: "bytes \<Rightarrow> 'r DecodeResult option"
    and command :: Command
    and accepted :: "u32 set"
  assumes total: "decode d \<noteq> None"
    and accepts: "decode d = Some (Success r) \<Longrightarrow> \<exists>h. answers command d h \<and> hdr_status h \<in> accepted"
    and reports: "answers command d h \<Longrightarrow> hdr_status h \<notin> accepted \<Longrightarrow>
      \<exists>e. decode d = Some (Failure e) \<and> pe_code e = errorCodeForNtStatus (hdr_status h)"
begin

lemma cases_of:
  obtains (ok) r h where "decode d = Some (Success r)" "answers command d h" "hdr_status h \<in> accepted"
  | (failed) e where "decode d = Some (Failure e)"
proof (cases "decode d")
  case None
  then show ?thesis by (simp add: total)
next
  case (Some r)
  then show ?thesis by (cases r) (use accepts ok failed in blast)+
qed

lemma short_rejected: "length d < 64 \<Longrightarrow> \<exists>e. decode d = Some (Failure e)"
  by (rule cases_of [of d]) (auto simp: answers_def dest: decodeSmb2SyncHeader_Success)

text \<open>A message of the client, which has no server flag, is never taken for an answer.\<close>

lemma request_rejected:
  assumes "wf_header h" "hdr_flags h AND kFlagServerToRedir = 0 \<or> hdr_command h \<noteq> command"
  shows "\<exists>e. decode (encodeSmb2SyncHeader h @ body) = Some (Failure e)"
  using assms by (auto intro: cases_of [of "encodeSmb2SyncHeader h @ body"] simp: answers_encode)

lemma status_reported:
  assumes "wf_header h" "hdr_command h = command" "hdr_flags h AND kFlagServerToRedir \<noteq> 0"
    and "hdr_status h \<notin> accepted"
  shows "\<exists>e. decode (encodeSmb2SyncHeader h @ body) = Some (Failure e) \<and>
     pe_code e = errorCodeForNtStatus (hdr_status h)"
  using assms by (intro reports) (simp_all add: answers_encode)

end

text \<open>Every decoder satisfies it. The laws follow from those of the two combinators.\<close>

lemma responseHeader_reports:
  assumes "answers command d h" "k h = Some (failureFromNtStatus (hdr_status h) m)"
  shows "\<exists>e. responseHeader command article name d k = Some (Failure e) \<and>
     pe_code e = errorCodeForNtStatus (hdr_status h)"
  using assms by (auto simp: responseHeader_def answers_def failureFromNtStatus_def failure_def failureUsing_def)

lemma success_decoder:
  assumes "\<And>d. decode d \<noteq> None"
    and "\<And>d. decode d = successResponse command article name fixedSize structureSize d (k d)"
  shows "response_decoder decode command {kStatusSuccess}"
proof
  fix d h assume "answers command d h" "hdr_status h \<notin> {kStatusSuccess}"
  then show "\<exists>e. decode d = Some (Failure e) \<and> pe_code e = errorCodeForNtStatus (hdr_status h)"
    unfolding assms(2) successResponse_def by (intro responseHeader_reports) simp_all
qed (simp_all add: assms(1), auto simp: assms(2) successResponse_Success)

interpretation negotiate: response_decoder "\<lambda>d. decodeNegotiateResponse d offered" CmdNegotiate "{kStatusSuccess}"
  for offered
  by (rule success_decoder [OF decodeNegotiateResponse_total decodeNegotiateResponse_def])

interpretation treeConnect: response_decoder decodeTreeConnectResponse CmdTreeConnect "{kStatusSuccess}"
  by (rule success_decoder [OF decodeTreeConnectResponse_total decodeTreeConnectResponse_def])

interpretation treeDisconnect: response_decoder decodeTreeDisconnectResponse CmdTreeDisconnect "{kStatusSuccess}"
  by (rule success_decoder [OF decodeStatusResponse_total(1) decodeTreeDisconnectResponse_def])

interpretation logoff: response_decoder decodeLogoffResponse CmdLogoff "{kStatusSuccess}"
  by (rule success_decoder [OF decodeStatusResponse_total(2) decodeLogoffResponse_def])

interpretation createFile: response_decoder decodeCreateResponse CmdCreate "{kStatusSuccess}"
  by (rule success_decoder [OF decodeCreateResponse_total decodeCreateResponse_def])

interpretation closeFile: response_decoder decodeCloseResponse CmdClose "{kStatusSuccess}"
  by (rule success_decoder [OF decodeCloseResponse_total decodeCloseResponse_def])

interpretation readFile: response_decoder decodeReadResponse CmdRead "{kStatusSuccess}"
  by (rule success_decoder [OF decodeReadResponse_total decodeReadResponse_def])

interpretation writeFile: response_decoder decodeWriteResponse CmdWrite "{kStatusSuccess}"
  by (rule success_decoder [OF decodeWriteResponse_total decodeWriteResponse_def])

interpretation ioctl: response_decoder decodeIoctlResponse CmdIoctl "{kStatusSuccess}"
  by (rule success_decoder [OF decodeIoctlResponse_total decodeIoctlResponse_def])

interpretation setInfo: response_decoder decodeSetInfoResponse CmdSetInfo "{kStatusSuccess}"
  by (rule success_decoder [OF decodeStatusResponse_total(3) decodeSetInfoResponse_def])

interpretation queryInfo: response_decoder decodeQueryInfoResponse CmdQueryInfo "{kStatusSuccess}"
  by (rule success_decoder [OF decodeQueryInfoResponse_total decodeQueryInfoResponse_def])

interpretation sessionSetup:
  response_decoder decodeSessionSetupResponse CmdSessionSetup "{kStatusSuccess, kStatusMoreProcessingRequired}"
proof
  fix d h assume "answers CmdSessionSetup d h" "hdr_status h \<notin> {kStatusSuccess, kStatusMoreProcessingRequired}"
  then show "\<exists>e. decodeSessionSetupResponse d = Some (Failure e) \<and> pe_code e = errorCodeForNtStatus (hdr_status h)"
    unfolding decodeSessionSetupResponse_def by (intro responseHeader_reports) simp_all
qed (simp add: decodeSessionSetupResponse_total,
     auto simp: decodeSessionSetupResponse_def responseHeader_Success Let_def split: if_splits)

section \<open>Properties\<close>

lemmas rejecting =
  treeConnect.request_rejected treeDisconnect.request_rejected logoff.request_rejected createFile.request_rejected
  closeFile.request_rejected readFile.request_rejected writeFile.request_rejected ioctl.request_rejected
  setInfo.request_rejected queryInfo.request_rejected sessionSetup.request_rejected negotiate.request_rejected

text \<open>
  No decoder of a fixed-layout message or buffer reads outside the bytes it is given,
  whatever they are: it always returns a result.
\<close>
lemma fixed_decoders_in_bounds:
  "decodeSmb2SyncHeader d \<noteq> None \<and> decodeNegotiateResponse d offered \<noteq> None \<and>
   decodeSessionSetupResponse d \<noteq> None \<and> decodeTreeConnectResponse d \<noteq> None \<and>
   decodeTreeDisconnectResponse d \<noteq> None \<and> decodeLogoffResponse d \<noteq> None \<and> decodeCreateResponse d \<noteq> None \<and>
   decodeCloseResponse d \<noteq> None \<and> decodeReadResponse d \<noteq> None \<and> decodeWriteResponse d \<noteq> None \<and>
   decodeIoctlResponse d \<noteq> None \<and> decodeSetInfoResponse d \<noteq> None \<and> decodeQueryInfoResponse d \<noteq> None \<and>
   decodeSrvCopyChunkResponse d \<noteq> None \<and> decodeFileBasicInformation d \<noteq> None \<and>
   decodeFileStandardInformation d \<noteq> None \<and> decodeDirectTcpPayload d \<noteq> None"
  by (simp add: decodeSmb2SyncHeader_total negotiate.total sessionSetup.total treeConnect.total
      treeDisconnect.total logoff.total createFile.total closeFile.total readFile.total writeFile.total
      ioctl.total setInfo.total queryInfo.total decodeSrvCopyChunkResponse_total decodeFileInformation_total
      decodeDirectTcpPayload_total del: not_None_eq)

text \<open>
  A message reflected to the client is not an answer: a message without the
  server-to-redirector flag is refused by every response decoder, whatever its body is.
\<close>
lemma reflected_requests_refused:
  fixes h :: Smb2SyncHeader and body :: bytes
  assumes "wf_header h" "hdr_flags h AND kFlagServerToRedir = 0"
  defines "d \<equiv> encodeSmb2SyncHeader h @ body"
  shows "(\<exists>e. decodeNegotiateResponse d offered = Some (Failure e)) \<and>
    (\<exists>e. decodeSessionSetupResponse d = Some (Failure e)) \<and> (\<exists>e. decodeTreeConnectResponse d = Some (Failure e)) \<and>
    (\<exists>e. decodeTreeDisconnectResponse d = Some (Failure e)) \<and> (\<exists>e. decodeLogoffResponse d = Some (Failure e)) \<and>
    (\<exists>e. decodeCreateResponse d = Some (Failure e)) \<and> (\<exists>e. decodeCloseResponse d = Some (Failure e)) \<and>
    (\<exists>e. decodeReadResponse d = Some (Failure e)) \<and> (\<exists>e. decodeWriteResponse d = Some (Failure e)) \<and>
    (\<exists>e. decodeIoctlResponse d = Some (Failure e)) \<and> (\<exists>e. decodeSetInfoResponse d = Some (Failure e)) \<and>
    (\<exists>e. decodeQueryInfoResponse d = Some (Failure e))"
  unfolding d_def by (intro conjI rejecting disjI1 assms(1,2))

lemma reflected_requests_refused_witness:
  "\<exists>e. decodeSetInfoResponse (encodeSmb2SyncHeader (requestHeader CmdSetInfo 1 2 3 1 1) @ le16 2) = Some (Failure e)"
  using reflected_requests_refused [of "requestHeader CmdSetInfo 1 2 3 1 1" "le16 2"] by simp

section \<open>Data\<close>

text \<open>A READ response as a server sends it: the data lies \<open>length gap\<close> bytes behind the
  fixed part.\<close>

definition readMessage :: "Smb2SyncHeader \<Rightarrow> u32 \<Rightarrow> bytes \<Rightarrow> bytes \<Rightarrow> bytes" where
  "readMessage h remaining gap payload =
     encodeSmb2SyncHeader h @ le16 17 @ [word_of_nat (80 + length gap), 0] @
     le32 (word_of_nat (length payload)) @ le32 remaining @ le32 0 @ gap @ payload"

text \<open>
  READ delivers the file's bytes: from a successful READ response, with its data at
  any offset the one-byte field can hold, the decoder returns exactly the data sent.
\<close>
lemma read_response_delivers:
  assumes "wf_header h" "hdr_command h = CmdRead" "hdr_flags h AND kFlagServerToRedir \<noteq> 0"
    and "hdr_status h = kStatusSuccess" "length gap \<le> 175" "length payload \<le> 0xFFFFFFFF"
  shows "decodeReadResponse (readMessage h remaining gap payload) =
     Some (Success \<lparr>rdr_status = kStatusSuccess, rdr_dataOffset = word_of_nat (80 + length gap),
        rdr_dataRemaining = remaining, rdr_flags = 0, rdr_data = payload\<rparr>)"
proof -
  have off: "unat (80 + word_of_nat (length gap) :: u8) = 80 + length gap"
  proof -
    have "unat (word_of_nat (80 + length gap) :: u8) = 80 + length gap"
      using assms(5) by (simp add: unsigned_of_nat take_bit_nat_eq_self del: of_nat_add)
    then show ?thesis by simp
  qed
  have len: "unat (word_of_nat (length payload) :: u32) = length payload" by (rule unat_of_nat32 [OF assms(6)])
  show ?thesis
    using assms(1-5)
    by (auto simp: decodeReadResponse_def readMessage_def successResponse_def responseHeader_def responseBody_def
        decodeSmb2SyncHeader_encode wire off len bufferInBounds_def assignBuffer_def Let_def
        simp del: byte_at_in)
qed

lemma read_response_delivers_witness:
  "decodeReadResponse (readMessage (defaultHeader\<lparr>hdr_command := CmdRead, hdr_flags := 1\<rparr>) 0 [0] [10, 20, 30]) =
     Some (Success \<lparr>rdr_status = 0, rdr_dataOffset = 81, rdr_dataRemaining = 0, rdr_flags = 0, rdr_data = [10, 20, 30]\<rparr>)"
  by (subst read_response_delivers) (simp_all add: defaultHeader_def wf_header_def)



text \<open>
  The exception is a failure that the rest of the program takes for a success: a server
  that answers SET_INFO (a delete, a rename) with STATUS_NOTIFY_ENUM_DIR.
\<close>
lemma notify_enum_dir_failure_has_no_code:
  "\<exists>e. decodeSetInfoResponse (encodeSmb2SyncHeader (defaultHeader\<lparr>hdr_command := CmdSetInfo, hdr_flags := 1,
        hdr_status := kStatusNotifyEnumDir\<rparr>)) = Some (Failure e) \<and> pe_code e = EcNone"
  using setInfo.status_reported [of "defaultHeader\<lparr>hdr_command := CmdSetInfo, hdr_flags := 1,
        hdr_status := kStatusNotifyEnumDir\<rparr>" "[]"]
  by (auto simp: defaultHeader_def wf_header_def errorCodeForNtStatus_def)

end
