(* ===== verification/Listings.thy ===== *)
theory Listings
  imports Responses
begin

text \<open>
  The decoders of \<open>Protocol.cpp\<close> whose buffer is a chain of entries, each holding the
  distance to the next one: FILE_ID_BOTH_DIR_INFORMATION, FILE_NOTIFY_INFORMATION and
  FILE_FULL_EA_INFORMATION, and the builder of the last. The three \<open>while\<close> loops are one
  function, \<open>entryChain\<close>, over the code that reads one entry; it is total because an
  offset that is not zero moves the position towards the end of the buffer.
\<close>

section \<open>Walking a chain\<close>

function entryChain ::
  "(nat \<Rightarrow> ('e \<times> u32) DecodeResult option) \<Rightarrow> nat \<Rightarrow> nat \<Rightarrow> 'e list \<Rightarrow> 'e list DecodeResult option"
where
  "entryChain parse entriesEnd entryOffset entries =
    (if entryOffset < entriesEnd
     then do {
       r \<leftarrow> parse entryOffset;
       case r of
         Failure e \<Rightarrow> Some (failureFrom e)
       | Success (parsed, nextEntryOffset) \<Rightarrow>
           if nextEntryOffset = 0 then Some (Success (entries @ [parsed]))
           else entryChain parse entriesEnd (entryOffset + unat nextEntryOffset) (entries @ [parsed]) }
     else Some (Success entries))"
  by pat_completeness auto

termination
  by (relation "measure (\<lambda>(parse, entriesEnd, entryOffset, entries). entriesEnd - entryOffset)")
    (auto simp: unat_gt_0 intro!: diff_less_mono2)

declare entryChain.simps [simp del]

section \<open>QUERY_DIRECTORY\<close>

record DirectoryEntry =
  den_name :: bytes
  den_fileIndex :: u32
  den_creationTime :: u64
  den_lastAccessTime :: u64
  den_lastWriteTime :: u64
  den_changeTime :: u64
  den_endOfFile :: u64
  den_allocationSize :: u64
  den_fileAttributes :: u32
  den_eaSizeOrReparseTag :: u32
  den_fileId :: u64
  den_isDirectory :: bool
  den_isReparsePoint :: bool

record QueryDirectoryResponse =
  qdr_status :: u32
  qdr_entries :: "DirectoryEntry list"

definition parseDirectoryEntry :: "bytes \<Rightarrow> nat \<Rightarrow> nat \<Rightarrow> (DirectoryEntry \<times> u32) DecodeResult option" where
  "parseDirectoryEntry d entriesEnd entryOffset =
    (if entriesEnd - entryOffset < 104
     then Some (failure EcIoError ''FILE_ID_BOTH_DIR_INFORMATION entry is shorter than fixed part.'')
     else do {
       nextEntryOffset \<leftarrow> readU32Le d entryOffset;
       fileNameLength \<leftarrow> readU32Le d (entryOffset + 60);
       let fileNameOffset = entryOffset + 104;
       let fileNameEnd = fileNameOffset + unat fileNameLength;
       if entriesEnd < fileNameEnd \<or> fileNameEnd < fileNameOffset
       then Some (failure EcIoError ''FILE_ID_BOTH_DIR_INFORMATION file name is out of bounds.'')
       else if nextEntryOffset \<noteq> 0 \<and>
         (nextEntryOffset < 104 + fileNameLength \<or> entriesEnd < entryOffset + unat nextEntryOffset)
       then Some (failure EcIoError ''FILE_ID_BOTH_DIR_INFORMATION next entry offset is invalid.'')
       else do {
         nameBytes \<leftarrow> slice d fileNameOffset fileNameEnd;
         decodedName \<leftarrow> decodeUtf16Le nameBytes;
         case decodedName of
           Failure e \<Rightarrow> Some (failureFrom e)
         | Success name \<Rightarrow> do {
             fileIndex \<leftarrow> readU32Le d (entryOffset + 4);
             creationTime \<leftarrow> readU64Le d (entryOffset + 8);
             lastAccessTime \<leftarrow> readU64Le d (entryOffset + 16);
             lastWriteTime \<leftarrow> readU64Le d (entryOffset + 24);
             changeTime \<leftarrow> readU64Le d (entryOffset + 32);
             endOfFile \<leftarrow> readU64Le d (entryOffset + 40);
             allocationSize \<leftarrow> readU64Le d (entryOffset + 48);
             fileAttributes \<leftarrow> readU32Le d (entryOffset + 56);
             eaSizeOrReparseTag \<leftarrow> readU32Le d (entryOffset + 64);
             fileId \<leftarrow> readU64Le d (entryOffset + 96);
             Some (Success
               (\<lparr>den_name = name, den_fileIndex = fileIndex, den_creationTime = creationTime,
                 den_lastAccessTime = lastAccessTime, den_lastWriteTime = lastWriteTime,
                 den_changeTime = changeTime, den_endOfFile = endOfFile,
                 den_allocationSize = allocationSize, den_fileAttributes = fileAttributes,
                 den_eaSizeOrReparseTag = eaSizeOrReparseTag, den_fileId = fileId,
                 den_isDirectory = (fileAttributes AND 0x00000010 \<noteq> 0),
                 den_isReparsePoint = (fileAttributes AND 0x00000400 \<noteq> 0)\<rparr>, nextEntryOffset)) } } })"

definition decodeQueryDirectoryResponse :: "bytes \<Rightarrow> QueryDirectoryResponse DecodeResult option" where
  "decodeQueryDirectoryResponse d =
     responseHeader CmdQueryDirectory ''a QUERY_DIRECTORY'' ''SMB2 QUERY_DIRECTORY'' d (\<lambda>header.
       let status = hdr_status header in
       if status = kStatusNoMoreFiles then Some (Success \<lparr>qdr_status = status, qdr_entries = []\<rparr>)
       else if status \<noteq> kStatusSuccess
       then Some (failureFromNtStatus status ''SMB2 QUERY_DIRECTORY'')
       else responseBody ''SMB2 QUERY_DIRECTORY'' 8 9 d (do {
         outputOffset \<leftarrow> readU16Le d (64 + 2);
         outputLength \<leftarrow> readU32Le d (64 + 4);
         let outputEnd = unat outputOffset + unat outputLength;
         if \<not> bufferInBounds (length d) (unat outputOffset) (unat outputLength)
         then Some (failure EcIoError ''SMB2 QUERY_DIRECTORY response output buffer is out of bounds.'')
         else if 0 < outputLength
         then do {
           r \<leftarrow> entryChain (parseDirectoryEntry d outputEnd) outputEnd (unat outputOffset) [];
           case r of
             Failure e \<Rightarrow> Some (failureFrom e)
           | Success entries \<Rightarrow> Some (Success \<lparr>qdr_status = status, qdr_entries = entries\<rparr>) }
         else Some (Success \<lparr>qdr_status = status, qdr_entries = []\<rparr>) }))"

section \<open>CHANGE_NOTIFY\<close>

record ChangeNotifyEntry =
  cne_action :: u32
  cne_name :: bytes

record ChangeNotifyResponse =
  cnr_status :: u32
  cnr_outputBufferOffset :: u16
  cnr_entries :: "ChangeNotifyEntry list"

definition parseNotifyEntry :: "bytes \<Rightarrow> nat \<Rightarrow> nat \<Rightarrow> (ChangeNotifyEntry \<times> u32) DecodeResult option" where
  "parseNotifyEntry d entriesEnd entryOffset =
    (if entriesEnd - entryOffset < 12
     then Some (failure EcIoError ''FILE_NOTIFY_INFORMATION entry is shorter than fixed part.'')
     else do {
       nextEntryOffset \<leftarrow> readU32Le d entryOffset;
       fileNameLength \<leftarrow> readU32Le d (entryOffset + 8);
       let fileNameOffset = entryOffset + 12;
       let fileNameEnd = fileNameOffset + unat fileNameLength;
       if entriesEnd < fileNameEnd \<or> fileNameEnd < fileNameOffset
       then Some (failure EcIoError ''FILE_NOTIFY_INFORMATION file name is out of bounds.'')
       else if nextEntryOffset \<noteq> 0 \<and>
         (nextEntryOffset mod 4 \<noteq> 0 \<or> nextEntryOffset < 12 + fileNameLength \<or>
          entriesEnd < entryOffset + unat nextEntryOffset)
       then Some (failure EcIoError ''FILE_NOTIFY_INFORMATION next entry offset is invalid.'')
       else do {
         nameBytes \<leftarrow> slice d fileNameOffset fileNameEnd;
         decodedName \<leftarrow> decodeUtf16Le nameBytes;
         case decodedName of
           Failure e \<Rightarrow> Some (failureFrom e)
         | Success name \<Rightarrow> do {
             action \<leftarrow> readU32Le d (entryOffset + 4);
             Some (Success (\<lparr>cne_action = action, cne_name = name\<rparr>, nextEntryOffset)) } } })"

definition decodeChangeNotifyResponse :: "bytes \<Rightarrow> ChangeNotifyResponse DecodeResult option" where
  "decodeChangeNotifyResponse d =
     responseHeader CmdChangeNotify ''a CHANGE_NOTIFY'' ''SMB2 CHANGE_NOTIFY'' d (\<lambda>header.
       let status = hdr_status header in
       if status \<noteq> kStatusSuccess \<and> status \<noteq> kStatusNotifyEnumDir
       then Some (failureFromNtStatus status ''SMB2 CHANGE_NOTIFY'')
       else responseBody ''SMB2 CHANGE_NOTIFY'' 8 9 d (do {
         outputOffset \<leftarrow> readU16Le d (64 + 2);
         outputLength \<leftarrow> readU32Le d (64 + 4);
         let outputEnd = unat outputOffset + unat outputLength;
         if \<not> bufferInBounds (length d) (unat outputOffset) (unat outputLength)
         then Some (failure EcIoError ''SMB2 CHANGE_NOTIFY response output buffer is out of bounds.'')
         else if 0 < outputLength
         then do {
           r \<leftarrow> entryChain (parseNotifyEntry d outputEnd) outputEnd (unat outputOffset) [];
           case r of
             Failure e \<Rightarrow> Some (failureFrom e)
           | Success entries \<Rightarrow> Some (Success
               \<lparr>cnr_status = status, cnr_outputBufferOffset = outputOffset, cnr_entries = entries\<rparr>) }
         else Some (Success
           \<lparr>cnr_status = status, cnr_outputBufferOffset = outputOffset, cnr_entries = []\<rparr>) }))"

section \<open>Extended attributes\<close>

record FileFullEaInformation =
  ea_name :: bytes
  ea_value :: bytes
  ea_needEa :: bool

text \<open>One iteration of the builder; \<open>last\<close> is \<open>index + 1 = entries.size()\<close>. The loop that
  pads to \<open>alignedEntrySize\<close> is the number of zero bytes it pushes.\<close>

definition buildEaEntry :: "bool \<Rightarrow> FileFullEaInformation \<Rightarrow> string + bytes" where
  "buildEaEntry isLast e =
    (if ea_name e = [] then Inl ''SMB2 EA name is empty.''
     else if 255 < length (ea_name e) then Inl ''SMB2 EA name is too large.''
     else if 65535 < length (ea_value e) then Inl ''SMB2 EA value is too large.''
     else let fixedAndPayloadSize = 8 + length (ea_name e) + 1 + length (ea_value e);
              alignedEntrySize = (if isLast then fixedAndPayloadSize else (fixedAndPayloadSize + 3) div 4 * 4)
       in Inr (le32 (if isLast then 0 else word_of_nat alignedEntrySize) @
         [if ea_needEa e then 0x80 else 0, word_of_nat (length (ea_name e))] @
         le16 (word_of_nat (length (ea_value e))) @ ea_name e @ [0] @ ea_value e @
         replicate (alignedEntrySize - fixedAndPayloadSize) 0))"

fun buildFileFullEaInformation :: "FileFullEaInformation list \<Rightarrow> string + bytes" where
  "buildFileFullEaInformation [] = Inr []"
| "buildFileFullEaInformation (e # es) =
    (case buildEaEntry (es = []) e of Inl m \<Rightarrow> Inl m | Inr b \<Rightarrow>
     case buildFileFullEaInformation es of Inl m \<Rightarrow> Inl m | Inr rest \<Rightarrow> Inr (b @ rest))"

definition parseEaEntry :: "bytes \<Rightarrow> nat \<Rightarrow> (FileFullEaInformation \<times> u32) DecodeResult option" where
  "parseEaEntry d offset =
    (if length d - offset < 8
     then Some (failure EcIoError ''FILE_FULL_EA_INFORMATION entry is shorter than fixed header.'')
     else do {
       nextEntryOffset \<leftarrow> readU32Le d offset;
       flags \<leftarrow> byte_at d (offset + 4);
       nameLength \<leftarrow> byte_at d (offset + 5);
       valueLength \<leftarrow> readU16Le d (offset + 6);
       let nameOffset = offset + 8;
       let valueOffset = nameOffset + unat nameLength + 1;
       let entryEnd = valueOffset + unat valueLength;
       if length d < entryEnd
       then Some (failure EcIoError ''FILE_FULL_EA_INFORMATION entry payload is out of bounds.'')
       else do {
         terminator \<leftarrow> byte_at d (nameOffset + unat nameLength);
         if terminator \<noteq> 0
         then Some (failure EcProtocolUnsupported ''FILE_FULL_EA_INFORMATION entry name is not NUL-terminated.'')
         else do {
           name \<leftarrow> slice d nameOffset (nameOffset + unat nameLength);
           value \<leftarrow> slice d valueOffset entryEnd;
           if nextEntryOffset \<noteq> 0 \<and>
              (nextEntryOffset < 8 \<or> offset + unat nextEntryOffset \<le> offset \<or>
               length d < offset + unat nextEntryOffset)
           then Some (failure EcIoError ''FILE_FULL_EA_INFORMATION next entry offset is invalid.'')
           else Some (Success (\<lparr>ea_name = name, ea_value = value, ea_needEa = (flags AND 0x80 \<noteq> 0)\<rparr>,
                               nextEntryOffset)) } } })"

definition decodeFileFullEaInformation :: "bytes \<Rightarrow> FileFullEaInformation list DecodeResult option" where
  "decodeFileFullEaInformation d = entryChain (parseEaEntry d) (length d) 0 []"

section \<open>What a chain is\<close>

text \<open>The specification of the loop: the entries from \<open>start\<close> on, each \<open>n\<close> bytes after the
  one before, up to an entry that says it is the last or to the end of the buffer.\<close>

inductive chained :: "(nat \<Rightarrow> ('e \<times> u32) DecodeResult option) \<Rightarrow> nat \<Rightarrow> nat \<Rightarrow> 'e list \<Rightarrow> bool"
  for parse limit where
  chained_end: "limit \<le> start \<Longrightarrow> chained parse limit start []"
| chained_last: "start < limit \<Longrightarrow> parse start = Some (Success (e, 0)) \<Longrightarrow> chained parse limit start [e]"
| chained_more: "start < limit \<Longrightarrow> parse start = Some (Success (e, n)) \<Longrightarrow> n \<noteq> 0 \<Longrightarrow>
    chained parse limit (start + unat n) es \<Longrightarrow> chained parse limit start (e # es)"

inductive_cases chained_elim: "chained parse limit start es"

lemma entryChain_stop: "limit \<le> start \<Longrightarrow> entryChain parse limit start acc = Some (Success acc)"
  by (simp add: entryChain.simps)

lemma entryChain_step:
  "start < limit \<Longrightarrow> parse start = Some (Success (e, n)) \<Longrightarrow> entryChain parse limit start acc =
     (if n = 0 then Some (Success (acc @ [e])) else entryChain parse limit (start + unat n) (acc @ [e]))"
  by (subst entryChain.simps) simp

lemma entryChain_fail:
  "start < limit \<Longrightarrow> parse start = Some (Failure e) \<Longrightarrow> entryChain parse limit start acc = Some (failureFrom e)"
  by (subst entryChain.simps) simp

lemma entryChain_undefined:
  "start < limit \<Longrightarrow> parse start = None \<Longrightarrow> entryChain parse limit start acc = None"
  by (subst entryChain.simps) simp

lemmas entryChain_rules = entryChain_stop entryChain_step entryChain_fail entryChain_undefined

lemma parse_cases [case_names finished undefined fail last more]:
  fixes start limit :: nat and parse :: "nat \<Rightarrow> ('e \<times> u32) DecodeResult option"
  obtains (finished) "limit \<le> start" | (undefined) "start < limit" "parse start = None"
  | (fail) e where "start < limit" "parse start = Some (Failure e)"
  | (last) e where "start < limit" "parse start = Some (Success (e, 0))"
  | (more) e n where "start < limit" "parse start = Some (Success (e, n))" "n \<noteq> (0 :: u32)"
proof (cases "limit \<le> start")
  case True
  then show ?thesis by (rule finished)
next
  case False
  then have lt: "start < limit" by simp
  show ?thesis
  proof (cases "parse start")
    case None
    with lt show ?thesis by (rule undefined)
  next
    case (Some r)
    then show ?thesis
      using lt by (cases r) (auto intro: fail, metis last more surj_pair)
  qed
qed

lemma entryChain_sound:
  "entryChain parse limit start acc = Some (Success es) \<Longrightarrow> \<exists>xs. es = acc @ xs \<and> chained parse limit start xs"
proof (induction parse limit start acc arbitrary: es rule: entryChain.induct)
  case (1 parse limit start acc)
  show ?case
  proof (cases rule: parse_cases [where limit = limit and start = start and parse = parse])
    case (more e n)
    with "1.prems" have "entryChain parse limit (start + unat n) (acc @ [e]) = Some (Success es)"
      by (simp add: entryChain_step)
    from "1.IH" [OF more(1,2) refl refl more(3) this] more show ?thesis
      by (auto intro: chained_more)
  qed (use "1.prems" in \<open>auto simp: entryChain_rules intro: chained_end chained_last\<close>)
qed

lemma entryChain_complete:
  "chained parse limit start xs \<Longrightarrow> entryChain parse limit start acc = Some (Success (acc @ xs))"
  by (induction arbitrary: acc rule: chained.induct) (simp_all add: entryChain_rules)

lemma entryChain_iff:
  "entryChain parse limit start [] = Some (Success xs) \<longleftrightarrow> chained parse limit start xs"
  using entryChain_sound [of parse limit start "[]" xs] entryChain_complete [of parse limit start xs "[]"] by auto

lemma entryChain_total:
  assumes "\<And>p. start \<le> p \<Longrightarrow> p < limit \<Longrightarrow> parse p \<noteq> None"
  shows "entryChain parse limit start acc \<noteq> None"
  using assms
proof (induction parse limit start acc rule: entryChain.induct)
  case (1 parse limit start acc)
  show ?case
  proof (cases rule: parse_cases [where limit = limit and start = start and parse = parse])
    case (more e n)
    with "1.IH" [OF more(1,2) refl refl more(3)] "1.prems" show ?thesis by (simp add: entryChain_step)
  qed (use "1.prems" in \<open>auto simp: entryChain_rules failureFrom_def\<close>)
qed

text \<open>When every entry takes at least \<open>w\<close> bytes, the number of entries is bounded.\<close>

lemma chained_bound:
  assumes "chained parse limit start es"
    and "\<And>p e n. start \<le> p \<Longrightarrow> p < limit \<Longrightarrow> parse p = Some (Success (e, n)) \<Longrightarrow>
       p + w \<le> limit \<and> (n \<noteq> 0 \<longrightarrow> w \<le> unat n \<and> p + unat n \<le> limit)"
    and "start \<le> limit"
  shows "start + length es * w \<le> limit"
  using assms
proof (induction rule: chained.induct)
  case (chained_more start e n es)
  have here: "w \<le> unat n" "start + unat n \<le> limit"
    using chained_more.prems(1) [OF le_refl chained_more.hyps(1,2)] chained_more.hyps(3) by auto
  have "start + unat n + length es * w \<le> limit"
    by (rule chained_more.IH [OF _ here(2)]) (rule chained_more.prems(1), simp_all)
  then show ?case using here(1) by simp
qed force+

section \<open>The three readers of entries\<close>

lemma unat_plus_length:
  fixes x k :: u32 assumes "unat k + unat x < 2 ^ 32" shows "unat (k + x) = unat k + unat x"
  using assms by (simp add: unat_add_lem [THEN iffD1])

lemma parseDirectoryEntry_total:
  assumes "p < limit" "limit \<le> length d"
  shows "parseDirectoryEntry d limit p \<noteq> None"
  using assms decodeUtf16Le_total
  by (auto simp: parseDirectoryEntry_def in_bounds Let_def simp del: not_None_eq)

lemma parseNotifyEntry_total:
  assumes "p < limit" "limit \<le> length d"
  shows "parseNotifyEntry d limit p \<noteq> None"
  using assms decodeUtf16Le_total
  by (auto simp: parseNotifyEntry_def in_bounds Let_def simp del: not_None_eq)

lemma parseEaEntry_total: "p < length d \<Longrightarrow> parseEaEntry d p \<noteq> None"
  by (auto simp: parseEaEntry_def in_bounds Let_def simp del: not_None_eq)

lemma parseDirectoryEntry_size:
  assumes "parseDirectoryEntry d limit p = Some (Success (e, n))" "p < limit" "limit \<le> 0xFFFFFF"
  shows "p + 104 \<le> limit \<and> (n \<noteq> 0 \<longrightarrow> 104 \<le> unat n \<and> p + unat n \<le> limit)"
  using assms
  by (auto simp: parseDirectoryEntry_def Let_def bind_eq_Some_conv not_less word_le_nat_alt unat_plus_length split: if_splits)

lemma parseNotifyEntry_size:
  assumes "parseNotifyEntry d limit p = Some (Success (e, n))" "p < limit" "limit \<le> 0xFFFFFF"
  shows "p + 12 \<le> limit \<and> (n \<noteq> 0 \<longrightarrow> 12 \<le> unat n \<and> p + unat n \<le> limit)"
  using assms
  by (auto simp: parseNotifyEntry_def Let_def bind_eq_Some_conv not_less word_le_nat_alt unat_plus_length split: if_splits)

lemma parseEaEntry_size:
  assumes "parseEaEntry d p = Some (Success (e, n))" "p < length d"
  shows "p + 8 \<le> length d \<and> (n \<noteq> 0 \<longrightarrow> 8 \<le> unat n \<and> p + unat n \<le> length d)"
  using assms
  by (auto simp: parseEaEntry_def Let_def bind_eq_Some_conv not_less word_le_nat_alt split: if_splits)

section \<open>The decoders\<close>

lemma bufferInBounds_limit:
  "bufferInBounds n offset count \<Longrightarrow> 0 < count \<Longrightarrow> offset + count \<le> n"
  by (simp add: bufferInBounds_def Let_def)

lemma decodeQueryDirectoryResponse_total: "decodeQueryDirectoryResponse d \<noteq> None"
proof -
  have "0 < count \<Longrightarrow> bufferInBounds (length d) offset count \<Longrightarrow>
    entryChain (parseDirectoryEntry d (offset + count)) (offset + count) offset [] \<noteq> None" for offset count
    by (rule entryChain_total) (auto intro!: parseDirectoryEntry_total [simplified] dest: bufferInBounds_limit)
  then show ?thesis
    unfolding decodeQueryDirectoryResponse_def Let_def
    by (intro responseHeader_total)
      (auto simp: responseBody_eq_None in_bounds unat_gt_0 word_gt_0 simp del: not_None_eq)
qed

lemma decodeChangeNotifyResponse_total: "decodeChangeNotifyResponse d \<noteq> None"
proof -
  have "0 < count \<Longrightarrow> bufferInBounds (length d) offset count \<Longrightarrow>
    entryChain (parseNotifyEntry d (offset + count)) (offset + count) offset [] \<noteq> None" for offset count
    by (rule entryChain_total) (auto intro!: parseNotifyEntry_total [simplified] dest: bufferInBounds_limit)
  then show ?thesis
    unfolding decodeChangeNotifyResponse_def Let_def
    by (intro responseHeader_total)
      (auto simp: responseBody_eq_None in_bounds unat_gt_0 word_gt_0 simp del: not_None_eq)
qed

lemma decodeFileFullEaInformation_total: "decodeFileFullEaInformation d \<noteq> None"
  unfolding decodeFileFullEaInformation_def by (rule entryChain_total) (rule parseEaEntry_total)

interpretation queryDirectory:
  response_decoder decodeQueryDirectoryResponse CmdQueryDirectory "{kStatusSuccess, kStatusNoMoreFiles}"
proof
  fix d h assume "answers CmdQueryDirectory d h" "hdr_status h \<notin> {kStatusSuccess, kStatusNoMoreFiles}"
  then show "\<exists>e. decodeQueryDirectoryResponse d = Some (Failure e) \<and> pe_code e = errorCodeForNtStatus (hdr_status h)"
    unfolding decodeQueryDirectoryResponse_def by (intro responseHeader_reports) simp_all
qed (simp add: decodeQueryDirectoryResponse_total,
     auto simp: decodeQueryDirectoryResponse_def responseHeader_Success Let_def split: if_splits)

interpretation changeNotify:
  response_decoder decodeChangeNotifyResponse CmdChangeNotify "{kStatusSuccess, kStatusNotifyEnumDir}"
proof
  fix d h assume "answers CmdChangeNotify d h" "hdr_status h \<notin> {kStatusSuccess, kStatusNotifyEnumDir}"
  then show "\<exists>e. decodeChangeNotifyResponse d = Some (Failure e) \<and> pe_code e = errorCodeForNtStatus (hdr_status h)"
    unfolding decodeChangeNotifyResponse_def by (intro responseHeader_reports) simp_all
qed (simp add: decodeChangeNotifyResponse_total,
     auto simp: decodeChangeNotifyResponse_def responseHeader_Success Let_def split: if_splits)

section \<open>Extended attributes: building and reading back\<close>

lemma byte_of_length: "n \<le> 255 \<Longrightarrow> unat (word_of_nat n :: u8) = n"
  by (simp add: unsigned_of_nat take_bit_nat_eq_self)

lemma buildEaEntry_length:
  "buildEaEntry isLast e = Inr b \<Longrightarrow> 9 \<le> length b \<and> length b \<le> 66000"
  by (auto simp: buildEaEntry_def Let_def split: if_splits)

lemma buildEaEntry_shape:
  assumes "buildEaEntry isLast e = Inr b"
  obtains k where "length (ea_name e) \<le> 255" "length (ea_value e) \<le> 65535"
    "length b = 9 + length (ea_name e) + length (ea_value e) + k"
    "b = le32 (if isLast then 0 else word_of_nat (length b)) @
       [if ea_needEa e then 0x80 else 0, word_of_nat (length (ea_name e))] @
       le16 (word_of_nat (length (ea_value e))) @ ea_name e @ [0] @ ea_value e @ replicate k 0"
proof -
  define size where "size = 8 + length (ea_name e) + 1 + length (ea_value e)"
  define aligned where "aligned = (if isLast then size else (size + 3) div 4 * 4)"
  have "size \<le> (size + 3) div 4 * 4" using div_mult_mod_eq [of "size + 3" 4] mod_less_divisor [of 4 "size + 3"] by linarith
  then have "size \<le> aligned" by (simp add: aligned_def)
  have *: "length (ea_name e) \<le> 255" "length (ea_value e) \<le> 65535"
    and b: "b = le32 (if isLast then 0 else word_of_nat aligned) @
       [if ea_needEa e then 0x80 else 0, word_of_nat (length (ea_name e))] @
       le16 (word_of_nat (length (ea_value e))) @ ea_name e @ [0] @ ea_value e @ replicate (aligned - size) 0"
    using assms by (simp_all add: buildEaEntry_def Let_def size_def aligned_def split: if_splits)
  have len: "length b = aligned" unfolding b using \<open>size \<le> aligned\<close> by (simp add: size_def)
  show ?thesis using \<open>size \<le> aligned\<close>
    by (intro that [of "aligned - size"] *, unfold len b [symmetric]) (simp_all add: size_def b)
qed

lemma parseEaEntry_build:
  assumes "buildEaEntry isLast e = Inr b"
  shows "parseEaEntry (pre @ b @ rest) (length pre) =
     Some (Success (e, if isLast then 0 else word_of_nat (length b)))"
proof -
  obtain k where *: "length (ea_name e) \<le> 255" "length (ea_value e) \<le> 65535"
    "length b = 9 + length (ea_name e) + length (ea_value e) + k"
    "b = le32 (if isLast then 0 else word_of_nat (length b)) @
       [if ea_needEa e then 0x80 else 0, word_of_nat (length (ea_name e))] @
       le16 (word_of_nat (length (ea_value e))) @ ea_name e @ [0] @ ea_value e @ replicate k 0"
    using buildEaEntry_shape [OF assms] by metis
  define n where "n = (if isLast then 0 else word_of_nat (length b) :: u32)"
  have n: "n = 0 \<or> unat n = length b"
    using buildEaEntry_length [OF assms] by (simp add: n_def unat_of_nat32)
  define d where "d = pre @ b @ rest"
  have d: "d = pre @ le32 n @ [if ea_needEa e then 0x80 else 0, word_of_nat (length (ea_name e))] @
       le16 (word_of_nat (length (ea_value e))) @ ea_name e @ [0] @ ea_value e @ replicate k 0 @ rest"
    unfolding d_def n_def by (subst *(4)) simp
  have len: "length d = length pre + length b + length rest" by (simp add: d_def)
  let ?p = "length pre"
  have "readU32Le d ?p = Some n" "byte_at d (?p + 4) = Some (if ea_needEa e then 0x80 else 0)"
    "byte_at d (?p + 5) = Some (word_of_nat (length (ea_name e)))"
    "readU16Le d (?p + 6) = Some (word_of_nat (length (ea_value e)))"
    "byte_at d (?p + 8 + length (ea_name e)) = Some 0"
    "slice d (?p + 8) (?p + 8 + length (ea_name e)) = Some (ea_name e)"
    "slice d (?p + 8 + length (ea_name e) + 1) (?p + 8 + length (ea_name e) + 1 + length (ea_value e)) = Some (ea_value e)"
    unfolding d by (simp_all add: wire del: byte_at_in)
  moreover have "\<not> length d - ?p < 8" "\<not> length d < ?p + 8 + length (ea_name e) + 1 + length (ea_value e)"
    using *(3) by (simp_all add: len)
  moreover have "\<not> (n \<noteq> 0 \<and> (n < 8 \<or> ?p + unat n \<le> ?p \<or> length d < ?p + unat n))"
    using n buildEaEntry_length [OF assms] by (auto simp: len word_less_nat_alt)
  moreover have "\<lparr>ea_name = ea_name e, ea_value = ea_value e, ea_needEa = ((if ea_needEa e then 0x80 else 0 :: u8) AND 0x80 \<noteq> 0)\<rparr> = e"
    by simp
  ultimately show ?thesis
    unfolding d_def [symmetric] n_def [symmetric]
    by (simp add: parseEaEntry_def unat_of_nat16 [OF *(2)] byte_of_length [OF *(1)] Let_def del: de_Morgan_conj)
qed

lemma buildEaEntry_next_0:
  "buildEaEntry isLast e = Inr b \<Longrightarrow> (word_of_nat (length b) :: u32) \<noteq> 0"
  using buildEaEntry_length [of isLast e b] unat_of_nat32 [of "length b"] by force

lemma buildFileFullEaInformation_chained:
  assumes "buildFileFullEaInformation es = Inr b"
  shows "chained (parseEaEntry (pre @ b)) (length (pre @ b)) (length pre) es"
  using assms
proof (induction es arbitrary: pre b)
  case Nil
  then show ?case by (auto intro: chained_end)
next
  case (Cons e es)
  then obtain c r where c: "buildEaEntry (es = []) e = Inr c" and r: "buildFileFullEaInformation es = Inr r"
    and b: "b = c @ r" by (auto split: sum.splits)
  have lt: "length pre < length (pre @ b)" using buildEaEntry_length [OF c] b by auto
  note parse = parseEaEntry_build [OF c, of pre r, folded b]
  show ?case
  proof (cases "es = []")
    case True
    then show ?thesis using chained_last [OF lt] parse r by simp
  next
    case False
    have "unat (word_of_nat (length c) :: u32) = length c"
      using buildEaEntry_length [OF c] by (intro unat_of_nat32) simp
    moreover have "chained (parseEaEntry (pre @ b)) (length (pre @ b)) (length pre + length c) es"
      using Cons.IH [OF r, of "pre @ c"] by (simp add: b)
    ultimately show ?thesis
      using chained_more [OF lt, of _ e "word_of_nat (length c)"] parse False buildEaEntry_next_0 [OF c]
      by simp
  qed
qed

lemma decode_buildFileFullEaInformation:
  "buildFileFullEaInformation es = Inr b \<Longrightarrow> decodeFileFullEaInformation b = Some (Success es)"
  using buildFileFullEaInformation_chained [of es b "[]"]
  by (simp add: decodeFileFullEaInformation_def entryChain_iff)

lemma buildFileFullEaInformation_Inl:
  "(\<exists>m. buildFileFullEaInformation es = Inl m) \<longleftrightarrow>
     (\<exists>e \<in> set es. ea_name e = [] \<or> 255 < length (ea_name e) \<or> 65535 < length (ea_value e))"
  by (induction es) (auto simp: buildEaEntry_def Let_def split: sum.splits if_splits)

lemma decodeFileFullEaInformation_bound:
  "decodeFileFullEaInformation d = Some (Success es) \<Longrightarrow> 8 * length es \<le> length d"
  using chained_bound [of "parseEaEntry d" "length d" 0 es 8] parseEaEntry_size [of d]
  by (auto simp: decodeFileFullEaInformation_def entryChain_iff mult.commute)

section \<open>A listing as the server writes it\<close>

text \<open>One FILE_ID_BOTH_DIR_INFORMATION entry as [MS-FSCC] lays it out: the fixed part with
  28 bytes of short name and reserved fields, the name in UTF-16, and any padding.\<close>

type_synonym listedEntry = "bytes \<times> u32 list \<times> bytes \<times> DirectoryEntry"

fun wf_listed :: "listedEntry \<Rightarrow> bool" where
  "wf_listed (shortName, cs, padding, e) \<longleftrightarrow>
     length shortName = 28 \<and> list_all scalar cs \<and> den_name e = utf8 cs \<and>
     den_isDirectory e = (den_fileAttributes e AND 0x00000010 \<noteq> 0) \<and>
     den_isReparsePoint e = (den_fileAttributes e AND 0x00000400 \<noteq> 0)"

fun listedSize :: "listedEntry \<Rightarrow> nat" where
  "listedSize (shortName, cs, padding, e) = 104 + length (utf16 cs) + length padding"

fun listedBytes :: "bool \<Rightarrow> listedEntry \<Rightarrow> bytes" where
  "listedBytes isLast (shortName, cs, padding, e) =
     le32 (if isLast then 0 else word_of_nat (listedSize (shortName, cs, padding, e))) @
     le32 (den_fileIndex e) @ le64 (den_creationTime e) @ le64 (den_lastAccessTime e) @
     le64 (den_lastWriteTime e) @ le64 (den_changeTime e) @ le64 (den_endOfFile e) @
     le64 (den_allocationSize e) @ le32 (den_fileAttributes e) @
     le32 (word_of_nat (length (utf16 cs))) @ le32 (den_eaSizeOrReparseTag e) @ shortName @
     le64 (den_fileId e) @ utf16 cs @ padding"

fun listing :: "listedEntry list \<Rightarrow> bytes" where
  "listing [] = []"
| "listing (x # xs) = listedBytes (xs = []) x @ listing xs"

definition queryDirectoryMessage :: "Smb2SyncHeader \<Rightarrow> bytes \<Rightarrow> bytes" where
  "queryDirectoryMessage h b = encodeSmb2SyncHeader h @ le16 9 @ le16 72 @ le32 (word_of_nat (length b)) @ b"

abbreviation listedEntryOf :: "listedEntry \<Rightarrow> DirectoryEntry" where
  "listedEntryOf x \<equiv> snd (snd (snd x))"

lemma length_listedBytes: "wf_listed x \<Longrightarrow> length (listedBytes isLast x) = listedSize x"
  by (cases x) simp

lemma parseDirectoryEntry_listed:
  assumes "wf_listed x" "listedSize x + length pre + length rest \<le> 0xFFFFFF"
    and d: "d = pre @ listedBytes isLast x @ rest"
  shows "parseDirectoryEntry d (length d) (length pre) =
     Some (Success (listedEntryOf x, if isLast then 0 else word_of_nat (listedSize x)))"
proof -
  obtain shortName cs padding e where x: "x = (shortName, cs, padding, e)" by (cases x)
  have len: "length d = length pre + listedSize x + length rest"
    by (simp add: d length_listedBytes [OF assms(1)])
  define n where "n = (if isLast then 0 else word_of_nat (listedSize x) :: u32)"
  have n: "n = 0 \<or> unat n = listedSize x" using assms(2) by (simp add: n_def unat_of_nat32)
  have name: "unat (word_of_nat (length (utf16 cs)) :: u32) = length (utf16 cs)"
    using assms(2) by (intro unat_of_nat32) (simp add: x)
  let ?p = "length pre"
  have dd: "d = pre @ le32 n @ le32 (den_fileIndex e) @ le64 (den_creationTime e) @ le64 (den_lastAccessTime e) @
     le64 (den_lastWriteTime e) @ le64 (den_changeTime e) @ le64 (den_endOfFile e) @
     le64 (den_allocationSize e) @ le32 (den_fileAttributes e) @
     le32 (word_of_nat (length (utf16 cs))) @ le32 (den_eaSizeOrReparseTag e) @ shortName @
     le64 (den_fileId e) @ utf16 cs @ padding @ rest"
    by (simp add: d x n_def)
  have sn: "length shortName = 28" using assms(1) by (simp add: x)
  have "readU32Le d ?p = Some n" "readU32Le d (?p + 60) = Some (word_of_nat (length (utf16 cs)))"
    "slice d (?p + 104) (?p + 104 + length (utf16 cs)) = Some (utf16 cs)"
    "readU32Le d (?p + 4) = Some (den_fileIndex e)" "readU64Le d (?p + 8) = Some (den_creationTime e)"
    "readU64Le d (?p + 16) = Some (den_lastAccessTime e)" "readU64Le d (?p + 24) = Some (den_lastWriteTime e)"
    "readU64Le d (?p + 32) = Some (den_changeTime e)" "readU64Le d (?p + 40) = Some (den_endOfFile e)"
    "readU64Le d (?p + 48) = Some (den_allocationSize e)" "readU32Le d (?p + 56) = Some (den_fileAttributes e)"
    "readU32Le d (?p + 64) = Some (den_eaSizeOrReparseTag e)" "readU64Le d (?p + 96) = Some (den_fileId e)"
    unfolding dd by (simp_all add: wire sn)
  moreover have "\<not> length d - ?p < 104" "\<not> length d < ?p + 104 + length (utf16 cs)" by (simp_all add: len x)
  moreover have "\<not> (n \<noteq> 0 \<and> (n < 104 + word_of_nat (length (utf16 cs)) \<or> length d < ?p + unat n))"
    using n assms(2) by (auto simp: word_less_nat_alt unat_plus_length name len x)
  moreover have "decodeUtf16Le (utf16 cs) = Some (Success (den_name e))"
    using assms(1) by (simp add: x decodeUtf16Le_utf16)
  moreover have "\<lparr>den_name = den_name e, den_fileIndex = den_fileIndex e, den_creationTime = den_creationTime e,
      den_lastAccessTime = den_lastAccessTime e, den_lastWriteTime = den_lastWriteTime e,
      den_changeTime = den_changeTime e, den_endOfFile = den_endOfFile e,
      den_allocationSize = den_allocationSize e, den_fileAttributes = den_fileAttributes e,
      den_eaSizeOrReparseTag = den_eaSizeOrReparseTag e, den_fileId = den_fileId e,
      den_isDirectory = (den_fileAttributes e AND 0x00000010 \<noteq> 0),
      den_isReparsePoint = (den_fileAttributes e AND 0x00000400 \<noteq> 0)\<rparr> = e"
    using assms(1) by (simp add: x)
  ultimately show ?thesis
    unfolding n_def [symmetric] by (simp add: parseDirectoryEntry_def name Let_def x del: de_Morgan_conj)
qed

lemma listing_chained:
  assumes "list_all wf_listed xs" "length d \<le> 0xFFFFFF" "d = pre @ listing xs"
  shows "chained (parseDirectoryEntry d (length d)) (length d) (length pre) (map listedEntryOf xs)"
  using assms
proof (induction xs arbitrary: pre)
  case Nil
  then show ?case by (auto intro: chained_end)
next
  case (Cons x xs)
  then have wf: "wf_listed x" by simp
  have size: "104 \<le> listedSize x" by (cases x) simp
  have d: "d = pre @ listedBytes (xs = []) x @ listing xs" using Cons.prems(3) by simp
  then have len: "length d = length pre + listedSize x + length (listing xs)"
    by (simp add: length_listedBytes [OF wf])
  have lt: "length pre < length d" using len size by simp
  have fits: "listedSize x + length pre + length (listing xs) \<le> 0xFFFFFF" using len Cons.prems(2) by simp
  note parse = parseDirectoryEntry_listed [OF wf fits d]
  show ?case
  proof (cases "xs = []")
    case True
    with chained_last [OF lt] parse show ?thesis by simp
  next
    case False
    have n: "unat (word_of_nat (listedSize x) :: u32) = listedSize x" using fits by (intro unat_of_nat32) simp
    then have "(word_of_nat (listedSize x) :: u32) \<noteq> 0" using size by force
    moreover have "chained (parseDirectoryEntry d (length d)) (length d) (length pre + listedSize x) (map listedEntryOf xs)"
      using Cons.IH [of "pre @ listedBytes (xs = []) x"] Cons.prems d by (simp add: length_listedBytes [OF wf])
    ultimately show ?thesis
      using chained_more [OF lt, of _ "listedEntryOf x" "word_of_nat (listedSize x)"] parse False n by simp
  qed
qed

lemma decodeQueryDirectoryResponse_listing:
  assumes "wf_header h" "hdr_command h = CmdQueryDirectory" "hdr_flags h AND kFlagServerToRedir \<noteq> 0"
    and "hdr_status h = kStatusSuccess" "list_all wf_listed xs" "length (listing xs) \<le> 0xFFFF00"
  shows "decodeQueryDirectoryResponse (queryDirectoryMessage h (listing xs)) =
     Some (Success \<lparr>qdr_status = kStatusSuccess, qdr_entries = map listedEntryOf xs\<rparr>)"
proof -
  define d where "d = queryDirectoryMessage h (listing xs)"
  have d: "d = (encodeSmb2SyncHeader h @ le16 9 @ le16 72 @ le32 (word_of_nat (length (listing xs)))) @ listing xs"
    by (simp add: d_def queryDirectoryMessage_def)
  have len: "length d = 72 + length (listing xs)" using assms(1) by (simp add: d)
  have header: "decodeSmb2SyncHeader d = Some (Success h)"
    using decodeSmb2SyncHeader_encode [OF assms(1)] by (simp add: d)
  have fields: "readU16Le d 64 = Some 9" "readU16Le d (64 + 2) = Some 72"
    "readU32Le d (64 + 4) = Some (word_of_nat (length (listing xs)))"
    unfolding d using assms(1) by (simp_all add: wire)
  have n: "unat (word_of_nat (length (listing xs)) :: u32) = length (listing xs)"
    using assms(6) by (intro unat_of_nat32) simp
  have "chained (parseDirectoryEntry d (length d)) (length d) 72 (map listedEntryOf xs)"
    using listing_chained [OF assms(5), of d, OF _ d] assms(1,6) len by simp
  then have chain: "entryChain (parseDirectoryEntry d (length d)) (length d) 72 [] = Some (Success (map listedEntryOf xs))"
    by (simp add: entryChain_iff)
  have empty: "word_of_nat (length (listing xs)) = (0 :: u32) \<Longrightarrow> xs = []"
    using n by (cases xs) (use length_listedBytes assms(5) in force)+
  show ?thesis
    unfolding d_def [symmetric]
    using assms header fields n chain len empty
    by (auto simp: decodeQueryDirectoryResponse_def responseHeader_def responseBody_def bufferInBounds_def Let_def word_gt_0)
qed

lemma listing_count:
  assumes "decodeQueryDirectoryResponse d = Some (Success r)" "length d \<le> 0xFFFFFF"
  shows "104 * length (qdr_entries r) \<le> length d"
proof -
  have "104 * length es \<le> length d"
    if "entryChain (parseDirectoryEntry d (offset + count)) (offset + count) offset [] = Some (Success es)"
      "bufferInBounds (length d) offset count" "0 < count" for offset count es
  proof -
    have lim: "offset + count \<le> length d" using that(2,3) by (rule bufferInBounds_limit)
    then have "offset + length es * 104 \<le> offset + count"
      using that(1) assms(2) unfolding entryChain_iff
      by (elim chained_bound) (simp_all add: parseDirectoryEntry_size)
    with lim show ?thesis by simp
  qed
  with assms(1) show ?thesis
    by (auto simp: decodeQueryDirectoryResponse_def responseHeader_Success responseBody_Success Let_def
        bind_eq_Some_conv word_gt_0 unat_gt_0 split: if_splits)
qed

lemma notify_count:
  assumes "decodeChangeNotifyResponse d = Some (Success r)" "length d \<le> 0xFFFFFF"
  shows "12 * length (cnr_entries r) \<le> length d"
proof -
  have "12 * length es \<le> length d"
    if "entryChain (parseNotifyEntry d (offset + count)) (offset + count) offset [] = Some (Success es)"
      "bufferInBounds (length d) offset count" "0 < count" for offset count es
  proof -
    have lim: "offset + count \<le> length d" using that(2,3) by (rule bufferInBounds_limit)
    then have "offset + length es * 12 \<le> offset + count"
      using that(1) assms(2) unfolding entryChain_iff
      by (elim chained_bound) (simp_all add: parseNotifyEntry_size)
    with lim show ?thesis by simp
  qed
  with assms(1) show ?thesis
    by (auto simp: decodeChangeNotifyResponse_def responseHeader_Success responseBody_Success Let_def
        bind_eq_Some_conv word_gt_0 unat_gt_0 split: if_splits)
qed

section \<open>Properties\<close>

text \<open>
  Extended attributes survive the wire: whatever list of attributes the builder
  accepts, the decoder reads back as the same list, and the builder refuses exactly the
  lists with an empty or over-long name or an over-long value.
\<close>
lemma ea_roundtrip:
  "(\<forall>b. buildFileFullEaInformation es = Inr b \<longrightarrow> decodeFileFullEaInformation b = Some (Success es)) \<and>
   ((\<exists>m. buildFileFullEaInformation es = Inl m) \<longleftrightarrow>
     (\<exists>e \<in> set es. ea_name e = [] \<or> 255 < length (ea_name e) \<or> 65535 < length (ea_value e)))"
  using decode_buildFileFullEaInformation [of es] buildFileFullEaInformation_Inl [of es] by simp

lemma ea_roundtrip_witness:
  "\<exists>b. buildFileFullEaInformation
     [\<lparr>ea_name = [0x41], ea_value = [1, 2], ea_needEa = True\<rparr>, \<lparr>ea_name = [0x42, 0x43], ea_value = [], ea_needEa = False\<rparr>] = Inr b \<and>
   decodeFileFullEaInformation b = Some (Success
     [\<lparr>ea_name = [0x41], ea_value = [1, 2], ea_needEa = True\<rparr>, \<lparr>ea_name = [0x42, 0x43], ea_value = [], ea_needEa = False\<rparr>])"
  (is "\<exists>b. buildFileFullEaInformation ?es = Inr b \<and> _")
proof -
  obtain b where "buildFileFullEaInformation ?es = Inr b" by (simp add: buildEaEntry_def)
  with ea_roundtrip [of ?es] show ?thesis by blast
qed

text \<open>
  C19. A directory listing that a server encodes as [MS-FSCC] FILE_ID_BOTH_DIR_INFORMATION
  entries (any names, any short names, any padding between the entries) inside a
  successful QUERY_DIRECTORY response is decoded to exactly those entries, in order.
\<close>
theorem directory_listing_decoded:
  assumes "wf_header h" "hdr_command h = CmdQueryDirectory" "hdr_flags h AND kFlagServerToRedir \<noteq> 0"
    and "hdr_status h = kStatusSuccess" "list_all wf_listed xs" "length (listing xs) \<le> 0xFFFF00"
  shows "decodeQueryDirectoryResponse (queryDirectoryMessage h (listing xs)) =
     Some (Success \<lparr>qdr_status = kStatusSuccess, qdr_entries = map listedEntryOf xs\<rparr>)"
  using assms by (rule decodeQueryDirectoryResponse_listing)

definition sampleEntry :: "u32 list \<Rightarrow> u32 \<Rightarrow> DirectoryEntry" where
  "sampleEntry cs attributes =
     \<lparr>den_name = utf8 cs, den_fileIndex = 0, den_creationTime = 1, den_lastAccessTime = 2, den_lastWriteTime = 3,
      den_changeTime = 4, den_endOfFile = 5, den_allocationSize = 4096, den_fileAttributes = attributes,
      den_eaSizeOrReparseTag = 0, den_fileId = 77, den_isDirectory = (attributes AND 0x10 \<noteq> 0),
      den_isReparsePoint = (attributes AND 0x400 \<noteq> 0)\<rparr>"

theorem directory_listing_decoded_witness:
  "decodeQueryDirectoryResponse (queryDirectoryMessage
      (defaultHeader\<lparr>hdr_command := CmdQueryDirectory, hdr_flags := 1\<rparr>)
      (listing [(replicate 28 0, [0x61, 0x20AC], [0, 0], sampleEntry [0x61, 0x20AC] 0x10),
                (replicate 28 0, [0x62], [], sampleEntry [0x62] 0x80)])) =
   Some (Success \<lparr>qdr_status = 0, qdr_entries = [sampleEntry [0x61, 0x20AC] 0x10, sampleEntry [0x62] 0x80]\<rparr>)"
  by (subst directory_listing_decoded)
    (simp_all add: defaultHeader_def wf_header_def scalar_def sampleEntry_def utf16_def utf16Units_def)

text \<open>
  A response cannot make the client collect more entries than it has room for: in a
  message that fits a Direct TCP frame, each directory entry stands for at least 104
  bytes, each change notification for 12 and each extended attribute for 8.
\<close>
lemma listing_counts_bounded:
  assumes "length d \<le> kMaxDirectTcpPayloadLength"
  shows "(decodeQueryDirectoryResponse d = Some (Success r) \<longrightarrow> 104 * length (qdr_entries r) \<le> length d) \<and>
    (decodeChangeNotifyResponse d = Some (Success c) \<longrightarrow> 12 * length (cnr_entries c) \<le> length d) \<and>
    (decodeFileFullEaInformation d = Some (Success es) \<longrightarrow> 8 * length es \<le> length d)"
  using assms listing_count [of d r] notify_count [of d c] decodeFileFullEaInformation_bound [of d es] by simp

lemma listing_counts_bounded_witness:
  "8 * length [\<lparr>ea_name = [0x41], ea_value = [], ea_needEa = False\<rparr>] \<le> length [0, 0, 0, 0, 0, 1, 0, 0, 0x41, 0 :: u8]"
proof -
  have "decodeFileFullEaInformation [0, 0, 0, 0, 0, 1, 0, 0, 0x41, 0] =
     Some (Success [\<lparr>ea_name = [0x41], ea_value = [], ea_needEa = False\<rparr>])"
    by (simp add: decodeFileFullEaInformation_def entryChain.simps parseEaEntry_def readU32Le_def readU16Le_def
        byte_at_def slice_def)
  then show ?thesis
    by (rule listing_counts_bounded [THEN conjunct2, THEN conjunct2, rule_format, rotated]) simp
qed

text \<open>
  The attribute decoder only asks that the next entry starts 8 or more bytes further on,
  so two entries may share bytes; the directory decoder asks for the whole entry.
\<close>
lemma ea_entries_may_overlap:
  "\<exists>es. decodeFileFullEaInformation [9, 0, 0, 0, 0, 1, 10, 0, 0x41, 0, 0, 0, 0, 0, 0, 0, 0, 0, 0, 0] = Some (Success es)
     \<and> length es = 2"
  by (simp add: decodeFileFullEaInformation_def entryChain.simps parseEaEntry_def readU32Le_def readU16Le_def
      byte_at_def slice_def)

end
