(* ===== verification/Client.thy ===== *)
theory Client
  imports Listings
begin

text \<open>
  Programs that talk to a server: the operation context and its cancellation
  (\<open>SmbNative.cpp\<close>), the \<open>Transport\<close> interface, and the exchangers, each of which sends
  one message and decodes the answer (\<open>CloseExchanger.cpp\<close>, \<open>ReadExchanger.cpp\<close>,
  \<open>WriteExchanger.cpp\<close>, \<open>QueryInfoExchanger.cpp\<close>, \<open>SetInfoExchanger.cpp\<close>,
  \<open>ChangeNotifyExchanger.cpp\<close>, \<open>SessionSetupExchanger.cpp\<close>, \<open>TreeConnector.cpp\<close>).

  A program is a function of the state it runs in. The outside world (the server, other
  threads, the clock) is a value of an arbitrary type \<open>'w\<close> that every call of the transport
  and every look at the cancellation token may change. What a program returns is an
  outcome: a value, an exception that leaves it, or an access out of bounds.
  \<open>net_sent\<close> records the messages handed to the transport; no operation reads it.
\<close>

section \<open>Outcomes and programs\<close>

datatype 'a outcome = Value 'a | Thrown string | Fault | NoFuel

record 'w Net =
  net_world :: 'w
  net_sent :: "bytes list"

type_synonym ('w, 'z, 'a) prog = "('w, 'z) Net_scheme \<Rightarrow> 'a DecodeResult outcome \<times> ('w, 'z) Net_scheme"

definition giving :: "'a DecodeResult \<Rightarrow> ('w, 'z, 'a) prog" where
  "giving r s = (Value r, s)"

text \<open>\<open>if (!x.ok) return failure(x.error)\<close> after a call, then the rest of the block.\<close>

definition onSuccess ::
  "('w, 'z, 'a) prog \<Rightarrow> (ProtocolError \<Rightarrow> 'b DecodeResult) \<Rightarrow> ('a \<Rightarrow> ('w, 'z, 'b) prog) \<Rightarrow> ('w, 'z, 'b) prog"
where
  "onSuccess call onError continue s =
    (case call s of
       (Value (Success v), s') \<Rightarrow> continue v s'
     | (Value (Failure e), s') \<Rightarrow> (Value (onError e), s')
     | (Thrown m, s') \<Rightarrow> (Thrown m, s')
     | (Fault, s') \<Rightarrow> (Fault, s')
     | (NoFuel, s') \<Rightarrow> (NoFuel, s'))"

text \<open>A decoder called by a program: a read out of bounds would be a fault of the program.\<close>

definition checked :: "'a DecodeResult option \<Rightarrow> ('w, 'z, 'a) prog" where
  "checked r s = (case r of Some v \<Rightarrow> (Value v, s) | None \<Rightarrow> (Fault, s))"

text \<open>A builder called by a program: its exception leaves the program.\<close>

definition built :: "string + 'b \<Rightarrow> ('b \<Rightarrow> ('w, 'z, 'a) prog) \<Rightarrow> ('w, 'z, 'a) prog" where
  "built r continue s = (case r of Inl m \<Rightarrow> (Thrown m, s) | Inr b \<Rightarrow> continue b s)"

section \<open>Cancellation\<close>

text \<open>A null token and an empty callback are \<open>None\<close>.\<close>

record 'w OperationContext =
  ctx_timeout :: int
  ctx_cancellationToken :: "('w \<Rightarrow> bool \<times> 'w) option"
  ctx_cancellationCallback :: "('w \<Rightarrow> bool \<times> 'w) option"
  ctx_progressCallback :: "(u64 \<Rightarrow> u64 \<Rightarrow> 'w \<Rightarrow> 'w) option"

definition isCancellationRequested :: "'w OperationContext \<Rightarrow> 'w \<Rightarrow> bool \<times> 'w" where
  "isCancellationRequested context w =
    (let (byToken, w') = (case ctx_cancellationToken context of
                            None \<Rightarrow> (False, w) | Some token \<Rightarrow> token w) in
     if byToken then (True, w')
     else case ctx_cancellationCallback context of None \<Rightarrow> (False, w') | Some callback \<Rightarrow> callback w')"

text \<open>The context of a cleanup: the caller's timeout and nothing else.\<close>

definition cleanupContext :: "'w OperationContext \<Rightarrow> 'w OperationContext" where
  "cleanupContext context =
     \<lparr>ctx_timeout = ctx_timeout context, ctx_cancellationToken = None,
      ctx_cancellationCallback = None, ctx_progressCallback = None\<rparr>"

text \<open>The default context.\<close>

definition plainContext :: "'w OperationContext" where
  "plainContext = \<lparr>ctx_timeout = 30000, ctx_cancellationToken = None,
     ctx_cancellationCallback = None, ctx_progressCallback = None\<rparr>"

definition unlessCancelled ::
  "'w OperationContext \<Rightarrow> 'a DecodeResult \<Rightarrow> ('w, 'z, 'a) prog \<Rightarrow> ('w, 'z, 'a) prog" where
  "unlessCancelled context cancelled continue s =
    (let (c, w') = isCancellationRequested context (net_world s);
         s' = s\<lparr>net_world := w'\<rparr> in
     if c then (Value cancelled, s') else continue s')"

section \<open>The transport\<close>

type_synonym 'w Transport = "bytes \<Rightarrow> 'w OperationContext \<Rightarrow> 'w \<Rightarrow> bytes DecodeResult outcome \<times> 'w"

definition transmit :: "'w Transport \<Rightarrow> 'w OperationContext \<Rightarrow> string + bytes \<Rightarrow> ('w, 'z, bytes) prog" where
  "transmit transport context request =
     built request (\<lambda>message. built (encodeDirectTcpFrame message) (\<lambda>frame s.
       let (r, w') = transport frame context (net_world s) in
       (r, s\<lparr>net_world := w', net_sent := net_sent s @ [message]\<rparr>)))"

text \<open>The helper \<open>exchangePayload\<close> that every operator declares for itself.\<close>

definition exchangePayload :: "'w Transport \<Rightarrow> 'w OperationContext \<Rightarrow> string + bytes \<Rightarrow> ('w, 'z, bytes) prog" where
  "exchangePayload transport context request =
     onSuccess (transmit transport context request) failureFrom (\<lambda>frame. checked (decodeDirectTcpPayload frame))"

section \<open>Exchangers\<close>

text \<open>The body all exchangers share, with the message of a cancellation, the request and
  the decoder of the answer as arguments.\<close>

definition exchangeMessage ::
  "'w Transport \<Rightarrow> 'w OperationContext \<Rightarrow> string \<Rightarrow> string + bytes \<Rightarrow> (bytes \<Rightarrow> 'a DecodeResult option) \<Rightarrow>
   (bytes \<Rightarrow> bytes \<Rightarrow> 'a \<Rightarrow> ('w, 'z, 'b) prog) \<Rightarrow> ('w, 'z, 'b) prog"
where
  "exchangeMessage transport context cancelled request decode finish =
     unlessCancelled context (failure EcCancelled cancelled) (
     onSuccess (transmit transport context request) failureFrom (\<lambda>responseFrame.
     unlessCancelled context (failure EcCancelled cancelled) (
     onSuccess (checked (decodeDirectTcpPayload responseFrame)) failureFrom (\<lambda>payload.
     onSuccess (checked (decode payload)) failureFrom (\<lambda>response.
     built request (\<lambda>requestPayload. finish requestPayload payload response))))))"

definition closeExchange ::
  "'w Transport \<Rightarrow> CloseRequestOptions \<Rightarrow> u64 \<Rightarrow> u32 \<Rightarrow> u64 \<Rightarrow> 'w OperationContext \<Rightarrow> ('w, 'z, CloseResponse) prog" where
  "closeExchange transport options messageId treeId sessionId context =
     exchangeMessage transport context ''SMB close was cancelled.''
       (Inr (buildCloseRequest options messageId treeId sessionId)) decodeCloseResponse
       (\<lambda>_ _ response. giving (Success response))"

definition readExchange ::
  "'w Transport \<Rightarrow> ReadRequestOptions \<Rightarrow> u64 \<Rightarrow> u32 \<Rightarrow> u64 \<Rightarrow> 'w OperationContext \<Rightarrow> ('w, 'z, ReadResponse) prog" where
  "readExchange transport options messageId treeId sessionId context =
     exchangeMessage transport context ''SMB read was cancelled.''
       (buildReadRequest options messageId treeId sessionId) decodeReadResponse
       (\<lambda>_ _ response. giving (Success response))"

definition writeExchange ::
  "'w Transport \<Rightarrow> WriteRequestOptions \<Rightarrow> u64 \<Rightarrow> u32 \<Rightarrow> u64 \<Rightarrow> 'w OperationContext \<Rightarrow> ('w, 'z, WriteResponse) prog" where
  "writeExchange transport options messageId treeId sessionId context =
     exchangeMessage transport context ''SMB write was cancelled.''
       (buildWriteRequest options messageId treeId sessionId) decodeWriteResponse
       (\<lambda>_ _ response. giving (Success response))"

definition queryInfoExchange ::
  "'w Transport \<Rightarrow> QueryInfoRequestOptions \<Rightarrow> u64 \<Rightarrow> u32 \<Rightarrow> u64 \<Rightarrow> 'w OperationContext \<Rightarrow> ('w, 'z, QueryInfoResponse) prog" where
  "queryInfoExchange transport options messageId treeId sessionId context =
     exchangeMessage transport context ''SMB query info was cancelled.''
       (buildQueryInfoRequest options messageId treeId sessionId) decodeQueryInfoResponse
       (\<lambda>_ _ response. giving (Success response))"

definition setInfoExchange ::
  "'w Transport \<Rightarrow> SetInfoRequestOptions \<Rightarrow> u64 \<Rightarrow> u32 \<Rightarrow> u64 \<Rightarrow> 'w OperationContext \<Rightarrow> ('w, 'z, u32) prog" where
  "setInfoExchange transport options messageId treeId sessionId context =
     exchangeMessage transport context ''SMB set info was cancelled.''
       (buildSetInfoRequest options messageId treeId sessionId) decodeSetInfoResponse
       (\<lambda>_ _ response. giving (Success response))"

definition changeNotifyExchange ::
  "'w Transport \<Rightarrow> ChangeNotifyRequestOptions \<Rightarrow> u64 \<Rightarrow> u32 \<Rightarrow> u64 \<Rightarrow> 'w OperationContext \<Rightarrow>
   ('w, 'z, ChangeNotifyResponse) prog" where
  "changeNotifyExchange transport options messageId treeId sessionId context =
     exchangeMessage transport context ''SMB change notify was cancelled.''
       (Inr (buildChangeNotifyRequest options messageId treeId sessionId)) decodeChangeNotifyResponse
       (\<lambda>_ _ response. giving (Success response))"

text \<open>SESSION_SETUP keeps both payloads: the pre-authentication hash covers them.\<close>

definition sessionSetupExchange ::
  "'w Transport \<Rightarrow> SessionSetupRequestOptions \<Rightarrow> u64 \<Rightarrow> u64 \<Rightarrow> 'w OperationContext \<Rightarrow>
   ('w, 'z, SessionSetupResponse) prog" where
  "sessionSetupExchange transport options messageId sessionId context =
     exchangeMessage transport context ''SMB session setup was cancelled.''
       (buildSessionSetupRequest options messageId sessionId) decodeSessionSetupResponse
       (\<lambda>requestPayload payload response. giving (Success
         (response\<lparr>ssr_requestPayload := requestPayload, ssr_responsePayload := payload\<rparr>)))"

record TreeConnectResult =
  tre_treeId :: u32
  tre_shareType :: u8
  tre_isDfs :: bool
  tre_isDfsRoot :: bool
  tre_requiresEncryption :: bool
  tre_maximalAccess :: u32

text \<open>\<open>TreeConnector::connect\<close> decodes the header once more to learn the tree id.\<close>

definition treeConnect ::
  "'w Transport \<Rightarrow> TreeConnectRequestOptions \<Rightarrow> u64 \<Rightarrow> u64 \<Rightarrow> 'w OperationContext \<Rightarrow>
   ('w, 'z, TreeConnectResult) prog" where
  "treeConnect transport options messageId sessionId context =
     exchangeMessage transport context ''SMB tree connect was cancelled.''
       (buildTreeConnectRequest options messageId sessionId) decodeTreeConnectResponse
       (\<lambda>_ payload response.
         onSuccess (checked (decodeSmb2SyncHeader payload)) failureFrom (\<lambda>header.
         giving (Success
           \<lparr>tre_treeId = hdr_treeId header, tre_shareType = tcr_shareType response,
            tre_isDfs = tcr_isDfs response, tre_isDfsRoot = tcr_isDfsRoot response,
            tre_requiresEncryption = tcr_requiresEncryption response,
            tre_maximalAccess = tcr_maximalAccess response\<rparr>)))"

section \<open>Which message ids a program consumes\<close>

text \<open>A message consumes as many consecutive ids as its credit charge, and at least one.\<close>

definition consumed :: "bytes \<Rightarrow> u64 list" where
  "consumed m = (case decodeSmb2SyncHeader m of
     Some (Success h) \<Rightarrow> map (\<lambda>k. hdr_messageId h + word_of_nat k) [0..<max 1 (unat (hdr_creditCharge h))]
   | _ \<Rightarrow> [])"

definition idsSent :: "('w, 'z) Net_scheme \<Rightarrow> u64 list" where
  "idsSent s = concat (map consumed (net_sent s))"

text \<open>From every state, \<open>p\<close> consumes the ids \<open>c\<close> when it succeeds and one of the lists in
  \<open>F\<close> when it fails, throws or faults; it leaves the rest of the state alone.\<close>

definition issues :: "('w, 'z, 'a) prog \<Rightarrow> u64 list \<Rightarrow> u64 list set \<Rightarrow> bool" where
  "issues p c F \<longleftrightarrow> (\<forall>s r s'. p s = (r, s') \<longrightarrow> Net.more s' = Net.more s \<and>
     (if \<exists>v. r = Value (Success v) then idsSent s' = idsSent s @ c
      else \<exists>a \<in> F. idsSent s' = idsSent s @ a))"

lemma issuesI:
  assumes "\<And>s r s'. p s = (r, s') \<Longrightarrow> Net.more s' = Net.more s"
    and "\<And>s v s'. p s = (Value (Success v), s') \<Longrightarrow> idsSent s' = idsSent s @ c"
    and "\<And>s r s'. p s = (r, s') \<Longrightarrow> \<forall>v. r \<noteq> Value (Success v) \<Longrightarrow> \<exists>a \<in> F. idsSent s' = idsSent s @ a"
  shows "issues p c F"
  using assms unfolding issues_def by (metis (no_types, lifting))

lemma issues_more: "issues p c F \<Longrightarrow> p s = (r, s') \<Longrightarrow> Net.more s' = Net.more s"
  by (simp add: issues_def)

lemma issues_ok: "issues p c F \<Longrightarrow> p s = (Value (Success v), s') \<Longrightarrow> idsSent s' = idsSent s @ c"
  unfolding issues_def by (metis (mono_tags))

lemma issues_bad:
  "issues p c F \<Longrightarrow> p s = (r, s') \<Longrightarrow> \<forall>v. r \<noteq> Value (Success v) \<Longrightarrow> \<exists>a \<in> F. idsSent s' = idsSent s @ a"
  unfolding issues_def by (metis (mono_tags))

lemma issues_weaken: "issues p c F \<Longrightarrow> c = c' \<Longrightarrow> F \<subseteq> F' \<Longrightarrow> issues p c' F'"
  by (rule issuesI) (blast dest: issues_more issues_ok issues_bad)+

lemma idsSent_simps [simp]:
  "idsSent (s\<lparr>net_world := w\<rparr>) = idsSent s"
  "idsSent (s\<lparr>net_world := w, net_sent := net_sent s @ [m]\<rparr>) = idsSent s @ consumed m"
  by (simp_all add: idsSent_def)

lemma issues_giving: "issues (giving r) [] {[]}"
  by (rule issuesI) (auto simp: giving_def)

lemma issues_checked: "issues (checked r) [] {[]}"
  by (rule issuesI) (auto simp: checked_def split: option.splits)

lemma issues_built:
  assumes "\<And>b. r = Inr b \<Longrightarrow> issues (k b) c F"
  shows "issues (built r k) c (insert [] F)"
  by (cases r) (auto intro!: issuesI simp: built_def dest: issues_more [OF assms] issues_ok [OF assms] issues_bad [OF assms])

lemma onSuccess_cases:
  assumes "onSuccess call g k s = (r, s')"
  obtains (ok) v s1 where "call s = (Value (Success v), s1)" "k v s1 = (r, s')"
  | (failed) r1 where "call s = (r1, s')" "\<forall>v. r1 \<noteq> Value (Success v)"
      "r = (case r1 of Value (Failure e) \<Rightarrow> Value (g e) | Value (Success _) \<Rightarrow> NoFuel
          | Thrown m \<Rightarrow> Thrown m | Fault \<Rightarrow> Fault | NoFuel \<Rightarrow> NoFuel)"
  using assms by (auto simp: onSuccess_def split: prod.splits outcome.splits DecodeResult.splits)

lemma issues_onSuccess:
  assumes m: "issues m c F" and k: "\<And>v. issues (k v) d G" and g: "\<And>e v. g e \<noteq> Success v"
  shows "issues (onSuccess m g k) (c @ d) (F \<union> (@) c ` G)"
proof (rule issuesI)
  fix s r s' assume "onSuccess m g k s = (r, s')"
  then show "Net.more s' = Net.more s"
    by (cases rule: onSuccess_cases) (metis issues_more [OF m] issues_more [OF k])+
next
  fix s v s' assume "onSuccess m g k s = (Value (Success v), s')"
  then show "idsSent s' = idsSent s @ c @ d"
    by (cases rule: onSuccess_cases)
      (auto dest!: issues_ok [OF m] issues_ok [OF k] simp: g split: outcome.splits DecodeResult.splits dest: sym)
next
  fix s r s' assume "onSuccess m g k s = (r, s')" and bad: "\<forall>v. r \<noteq> Value (Success v)"
  then show "\<exists>a \<in> F \<union> (@) c ` G. idsSent s' = idsSent s @ a"
  proof (cases rule: onSuccess_cases)
    case (ok v s1)
    then show ?thesis using issues_ok [OF m ok(1)] issues_bad [OF k ok(2) bad] by auto
  next
    case (failed r1)
    then show ?thesis using issues_bad [OF m failed(1,2)] by auto
  qed
qed

lemma issues_unlessCancelled:
  assumes "issues p c F" "\<And>v. stop \<noteq> Success v"
  shows "issues (unlessCancelled context stop p) c (insert [] F)"
proof -
  have *: "unlessCancelled context stop p s = (case isCancellationRequested context (net_world s) of (b, w') \<Rightarrow>
      if b then (Value stop, s\<lparr>net_world := w'\<rparr>) else p (s\<lparr>net_world := w'\<rparr>))" for s
    by (simp add: unlessCancelled_def Let_def split: prod.splits)
  show ?thesis
    by (rule issuesI; unfold *; fastforce split: prod.splits if_splits simp: assms(2)
        dest: issues_more [OF assms(1)] issues_ok [OF assms(1)] issues_bad [OF assms(1)])
qed

lemma issues_transmit:
  assumes "\<And>m. request = Inr m \<Longrightarrow> consumed m = c"
  shows "issues (transmit transport context request) c {[], c}"
  by (rule issuesI) (auto simp: transmit_def built_def Let_def assms split: sum.splits prod.splits)

lemma issues_exchangePayload:
  assumes "\<And>m. request = Inr m \<Longrightarrow> consumed m = c"
  shows "issues (exchangePayload transport context request) c {[], c}"
  unfolding exchangePayload_def
  by (rule issues_weaken [OF issues_onSuccess [OF issues_transmit [OF assms] issues_checked]]) auto

lemma issues_exchangeMessage:
  assumes "\<And>m. request = Inr m \<Longrightarrow> consumed m = c" "\<And>a b r. issues (finish a b r) [] {[]}"
  shows "issues (exchangeMessage transport context msg request decode finish) c {[], c}"
  unfolding exchangeMessage_def
  by (rule issues_weaken, (rule issues_unlessCancelled issues_onSuccess issues_transmit issues_checked
        issues_built assms | simp)+)

text \<open>One rule per construct; a program's ids follow by applying them until none applies.\<close>

lemma credit_1_consumed:
  "decodeSmb2SyncHeader m = Some (Success (requestHeader c mid tid sid 1 rq)) \<Longrightarrow> consumed m = [mid]"
  by (simp add: consumed_def)

lemma consumed_Close [simp]: "consumed (buildCloseRequest options mid tid sid) = [mid]"
  by (rule credit_1_consumed [OF request_headers(6)])

lemma issues_closeExchange: "issues (closeExchange transport options mid tid sid context) [mid] {[], [mid]}"
  unfolding closeExchange_def by (intro issues_exchangeMessage issues_giving) (auto simp: credit_1_consumed request_headers)

lemma issues_queryInfoExchange: "issues (queryInfoExchange transport options mid tid sid context) [mid] {[], [mid]}"
  unfolding queryInfoExchange_def by (intro issues_exchangeMessage issues_giving) (auto intro: credit_1_consumed request_headers)

lemma issues_setInfoExchange: "issues (setInfoExchange transport options mid tid sid context) [mid] {[], [mid]}"
  unfolding setInfoExchange_def by (intro issues_exchangeMessage issues_giving) (auto intro: credit_1_consumed request_headers)

lemma issues_create:
  "issues (exchangePayload transport context (buildCreateRequest options mid tid sid)) [mid] {[], [mid]}"
  by (rule issues_exchangePayload) (rule credit_1_consumed [OF request_headers(5)])

lemma issues_ioctl:
  "issues (exchangePayload transport context (buildIoctlRequest options mid tid sid)) [mid] {[], [mid]}"
  by (rule issues_exchangePayload) (rule credit_1_consumed [OF request_headers(9)])

lemma issues_queryDirectory:
  "issues (exchangePayload transport context (buildQueryDirectoryRequest options mid tid sid)) [mid] {[], [mid]}"
  by (rule issues_exchangePayload) (rule credit_1_consumed [OF request_headers(12)])

definition idSpan :: "u64 \<Rightarrow> nat \<Rightarrow> u64 list" where
  "idSpan mid n = map (\<lambda>k. mid + word_of_nat k) [0..<n]"

lemma idSpan_1 [simp]: "idSpan mid (Suc 0) = [mid]"
  by (simp add: idSpan_def)

lemma consumed_requestHeader:
  "decodeSmb2SyncHeader m = Some (Success (requestHeader c mid tid sid ch rq)) \<Longrightarrow> consumed m = idSpan mid (max 1 (unat ch))"
  by (simp add: consumed_def idSpan_def)

lemma issues_readExchange:
  "issues (readExchange transport options mid tid sid context)
     (idSpan mid (max 1 (unat (readCreditCharge (rdo_length options)))))
     {[], idSpan mid (max 1 (unat (readCreditCharge (rdo_length options))))}"
  unfolding readExchange_def
  by (intro issues_exchangeMessage issues_giving) (auto dest!: request_headers(7) simp: consumed_requestHeader)

lemma issues_writeExchange:
  "issues (writeExchange transport options mid tid sid context)
     (idSpan mid (max 1 (unat (writeCreditCharge (length (wro_data options))))))
     {[], idSpan mid (max 1 (unat (writeCreditCharge (length (wro_data options)))))}"
  unfolding writeExchange_def
  by (intro issues_exchangeMessage issues_giving) (auto dest!: request_headers(8) simp: consumed_requestHeader)

lemma issues_changeNotifyExchange:
  "issues (changeNotifyExchange transport options mid tid sid context)
     (idSpan mid (max 1 (unat (readCreditCharge (cno_outputBufferLength options)))))
     {[], idSpan mid (max 1 (unat (readCreditCharge (cno_outputBufferLength options))))}"
  unfolding changeNotifyExchange_def
  by (intro issues_exchangeMessage issues_giving) (auto simp: consumed_requestHeader [OF request_headers(13)])

lemmas issues_rules = issues_unlessCancelled issues_onSuccess issues_checked issues_giving issues_built
  issues_closeExchange issues_queryInfoExchange issues_setInfoExchange issues_create issues_ioctl
  issues_readExchange issues_writeExchange issues_changeNotifyExchange

section \<open>Programs without faults\<close>

text \<open>A program is faultless when it never reads out of bounds, whatever the transport
  answers, as long as the transport itself does not.\<close>

definition faultless :: "('w, 'z, 'a) prog \<Rightarrow> bool" where
  "faultless p \<longleftrightarrow> (\<forall>s. fst (p s) \<noteq> Fault)"

definition faultlessTransport :: "'w Transport \<Rightarrow> bool" where
  "faultlessTransport transport \<longleftrightarrow> (\<forall>f c w. fst (transport f c w) \<noteq> Fault)"

lemma faultless_giving: "faultless (giving r)"
  by (simp add: faultless_def giving_def)

lemma faultless_checked: "r \<noteq> None \<Longrightarrow> faultless (checked r)"
  by (auto simp: faultless_def checked_def)

lemma faultless_built: "(\<And>b. faultless (k b)) \<Longrightarrow> faultless (built r k)"
  by (auto simp: faultless_def built_def split: sum.splits)

lemma faultless_unlessCancelled: "faultless p \<Longrightarrow> faultless (unlessCancelled context stop p)"
  by (auto simp: faultless_def unlessCancelled_def Let_def split: prod.splits)

lemma faultless_onSuccess:
  assumes "faultless m" "\<And>v. faultless (k v)" shows "faultless (onSuccess m g k)"
proof -
  have "fst (m s) \<noteq> Fault" "fst (k v s) \<noteq> Fault" for s v using assms by (simp_all add: faultless_def)
  then show ?thesis
    by (auto simp: faultless_def onSuccess_def split: prod.splits outcome.splits DecodeResult.splits) (metis fst_conv)+
qed

lemma faultless_transmit: "faultlessTransport transport \<Longrightarrow> faultless (transmit transport context request)"
  by (auto simp: faultless_def faultlessTransport_def transmit_def built_def Let_def split: sum.splits prod.splits)
    (metis fst_conv)

lemma faultless_exchangePayload:
  "faultlessTransport transport \<Longrightarrow> faultless (exchangePayload transport context request)"
  unfolding exchangePayload_def
  by (intro faultless_onSuccess faultless_transmit faultless_checked decodeDirectTcpPayload_total)

lemma faultless_exchangeMessage:
  assumes "faultlessTransport transport" "\<And>d. decode d \<noteq> None" "\<And>a b r. faultless (finish a b r)"
  shows "faultless (exchangeMessage transport context msg request decode finish)"
  unfolding exchangeMessage_def
  by (intro faultless_unlessCancelled faultless_onSuccess faultless_transmit faultless_checked
      decodeDirectTcpPayload_total faultless_built assms)

lemma faultless_exchangers:
  assumes "faultlessTransport transport"
  shows "faultless (closeExchange transport co mid tid sid context)"
    "faultless (readExchange transport ro mid tid sid context)"
    "faultless (writeExchange transport wo mid tid sid context)"
    "faultless (queryInfoExchange transport qo mid tid sid context)"
    "faultless (setInfoExchange transport so mid tid sid context)"
    "faultless (changeNotifyExchange transport no mid tid sid context)"
    "faultless (sessionSetupExchange transport sso mid sid context)"
    "faultless (treeConnect transport tc mid sid context)"
  unfolding closeExchange_def readExchange_def writeExchange_def queryInfoExchange_def setInfoExchange_def
    changeNotifyExchange_def sessionSetupExchange_def treeConnect_def
  by (intro faultless_exchangeMessage assms closeFile.total readFile.total writeFile.total queryInfo.total
      setInfo.total changeNotify.total sessionSetup.total treeConnect.total faultless_giving faultless_onSuccess
      faultless_checked decodeSmb2SyncHeader_total)+

lemmas faultless_rules = faultless_giving faultless_checked faultless_built faultless_unlessCancelled
  faultless_onSuccess faultless_exchangePayload faultless_exchangers

end
