(* ===== verification/Operators.thy ===== *)
theory Operators
  imports Client
begin

text \<open>
  The operators of one remote object: each opens it, does one thing and closes it
  (\<open>DirectoryLister.cpp\<close>, \<open>FileReader.cpp\<close>, \<open>FileWriter.cpp\<close>, \<open>RemoteStatReader.cpp\<close>,
  \<open>RemoteObjectOperator.cpp\<close>, \<open>RemoteMetadataOperator.cpp\<close>, \<open>DirectoryWatcher.cpp\<close>).
  The loop that lists a directory ends when the server says so, so it takes fuel; the
  outcome \<open>NoFuel\<close> means that it was still asking.
\<close>

section \<open>Access rights and option values\<close>

abbreviation (input) kFileReadData :: u32 where "kFileReadData \<equiv> 0x00000001"
abbreviation (input) kFileListDirectory :: u32 where "kFileListDirectory \<equiv> 0x00000001"
abbreviation (input) kFileWriteData :: u32 where "kFileWriteData \<equiv> 0x00000002"
abbreviation (input) kFileReadEa :: u32 where "kFileReadEa \<equiv> 0x00000008"
abbreviation (input) kFileWriteEa :: u32 where "kFileWriteEa \<equiv> 0x00000010"
abbreviation (input) kFileReadAttributes :: u32 where "kFileReadAttributes \<equiv> 0x00000080"
abbreviation (input) kFileWriteAttributes :: u32 where "kFileWriteAttributes \<equiv> 0x00000100"
abbreviation (input) kDeleteAccess :: u32 where "kDeleteAccess \<equiv> 0x00010000"
abbreviation (input) kReadControlAccess :: u32 where "kReadControlAccess \<equiv> 0x00020000"
abbreviation (input) kWriteDacAccess :: u32 where "kWriteDacAccess \<equiv> 0x00040000"
abbreviation (input) kWriteOwnerAccess :: u32 where "kWriteOwnerAccess \<equiv> 0x00080000"
abbreviation (input) kSynchronizeAccess :: u32 where "kSynchronizeAccess \<equiv> 0x00100000"
abbreviation (input) kAccessSystemSecurity :: u32 where "kAccessSystemSecurity \<equiv> 0x01000000"
abbreviation (input) kFileAttributeDirectory :: u32 where "kFileAttributeDirectory \<equiv> 0x00000010"
abbreviation (input) kFileAttributeNormal :: u32 where "kFileAttributeNormal \<equiv> 0x00000080"
abbreviation (input) kFileAttributeReparsePoint :: u32 where "kFileAttributeReparsePoint \<equiv> 0x00000400"
abbreviation (input) kFileShareRead :: u32 where "kFileShareRead \<equiv> 0x00000001"
abbreviation (input) kFileShareWrite :: u32 where "kFileShareWrite \<equiv> 0x00000002"
abbreviation (input) kFileShareDelete :: u32 where "kFileShareDelete \<equiv> 0x00000004"
abbreviation (input) kFileOpen :: u32 where "kFileOpen \<equiv> 0x00000001"
abbreviation (input) kFileCreate :: u32 where "kFileCreate \<equiv> 0x00000002"
abbreviation (input) kFileOpenIf :: u32 where "kFileOpenIf \<equiv> 0x00000003"
abbreviation (input) kFileOverwriteIf :: u32 where "kFileOverwriteIf \<equiv> 0x00000005"
abbreviation (input) kFileDirectoryFile :: u32 where "kFileDirectoryFile \<equiv> 0x00000001"
abbreviation (input) kFileNonDirectoryFile :: u32 where "kFileNonDirectoryFile \<equiv> 0x00000040"
abbreviation (input) kFileOpenReparsePoint :: u32 where "kFileOpenReparsePoint \<equiv> 0x00200000"
abbreviation (input) kInfoTypeFile :: u8 where "kInfoTypeFile \<equiv> 0x01"
abbreviation (input) kInfoTypeSecurity :: u8 where "kInfoTypeSecurity \<equiv> 0x03"
abbreviation (input) kFileBasicInformation :: u8 where "kFileBasicInformation \<equiv> 0x04"
abbreviation (input) kFileStandardInformation :: u8 where "kFileStandardInformation \<equiv> 0x05"
abbreviation (input) kFileRenameInformation :: u8 where "kFileRenameInformation \<equiv> 0x0A"
abbreviation (input) kFileLinkInformation :: u8 where "kFileLinkInformation \<equiv> 0x0B"
abbreviation (input) kFileDispositionInformation :: u8 where "kFileDispositionInformation \<equiv> 0x0D"
abbreviation (input) kFileFullEaInformation :: u8 where "kFileFullEaInformation \<equiv> 0x0F"
abbreviation (input) kFileIdBothDirectoryInformation :: u8 where "kFileIdBothDirectoryInformation \<equiv> 0x25"
abbreviation (input) kIoctlIsFsctl :: u32 where "kIoctlIsFsctl \<equiv> 0x00000001"
abbreviation (input) kFsctlSetReparsePoint :: u32 where "kFsctlSetReparsePoint \<equiv> 0x000900A4"
abbreviation (input) kSmb2WatchTree :: u16 where "kSmb2WatchTree \<equiv> 0x0001"

text \<open>The option structs with the default member values of \<open>Protocol.h\<close>.\<close>

definition openOptions :: "bytes \<Rightarrow> u32 \<Rightarrow> u32 \<Rightarrow> u32 \<Rightarrow> u32 \<Rightarrow> u32 \<Rightarrow> CreateRequestOptions" where
  "openOptions path desiredAccess fileAttributes shareAccess createDisposition createOptions =
     \<lparr>cro_path = path, cro_requestedOplockLevel = 0, cro_impersonationLevel = 0x00000002,
      cro_desiredAccess = desiredAccess, cro_fileAttributes = fileAttributes,
      cro_shareAccess = shareAccess, cro_createDisposition = createDisposition,
      cro_createOptions = createOptions, cro_createContexts = []\<rparr>"

abbreviation (input) shareAll :: u32 where
  "shareAll \<equiv> kFileShareRead OR kFileShareWrite OR kFileShareDelete"

definition closeOptionsFor :: "FileId \<Rightarrow> CloseRequestOptions" where
  "closeOptionsFor fileId = \<lparr>clo_fileId = fileId, clo_flags = 0\<rparr>"

definition readOptionsFor :: "FileId \<Rightarrow> u32 \<Rightarrow> u64 \<Rightarrow> ReadRequestOptions" where
  "readOptionsFor fileId len offset =
     \<lparr>rdo_fileId = fileId, rdo_length = len, rdo_offset = offset, rdo_flags = 0, rdo_minimumCount = 0,
      rdo_channel = 0, rdo_remainingBytes = 0, rdo_channelInfo = []\<rparr>"

definition writeOptionsFor :: "FileId \<Rightarrow> bytes \<Rightarrow> u64 \<Rightarrow> WriteRequestOptions" where
  "writeOptionsFor fileId payload offset =
     \<lparr>wro_fileId = fileId, wro_data = payload, wro_offset = offset, wro_channel = 0,
      wro_remainingBytes = 0, wro_channelInfo = [], wro_flags = 0\<rparr>"

definition queryOptions :: "FileId \<Rightarrow> u8 \<Rightarrow> u8 \<Rightarrow> u32 \<Rightarrow> u32 \<Rightarrow> QueryInfoRequestOptions" where
  "queryOptions fileId infoType fileInfoClass outputBufferLength additionalInformation =
     \<lparr>qio_fileId = fileId, qio_infoType = infoType, qio_fileInfoClass = fileInfoClass,
      qio_outputBufferLength = outputBufferLength, qio_inputBuffer = [],
      qio_additionalInformation = additionalInformation, qio_flags = 0\<rparr>"

definition setOptions :: "FileId \<Rightarrow> u8 \<Rightarrow> u8 \<Rightarrow> bytes \<Rightarrow> u32 \<Rightarrow> SetInfoRequestOptions" where
  "setOptions fileId infoType fileInfoClass buffer additionalInformation =
     \<lparr>sio_fileId = fileId, sio_infoType = infoType, sio_fileInfoClass = fileInfoClass,
      sio_buffer = buffer, sio_additionalInformation = additionalInformation\<rparr>"

definition ioctlOptionsFor :: "u32 \<Rightarrow> FileId \<Rightarrow> bytes \<Rightarrow> u32 \<Rightarrow> IoctlRequestOptions" where
  "ioctlOptionsFor ctlCode fileId input maxOutputResponse =
     \<lparr>ioo_ctlCode = ctlCode, ioo_fileId = fileId, ioo_input = input, ioo_maxInputResponse = 0,
      ioo_maxOutputResponse = maxOutputResponse, ioo_flags = kIoctlIsFsctl\<rparr>"

section \<open>Shared steps\<close>

text \<open>\<open>openObject\<close>, \<open>openDirectory\<close>, \<open>openFile\<close>: CREATE without a look at the token.\<close>

definition openObject ::
  "'w Transport \<Rightarrow> CreateRequestOptions \<Rightarrow> u64 \<Rightarrow> u32 \<Rightarrow> u64 \<Rightarrow> 'w OperationContext \<Rightarrow> ('w, 'z, CreateResponse) prog" where
  "openObject transport options messageId treeId sessionId context =
     onSuccess (exchangePayload transport context (buildCreateRequest options messageId treeId sessionId))
       failureFrom (\<lambda>createPayload. checked (decodeCreateResponse createPayload))"

definition ioctlExchange ::
  "'w Transport \<Rightarrow> IoctlRequestOptions \<Rightarrow> u64 \<Rightarrow> u32 \<Rightarrow> u64 \<Rightarrow> 'w OperationContext \<Rightarrow> ('w, 'z, IoctlResponse) prog" where
  "ioctlExchange transport options messageId treeId sessionId context =
     onSuccess (exchangePayload transport context (buildIoctlRequest options messageId treeId sessionId))
       failureFrom (\<lambda>payload. checked (decodeIoctlResponse payload))"

text \<open>Decimal digits of a number, as a stream prints it.\<close>

fun decimal :: "nat \<Rightarrow> string" where
  "decimal n = (if n < 10 then [hexDigit n] else decimal (n div 10) @ [hexDigit (n mod 10)])"

declare decimal.simps [simp del]

definition failureFromAt :: "u64 \<Rightarrow> ProtocolError \<Rightarrow> 'a DecodeResult" where
  "failureFromAt messageId e =
     failure (pe_code e) (pe_message e @ '' message_id='' @ decimal (unat messageId) @ ''.'')"

definition failureUsed :: "u64 \<Rightarrow> ProtocolError \<Rightarrow> 'a DecodeResult" where
  "failureUsed messagesUsed e = failureUsing (pe_code e) (pe_message e) messagesUsed"

section \<open>DirectoryLister\<close>

record DirectoryListResult =
  dlr_directoryFileId :: FileId
  dlr_entries :: "DirectoryEntry list"
  dlr_messagesUsed :: u64

definition directoryListOptions :: "bytes \<Rightarrow> CreateRequestOptions" where
  "directoryListOptions path =
     openOptions path (kFileListDirectory OR kFileReadEa OR kFileReadAttributes) kFileAttributeNormal
       shareAll kFileOpen kFileDirectoryFile"

definition queryDirectoryOptions :: "FileId \<Rightarrow> bool \<Rightarrow> QueryDirectoryRequestOptions" where
  "queryDirectoryOptions fileId firstQuery =
     \<lparr>qdo_fileId = fileId, qdo_pattern = [0x2A], qdo_informationClass = kFileIdBothDirectoryInformation,
      qdo_flags = (if firstQuery then 0x01 else 0), qdo_fileIndex = 0, qdo_outputBufferLength = 65536\<rparr>"

text \<open>The loop; it returns the entries and the number of messages used so far.\<close>

fun listLoop ::
  "nat \<Rightarrow> 'w Transport \<Rightarrow> 'w OperationContext \<Rightarrow> FileId \<Rightarrow> u64 \<Rightarrow> u32 \<Rightarrow> u64 \<Rightarrow>
   u64 \<Rightarrow> bool \<Rightarrow> DirectoryEntry list \<Rightarrow> ('w, 'z, DirectoryEntry list \<times> u64) prog"
where
  "listLoop 0 transport context fileId messageId treeId sessionId messagesUsed firstQuery entries =
     (\<lambda>s. (NoFuel, s))"
| "listLoop (Suc fuel) transport context fileId messageId treeId sessionId messagesUsed firstQuery entries =
     onSuccess (exchangePayload transport context
         (buildQueryDirectoryRequest (queryDirectoryOptions fileId firstQuery)
            (messageId + messagesUsed) treeId sessionId)) failureFrom (\<lambda>queryPayload.
     unlessCancelled context (failure EcCancelled ''SMB directory listing was cancelled.'') (
     onSuccess (checked (decodeQueryDirectoryResponse queryPayload)) failureFrom (\<lambda>queryResponse.
     if qdr_status queryResponse = kStatusNoMoreFiles then giving (Success (entries, messagesUsed + 1))
     else if qdr_entries queryResponse = [] then giving (Success (entries, messagesUsed + 1))
     else listLoop fuel transport context fileId messageId treeId sessionId (messagesUsed + 1) False
            (entries @ qdr_entries queryResponse))))"

definition listDirectoryAt ::
  "nat \<Rightarrow> 'w Transport \<Rightarrow> bytes \<Rightarrow> u64 \<Rightarrow> u32 \<Rightarrow> u64 \<Rightarrow> 'w OperationContext \<Rightarrow> ('w, 'z, DirectoryListResult) prog" where
  "listDirectoryAt fuel transport path messageId treeId sessionId context =
     unlessCancelled context (failure EcCancelled ''SMB directory listing was cancelled.'') (
     onSuccess (exchangePayload transport context
         (buildCreateRequest (directoryListOptions path) (messageId + 0) treeId sessionId)) failureFrom (\<lambda>createPayload.
     unlessCancelled context (failure EcCancelled ''SMB directory listing was cancelled.'') (
     onSuccess (checked (decodeCreateResponse createPayload)) (failureFromAt messageId) (\<lambda>createResponse.
     onSuccess (listLoop fuel transport context (crr_fileId createResponse) messageId treeId sessionId 1 True [])
       failureFrom (\<lambda>(entries, messagesUsed).
     onSuccess (closeExchange transport (closeOptionsFor (crr_fileId createResponse)) (messageId + messagesUsed)
         treeId sessionId context) failureFrom (\<lambda>closeResponse.
     giving (Success \<lparr>dlr_directoryFileId = crr_fileId createResponse, dlr_entries = entries,
                      dlr_messagesUsed = messagesUsed + 1\<rparr>)))))))"

section \<open>FileReader and FileWriter\<close>

record FileReadResult =
  frr_fileId :: FileId
  frr_data :: bytes
  frr_dataRemaining :: u32

definition readFileOptions :: "bytes \<Rightarrow> CreateRequestOptions" where
  "readFileOptions path =
     openOptions path (kFileReadData OR kFileReadEa OR kFileReadAttributes) kFileAttributeNormal
       shareAll kFileOpen kFileNonDirectoryFile"

definition readOnce ::
  "'w Transport \<Rightarrow> bytes \<Rightarrow> u32 \<Rightarrow> u64 \<Rightarrow> u64 \<Rightarrow> u32 \<Rightarrow> u64 \<Rightarrow> 'w OperationContext \<Rightarrow> ('w, 'z, FileReadResult) prog" where
  "readOnce transport path len offset messageId treeId sessionId context =
     unlessCancelled context (failure EcCancelled ''SMB file read was cancelled.'') (
     onSuccess (exchangePayload transport context
         (buildCreateRequest (readFileOptions path) messageId treeId sessionId)) failureFrom (\<lambda>createPayload.
     unlessCancelled context (failure EcCancelled ''SMB file read was cancelled.'') (
     onSuccess (checked (decodeCreateResponse createPayload)) (failureFromAt messageId) (\<lambda>createResponse.
     onSuccess (readExchange transport (readOptionsFor (crr_fileId createResponse) len offset) (messageId + 1)
         treeId sessionId context) failureFrom (\<lambda>readResponse.
     onSuccess (closeExchange transport (closeOptionsFor (crr_fileId createResponse)) (messageId + 2)
         treeId sessionId context) failureFrom (\<lambda>closeResponse.
     giving (Success \<lparr>frr_fileId = crr_fileId createResponse, frr_data = rdr_data readResponse,
                      frr_dataRemaining = rdr_dataRemaining readResponse\<rparr>)))))))"

record FileWriteResult =
  fwr_fileId :: FileId
  fwr_bytesWritten :: u32
  fwr_remaining :: u32
  fwr_messagesUsed :: u64

definition writeFileOptions :: "bytes \<Rightarrow> CreateRequestOptions" where
  "writeFileOptions path =
     openOptions path (kFileWriteData OR kFileWriteEa OR kFileWriteAttributes OR kFileReadAttributes)
       kFileAttributeNormal shareAll kFileOpenIf kFileNonDirectoryFile"

definition writeOnce ::
  "'w Transport \<Rightarrow> bytes \<Rightarrow> bytes \<Rightarrow> u64 \<Rightarrow> u64 \<Rightarrow> u32 \<Rightarrow> u64 \<Rightarrow> 'w OperationContext \<Rightarrow> ('w, 'z, FileWriteResult) prog" where
  "writeOnce transport path payload offset messageId treeId sessionId context =
     unlessCancelled context (failure EcCancelled ''SMB file write was cancelled.'') (
     onSuccess (exchangePayload transport context
         (buildCreateRequest (writeFileOptions path) messageId treeId sessionId)) failureFrom (\<lambda>createPayload.
     unlessCancelled context (failure EcCancelled ''SMB file write was cancelled.'') (
     onSuccess (checked (decodeCreateResponse createPayload)) failureFrom (\<lambda>createResponse.
     if payload = [] then
       onSuccess (closeExchange transport (closeOptionsFor (crr_fileId createResponse)) (messageId + 1)
           treeId sessionId context) failureFrom (\<lambda>closeResponse.
       giving (Success \<lparr>fwr_fileId = crr_fileId createResponse, fwr_bytesWritten = 0, fwr_remaining = 0,
                        fwr_messagesUsed = 2\<rparr>))
     else
       onSuccess (writeExchange transport (writeOptionsFor (crr_fileId createResponse) payload offset)
           (messageId + 1) treeId sessionId context) failureFrom (\<lambda>writeResponse.
       onSuccess (closeExchange transport (closeOptionsFor (crr_fileId createResponse)) (messageId + 2)
           treeId sessionId context) failureFrom (\<lambda>closeResponse.
       giving (Success \<lparr>fwr_fileId = crr_fileId createResponse, fwr_bytesWritten = wrr_count writeResponse,
                        fwr_remaining = wrr_remaining writeResponse, fwr_messagesUsed = 3\<rparr>)))))))"

section \<open>RemoteStatReader\<close>

record RemoteStatResult =
  rsr_fileId :: FileId
  rsr_creationTime :: u64
  rsr_lastAccessTime :: u64
  rsr_lastWriteTime :: u64
  rsr_changeTime :: u64
  rsr_allocationSize :: u64
  rsr_endOfFile :: u64
  rsr_fileAttributes :: u32
  rsr_numberOfLinks :: u32
  rsr_messagesUsed :: u64
  rsr_deletePending :: bool
  rsr_directory :: bool
  rsr_reparsePoint :: bool

definition statCreateOptions :: "bytes \<Rightarrow> CreateRequestOptions" where
  "statCreateOptions path = openOptions path kFileReadAttributes kFileAttributeNormal shareAll kFileOpen 0"

definition statRemote ::
  "'w Transport \<Rightarrow> bytes \<Rightarrow> u64 \<Rightarrow> u32 \<Rightarrow> u64 \<Rightarrow> 'w OperationContext \<Rightarrow> ('w, 'z, RemoteStatResult) prog" where
  "statRemote transport path messageId treeId sessionId context =
     unlessCancelled context (failure EcCancelled ''SMB stat was cancelled.'') (
     onSuccess (exchangePayload transport context
         (buildCreateRequest (statCreateOptions path) messageId treeId sessionId)) (failureUsed 1) (\<lambda>createPayload.
     unlessCancelled context (failure EcCancelled ''SMB stat was cancelled.'') (
     onSuccess (checked (decodeCreateResponse createPayload)) (failureUsed 1) (\<lambda>createResponse.
     onSuccess (queryInfoExchange transport
         (queryOptions (crr_fileId createResponse) kInfoTypeFile kFileBasicInformation 40 0)
         (messageId + 1) treeId sessionId context) (failureUsed 2) (\<lambda>basicResponse.
     unlessCancelled context (failure EcCancelled ''SMB stat was cancelled.'') (
     onSuccess (checked (decodeFileBasicInformation (qir_buffer basicResponse))) (failureUsed 2) (\<lambda>basicInfo.
     onSuccess (queryInfoExchange transport
         (queryOptions (crr_fileId createResponse) kInfoTypeFile kFileStandardInformation 24 0)
         (messageId + 2) treeId sessionId context) (failureUsed 3) (\<lambda>standardResponse.
     unlessCancelled context (failure EcCancelled ''SMB stat was cancelled.'') (
     onSuccess (checked (decodeFileStandardInformation (qir_buffer standardResponse))) (failureUsed 3) (\<lambda>standardInfo.
     onSuccess (closeExchange transport (closeOptionsFor (crr_fileId createResponse)) (messageId + 3)
         treeId sessionId context) (failureUsed 4) (\<lambda>closeResponse.
     giving (Success
       \<lparr>rsr_fileId = crr_fileId createResponse, rsr_creationTime = fbi_creationTime basicInfo,
        rsr_lastAccessTime = fbi_lastAccessTime basicInfo, rsr_lastWriteTime = fbi_lastWriteTime basicInfo,
        rsr_changeTime = fbi_changeTime basicInfo, rsr_allocationSize = fsi_allocationSize standardInfo,
        rsr_endOfFile = fsi_endOfFile standardInfo, rsr_fileAttributes = fbi_fileAttributes basicInfo,
        rsr_numberOfLinks = fsi_numberOfLinks standardInfo, rsr_messagesUsed = 4,
        rsr_deletePending = fsi_deletePending standardInfo, rsr_directory = fsi_directory standardInfo,
        rsr_reparsePoint = (fbi_fileAttributes basicInfo AND kFileAttributeReparsePoint \<noteq> 0 \<or>
                            crr_isReparsePoint createResponse)\<rparr>))))))))))))"

section \<open>RemoteObjectOperator\<close>

text \<open>Its result is the file id alone.\<close>

definition directoryCreateOptions :: "bytes \<Rightarrow> CreateRequestOptions" where
  "directoryCreateOptions path =
     openOptions path kFileReadAttributes kFileAttributeDirectory shareAll kFileCreate kFileDirectoryFile"

definition openForMutationOptions :: "bytes \<Rightarrow> bool \<Rightarrow> CreateRequestOptions" where
  "openForMutationOptions path directory =
     openOptions path (kDeleteAccess OR kFileReadAttributes OR kFileWriteAttributes) kFileAttributeNormal
       shareAll kFileOpen (if directory then kFileDirectoryFile else 0)"

definition symlinkCreateOptions :: "bytes \<Rightarrow> bool \<Rightarrow> CreateRequestOptions" where
  "symlinkCreateOptions path directory =
     openOptions path (kFileWriteAttributes OR kFileReadAttributes)
       (kFileAttributeReparsePoint OR (if directory then kFileAttributeDirectory else 0)) shareAll kFileCreate
       (kFileOpenReparsePoint OR (if directory then kFileDirectoryFile else kFileNonDirectoryFile))"

definition closeAndReturn ::
  "'w Transport \<Rightarrow> FileId \<Rightarrow> u64 \<Rightarrow> u32 \<Rightarrow> u64 \<Rightarrow> 'w OperationContext \<Rightarrow> ('w, 'z, FileId) prog" where
  "closeAndReturn transport fileId messageId treeId sessionId context =
     onSuccess (closeExchange transport (closeOptionsFor fileId) messageId treeId sessionId context) failureFrom
       (\<lambda>closeResponse. giving (Success fileId))"

definition createDirectoryAt ::
  "'w Transport \<Rightarrow> bytes \<Rightarrow> u64 \<Rightarrow> u32 \<Rightarrow> u64 \<Rightarrow> 'w OperationContext \<Rightarrow> ('w, 'z, FileId) prog" where
  "createDirectoryAt transport path messageId treeId sessionId context =
     unlessCancelled context (failure EcCancelled ''SMB create directory was cancelled.'') (
     onSuccess (openObject transport (directoryCreateOptions path) messageId treeId sessionId context)
       failureFrom (\<lambda>createResponse.
     unlessCancelled context (failure EcCancelled ''SMB create directory was cancelled.'') (
     closeAndReturn transport (crr_fileId createResponse) (messageId + 1) treeId sessionId context)))"

text \<open>Delete, rename and hard link are the same program: open for mutation, one SET_INFO,
  close. They differ in the message, the path opened, the information class and buffer.\<close>

definition mutateObject ::
  "string \<Rightarrow> CreateRequestOptions \<Rightarrow> u8 \<Rightarrow> string + bytes \<Rightarrow>
   'w Transport \<Rightarrow> u64 \<Rightarrow> u32 \<Rightarrow> u64 \<Rightarrow> 'w OperationContext \<Rightarrow> ('w, 'z, FileId) prog" where
  "mutateObject cancelled options fileInfoClass buffer transport messageId treeId sessionId context =
     unlessCancelled context (failure EcCancelled cancelled) (
     onSuccess (openObject transport options messageId treeId sessionId context) failureFrom (\<lambda>createResponse.
     unlessCancelled context (failure EcCancelled cancelled) (
     built buffer (\<lambda>b.
     onSuccess (setInfoExchange transport (setOptions (crr_fileId createResponse) kInfoTypeFile fileInfoClass b 0)
         (messageId + 1) treeId sessionId context) failureFrom (\<lambda>setInfoResponse.
     closeAndReturn transport (crr_fileId createResponse) (messageId + 2) treeId sessionId context)))))"

definition deleteObjectAt ::
  "'w Transport \<Rightarrow> bytes \<Rightarrow> bool \<Rightarrow> u64 \<Rightarrow> u32 \<Rightarrow> u64 \<Rightarrow> 'w OperationContext \<Rightarrow> ('w, 'z, FileId) prog" where
  "deleteObjectAt transport path directory =
     mutateObject ''SMB delete was cancelled.'' (openForMutationOptions path directory)
       kFileDispositionInformation (Inr (buildFileDispositionInformation True)) transport"

definition renameObjectAt ::
  "'w Transport \<Rightarrow> bytes \<Rightarrow> bytes \<Rightarrow> bool \<Rightarrow> u64 \<Rightarrow> u32 \<Rightarrow> u64 \<Rightarrow> 'w OperationContext \<Rightarrow> ('w, 'z, FileId) prog" where
  "renameObjectAt transport fromPath toPath replaceIfExists =
     mutateObject ''SMB rename was cancelled.'' (openForMutationOptions fromPath False)
       kFileRenameInformation (buildFileRenameInformation toPath replaceIfExists) transport"

definition createHardLinkAt ::
  "'w Transport \<Rightarrow> bytes \<Rightarrow> bytes \<Rightarrow> bool \<Rightarrow> u64 \<Rightarrow> u32 \<Rightarrow> u64 \<Rightarrow> 'w OperationContext \<Rightarrow> ('w, 'z, FileId) prog" where
  "createHardLinkAt transport existingPath linkPath replaceIfExists =
     mutateObject ''SMB hardlink creation was cancelled.'' (openForMutationOptions existingPath False)
       kFileLinkInformation (buildFileLinkInformation linkPath replaceIfExists) transport"

definition createSymbolicLinkAt ::
  "'w Transport \<Rightarrow> bytes \<Rightarrow> bytes \<Rightarrow> bool \<Rightarrow> bool \<Rightarrow> u64 \<Rightarrow> u32 \<Rightarrow> u64 \<Rightarrow> 'w OperationContext \<Rightarrow> ('w, 'z, FileId) prog" where
  "createSymbolicLinkAt transport linkPath targetPath directory relative messageId treeId sessionId context =
     unlessCancelled context (failure EcCancelled ''SMB symlink creation was cancelled.'') (
     onSuccess (openObject transport (symlinkCreateOptions linkPath directory) messageId treeId sessionId context)
       failureFrom (\<lambda>createResponse.
     unlessCancelled context (failure EcCancelled ''SMB symlink creation was cancelled.'') (
     built (buildSymbolicLinkReparseBuffer targetPath targetPath relative) (\<lambda>b.
     onSuccess (ioctlExchange transport (ioctlOptionsFor kFsctlSetReparsePoint (crr_fileId createResponse) b 0)
         (messageId + 1) treeId sessionId context) failureFrom (\<lambda>ioctlResponse.
     closeAndReturn transport (crr_fileId createResponse) (messageId + 2) treeId sessionId context)))))"

section \<open>RemoteMetadataOperator\<close>

definition metadataOpenOptions :: "bytes \<Rightarrow> u32 \<Rightarrow> CreateRequestOptions" where
  "metadataOpenOptions path desiredAccess = openOptions path desiredAccess kFileAttributeNormal shareAll kFileOpen 0"

text \<open>Its \<open>openObject\<close> counts the message that a failed open used.\<close>

definition openMetadata ::
  "'w Transport \<Rightarrow> CreateRequestOptions \<Rightarrow> u64 \<Rightarrow> u32 \<Rightarrow> u64 \<Rightarrow> 'w OperationContext \<Rightarrow> ('w, 'z, CreateResponse) prog" where
  "openMetadata transport options messageId treeId sessionId context =
     onSuccess (exchangePayload transport context (buildCreateRequest options messageId treeId sessionId))
       (failureUsed 1) (\<lambda>createPayload.
     onSuccess (checked (decodeCreateResponse createPayload)) (failureUsed 1) (\<lambda>createResponse.
     giving (Success createResponse)))"

definition closeCounted ::
  "'w Transport \<Rightarrow> FileId \<Rightarrow> u64 \<Rightarrow> u32 \<Rightarrow> u64 \<Rightarrow> 'w OperationContext \<Rightarrow> 'a \<Rightarrow> ('w, 'z, 'a \<times> u64) prog" where
  "closeCounted transport fileId messageId treeId sessionId context v =
     onSuccess (closeExchange transport (closeOptionsFor fileId) messageId treeId sessionId context)
       (failureUsed 3) (\<lambda>closeResponse. giving (Success (v, 3)))"

definition securityQueryAccess :: "u32 \<Rightarrow> u32" where
  "securityQueryAccess securityInformation =
    (let access = kReadControlAccess OR kFileReadAttributes in
     if securityInformation AND 0x00000008 \<noteq> 0 then access OR kAccessSystemSecurity else access)"

definition securitySetAccess :: "u32 \<Rightarrow> u32" where
  "securitySetAccess securityInformation =
    (let access0 = kFileReadAttributes;
         access1 = (if securityInformation AND 0x00000001 \<noteq> 0 \<or> securityInformation AND 0x00000002 \<noteq> 0
                    then access0 OR kWriteOwnerAccess else access0);
         access2 = (if securityInformation AND 0x00000004 \<noteq> 0 then access1 OR kWriteDacAccess else access1)
     in if securityInformation AND 0x00000008 \<noteq> 0 then access2 OR kAccessSystemSecurity else access2)"

text \<open>The results of the five operations carry the file id and what was read, with the
  count of messages: 3 when the object was opened, used and closed.\<close>

definition setMetadata ::
  "CreateRequestOptions \<Rightarrow> u8 \<Rightarrow> u8 \<Rightarrow> string + bytes \<Rightarrow> u32 \<Rightarrow>
   'w Transport \<Rightarrow> u64 \<Rightarrow> u32 \<Rightarrow> u64 \<Rightarrow> 'w OperationContext \<Rightarrow> ('w, 'z, FileId \<times> u64) prog" where
  "setMetadata options infoType fileInfoClass buffer additional transport messageId treeId sessionId context =
     unlessCancelled context (failure EcCancelled ''SMB metadata operation was cancelled.'') (
     onSuccess (openMetadata transport options messageId treeId sessionId context)
       (\<lambda>e. failureUsed (pe_messagesUsed e) e) (\<lambda>createResponse.
     unlessCancelled context (failure EcCancelled ''SMB metadata operation was cancelled.'') (
     built buffer (\<lambda>b.
     onSuccess (setInfoExchange transport (setOptions (crr_fileId createResponse) infoType fileInfoClass b additional)
         (messageId + 1) treeId sessionId context) (failureUsed 2) (\<lambda>setResponse.
     closeCounted transport (crr_fileId createResponse) (messageId + 2) treeId sessionId context
       (crr_fileId createResponse))))))"

definition setBasicInformationAt ::
  "'w Transport \<Rightarrow> bytes \<Rightarrow> FileBasicInformation \<Rightarrow> u64 \<Rightarrow> u32 \<Rightarrow> u64 \<Rightarrow> 'w OperationContext \<Rightarrow>
   ('w, 'z, FileId \<times> u64) prog" where
  "setBasicInformationAt transport path info =
     setMetadata (metadataOpenOptions path (kFileWriteAttributes OR kFileReadAttributes)) kInfoTypeFile
       kFileBasicInformation (Inr (buildFileBasicInformation info)) 0 transport"

definition setExtendedAttributesAt ::
  "'w Transport \<Rightarrow> bytes \<Rightarrow> FileFullEaInformation list \<Rightarrow> u64 \<Rightarrow> u32 \<Rightarrow> u64 \<Rightarrow> 'w OperationContext \<Rightarrow>
   ('w, 'z, FileId \<times> u64) prog" where
  "setExtendedAttributesAt transport path entries =
     setMetadata (metadataOpenOptions path (kFileWriteEa OR kFileReadAttributes)) kInfoTypeFile
       kFileFullEaInformation (buildFileFullEaInformation entries) 0 transport"

definition removeExtendedAttributeAt ::
  "'w Transport \<Rightarrow> bytes \<Rightarrow> bytes \<Rightarrow> u64 \<Rightarrow> u32 \<Rightarrow> u64 \<Rightarrow> 'w OperationContext \<Rightarrow> ('w, 'z, FileId \<times> u64) prog" where
  "removeExtendedAttributeAt transport path name =
     setExtendedAttributesAt transport path [\<lparr>ea_name = name, ea_value = [], ea_needEa = False\<rparr>]"

definition setSecurityDescriptorAt ::
  "'w Transport \<Rightarrow> bytes \<Rightarrow> u32 \<Rightarrow> bytes \<Rightarrow> u64 \<Rightarrow> u32 \<Rightarrow> u64 \<Rightarrow> 'w OperationContext \<Rightarrow>
   ('w, 'z, FileId \<times> u64) prog" where
  "setSecurityDescriptorAt transport path securityInformation descriptor =
     setMetadata (metadataOpenOptions path (securitySetAccess securityInformation)) kInfoTypeSecurity 0
       (Inr descriptor) securityInformation transport"

definition listExtendedAttributesAt ::
  "'w Transport \<Rightarrow> bytes \<Rightarrow> u64 \<Rightarrow> u32 \<Rightarrow> u64 \<Rightarrow> 'w OperationContext \<Rightarrow>
   ('w, 'z, (FileId \<times> FileFullEaInformation list) \<times> u64) prog" where
  "listExtendedAttributesAt transport path messageId treeId sessionId context =
     unlessCancelled context (failure EcCancelled ''SMB EA query was cancelled.'') (
     onSuccess (openMetadata transport (metadataOpenOptions path (kFileReadEa OR kFileReadAttributes))
         messageId treeId sessionId context) (\<lambda>e. failureUsed (pe_messagesUsed e) e) (\<lambda>createResponse.
     unlessCancelled context (failure EcCancelled ''SMB EA query was cancelled.'') (
     onSuccess (queryInfoExchange transport
         (queryOptions (crr_fileId createResponse) kInfoTypeFile kFileFullEaInformation 65536 0)
         (messageId + 1) treeId sessionId context) (failureUsed 2) (\<lambda>queryResponse.
     onSuccess (checked (decodeFileFullEaInformation (qir_buffer queryResponse))) (failureUsed 2) (\<lambda>entries.
     closeCounted transport (crr_fileId createResponse) (messageId + 2) treeId sessionId context
       (crr_fileId createResponse, entries))))))"

definition querySecurityDescriptorAt ::
  "'w Transport \<Rightarrow> bytes \<Rightarrow> u32 \<Rightarrow> u64 \<Rightarrow> u32 \<Rightarrow> u64 \<Rightarrow> 'w OperationContext \<Rightarrow>
   ('w, 'z, (FileId \<times> bytes) \<times> u64) prog" where
  "querySecurityDescriptorAt transport path securityInformation messageId treeId sessionId context =
     unlessCancelled context (failure EcCancelled ''SMB security descriptor query was cancelled.'') (
     onSuccess (openMetadata transport (metadataOpenOptions path (securityQueryAccess securityInformation))
         messageId treeId sessionId context) (\<lambda>e. failureUsed (pe_messagesUsed e) e) (\<lambda>createResponse.
     unlessCancelled context (failure EcCancelled ''SMB security descriptor query was cancelled.'') (
     onSuccess (queryInfoExchange transport
         (queryOptions (crr_fileId createResponse) kInfoTypeSecurity 0 65536 securityInformation)
         (messageId + 1) treeId sessionId context) (failureUsed 2) (\<lambda>queryResponse.
     closeCounted transport (crr_fileId createResponse) (messageId + 2) treeId sessionId context
       (crr_fileId createResponse, qir_buffer queryResponse)))))"

section \<open>DirectoryWatcher\<close>

record DirectoryWatchResult =
  dwr_directoryFileId :: FileId
  dwr_entries :: "ChangeNotifyEntry list"
  dwr_status :: u32

definition directoryWatchOptions :: "bytes \<Rightarrow> CreateRequestOptions" where
  "directoryWatchOptions path =
     openOptions path (kFileListDirectory OR kFileReadAttributes) kFileAttributeNormal shareAll kFileOpen
       kFileDirectoryFile"

definition waitOnce ::
  "'w Transport \<Rightarrow> bytes \<Rightarrow> u32 \<Rightarrow> bool \<Rightarrow> u32 \<Rightarrow> u64 \<Rightarrow> u32 \<Rightarrow> u64 \<Rightarrow> 'w OperationContext \<Rightarrow>
   ('w, 'z, DirectoryWatchResult) prog" where
  "waitOnce transport path completionFilter watchTree outputBufferLength messageId treeId sessionId context =
     unlessCancelled context (failure EcCancelled ''SMB directory watch was cancelled.'') (
     onSuccess (openObject transport (directoryWatchOptions path) messageId treeId sessionId context)
       failureFrom (\<lambda>createResponse.
     unlessCancelled context (failure EcCancelled ''SMB directory watch was cancelled.'') (
     onSuccess (changeNotifyExchange transport
         \<lparr>cno_fileId = crr_fileId createResponse, cno_flags = (if watchTree then kSmb2WatchTree else 0),
          cno_outputBufferLength = outputBufferLength, cno_completionFilter = completionFilter\<rparr>
         (messageId + 1) treeId sessionId context) failureFrom (\<lambda>notifyResponse.
     onSuccess (closeExchange transport (closeOptionsFor (crr_fileId createResponse)) (messageId + 2)
         treeId sessionId context) failureFrom (\<lambda>closeResponse.
     giving (Success \<lparr>dwr_directoryFileId = crr_fileId createResponse, dwr_entries = cnr_entries notifyResponse,
                      dwr_status = cnr_status notifyResponse\<rparr>))))))"

end
