(* ===== verification/Session.thy ===== *)
theory Session
  imports Operators
begin

text \<open>
  \<open>NativeSmbSession.cpp\<close>: the operations on one connected tree. The session owns the next
  message id. An operation either reserves its ids before it starts
  (\<open>allocateMessageIds\<close>) or advances the counter afterwards by what the operator reports.
  \<open>deleteTreeInternal\<close> recurses into the server's tree and takes fuel for its depth;
  \<open>queries\<close> is the fuel of each directory listing. \<open>listShares\<close> and \<open>getDfsReferrals\<close> are
  in the theories of their protocols.
\<close>

section \<open>State\<close>

record 'w Session = "'w Net" +
  m_treeId :: u32
  m_sessionId :: u64
  m_nextMessageId :: u64

type_synonym ('w, 'y, 'a) sprog =
  "('w, 'y) Session_scheme \<Rightarrow> 'a DecodeResult outcome \<times> ('w, 'y) Session_scheme"

definition allocateMessageIds :: "u64 \<Rightarrow> ('w, 'y) Session_scheme \<Rightarrow> u64 \<times> ('w, 'y) Session_scheme" where
  "allocateMessageIds count s = (m_nextMessageId s, s\<lparr>m_nextMessageId := m_nextMessageId s + count\<rparr>)"

text \<open>The constructor: a first message id of zero means one.\<close>

definition newSession :: "'w \<Rightarrow> u32 \<Rightarrow> u64 \<Rightarrow> u64 \<Rightarrow> 'w Session" where
  "newSession w treeId sessionId firstMessageId =
     \<lparr>net_world = w, net_sent = [], m_treeId = treeId, m_sessionId = sessionId,
      m_nextMessageId = (if firstMessageId = 0 then 1 else firstMessageId)\<rparr>"

text \<open>Ids reserved first, then the operator runs with the first of them.\<close>

definition reserving ::
  "u64 \<Rightarrow> (u64 \<Rightarrow> u32 \<Rightarrow> u64 \<Rightarrow> ('w, 'y, 'a) sprog) \<Rightarrow> ('a \<Rightarrow> 'b) \<Rightarrow> ('w, 'y, 'b) sprog" where
  "reserving count operator finish s =
    (let (messageId, s') = allocateMessageIds count s in
     onSuccess (operator messageId (m_treeId s') (m_sessionId s')) failureFrom
       (\<lambda>v. giving (Success (finish v))) s')"

text \<open>The operator runs with the next id, and the counter advances by what it used: by
  \<open>failed e\<close> after an error, by \<open>used v\<close> after a success, not at all after an exception.\<close>

definition counting ::
  "(u64 \<Rightarrow> u32 \<Rightarrow> u64 \<Rightarrow> ('w, 'y, 'a) sprog) \<Rightarrow> (ProtocolError \<Rightarrow> u64) \<Rightarrow> ('a \<Rightarrow> u64) \<Rightarrow> ('a \<Rightarrow> 'b) \<Rightarrow>
   ('w, 'y, 'b) sprog" where
  "counting operator failed used finish s =
    (case operator (m_nextMessageId s) (m_treeId s) (m_sessionId s) s of
       (Value (Success v), s') \<Rightarrow>
         (Value (Success (finish v)), s'\<lparr>m_nextMessageId := m_nextMessageId s' + used v\<rparr>)
     | (Value (Failure e), s') \<Rightarrow>
         (Value (failureFrom e), s'\<lparr>m_nextMessageId := m_nextMessageId s' + failed e\<rparr>)
     | (Thrown m, s') \<Rightarrow> (Thrown m, s')
     | (Fault, s') \<Rightarrow> (Fault, s')
     | (NoFuel, s') \<Rightarrow> (NoFuel, s'))"

section \<open>Names\<close>

definition isDotEntry :: "bytes \<Rightarrow> bool" where
  "isDotEntry name = (name = [0x2E] \<or> name = [0x2E, 0x2E])"

definition joinRemotePath :: "bytes \<Rightarrow> bytes \<Rightarrow> bytes" where
  "joinRemotePath parent child =
    (if parent = [] then child
     else if last parent = 0x5C \<or> last parent = 0x2F then parent @ child
     else parent @ [0x5C] @ child)"

definition lowerAscii :: "u8 \<Rightarrow> u8" where
  "lowerAscii ch = (if 0x41 \<le> ch \<and> ch \<le> 0x5A then ch + 0x20 else ch)"

text \<open>\<open>wildcardMatches\<close>: \<open>star\<close> is \<open>starIndex\<close>, with \<open>npos\<close> as \<open>None\<close>.\<close>

function wildcardLoop :: "bytes \<Rightarrow> bytes \<Rightarrow> nat \<Rightarrow> nat \<Rightarrow> nat option \<Rightarrow> nat \<Rightarrow> bool" where
  "wildcardLoop pattern txt patternIndex textIndex star retryTextIndex =
    (if textIndex < length txt then
       if patternIndex < length pattern \<and>
          (pattern ! patternIndex = 0x3F \<or> lowerAscii (pattern ! patternIndex) = lowerAscii (txt ! textIndex))
       then wildcardLoop pattern txt (patternIndex + 1) (textIndex + 1) star retryTextIndex
       else if patternIndex < length pattern \<and> pattern ! patternIndex = 0x2A
       then wildcardLoop pattern txt (patternIndex + 1) textIndex (Some patternIndex) textIndex
       else case star of
         Some starIndex \<Rightarrow>
           wildcardLoop pattern txt (starIndex + 1) (retryTextIndex + 1) star (retryTextIndex + 1)
       | None \<Rightarrow> False
     else dropWhile ((=) 0x2A) (drop patternIndex pattern) = [])"
  by pat_completeness auto

termination
  by (relation "measures
      [\<lambda>(pattern, txt, p, t, star, r). case star of None \<Rightarrow> length txt + 1 | Some _ \<Rightarrow> length txt - min r t,
       \<lambda>(pattern, txt, p, t, star, r). (length txt - t) + (length pattern - p)]")
    (auto split: option.splits)

declare wildcardLoop.simps [simp del]

definition wildcardMatches :: "bytes \<Rightarrow> bytes \<Rightarrow> bool" where
  "wildcardMatches pattern txt = wildcardLoop pattern txt 0 0 None 0"

section \<open>Results\<close>

record NativeRemoteEntry =
  nre_name :: bytes
  nre_size :: u64
  nre_allocationSize :: u64
  nre_creationTime :: u64
  nre_lastAccessTime :: u64
  nre_lastWriteTime :: u64
  nre_changeTime :: u64
  nre_attributes :: u32
  nre_directory :: bool
  nre_reparsePoint :: bool

definition toNativeEntry :: "DirectoryEntry \<Rightarrow> NativeRemoteEntry" where
  "toNativeEntry e =
     \<lparr>nre_name = den_name e, nre_size = den_endOfFile e, nre_allocationSize = den_allocationSize e,
      nre_creationTime = den_creationTime e, nre_lastAccessTime = den_lastAccessTime e,
      nre_lastWriteTime = den_lastWriteTime e, nre_changeTime = den_changeTime e,
      nre_attributes = den_fileAttributes e, nre_directory = den_isDirectory e,
      nre_reparsePoint = den_isReparsePoint e\<rparr>"

record NativeReadResult =
  nrr_data :: bytes
  nrr_dataRemaining :: u32

record NativeFileHandle =
  nfh_fileId :: FileId
  nfh_size :: u64

record NativeWriteResult =
  nwr_bytesWritten :: u32
  nwr_remaining :: u32

record NativeStatResult =
  nst_size :: u64
  nst_allocationSize :: u64
  nst_creationTime :: u64
  nst_lastAccessTime :: u64
  nst_lastWriteTime :: u64
  nst_changeTime :: u64
  nst_attributes :: u32
  nst_numberOfLinks :: u32
  nst_directory :: bool
  nst_reparsePoint :: bool
  nst_deletePending :: bool

record NativeNotifyResult =
  nnr_entries :: "ChangeNotifyEntry list"
  nnr_enumerationRequired :: bool

section \<open>Operations\<close>

definition listDirectory ::
  "nat \<Rightarrow> 'w Transport \<Rightarrow> bytes \<Rightarrow> 'w OperationContext \<Rightarrow> ('w, 'y, NativeRemoteEntry list) sprog" where
  "listDirectory queries transport path context =
     counting (\<lambda>messageId treeId sessionId. listDirectoryAt queries transport path messageId treeId sessionId context)
       (\<lambda>e. 3) dlr_messagesUsed
       (\<lambda>result. map toNativeEntry (filter (\<lambda>e. \<not> isDotEntry (den_name e)) (dlr_entries result)))"

definition readFileOnce ::
  "'w Transport \<Rightarrow> bytes \<Rightarrow> u32 \<Rightarrow> u64 \<Rightarrow> 'w OperationContext \<Rightarrow> ('w, 'y, NativeReadResult) sprog" where
  "readFileOnce transport path len offset context =
     reserving 3 (\<lambda>messageId treeId sessionId. readOnce transport path len offset messageId treeId sessionId context)
       (\<lambda>result. \<lparr>nrr_data = frr_data result, nrr_dataRemaining = frr_dataRemaining result\<rparr>)"

definition openFileForRead ::
  "'w Transport \<Rightarrow> bytes \<Rightarrow> 'w OperationContext \<Rightarrow> ('w, 'y, NativeFileHandle) sprog" where
  "openFileForRead transport path context =
     reserving 1 (\<lambda>messageId treeId sessionId.
         openObject transport (readFileOptions path) messageId treeId sessionId context)
       (\<lambda>response. \<lparr>nfh_fileId = crr_fileId response, nfh_size = crr_endOfFile response\<rparr>)"

definition creditChargeForPayload :: "u64 \<Rightarrow> u64" where
  "creditChargeForPayload n = (if n = 0 then 1 else 1 + (n - 1) div 65536)"

definition readFileChunk ::
  "'w Transport \<Rightarrow> FileId \<Rightarrow> u32 \<Rightarrow> u64 \<Rightarrow> 'w OperationContext \<Rightarrow> ('w, 'y, NativeReadResult) sprog" where
  "readFileChunk transport fileId len offset context =
     reserving (creditChargeForPayload (ucast len)) (\<lambda>messageId treeId sessionId.
         readExchange transport (readOptionsFor fileId len offset) messageId treeId sessionId context)
       (\<lambda>response. \<lparr>nrr_data = rdr_data response, nrr_dataRemaining = rdr_dataRemaining response\<rparr>)"

definition closeFileHandle ::
  "'w Transport \<Rightarrow> FileId \<Rightarrow> 'w OperationContext \<Rightarrow> ('w, 'y, bool) sprog" where
  "closeFileHandle transport fileId context =
     reserving 1 (\<lambda>messageId treeId sessionId.
         closeExchange transport (closeOptionsFor fileId) messageId treeId sessionId context)
       (\<lambda>response. True)"

definition writeFileOnce ::
  "'w Transport \<Rightarrow> bytes \<Rightarrow> bytes \<Rightarrow> u64 \<Rightarrow> 'w OperationContext \<Rightarrow> ('w, 'y, NativeWriteResult) sprog" where
  "writeFileOnce transport path payload offset context =
     counting (\<lambda>messageId treeId sessionId. writeOnce transport path payload offset messageId treeId sessionId context)
       (\<lambda>e. 3) fwr_messagesUsed
       (\<lambda>result. \<lparr>nwr_bytesWritten = fwr_bytesWritten result, nwr_remaining = fwr_remaining result\<rparr>)"

definition statObject ::
  "'w Transport \<Rightarrow> bytes \<Rightarrow> 'w OperationContext \<Rightarrow> ('w, 'y, NativeStatResult) sprog" where
  "statObject transport path context =
     counting (\<lambda>messageId treeId sessionId. statRemote transport path messageId treeId sessionId context)
       pe_messagesUsed rsr_messagesUsed
       (\<lambda>r. \<lparr>nst_size = rsr_endOfFile r, nst_allocationSize = rsr_allocationSize r,
             nst_creationTime = rsr_creationTime r, nst_lastAccessTime = rsr_lastAccessTime r,
             nst_lastWriteTime = rsr_lastWriteTime r, nst_changeTime = rsr_changeTime r,
             nst_attributes = rsr_fileAttributes r, nst_numberOfLinks = rsr_numberOfLinks r,
             nst_directory = rsr_directory r, nst_reparsePoint = rsr_reparsePoint r,
             nst_deletePending = rsr_deletePending r\<rparr>)"

text \<open>The result of a mutation is the path it was about.\<close>

definition setBasicInformation ::
  "'w Transport \<Rightarrow> bytes \<Rightarrow> FileBasicInformation \<Rightarrow> 'w OperationContext \<Rightarrow> ('w, 'y, bytes) sprog" where
  "setBasicInformation transport path info context =
     counting (\<lambda>messageId treeId sessionId. setBasicInformationAt transport path info messageId treeId sessionId context)
       pe_messagesUsed snd (\<lambda>result. path)"

definition listExtendedAttributes ::
  "'w Transport \<Rightarrow> bytes \<Rightarrow> 'w OperationContext \<Rightarrow> ('w, 'y, FileFullEaInformation list) sprog" where
  "listExtendedAttributes transport path context =
     counting (\<lambda>messageId treeId sessionId. listExtendedAttributesAt transport path messageId treeId sessionId context)
       pe_messagesUsed snd (\<lambda>result. snd (fst result))"

definition setExtendedAttributes ::
  "'w Transport \<Rightarrow> bytes \<Rightarrow> FileFullEaInformation list \<Rightarrow> 'w OperationContext \<Rightarrow> ('w, 'y, bytes) sprog" where
  "setExtendedAttributes transport path entries context =
     counting (\<lambda>messageId treeId sessionId. setExtendedAttributesAt transport path entries messageId treeId sessionId context)
       pe_messagesUsed snd (\<lambda>result. path)"

definition removeExtendedAttribute ::
  "'w Transport \<Rightarrow> bytes \<Rightarrow> bytes \<Rightarrow> 'w OperationContext \<Rightarrow> ('w, 'y, bytes) sprog" where
  "removeExtendedAttribute transport path name context =
     counting (\<lambda>messageId treeId sessionId. removeExtendedAttributeAt transport path name messageId treeId sessionId context)
       pe_messagesUsed snd (\<lambda>result. path)"

definition querySecurityDescriptor ::
  "'w Transport \<Rightarrow> bytes \<Rightarrow> u32 \<Rightarrow> 'w OperationContext \<Rightarrow> ('w, 'y, bytes) sprog" where
  "querySecurityDescriptor transport path securityInformation context =
     counting (\<lambda>messageId treeId sessionId.
         querySecurityDescriptorAt transport path securityInformation messageId treeId sessionId context)
       pe_messagesUsed snd (\<lambda>result. snd (fst result))"

definition setSecurityDescriptor ::
  "'w Transport \<Rightarrow> bytes \<Rightarrow> u32 \<Rightarrow> bytes \<Rightarrow> 'w OperationContext \<Rightarrow> ('w, 'y, bytes) sprog" where
  "setSecurityDescriptor transport path securityInformation descriptor context =
     counting (\<lambda>messageId treeId sessionId.
         setSecurityDescriptorAt transport path securityInformation descriptor messageId treeId sessionId context)
       pe_messagesUsed snd (\<lambda>result. path)"

definition createDirectory :: "'w Transport \<Rightarrow> bytes \<Rightarrow> 'w OperationContext \<Rightarrow> ('w, 'y, bytes) sprog" where
  "createDirectory transport path context =
     reserving 2 (\<lambda>messageId treeId sessionId. createDirectoryAt transport path messageId treeId sessionId context)
       (\<lambda>result. path)"

definition deleteObject :: "'w Transport \<Rightarrow> bytes \<Rightarrow> bool \<Rightarrow> 'w OperationContext \<Rightarrow> ('w, 'y, bytes) sprog" where
  "deleteObject transport path directory context =
     reserving 3 (\<lambda>messageId treeId sessionId. deleteObjectAt transport path directory messageId treeId sessionId context)
       (\<lambda>result. path)"

definition renameObject ::
  "'w Transport \<Rightarrow> bytes \<Rightarrow> bytes \<Rightarrow> bool \<Rightarrow> 'w OperationContext \<Rightarrow> ('w, 'y, bytes) sprog" where
  "renameObject transport fromPath toPath replaceIfExists context =
     reserving 3 (\<lambda>messageId treeId sessionId.
         renameObjectAt transport fromPath toPath replaceIfExists messageId treeId sessionId context)
       (\<lambda>result. toPath)"

definition createHardLink ::
  "'w Transport \<Rightarrow> bytes \<Rightarrow> bytes \<Rightarrow> bool \<Rightarrow> 'w OperationContext \<Rightarrow> ('w, 'y, bytes) sprog" where
  "createHardLink transport existingPath linkPath replaceIfExists context =
     reserving 3 (\<lambda>messageId treeId sessionId.
         createHardLinkAt transport existingPath linkPath replaceIfExists messageId treeId sessionId context)
       (\<lambda>result. linkPath)"

definition createSymbolicLink ::
  "'w Transport \<Rightarrow> bytes \<Rightarrow> bytes \<Rightarrow> bool \<Rightarrow> bool \<Rightarrow> 'w OperationContext \<Rightarrow> ('w, 'y, bytes) sprog" where
  "createSymbolicLink transport linkPath targetPath directory relative context =
     reserving 3 (\<lambda>messageId treeId sessionId.
         createSymbolicLinkAt transport linkPath targetPath directory relative messageId treeId sessionId context)
       (\<lambda>result. linkPath)"

definition watchDirectoryOnce ::
  "'w Transport \<Rightarrow> bytes \<Rightarrow> u32 \<Rightarrow> bool \<Rightarrow> 'w OperationContext \<Rightarrow> ('w, 'y, NativeNotifyResult) sprog" where
  "watchDirectoryOnce transport path completionFilter watchTree context =
     reserving 3 (\<lambda>messageId treeId sessionId.
         waitOnce transport path completionFilter watchTree 65536 messageId treeId sessionId context)
       (\<lambda>result. \<lparr>nnr_entries = dwr_entries result,
                 nnr_enumerationRequired = (dwr_status result = kStatusNotifyEnumDir)\<rparr>)"

section \<open>Trees\<close>

text \<open>The child of a listing is deleted as a tree when it is a real directory, as an object
  otherwise. \<open>deleteChildren\<close> is the loop over the entries of one directory.\<close>

function (sequential) deleteTreeInternal ::
    "nat \<Rightarrow> nat \<Rightarrow> 'w Transport \<Rightarrow> bytes \<Rightarrow> 'w OperationContext \<Rightarrow> ('w, 'y, bytes) sprog"
  and deleteChildren ::
    "nat \<Rightarrow> nat \<Rightarrow> 'w Transport \<Rightarrow> bytes \<Rightarrow> 'w OperationContext \<Rightarrow> NativeRemoteEntry list \<Rightarrow> ('w, 'y, unit) sprog"
where
  "deleteTreeInternal 0 queries transport path context = (\<lambda>s. (NoFuel, s))"
| "deleteTreeInternal (Suc depth) queries transport path context =
     (if path = [] then giving (failure EcInvalidPath ''Refusing to delete the SMB share root.'')
      else
        unlessCancelled context (failure EcCancelled ''SMB recursive delete was cancelled.'') (
        onSuccess (statObject transport path context) failureFrom (\<lambda>stat.
        if \<not> nst_directory stat \<or> nst_reparsePoint stat
        then deleteObject transport path (nst_directory stat) context
        else
          onSuccess (listDirectory queries transport path context) failureFrom (\<lambda>listing.
          onSuccess (deleteChildren depth queries transport path context listing) Failure (\<lambda>_.
          deleteObject transport path True context)))))"
| "deleteChildren depth queries transport path context [] = giving (Success ())"
| "deleteChildren depth queries transport path context (entry # entries) =
     (if isDotEntry (nre_name entry) then deleteChildren depth queries transport path context entries
      else
        unlessCancelled context (failure EcCancelled ''SMB recursive delete was cancelled.'') (
        onSuccess
          (if nre_directory entry \<and> \<not> nre_reparsePoint entry
           then deleteTreeInternal depth queries transport (joinRemotePath path (nre_name entry)) context
           else deleteObject transport (joinRemotePath path (nre_name entry)) (nre_directory entry) context)
          Failure (\<lambda>_. deleteChildren depth queries transport path context entries)))"
  by pat_completeness auto

termination
  by (relation "measures
      [\<lambda>x. case x of Inl (depth, _) \<Rightarrow> depth | Inr (depth, _) \<Rightarrow> depth,
       \<lambda>x. case x of Inl _ \<Rightarrow> 0 | Inr (_, _, _, _, _, entries) \<Rightarrow> Suc (length entries)]") auto

definition deleteTree ::
  "nat \<Rightarrow> nat \<Rightarrow> 'w Transport \<Rightarrow> bytes \<Rightarrow> 'w OperationContext \<Rightarrow> ('w, 'y, bytes) sprog" where
  "deleteTree depth queries transport path context = deleteTreeInternal depth queries transport path context"

fun deleteMatching ::
  "nat \<Rightarrow> nat \<Rightarrow> 'w Transport \<Rightarrow> bytes \<Rightarrow> bytes \<Rightarrow> 'w OperationContext \<Rightarrow> NativeRemoteEntry list \<Rightarrow>
   ('w, 'y, unit) sprog" where
  "deleteMatching depth queries transport parentPath pattern context [] = giving (Success ())"
| "deleteMatching depth queries transport parentPath pattern context (entry # entries) =
     (if isDotEntry (nre_name entry) \<or> \<not> wildcardMatches pattern (nre_name entry)
      then deleteMatching depth queries transport parentPath pattern context entries
      else
        unlessCancelled context (failure EcCancelled ''SMB wildcard delete was cancelled.'') (
        onSuccess
          (if nre_directory entry \<and> \<not> nre_reparsePoint entry
           then deleteTreeInternal depth queries transport (joinRemotePath parentPath (nre_name entry)) context
           else deleteObject transport (joinRemotePath parentPath (nre_name entry)) (nre_directory entry) context)
          Failure (\<lambda>_. deleteMatching depth queries transport parentPath pattern context entries)))"

definition deleteWildcard ::
  "nat \<Rightarrow> nat \<Rightarrow> 'w Transport \<Rightarrow> bytes \<Rightarrow> bytes \<Rightarrow> 'w OperationContext \<Rightarrow> ('w, 'y, bytes) sprog" where
  "deleteWildcard depth queries transport parentPath pattern context =
    (if pattern = [] then giving (failure EcInvalidPath ''SMB wildcard delete pattern is empty.'')
     else
       unlessCancelled context (failure EcCancelled ''SMB wildcard delete was cancelled.'') (
       onSuccess (listDirectory queries transport parentPath context) failureFrom (\<lambda>listing.
       onSuccess (deleteMatching depth queries transport parentPath pattern context listing) Failure (\<lambda>_.
       giving (Success (joinRemotePath parentPath pattern))))))"

section \<open>Server-side copy\<close>

definition copySourceOptions :: "bytes \<Rightarrow> CreateRequestOptions" where
  "copySourceOptions path =
     openOptions path (kFileReadData OR kFileReadAttributes) kFileAttributeNormal shareAll kFileOpen
       kFileNonDirectoryFile"

definition copyTargetOptions :: "bytes \<Rightarrow> CreateRequestOptions" where
  "copyTargetOptions path =
     openOptions path (kFileWriteData OR kFileWriteAttributes OR kFileReadAttributes) kFileAttributeNormal
       shareAll kFileOverwriteIf kFileNonDirectoryFile"

text \<open>\<open>(void)closeSource(...)\<close>: the result is dropped, an exception is not.\<close>

definition dropping :: "('w, 'z, 'a) prog \<Rightarrow> ('w, 'z, 'b) prog \<Rightarrow> ('w, 'z, 'b) prog" where
  "dropping call continue s =
    (case call s of (Value r, s') \<Rightarrow> continue s' | (Thrown m, s') \<Rightarrow> (Thrown m, s')
     | (Fault, s') \<Rightarrow> (Fault, s') | (NoFuel, s') \<Rightarrow> (NoFuel, s'))"

definition closeQuietly ::
  "'w Transport \<Rightarrow> 'w OperationContext \<Rightarrow> FileId \<Rightarrow> ('w, 'y, 'a) sprog \<Rightarrow> ('w, 'y, 'a) sprog" where
  "closeQuietly transport context fileId continue =
     dropping (closeFileHandle transport fileId (cleanupContext context)) continue"

definition closeBoth ::
  "'w Transport \<Rightarrow> 'w OperationContext \<Rightarrow> FileId \<Rightarrow> FileId \<Rightarrow> ('w, 'y, 'a) sprog \<Rightarrow> ('w, 'y, 'a) sprog" where
  "closeBoth transport context source target continue =
     closeQuietly transport context target (closeQuietly transport context source continue)"

definition ioctlOnce ::
  "'w Transport \<Rightarrow> IoctlRequestOptions \<Rightarrow> 'w OperationContext \<Rightarrow> ('w, 'y, IoctlResponse) sprog" where
  "ioctlOnce transport options context =
     reserving 1 (\<lambda>messageId treeId sessionId.
         ioctlExchange transport options messageId treeId sessionId context) (\<lambda>response. response)"

text \<open>One turn of the loop up to the check of the byte count, which is its value.\<close>

definition copyChunk ::
  "'w Transport \<Rightarrow> 'w OperationContext \<Rightarrow> bytes \<Rightarrow> FileId \<Rightarrow> u64 \<Rightarrow> u32 \<Rightarrow> ('w, 'y, u32) sprog" where
  "copyChunk transport context resumeKey target offset len =
     unlessCancelled context (failure EcCancelled ''SMB server-side copy was cancelled.'') (
     built (buildSrvCopyChunkRequest resumeKey
              [\<lparr>cc_sourceOffset = offset, cc_targetOffset = offset, cc_length = len\<rparr>]) (\<lambda>input.
     onSuccess (ioctlOnce transport (ioctlOptionsFor 0x001440F2 target input 16) context) failureFrom (\<lambda>copied.
     onSuccess (checked (decodeSrvCopyChunkResponse (ior_output copied))) failureFrom (\<lambda>parsed.
     if ccr_totalBytesWritten parsed = 0 \<or> len < ccr_totalBytesWritten parsed
     then giving (failure EcProtocolUnsupported ''SMB server-side copy returned an invalid byte count.'')
     else giving (Success (ccr_totalBytesWritten parsed))))))"

definition reportProgress :: "'w OperationContext \<Rightarrow> u64 \<Rightarrow> u64 \<Rightarrow> ('w, 'z) Net_scheme \<Rightarrow> ('w, 'z) Net_scheme" where
  "reportProgress context done_bytes all s =
    (case ctx_progressCallback context of None \<Rightarrow> s
     | Some callback \<Rightarrow> s\<lparr>net_world := callback done_bytes all (net_world s)\<rparr>)"

definition chunkLength :: "u64 \<Rightarrow> u64 \<Rightarrow> u32" where
  "chunkLength copySize offset = ucast (min (1024 * 1024) (copySize - offset))"

lemma onSuccess_Success:
  "onSuccess call g k s = (Value (Success v), s') \<Longrightarrow> (\<And>e w. g e \<noteq> Success w) \<Longrightarrow>
     \<exists>x s1. call s = (Value (Success x), s1) \<and> k x s1 = (Value (Success v), s')"
  by (auto simp: onSuccess_def split: prod.splits outcome.splits DecodeResult.splits)

lemma unlessCancelled_Success:
  "unlessCancelled context (failure c m) p s = (Value (Success v), s') \<Longrightarrow> \<exists>s1. p s1 = (Value (Success v), s')"
  by (auto simp: unlessCancelled_def Let_def split: prod.splits if_splits)

lemma copyChunk_bounds:
  assumes "copyChunk transport context resumeKey target offset len s = (Value (Success written), s')"
  shows "written \<noteq> 0" "written \<le> len"
  using assms unfolding copyChunk_def
  by (auto dest!: unlessCancelled_Success onSuccess_Success simp: built_def giving_def not_less
      split: sum.splits if_splits)

lemma chunk_progress:
  assumes "offset < (copySize :: u64)" "written \<noteq> 0" "written \<le> chunkLength copySize offset"
  shows "unat (offset + ucast written) = unat offset + unat written"
    and "unat offset < unat (offset + ucast written)" "offset + ucast written \<le> copySize"
proof -
  define left where "left = copySize - offset"
  have left: "unat left = unat copySize - unat offset" using assms(1) by (simp add: left_def unat_sub_if' word_less_nat_alt)
  have "unat (min (1024 * 1024) left) < 2 ^ 32" by (simp add: min_def word_le_nat_alt)
  then have "unat (chunkLength copySize offset) = unat (min (1024 * 1024) left)"
    unfolding chunkLength_def left_def [symmetric] by (intro unat_ucast_fits) simp
  then have "unat written \<le> unat left"
    using assms(3) by (simp add: word_le_nat_alt min_def split: if_splits)
  moreover have "unat (ucast written :: u64) = unat written" by (simp add: unat_ucast_wider)
  ultimately have fits: "unat offset + unat (ucast written :: u64) \<le> unat copySize" using left assms(1) by (simp add: word_less_nat_alt)
  also have "\<dots> < 2 ^ 64" using unsigned_less [of copySize, where 'a=nat] by simp
  finally show sum: "unat (offset + ucast written) = unat offset + unat written"
    by (simp add: unat_add_lem [THEN iffD1] unat_ucast_wider)
  then show "unat offset < unat (offset + ucast written)" using assms(2) by (simp add: unat_gt_0)
  show "offset + ucast written \<le> copySize" using sum fits by (simp add: word_le_nat_alt unat_ucast_wider)
qed

function copyLoop ::
  "'w Transport \<Rightarrow> 'w OperationContext \<Rightarrow> bytes \<Rightarrow> FileId \<Rightarrow> FileId \<Rightarrow> bytes \<Rightarrow> u64 \<Rightarrow> u64 \<Rightarrow> ('w, 'y, bytes) sprog" where
  "copyLoop transport context resumeKey source target targetPath copySize offset s =
    (if offset < copySize then
       let len = chunkLength copySize offset in
       case copyChunk transport context resumeKey target offset len s of
         (Value (Success written), s') \<Rightarrow>
           copyLoop transport context resumeKey source target targetPath copySize (offset + ucast written)
             (reportProgress context (offset + ucast written) copySize s')
       | (Value (Failure e), s') \<Rightarrow> closeBoth transport context source target (giving (Failure e)) s'
       | (Thrown m, s') \<Rightarrow> (Thrown m, s') | (Fault, s') \<Rightarrow> (Fault, s') | (NoFuel, s') \<Rightarrow> (NoFuel, s')
     else closeBoth transport context source target (giving (Success targetPath)) s)"
  by pat_completeness auto

termination
proof (relation "measure (\<lambda>(transport, context, resumeKey, source, target, targetPath, copySize, offset, s).
    unat copySize - unat offset)", goal_cases)
  case (2 transport ctx resumeKey source target targetPath copySize offset s len r s' res v)
  then have "written \<noteq> 0 \<and> written \<le> chunkLength copySize offset" if "v = written" for written
    using copyChunk_bounds that by metis
  then show ?case using 2 chunk_progress [of offset copySize v]
    by (auto intro!: diff_less_mono2 simp: word_less_nat_alt)
qed simp

declare copyLoop.simps [simp del]

definition copyFileServerSide ::
  "'w Transport \<Rightarrow> bytes \<Rightarrow> bytes \<Rightarrow> u64 \<Rightarrow> 'w OperationContext \<Rightarrow> ('w, 'y, bytes) sprog" where
  "copyFileServerSide transport sourcePath targetPath copySize context =
     unlessCancelled context (failure EcCancelled ''SMB server-side copy was cancelled.'') (
     onSuccess (reserving 1 (\<lambda>messageId treeId sessionId.
         openObject transport (copySourceOptions sourcePath) messageId treeId sessionId context) (\<lambda>r. r))
       failureFrom (\<lambda>sourceCreate. \<lambda>s.
     let (cancelled, w') = isCancellationRequested context (net_world s); s' = s\<lparr>net_world := w'\<rparr> in
     if cancelled then
       closeQuietly transport context (crr_fileId sourceCreate)
         (giving (failure EcCancelled ''SMB server-side copy was cancelled.'')) s'
     else
       case reserving 1 (\<lambda>messageId treeId sessionId.
           openObject transport (copyTargetOptions targetPath) messageId treeId sessionId context) (\<lambda>r. r) s' of
         (Value (Failure e), s2) \<Rightarrow>
           closeQuietly transport context (crr_fileId sourceCreate) (giving (failureFrom e)) s2
       | (Thrown m, s2) \<Rightarrow> (Thrown m, s2) | (Fault, s2) \<Rightarrow> (Fault, s2) | (NoFuel, s2) \<Rightarrow> (NoFuel, s2)
       | (Value (Success targetCreate), s2) \<Rightarrow>
           let source = crr_fileId sourceCreate; target = crr_fileId targetCreate in
           if copySize = 0 then closeBoth transport context source target (giving (Success targetPath)) s2
           else
             case ioctlOnce transport (ioctlOptionsFor 0x00140078 source [] 32) context s2 of
               (Value (Failure e), s3) \<Rightarrow> closeBoth transport context source target (giving (failureFrom e)) s3
             | (Thrown m, s3) \<Rightarrow> (Thrown m, s3) | (Fault, s3) \<Rightarrow> (Fault, s3) | (NoFuel, s3) \<Rightarrow> (NoFuel, s3)
             | (Value (Success resume), s3) \<Rightarrow>
                 if length (ior_output resume) < 24
                 then closeBoth transport context source target
                   (giving (failure EcUnsupportedCapability
                      ''SMB server-side copy resume key response is too short.'')) s3
                 else copyLoop transport context (ior_output resume) source target targetPath copySize 0 s3))"

end
