(* ===== verification/Rpc.thy ===== *)
theory Rpc
  imports Session
begin

text \<open>
  Share enumeration: the DCE/RPC PDUs (\<open>Dcerpc.cpp\<close>), the NDR form of NetrShareEnum
  (\<open>SrvsRpc.cpp\<close>), the six messages that carry them over the pipe \<open>srvsvc\<close>
  (\<open>RemoteShareEnumerator.cpp\<close>) and \<open>NativeSmbSession::listShares\<close>.
\<close>

section \<open>DCE/RPC\<close>

abbreviation (input) kDcerpcVersion :: u8 where "kDcerpcVersion \<equiv> 5"
abbreviation (input) kDcerpcPacketTypeRequest :: u8 where "kDcerpcPacketTypeRequest \<equiv> 0"
abbreviation (input) kDcerpcPacketTypeResponse :: u8 where "kDcerpcPacketTypeResponse \<equiv> 2"
abbreviation (input) kDcerpcPacketTypeBind :: u8 where "kDcerpcPacketTypeBind \<equiv> 11"
abbreviation (input) kDcerpcPacketTypeBindAck :: u8 where "kDcerpcPacketTypeBindAck \<equiv> 12"
abbreviation (input) kDcerpcDefaultFragSize :: u16 where "kDcerpcDefaultFragSize \<equiv> 4280"
abbreviation (input) kCommonHeaderSize :: nat where "kCommonHeaderSize \<equiv> 16"

record DcerpcSyntaxId =
  syn_uuid :: bytes
  syn_majorVersion :: u16
  syn_minorVersion :: u16

record DcerpcBindAck =
  ack_maxTransmitFrag :: u16
  ack_maxReceiveFrag :: u16
  ack_associationGroupId :: u32
  ack_accepted :: bool
  ack_result :: u16
  ack_reason :: u16
  ack_transferSyntax :: DcerpcSyntaxId

record DcerpcResponse =
  dce_allocationHint :: u32
  dce_contextId :: u16
  dce_stubData :: bytes

definition srvsRpcSyntax :: DcerpcSyntaxId where
  "srvsRpcSyntax =
     \<lparr>syn_uuid = [0xc8, 0x4f, 0x32, 0x4b, 0x70, 0x16, 0xd3, 0x01, 0x12, 0x78, 0x5a, 0x47, 0xbf, 0x6e, 0xe1, 0x88],
      syn_majorVersion = 3, syn_minorVersion = 0\<rparr>"

definition ndr32TransferSyntax :: DcerpcSyntaxId where
  "ndr32TransferSyntax =
     \<lparr>syn_uuid = [0x04, 0x5d, 0x88, 0x8a, 0xeb, 0x1c, 0xc9, 0x11, 0x9f, 0xe8, 0x08, 0x00, 0x2b, 0x10, 0x48, 0x60],
      syn_majorVersion = 2, syn_minorVersion = 0\<rparr>"

definition appendCommonHeader :: "u8 \<Rightarrow> u16 \<Rightarrow> u32 \<Rightarrow> bytes" where
  "appendCommonHeader packetType fragLength callId =
     [kDcerpcVersion, 0, packetType, 0x01 OR 0x02, 0x10, 0, 0, 0] @ le16 fragLength @ le16 0 @ le32 callId"

definition appendSyntaxId :: "DcerpcSyntaxId \<Rightarrow> bytes" where
  "appendSyntaxId syn = syn_uuid syn @ le16 (syn_majorVersion syn) @ le16 (syn_minorVersion syn)"

text \<open>The fragment length of a header that passes.\<close>

definition validateCommonHeader :: "bytes \<Rightarrow> u8 \<Rightarrow> u16 option option" where
  "validateCommonHeader d expectedPacketType =
    (if length d < kCommonHeaderSize then Some None
     else do {
       version \<leftarrow> byte_at d 0;
       packetType \<leftarrow> byte_at d 2;
       if version \<noteq> kDcerpcVersion \<or> packetType \<noteq> expectedPacketType then Some None
       else do {
         flags \<leftarrow> byte_at d 3;
         if flags AND (0x01 OR 0x02) \<noteq> 0x01 OR 0x02 then Some None
         else do {
           representation \<leftarrow> byte_at d 4;
           if representation \<noteq> 0x10 then Some None
           else do {
             fragLength \<leftarrow> readU16Le d 8;
             Some (if kCommonHeaderSize \<le> unat fragLength \<and> unat fragLength \<le> length d
                   then Some fragLength else None) } } } })"

definition buildDcerpcBindPdu :: "DcerpcSyntaxId \<Rightarrow> u32 \<Rightarrow> u16 \<Rightarrow> u16 \<Rightarrow> u16 \<Rightarrow> bytes" where
  "buildDcerpcBindPdu abstractSyntax callId contextId maxTransmitFrag maxReceiveFrag =
     appendCommonHeader kDcerpcPacketTypeBind 72 callId @
     le16 maxTransmitFrag @ le16 maxReceiveFrag @ le32 0 @ [1, 0] @ le16 0 @ le16 contextId @ [1, 0] @
     appendSyntaxId abstractSyntax @ appendSyntaxId ndr32TransferSyntax"

definition decodeDcerpcBindAck :: "bytes \<Rightarrow> DcerpcBindAck DecodeResult option" where
  "decodeDcerpcBindAck d = do {
     header \<leftarrow> validateCommonHeader d kDcerpcPacketTypeBindAck;
     case header of
       None \<Rightarrow> Some (failure EcIoError ''DCE/RPC bind_ack header is invalid.'')
     | Some fragLength \<Rightarrow>
         if fragLength < 36 then Some (failure EcIoError ''DCE/RPC bind_ack body is truncated.'')
         else do {
           maxTransmitFrag \<leftarrow> readU16Le d 16;
           maxReceiveFrag \<leftarrow> readU16Le d 18;
           associationGroupId \<leftarrow> readU32Le d 20;
           secondaryAddressLength \<leftarrow> readU16Le d 24;
           let offset = 26;
           if unat fragLength < offset + unat secondaryAddressLength
           then Some (failure EcIoError ''DCE/RPC bind_ack secondary address is truncated.'')
           else do {
             let offset = (offset + unat secondaryAddressLength + 3) div 4 * 4;
             if unat fragLength < offset + 4
             then Some (failure EcIoError ''DCE/RPC bind_ack result list is truncated.'')
             else do {
               resultCount \<leftarrow> byte_at d offset;
               let offset = offset + 4;
               if resultCount = 0 \<or> unat fragLength < offset + 24
               then Some (failure EcIoError ''DCE/RPC bind_ack has no presentation result.'')
               else do {
                 result \<leftarrow> readU16Le d offset;
                 reason \<leftarrow> readU16Le d (offset + 2);
                 uuid \<leftarrow> slice d (offset + 4) (offset + 20);
                 majorVersion \<leftarrow> readU16Le d (offset + 20);
                 minorVersion \<leftarrow> readU16Le d (offset + 22);
                 if result \<noteq> 0
                 then Some (failure EcProtocolUnsupported
                   ''DCE/RPC bind_ack rejected the requested presentation context.'')
                 else Some (Success
                   \<lparr>ack_maxTransmitFrag = maxTransmitFrag, ack_maxReceiveFrag = maxReceiveFrag,
                    ack_associationGroupId = associationGroupId, ack_accepted = True,
                    ack_result = result, ack_reason = reason,
                    ack_transferSyntax = \<lparr>syn_uuid = uuid, syn_majorVersion = majorVersion,
                                          syn_minorVersion = minorVersion\<rparr>\<rparr>) } } } } }"

text \<open>The fragment length is cut to 16 bits.\<close>

definition buildDcerpcRequestPdu :: "u16 \<Rightarrow> bytes \<Rightarrow> u32 \<Rightarrow> u16 \<Rightarrow> bytes" where
  "buildDcerpcRequestPdu opnum stubData callId contextId =
     appendCommonHeader kDcerpcPacketTypeRequest (word_of_nat (kCommonHeaderSize + 8 + length stubData)) callId @
     le32 (word_of_nat (length stubData)) @ le16 contextId @ le16 opnum @ stubData"

definition decodeDcerpcResponse :: "bytes \<Rightarrow> DcerpcResponse DecodeResult option" where
  "decodeDcerpcResponse d = do {
     header \<leftarrow> validateCommonHeader d kDcerpcPacketTypeResponse;
     case header of
       None \<Rightarrow> Some (failure EcIoError ''DCE/RPC response header is invalid.'')
     | Some fragLength \<Rightarrow>
         if unat fragLength < kCommonHeaderSize + 8
         then Some (failure EcIoError ''DCE/RPC response body is truncated.'')
         else do {
           allocationHint \<leftarrow> readU32Le d 16;
           contextId \<leftarrow> readU16Le d 20;
           stubData \<leftarrow> slice d 24 (unat fragLength);
           Some (Success
             \<lparr>dce_allocationHint = allocationHint, dce_contextId = contextId, dce_stubData = stubData\<rparr>) } }"

section \<open>NDR\<close>

text \<open>A call of the cursor: \<open>None\<close> is a read out of bounds, \<open>Some None\<close> the result false.\<close>

type_synonym 'a ndr = "nat \<Rightarrow> ('a \<times> nat) option option"

definition ndrReturn :: "'a \<Rightarrow> 'a ndr" where
  "ndrReturn v offset = Some (Some (v, offset))"

definition ndrThen :: "'a ndr \<Rightarrow> ('a \<Rightarrow> 'b ndr) \<Rightarrow> 'b ndr" where
  "ndrThen p f offset =
    (case p offset of None \<Rightarrow> None | Some None \<Rightarrow> Some None | Some (Some (v, offset')) \<Rightarrow> f v offset')"

definition alignTo4 :: "bytes \<Rightarrow> unit ndr" where
  "alignTo4 d offset =
    (let aligned = (offset + 3) div 4 * 4 in
     if length d < aligned then Some None else Some (Some ((), aligned)))"

definition readU32 :: "bytes \<Rightarrow> u32 ndr" where
  "readU32 d offset =
    (if length d < offset + 4 then Some None
     else do { v \<leftarrow> readU32Le d offset; Some (Some (v, offset + 4)) })"

definition readUtf16Chars :: "bytes \<Rightarrow> u32 \<Rightarrow> bytes ndr" where
  "readUtf16Chars d actualCount offset =
    (let byteCount = 2 * unat actualCount in
     if length d < offset + byteCount then Some None
     else do {
       decodeBytes \<leftarrow> (if 2 \<le> byteCount
          then do { lastUnit \<leftarrow> readU16Le d (offset + byteCount - 2);
                    Some (if lastUnit = 0 then byteCount - 2 else byteCount) }
          else Some byteCount);
       encoded \<leftarrow> slice d offset (offset + decodeBytes);
       decoded \<leftarrow> decodeUtf16Le encoded;
       case decoded of
         Failure e \<Rightarrow> Some None
       | Success value \<Rightarrow> Some (Some (value, offset + byteCount)) })"

definition readUtf16String :: "bytes \<Rightarrow> bytes ndr" where
  "readUtf16String d =
     ndrThen (readU32 d) (\<lambda>maxCount. ndrThen (readU32 d) (\<lambda>offsetCount. ndrThen (readU32 d) (\<lambda>actualCount.
     if offsetCount \<noteq> 0 \<or> maxCount < actualCount then (\<lambda>offset. Some None)
     else ndrThen (readUtf16Chars d actualCount) (\<lambda>value. ndrThen (alignTo4 d) (\<lambda>_. ndrReturn value)))))"

section \<open>NetrShareEnum\<close>

datatype SrvsShareKind = KindDisk | KindPrinter | KindDevice | KindIpc | KindUnknown

record SrvsShareInfo =
  ssi_name :: bytes
  ssi_rawType :: u32
  ssi_kind :: SrvsShareKind
  ssi_comment :: bytes
  ssi_hidden :: bool
  ssi_special :: bool
  ssi_temporary :: bool

record SrvsShareEnumResponse =
  sse_shares :: "SrvsShareInfo list"
  sse_totalEntries :: u32
  sse_resumeHandle :: "u32 option"
  sse_apiStatus :: u32
  sse_moreData :: bool

definition normalizeServerName :: "bytes \<Rightarrow> bytes" where
  "normalizeServerName serverName =
    (let normalized = map (\<lambda>c. if c = 0x2F then 0x5C else c) serverName in
     if take 2 normalized = [0x5C, 0x5C] then normalized
     else [0x5C, 0x5C] @ dropWhile (\<lambda>c. c = 0x5C) normalized)"

text \<open>\<open>align4\<close> pads to the length of the whole stub so far.\<close>

definition align4 :: "bytes \<Rightarrow> bytes" where
  "align4 b = b @ replicate ((4 - length b mod 4) mod 4) 0"

definition appendNdrUtf16String :: "bytes \<Rightarrow> bytes \<Rightarrow> string + bytes" where
  "appendNdrUtf16String b utf8Text =
    (case encodeUtf16Le utf8Text of
       Inl m \<Rightarrow> Inl m
     | Inr encoded \<Rightarrow>
         let characterCount = word_of_nat (length encoded div 2 + 1) :: u32 in
         Inr (align4 (b @ le32 characterCount @ le32 0 @ le32 characterCount @ encoded @ le16 0)))"

definition buildNetrShareEnumRequestStub :: "bytes \<Rightarrow> u32 \<Rightarrow> u32 option \<Rightarrow> string + bytes" where
  "buildNetrShareEnumRequestStub serverName preferredMaximumLength resumeHandle =
    (case appendNdrUtf16String (le32 0x00020000) (normalizeServerName serverName) of
       Inl m \<Rightarrow> Inl m
     | Inr b \<Rightarrow> Inr (b @ le32 1 @ le32 1 @ le32 0x00020004 @ le32 0 @ le32 0 @ le32 preferredMaximumLength @
         (case resumeHandle of Some handle \<Rightarrow> le32 0x00020008 @ le32 handle | None \<Rightarrow> le32 0)))"

definition shareKind :: "u32 \<Rightarrow> SrvsShareKind" where
  "shareKind rawType =
    (let t = rawType AND 0x000000FF in
     if t = 0 then KindDisk else if t = 1 then KindPrinter else if t = 2 then KindDevice
     else if t = 3 then KindIpc else KindUnknown)"

definition endsWithDollar :: "bytes \<Rightarrow> bool" where
  "endsWithDollar s = (s \<noteq> [] \<and> last s = 0x24)"

text \<open>The fixed parts of the shares come first, their strings after all of them.\<close>

fun readDeferredShares :: "bytes \<Rightarrow> nat \<Rightarrow> (u32 \<times> u32 \<times> u32) list ndr" where
  "readDeferredShares d 0 = ndrReturn []"
| "readDeferredShares d (Suc n) =
     ndrThen (readU32 d) (\<lambda>namePointer. ndrThen (readU32 d) (\<lambda>rawType. ndrThen (readU32 d) (\<lambda>commentPointer.
     ndrThen (readDeferredShares d n) (\<lambda>rest. ndrReturn ((namePointer, rawType, commentPointer) # rest)))))"

text \<open>A string behind a null pointer is not there; the message tells which string failed.\<close>

type_synonym 'a ndrChecked = "nat \<Rightarrow> (string + 'a \<times> nat) option"

definition orMessage :: "string \<Rightarrow> 'a ndr \<Rightarrow> 'a ndrChecked" where
  "orMessage message p offset =
    (case p offset of None \<Rightarrow> None | Some None \<Rightarrow> Some (Inl message) | Some (Some r) \<Rightarrow> Some (Inr r))"

definition andThen :: "'a ndrChecked \<Rightarrow> ('a \<Rightarrow> 'b ndrChecked) \<Rightarrow> 'b ndrChecked" where
  "andThen p f offset =
    (case p offset of None \<Rightarrow> None | Some (Inl m) \<Rightarrow> Some (Inl m) | Some (Inr (v, offset')) \<Rightarrow> f v offset')"

definition yielding :: "'a \<Rightarrow> 'a ndrChecked" where
  "yielding v offset = Some (Inr (v, offset))"

definition readPointedString :: "bytes \<Rightarrow> u32 \<Rightarrow> bytes ndr" where
  "readPointedString d pointer = (if pointer \<noteq> 0 then readUtf16String d else ndrReturn [])"

definition readShare :: "bytes \<Rightarrow> u32 \<times> u32 \<times> u32 \<Rightarrow> SrvsShareInfo ndrChecked" where
  "readShare d item =
    (case item of (namePointer, rawType, commentPointer) \<Rightarrow>
       andThen (orMessage ''NetrShareEnum response share name is invalid.'' (readPointedString d namePointer)) (\<lambda>name.
       andThen (orMessage ''NetrShareEnum response share comment is invalid.''
                  (readPointedString d commentPointer)) (\<lambda>comment.
       let special = rawType AND 0x80000000 \<noteq> 0 in
       yielding
         \<lparr>ssi_name = name, ssi_rawType = rawType, ssi_kind = shareKind rawType, ssi_comment = comment,
          ssi_hidden = (special \<or> endsWithDollar name), ssi_special = special,
          ssi_temporary = (rawType AND 0x40000000 \<noteq> 0)\<rparr>)))"

fun readShares :: "bytes \<Rightarrow> (u32 \<times> u32 \<times> u32) list \<Rightarrow> SrvsShareInfo list ndrChecked" where
  "readShares d [] = yielding []"
| "readShares d (item # items) =
     andThen (readShare d item) (\<lambda>share. andThen (readShares d items) (\<lambda>shares. yielding (share # shares)))"

definition readShareBuffer :: "bytes \<Rightarrow> u32 \<Rightarrow> u32 \<Rightarrow> SrvsShareInfo list ndrChecked" where
  "readShareBuffer d entriesRead bufferPointer =
    (if bufferPointer \<noteq> 0 then
       andThen (orMessage ''NetrShareEnum response is missing share array count.'' (readU32 d)) (\<lambda>arrayCount.
       if arrayCount < entriesRead
       then (\<lambda>offset. Some (Inl ''NetrShareEnum response array count is inconsistent.''))
       else
         andThen (orMessage ''NetrShareEnum response share array is truncated.''
                    (readDeferredShares d (unat entriesRead))) (readShares d))
     else if entriesRead \<noteq> 0
     then (\<lambda>offset. Some (Inl ''NetrShareEnum response has entries without a buffer.''))
     else yielding [])"

definition readShareContainer :: "bytes \<Rightarrow> u32 \<Rightarrow> (u32 \<times> u32) ndr" where
  "readShareContainer d containerPointer =
    (if containerPointer \<noteq> 0
     then ndrThen (readU32 d) (\<lambda>entriesRead. ndrThen (readU32 d) (\<lambda>bufferPointer. ndrReturn (entriesRead, bufferPointer)))
     else ndrReturn (0, 0))"

definition readResumeHandle :: "bytes \<Rightarrow> u32 \<Rightarrow> u32 option ndrChecked" where
  "readResumeHandle d resumePointer =
    (if resumePointer \<noteq> 0
     then andThen (orMessage ''NetrShareEnum response resume handle is truncated.'' (readU32 d)) (\<lambda>v. yielding (Some v))
     else yielding None)"

definition decodeNetrShareEnum :: "bytes \<Rightarrow> SrvsShareEnumResponse ndrChecked" where
  "decodeNetrShareEnum d =
     andThen (orMessage ''NetrShareEnum response is truncated before share list.''
       (ndrThen (readU32 d) (\<lambda>level. ndrThen (readU32 d) (\<lambda>unionLevel. ndrThen (readU32 d) (\<lambda>containerPointer.
        ndrReturn (level, unionLevel, containerPointer)))))) (\<lambda>(level, unionLevel, containerPointer).
     if level \<noteq> 1 \<or> unionLevel \<noteq> 1
     then (\<lambda>offset. Some (Inl ''NetrShareEnum response uses an unsupported info level.''))
     else
       andThen (orMessage ''NetrShareEnum response share container is truncated.''
                  (readShareContainer d containerPointer)) (\<lambda>(entriesRead, bufferPointer).
       andThen (readShareBuffer d entriesRead bufferPointer) (\<lambda>shares.
       andThen (orMessage ''NetrShareEnum response is missing total entries.'' (readU32 d)) (\<lambda>totalEntries.
       andThen (orMessage ''NetrShareEnum response is missing resume handle pointer.'' (readU32 d)) (\<lambda>resumePointer.
       andThen (readResumeHandle d resumePointer) (\<lambda>resumeHandle.
       andThen (orMessage ''NetrShareEnum response is missing API status.'' (readU32 d)) (\<lambda>apiStatus.
       yielding
         \<lparr>sse_shares = shares, sse_totalEntries = totalEntries, sse_resumeHandle = resumeHandle,
          sse_apiStatus = apiStatus, sse_moreData = (apiStatus = 234)\<rparr>)))))))"

definition decodeNetrShareEnumResponseStub :: "bytes \<Rightarrow> SrvsShareEnumResponse DecodeResult option" where
  "decodeNetrShareEnumResponseStub d =
    (case decodeNetrShareEnum d 0 of
       None \<Rightarrow> None
     | Some (Inl message) \<Rightarrow> Some (failure EcIoError message)
     | Some (Inr (response, offset)) \<Rightarrow>
         if sse_apiStatus response \<noteq> 0 \<and> \<not> sse_moreData response
         then Some (failure (if sse_apiStatus response = 5 then EcPermissionDenied else EcNetworkError)
                ''NetrShareEnum returned a non-success NET_API_STATUS.'')
         else Some (Success response))"

section \<open>RemoteShareEnumerator\<close>

record NativeShareInfo =
  nsi_name :: bytes
  nsi_rawType :: u32
  nsi_type :: string
  nsi_comment :: bytes
  nsi_hidden :: bool
  nsi_special :: bool
  nsi_temporary :: bool

record NativeShareList =
  nsl_shares :: "NativeShareInfo list"
  nsl_totalEntries :: u32
  nsl_resumeHandle :: "u32 option"
  nsl_moreData :: bool
  nsl_messagesUsed :: u64

fun typeName :: "SrvsShareKind \<Rightarrow> string" where
  "typeName KindDisk = ''disk''"
| "typeName KindPrinter = ''printer''"
| "typeName KindDevice = ''device''"
| "typeName KindIpc = ''ipc''"
| "typeName KindUnknown = ''unknown''"

definition toNativeShare :: "SrvsShareInfo \<Rightarrow> NativeShareInfo" where
  "toNativeShare share =
     \<lparr>nsi_name = ssi_name share, nsi_rawType = ssi_rawType share, nsi_type = typeName (ssi_kind share),
      nsi_comment = ssi_comment share, nsi_hidden = ssi_hidden share, nsi_special = ssi_special share,
      nsi_temporary = ssi_temporary share\<rparr>"

text \<open>The path is \<open>srvsvc\<close>.\<close>

definition srvsvcPipeOpenOptions :: CreateRequestOptions where
  "srvsvcPipeOpenOptions =
     openOptions [0x73, 0x72, 0x76, 0x73, 0x76, 0x63]
       (kFileReadData OR kFileWriteData OR kFileReadAttributes OR kFileWriteAttributes OR kSynchronizeAccess)
       kFileAttributeNormal (kFileShareRead OR kFileShareWrite) kFileOpen 0"

definition writePipe ::
  "'w Transport \<Rightarrow> FileId \<Rightarrow> bytes \<Rightarrow> u64 \<Rightarrow> u32 \<Rightarrow> u64 \<Rightarrow> 'w OperationContext \<Rightarrow> ('w, 'z, bool) prog" where
  "writePipe transport fileId payload messageId treeId sessionId context =
     onSuccess (writeExchange transport (writeOptionsFor fileId payload 0) messageId treeId sessionId context)
       failureFrom (\<lambda>written.
     if unat (wrr_count written) \<noteq> length payload
     then giving (failure EcIoError ''SMB named pipe write was shorter than expected.'')
     else giving (Success True))"

definition readPipe ::
  "'w Transport \<Rightarrow> FileId \<Rightarrow> u64 \<Rightarrow> u32 \<Rightarrow> u64 \<Rightarrow> 'w OperationContext \<Rightarrow> ('w, 'z, bytes) prog" where
  "readPipe transport fileId messageId treeId sessionId context =
     onSuccess (readExchange transport (readOptionsFor fileId (64 * 1024) 0) messageId treeId sessionId context)
       failureFrom (\<lambda>response. giving (Success (rdr_data response)))"

definition closePipe ::
  "'w Transport \<Rightarrow> FileId \<Rightarrow> u64 \<Rightarrow> u32 \<Rightarrow> u64 \<Rightarrow> 'w OperationContext \<Rightarrow> ('w, 'z, bool) prog" where
  "closePipe transport fileId messageId treeId sessionId context =
     onSuccess (closeExchange transport (closeOptionsFor fileId) messageId treeId sessionId context)
       failureFrom (\<lambda>closed. giving (Success True))"

text \<open>A step after the pipe is open: when it fails, the pipe is closed with the next id and
  the failure counts that message too. \<open>used\<close> messages were sent when the step returned.\<close>

definition closingOnError ::
  "(u64 \<Rightarrow> ('w, 'z, bool) prog) \<Rightarrow> u64 \<Rightarrow> ('w, 'z, 'a) prog \<Rightarrow> ('a \<Rightarrow> ('w, 'z, 'b) prog) \<Rightarrow> ('w, 'z, 'b) prog" where
  "closingOnError closeOpenedPipe used call continue s =
    (case call s of
       (Value (Success v), s') \<Rightarrow> continue v s'
     | (Value (Failure e), s') \<Rightarrow> dropping (closeOpenedPipe used) (giving (failureUsed (used + 1) e)) s'
     | (Thrown m, s') \<Rightarrow> (Thrown m, s')
     | (Fault, s') \<Rightarrow> (Fault, s')
     | (NoFuel, s') \<Rightarrow> (NoFuel, s'))"

definition listSharesAt ::
  "'w Transport \<Rightarrow> bytes \<Rightarrow> u64 \<Rightarrow> u32 \<Rightarrow> u64 \<Rightarrow> 'w OperationContext \<Rightarrow> ('w, 'z, NativeShareList) prog" where
  "listSharesAt transport serverName messageId treeId sessionId context =
     unlessCancelled context (failureUsing EcCancelled ''SMB share enumeration was cancelled.'' 0) (
     onSuccess (exchangePayload transport context
         (buildCreateRequest srvsvcPipeOpenOptions (messageId + 0) treeId sessionId)) (failureUsed 1) (\<lambda>createPayload.
     onSuccess (checked (decodeCreateResponse createPayload)) (failureUsed 1) (\<lambda>create.
     let pipe = crr_fileId create;
         closeOpenedPipe = (\<lambda>used. closePipe transport pipe (messageId + used) treeId sessionId (cleanupContext context))
     in
     closingOnError closeOpenedPipe 2
       (writePipe transport pipe (buildDcerpcBindPdu srvsRpcSyntax 1 0 kDcerpcDefaultFragSize kDcerpcDefaultFragSize)
          (messageId + 1) treeId sessionId context) (\<lambda>_.
     closingOnError closeOpenedPipe 3 (readPipe transport pipe (messageId + 2) treeId sessionId context) (\<lambda>bindBytes.
     closingOnError closeOpenedPipe 3 (checked (decodeDcerpcBindAck bindBytes)) (\<lambda>bindAck.
     built (buildNetrShareEnumRequestStub serverName 0xFFFFFFFF None) (\<lambda>requestStub.
     closingOnError closeOpenedPipe 4
       (writePipe transport pipe (buildDcerpcRequestPdu 15 requestStub 2 0)
          (messageId + 3) treeId sessionId context) (\<lambda>_.
     closingOnError closeOpenedPipe 5 (readPipe transport pipe (messageId + 4) treeId sessionId context) (\<lambda>responseBytes.
     closingOnError closeOpenedPipe 5 (checked (decodeDcerpcResponse responseBytes)) (\<lambda>rpcResponse.
     closingOnError closeOpenedPipe 5
       (checked (decodeNetrShareEnumResponseStub (dce_stubData rpcResponse))) (\<lambda>shareEnum.
     onSuccess (closePipe transport pipe (messageId + 5) treeId sessionId context) (failureUsed 6) (\<lambda>_.
     giving (Success
       \<lparr>nsl_shares = map toNativeShare (sse_shares shareEnum), nsl_totalEntries = sse_totalEntries shareEnum,
        nsl_resumeHandle = sse_resumeHandle shareEnum, nsl_moreData = sse_moreData shareEnum,
        nsl_messagesUsed = 6\<rparr>)))))))))))))"

definition listShares ::
  "'w Transport \<Rightarrow> bytes \<Rightarrow> 'w OperationContext \<Rightarrow> ('w, 'y, NativeShareList) sprog" where
  "listShares transport serverName context =
     counting (\<lambda>messageId treeId sessionId. listSharesAt transport serverName messageId treeId sessionId context)
       pe_messagesUsed nsl_messagesUsed (\<lambda>result. result)"

section \<open>No read out of bounds\<close>

lemma validateCommonHeader_total: "validateCommonHeader d t \<noteq> None"
  by (auto simp: validateCommonHeader_def in_bounds simp del: not_None_eq)

lemma validateCommonHeader_Some:
  "validateCommonHeader d t = Some (Some n) \<Longrightarrow> 16 \<le> unat n \<and> unat n \<le> length d"
  by (auto simp: validateCommonHeader_def bind_eq_Some_conv split: if_splits)

lemma decodeDcerpcBindAck_total: "decodeDcerpcBindAck d \<noteq> None"
proof -
  obtain h where h: "validateCommonHeader d kDcerpcPacketTypeBindAck = Some h"
    using validateCommonHeader_total by blast
  have up: "n \<le> (n + 3) div 4 * 4" for n :: nat by presburger
  show ?thesis
  proof (cases h)
    case None
    with h show ?thesis by (simp add: decodeDcerpcBindAck_def)
  next
    case (Some n)
    with h have n: "unat n \<le> length d" using validateCommonHeader_Some by blast
    have "36 \<le> length d" if "36 \<le> n" using that n by (simp add: word_le_nat_alt)
    with h Some n show ?thesis
      by (auto simp: decodeDcerpcBindAck_def in_bounds Let_def simp del: not_None_eq)
  qed
qed

lemma decodeDcerpcResponse_total: "decodeDcerpcResponse d \<noteq> None"
proof -
  obtain h where h: "validateCommonHeader d kDcerpcPacketTypeResponse = Some h"
    using validateCommonHeader_total by blast
  then show ?thesis
    using validateCommonHeader_Some [of d kDcerpcPacketTypeResponse]
    by (cases h) (auto simp: decodeDcerpcResponse_def in_bounds simp del: not_None_eq)
qed

text \<open>A cursor that starts inside the stub stays inside it.\<close>

definition staysIn :: "bytes \<Rightarrow> 'a ndr \<Rightarrow> bool" where
  "staysIn d p \<longleftrightarrow> (\<forall>offset \<le> length d. p offset \<noteq> None \<and>
     (\<forall>v offset'. p offset = Some (Some (v, offset')) \<longrightarrow> offset' \<le> length d))"

lemma staysIn_ndrReturn: "staysIn d (ndrReturn v)"
  by (simp add: staysIn_def ndrReturn_def)

lemma staysIn_false: "staysIn d (\<lambda>offset. Some None)"
  by (simp add: staysIn_def)

lemma staysIn_ndrThen:
  assumes "staysIn d p" "\<And>v. staysIn d (f v)" shows "staysIn d (ndrThen p f)"
  unfolding staysIn_def ndrThen_def
proof (intro allI impI)
  fix offset assume "offset \<le> length d"
  with assms(1) have "p offset \<noteq> None" "\<And>v o'. p offset = Some (Some (v, o')) \<Longrightarrow> o' \<le> length d"
    unfolding staysIn_def by blast+
  with assms(2) show "(case p offset of None \<Rightarrow> None | Some None \<Rightarrow> Some None | Some (Some (v, o')) \<Rightarrow> f v o') \<noteq> None \<and>
     (\<forall>v o'. (case p offset of None \<Rightarrow> None | Some None \<Rightarrow> Some None | Some (Some (v, o')) \<Rightarrow> f v o') = Some (Some (v, o')) \<longrightarrow>
        o' \<le> length d)"
    by (auto simp: staysIn_def split: option.splits)
qed

lemma staysIn_readU32: "staysIn d (readU32 d)"
  by (auto simp: staysIn_def readU32_def bind_eq_Some_conv in_bounds simp del: not_None_eq)

lemma staysIn_alignTo4: "staysIn d (alignTo4 d)"
  by (auto simp: staysIn_def alignTo4_def Let_def)

lemma staysIn_readUtf16Chars: "staysIn d (readUtf16Chars d n)"
  unfolding staysIn_def
proof (intro allI impI)
  fix offset assume "offset \<le> length d"
  let ?n = "2 * unat n"
  let ?decodeBytes = "if 2 \<le> ?n then do { lastUnit \<leftarrow> readU16Le d (offset + ?n - 2);
      Some (if lastUnit = 0 then ?n - 2 else ?n) } else Some ?n"
  show "readUtf16Chars d n offset \<noteq> None \<and>
     (\<forall>v o'. readUtf16Chars d n offset = Some (Some (v, o')) \<longrightarrow> o' \<le> length d)"
  proof (cases "length d < offset + ?n")
    case True
    then show ?thesis by (simp add: readUtf16Chars_def)
  next
    case False
    then have "?decodeBytes \<noteq> None" by (auto simp: in_bounds simp del: not_None_eq)
    then obtain k where k: "?decodeBytes = Some k" by blast
    then have "k \<le> ?n" by (auto simp: bind_eq_Some_conv split: if_splits)
    then have "Prelude.slice d offset (offset + k) \<noteq> None" using False by simp
    then obtain e where e: "Prelude.slice d offset (offset + k) = Some e" by blast
    obtain r where r: "decodeUtf16Le e = Some r" using decodeUtf16Le_total by blast
    have "readUtf16Chars d n offset = (case r of Failure e \<Rightarrow> Some None | Success v \<Rightarrow> Some (Some (v, offset + ?n)))"
      unfolding readUtf16Chars_def Let_def k using False by (simp add: e r)
    then show ?thesis using False by (cases r) auto
  qed
qed

lemmas staysIn_rules = staysIn_ndrThen staysIn_readU32 staysIn_alignTo4 staysIn_readUtf16Chars staysIn_ndrReturn staysIn_false

lemma staysIn_readUtf16String: "staysIn d (readUtf16String d)"
proof -
  have "staysIn d (if b then (\<lambda>offset. Some None) else ndrThen (readUtf16Chars d n) (\<lambda>value. ndrThen (alignTo4 d) (\<lambda>_. ndrReturn value)))"
    for b n by (cases b) (simp_all add: staysIn_rules)
  then show ?thesis unfolding readUtf16String_def by (intro staysIn_rules)
qed

lemma staysIn_readDeferredShares: "staysIn d (readDeferredShares d n)"
  by (induction n) (auto intro!: staysIn_rules)

definition staysInC :: "bytes \<Rightarrow> 'a ndrChecked \<Rightarrow> bool" where
  "staysInC d p \<longleftrightarrow> (\<forall>offset \<le> length d. p offset \<noteq> None \<and>
     (\<forall>v offset'. p offset = Some (Inr (v, offset')) \<longrightarrow> offset' \<le> length d))"

lemma staysInC_yielding: "staysInC d (yielding v)"
  by (simp add: staysInC_def yielding_def)

lemma staysInC_message: "staysInC d (\<lambda>offset. Some (Inl m))"
  by (simp add: staysInC_def)

lemma staysInC_orMessage: "staysIn d p \<Longrightarrow> staysInC d (orMessage m p)"
  by (auto simp: staysIn_def staysInC_def orMessage_def split: option.splits)

lemma staysInC_andThen:
  assumes "staysInC d p" "\<And>v. staysInC d (f v)" shows "staysInC d (andThen p f)"
  unfolding staysInC_def andThen_def
proof (intro allI impI)
  fix offset assume "offset \<le> length d"
  with assms(1) have "p offset \<noteq> None" "\<And>v o'. p offset = Some (Inr (v, o')) \<Longrightarrow> o' \<le> length d"
    unfolding staysInC_def by blast+
  with assms(2) show "(case p offset of None \<Rightarrow> None | Some (Inl m) \<Rightarrow> Some (Inl m) | Some (Inr (v, o')) \<Rightarrow> f v o') \<noteq> None \<and>
     (\<forall>v o'. (case p offset of None \<Rightarrow> None | Some (Inl m) \<Rightarrow> Some (Inl m) | Some (Inr (v, o')) \<Rightarrow> f v o') = Some (Inr (v, o')) \<longrightarrow>
        o' \<le> length d)"
    by (auto simp: staysInC_def split: option.splits sum.splits)
qed

lemma staysInC_if: "staysInC d p \<Longrightarrow> staysInC d q \<Longrightarrow> staysInC d (if b then p else q)"
  by simp

lemma staysIn_if: "staysIn d p \<Longrightarrow> staysIn d q \<Longrightarrow> staysIn d (if b then p else q)"
  by simp

lemmas checked_rules = staysInC_andThen staysInC_orMessage staysInC_yielding staysInC_message staysInC_if
  staysIn_if staysIn_rules staysIn_readUtf16String staysIn_readDeferredShares

lemma staysInC_readShares: "staysInC d (readShares d items)"
proof (induction items)
  case Nil
  then show ?case by (simp add: staysInC_yielding)
next
  case (Cons item items)
  have "staysInC d (readShare d item)"
    by (cases item) (auto simp: readShare_def readPointedString_def Let_def intro!: checked_rules)
  with Cons show ?case by (auto intro!: checked_rules)
qed

lemma decodeNetrShareEnumResponseStub_total: "decodeNetrShareEnumResponseStub d \<noteq> None"
proof -
  have "staysInC d (decodeNetrShareEnum d)"
    unfolding decodeNetrShareEnum_def readShareBuffer_def readShareContainer_def readResumeHandle_def
    by (auto intro!: checked_rules staysInC_readShares split: prod.splits)
  then have "decodeNetrShareEnum d 0 \<noteq> None" by (simp add: staysInC_def)
  then show ?thesis by (auto simp: decodeNetrShareEnumResponseStub_def split: sum.splits)
qed

section \<open>The shares a server lists\<close>

text \<open>A share as a server describes it: the two referent ids, the type, the name and the
  comment as Unicode text. A string is on the wire when its referent id is not null.\<close>

type_synonym listedShare = "u32 \<times> u32 \<times> u32 \<times> u32 list \<times> u32 list"

definition ndrString :: "u32 list \<Rightarrow> bytes" where
  "ndrString cs =
    (let n = word_of_nat (length (utf16 cs) div 2 + 1) in
     align4 (le32 n @ le32 0 @ le32 n @ utf16 cs @ le16 0))"

definition fitsNdr :: "u32 list \<Rightarrow> bool" where
  "fitsNdr cs \<longleftrightarrow> list_all scalar cs \<and> length (utf16 cs) div 2 + 1 < 2 ^ 32"

definition parses :: "(bytes \<Rightarrow> 'a ndr) \<Rightarrow> bytes \<Rightarrow> 'a \<Rightarrow> bool" where
  "parses p b v \<longleftrightarrow> length b mod 4 = 0 \<and> (\<forall>pre post. length pre mod 4 = 0 \<longrightarrow>
     p (pre @ b @ post) (length pre) = Some (Some (v, length pre + length b)))"

lemma parses_then:
  assumes "parses p b v" "parses (q v) c w"
  shows "parses (\<lambda>d. ndrThen (p d) (\<lambda>x. q x d)) (b @ c) w"
  unfolding parses_def
proof (intro conjI allI impI)
  show "length (b @ c) mod 4 = 0" using assms by (simp add: parses_def mod_add_eq [symmetric])
  fix pre post :: bytes assume pre: "length pre mod 4 = 0"
  have "p (pre @ b @ c @ post) (length pre) = Some (Some (v, length pre + length b))"
    using assms(1) pre by (simp add: parses_def)
  moreover have "q v ((pre @ b) @ c @ post) (length (pre @ b)) = Some (Some (w, length (pre @ b) + length c))"
  proof -
    have "length (pre @ b) mod 4 = 0" using assms(1) pre by (simp add: parses_def mod_add_eq [symmetric])
    then show ?thesis by (rule assms(2) [unfolded parses_def, THEN conjunct2, rule_format])
  qed
  ultimately show "ndrThen (p (pre @ (b @ c) @ post)) (\<lambda>x. q x (pre @ (b @ c) @ post)) (length pre) =
      Some (Some (w, length pre + length (b @ c)))"
    by (simp add: ndrThen_def add.assoc)
qed

lemma parses_return: "parses (\<lambda>d. ndrReturn v) [] v"
  by (simp add: parses_def ndrReturn_def)

lemma parses_last:
  assumes "parses p b v" shows "parses (\<lambda>d. ndrThen (p d) (\<lambda>x. ndrReturn (g x))) b (g v)"
  using parses_then [where q = "\<lambda>x d. ndrReturn (g x)", OF assms parses_return] by simp

lemma parses_readU32: "parses readU32 (le32 v) v"
  by (simp add: parses_def readU32_def wire)

lemma pad4: "(m + (4 - m mod 4) mod 4) mod 4 = (0 :: nat)"
  and round4: "k mod 4 = 0 \<Longrightarrow> (k + m + 3) div 4 * 4 = k + (m + (4 - m mod 4) mod 4)" for m k :: nat
proof -
  obtain q r where m: "m = 4 * q + r" "r < 4"
    by (metis mod_less_divisor mult_div_mod_eq zero_less_numeral)
  then have r: "m mod 4 = r" by simp
  from m(2) consider "r = 0" | "r = 1" | "r = 2" | "r = 3" by linarith
  then show "(m + (4 - m mod 4) mod 4) mod 4 = 0" unfolding r using m(1) by cases simp_all
  assume "k mod 4 = 0"
  then obtain p where k: "k = 4 * p" by auto
  from m(2) consider "r = 0" | "r = 1" | "r = 2" | "r = 3" by linarith
  then show "(k + m + 3) div 4 * 4 = k + (m + (4 - m mod 4) mod 4)" unfolding r using m(1) k
    by cases (simp_all, presburger+)
qed

lemma readUtf16Chars_at:
  assumes "2 * unat n = len + 2" "readU16Le d (offset + len) = Some 0"
    "Prelude.slice d offset (offset + len) = Some e" "decodeUtf16Le e = Some (Success v)" "offset + len + 2 \<le> length d"
  shows "readUtf16Chars d n offset = Some (Some (v, offset + len + 2))"
proof -
  have "offset + (len + 2) - 2 = offset + len" by simp
  with assms show ?thesis by (simp add: readUtf16Chars_def Let_def)
qed

lemma parses_ndrString:
  assumes "fitsNdr cs" shows "parses readUtf16String (ndrString cs) (utf8 cs)"
  unfolding parses_def
proof (intro conjI allI impI)
  let ?u = "utf16 cs"
  define n :: u32 where "n = word_of_nat (length ?u div 2 + 1)"
  let ?pad = "replicate ((4 - (14 + length ?u) mod 4) mod 4) (0 :: u8)"
  have enc: "ndrString cs = le32 n @ le32 0 @ le32 n @ ?u @ le16 0 @ ?pad"
    by (simp add: ndrString_def align4_def Let_def n_def del: of_nat_add of_nat_Suc)
  have len: "length (ndrString cs) = 14 + length ?u + (4 - (14 + length ?u) mod 4) mod 4" by (simp add: enc)
  show "length (ndrString cs) mod 4 = 0" unfolding len by (rule pad4)
  fix pre post :: bytes assume pre: "length pre mod 4 = 0"
  have n: "2 * unat n = length ?u + 2"
  proof -
    have "unat n = length ?u div 2 + 1" using assms unfolding n_def by (intro unat_of_nat32) (simp add: fitsNdr_def)
    then show ?thesis using even_length_utf16 [of cs] by simp
  qed
  have chars: "readUtf16Chars (pre @ ndrString cs @ post) n (length pre + 12) =
      Some (Some (utf8 cs, length pre + 14 + length ?u))"
  proof -
    have "readU16Le (pre @ ndrString cs @ post) (length pre + 12 + length ?u) = Some 0"
      by (simp add: enc wire)
    moreover have "Prelude.slice (pre @ ndrString cs @ post) (length pre + 12) (length pre + 12 + length ?u) = Some ?u"
      by (simp add: enc wire)
    moreover have "decodeUtf16Le ?u = Some (Success (utf8 cs))"
      using assms by (simp add: fitsNdr_def decodeUtf16Le_utf16)
    moreover have "length (pre @ ndrString cs @ post) \<ge> length pre + 14 + length ?u" by (simp add: enc)
    ultimately show ?thesis
      using readUtf16Chars_at [OF n, of "pre @ ndrString cs @ post" "length pre + 12"] by simp
  qed
  show "readUtf16String (pre @ ndrString cs @ post) (length pre) =
      Some (Some (utf8 cs, length pre + length (ndrString cs)))"
  proof -
    have at: "readU32 (pre @ ndrString cs @ post) (length pre) = Some (Some (n, length pre + 4))"
      "readU32 (pre @ ndrString cs @ post) (length pre + 4) = Some (Some (0, length pre + 8))"
      "readU32 (pre @ ndrString cs @ post) (length pre + 8) = Some (Some (n, length pre + 12))"
      by (simp_all add: readU32_def enc wire del: of_nat_add of_nat_Suc)
    have "(length pre + 14 + length ?u + 3) div 4 * 4 = length pre + length (ndrString cs)"
      using round4 [OF pre, of "14 + length ?u"] unfolding len by (simp only: add.assoc)
    then have "alignTo4 (pre @ ndrString cs @ post) (length pre + 14 + length ?u) =
        Some (Some ((), length pre + length (ndrString cs)))"
      by (simp add: alignTo4_def Let_def)
    with at chars show ?thesis
      by (simp add: readUtf16String_def ndrThen_def ndrReturn_def del: of_nat_add of_nat_Suc)
  qed
qed

fun fixedPart :: "listedShare \<Rightarrow> bytes" where
  "fixedPart (np, ty, cp, nm, cm) = le32 np @ le32 ty @ le32 cp"

fun stringPart :: "listedShare \<Rightarrow> bytes" where
  "stringPart (np, ty, cp, nm, cm) =
     (if np \<noteq> 0 then ndrString nm else []) @ (if cp \<noteq> 0 then ndrString cm else [])"

fun fitsShare :: "listedShare \<Rightarrow> bool" where
  "fitsShare (np, ty, cp, nm, cm) \<longleftrightarrow> fitsNdr nm \<and> fitsNdr cm"

fun deferredOf :: "listedShare \<Rightarrow> u32 \<times> u32 \<times> u32" where
  "deferredOf (np, ty, cp, nm, cm) = (np, ty, cp)"

text \<open>What the client shows of it: hidden are the special shares and the names that end in a dollar.\<close>

fun shareOf :: "listedShare \<Rightarrow> SrvsShareInfo" where
  "shareOf (np, ty, cp, nm, cm) =
    (let name = if np \<noteq> 0 then utf8 nm else [] in
     \<lparr>ssi_name = name, ssi_rawType = ty, ssi_kind = shareKind ty,
      ssi_comment = (if cp \<noteq> 0 then utf8 cm else []),
      ssi_hidden = (bit ty 31 \<or> endsWithDollar name), ssi_special = bit ty 31, ssi_temporary = bit ty 30\<rparr>)"

definition shareEnumStub :: "u32 \<Rightarrow> u32 \<Rightarrow> listedShare list \<Rightarrow> u32 \<Rightarrow> (u32 \<times> u32) option \<Rightarrow> u32 \<Rightarrow> bytes" where
  "shareEnumStub container buffer xs allEntries resume status =
     le32 1 @ le32 1 @ le32 container @ le32 (word_of_nat (length xs)) @ le32 buffer @
     le32 (word_of_nat (length xs)) @ concat (map fixedPart xs) @ concat (map stringPart xs) @
     le32 allEntries @ (case resume of None \<Rightarrow> le32 0 | Some (p, h) \<Rightarrow> le32 p @ le32 h) @ le32 status"

definition parsesC :: "(bytes \<Rightarrow> 'a ndrChecked) \<Rightarrow> bytes \<Rightarrow> 'a \<Rightarrow> bool" where
  "parsesC p b v \<longleftrightarrow> length b mod 4 = 0 \<and> (\<forall>pre post. length pre mod 4 = 0 \<longrightarrow>
     p (pre @ b @ post) (length pre) = Some (Inr (v, length pre + length b)))"

lemma parsesC_andThen:
  assumes "parsesC p b v" "parsesC (q v) c w"
  shows "parsesC (\<lambda>d. andThen (p d) (\<lambda>x. q x d)) (b @ c) w"
  unfolding parsesC_def
proof (intro conjI allI impI)
  show "length (b @ c) mod 4 = 0" using assms by (simp add: parsesC_def mod_add_eq [symmetric])
  fix pre post :: bytes assume pre: "length pre mod 4 = 0"
  have "p (pre @ b @ c @ post) (length pre) = Some (Inr (v, length pre + length b))"
    using assms(1) pre by (simp add: parsesC_def)
  moreover have "q v ((pre @ b) @ c @ post) (length (pre @ b)) = Some (Inr (w, length (pre @ b) + length c))"
  proof -
    have "length (pre @ b) mod 4 = 0" using assms(1) pre by (simp add: parsesC_def mod_add_eq [symmetric])
    then show ?thesis by (rule assms(2) [unfolded parsesC_def, THEN conjunct2, rule_format])
  qed
  ultimately show "andThen (p (pre @ (b @ c) @ post)) (\<lambda>x. q x (pre @ (b @ c) @ post)) (length pre) =
      Some (Inr (w, length pre + length (b @ c)))"
    by (simp add: andThen_def add.assoc)
qed

lemma parsesC_yielding: "parsesC (\<lambda>d. yielding v) [] v"
  by (simp add: parsesC_def yielding_def)

lemma parsesC_last:
  assumes "parsesC p b v" shows "parsesC (\<lambda>d. andThen (p d) (\<lambda>x. yielding (g x))) b (g v)"
  using parsesC_andThen [where q = "\<lambda>x d. yielding (g x)", OF assms parsesC_yielding] by simp

lemma parsesC_orMessage: "parses p b v \<Longrightarrow> parsesC (\<lambda>d. orMessage m (p d)) b v"
  by (simp add: parses_def parsesC_def orMessage_def)

lemma parses_deferred:
  "parses (\<lambda>d. readDeferredShares d (length xs)) (concat (map fixedPart xs)) (map deferredOf xs)"
proof (induction xs)
  case Nil
  then show ?case by (simp add: parses_return)
next
  case (Cons x xs)
  obtain np ty cp nm cm where x: "x = (np, ty, cp, nm, cm)" by (cases x)
  have "parses (\<lambda>d. ndrThen (readU32 d) (\<lambda>n. ndrThen (readU32 d) (\<lambda>t. ndrThen (readU32 d) (\<lambda>c.
      ndrThen (readDeferredShares d (length xs)) (\<lambda>rest. ndrReturn ((n, t, c) # rest))))))
     (le32 np @ le32 ty @ le32 cp @ concat (map fixedPart xs)) ((np, ty, cp) # map deferredOf xs)"
    by (intro parses_then [OF parses_readU32] parses_last [OF Cons.IH])
  then show ?case by (simp add: x)
qed

lemma parses_pointed:
  "fitsNdr cs \<Longrightarrow> parses (\<lambda>d. readPointedString d p) (if p \<noteq> 0 then ndrString cs else []) (if p \<noteq> 0 then utf8 cs else [])"
  by (simp add: readPointedString_def parses_ndrString parses_return)

lemma top_bits: "(ty AND 0x80000000 \<noteq> 0) = bit (ty :: u32) 31" "(ty AND 0x40000000 \<noteq> 0) = bit (ty :: u32) 30"
proof -
  have "(0x80000000 :: u32) = push_bit 31 1" "(0x40000000 :: u32) = push_bit 30 1" by simp_all
  then show "(ty AND 0x80000000 \<noteq> 0) = bit (ty :: u32) 31" "(ty AND 0x40000000 \<noteq> 0) = bit (ty :: u32) 30"
    by (simp_all only: push_bit_of_1 and_exp_eq_0_iff_not_bit not_not)
qed

lemma parses_readShare:
  assumes "fitsShare x" shows "parsesC (\<lambda>d. readShare d (deferredOf x)) (stringPart x) (shareOf x)"
proof -
  obtain np ty cp nm cm where x: "x = (np, ty, cp, nm, cm)" by (cases x)
  with assms have "fitsNdr nm" "fitsNdr cm" by simp_all
  then show ?thesis
    unfolding x deferredOf.simps stringPart.simps shareOf.simps readShare_def prod.case Let_def top_bits
    by (intro parsesC_andThen [OF parsesC_orMessage [OF parses_pointed]] parsesC_last [OF parsesC_orMessage [OF parses_pointed]])
qed

lemma parses_readShares:
  "list_all fitsShare xs \<Longrightarrow>
     parsesC (\<lambda>d. readShares d (map deferredOf xs)) (concat (map stringPart xs)) (map shareOf xs)"
proof (induction xs)
  case Nil
  then show ?case by (simp add: parsesC_yielding)
next
  case (Cons x xs)
  then show ?case
    by simp (intro parsesC_andThen [OF parses_readShare] parsesC_last; simp)
qed

lemma parses_shareEnum:
  assumes "list_all fitsShare xs" "length xs < 2 ^ 32" "container \<noteq> 0" "buffer \<noteq> 0" "\<forall>p h. resume = Some (p, h) \<longrightarrow> p \<noteq> 0"
  shows "parsesC decodeNetrShareEnum (shareEnumStub container buffer xs allEntries resume status)
     \<lparr>sse_shares = map shareOf xs, sse_totalEntries = allEntries, sse_resumeHandle = map_option snd resume,
      sse_apiStatus = status, sse_moreData = (status = 234)\<rparr>"
proof -
  let ?n = "word_of_nat (length xs) :: u32"
  have n: "unat ?n = length xs" using assms(2) by (intro unat_of_nat32) simp
  have header: "parses (\<lambda>d. ndrThen (readU32 d) (\<lambda>level. ndrThen (readU32 d) (\<lambda>unionLevel. ndrThen (readU32 d)
      (\<lambda>containerPointer. ndrReturn (level, unionLevel, containerPointer))))) (le32 1 @ le32 1 @ le32 container) (1, 1, container)"
    by (intro parses_then [OF parses_readU32] parses_last [OF parses_readU32])
  have counts: "parses (\<lambda>d. readShareContainer d container) (le32 ?n @ le32 buffer) (?n, buffer)"
    using assms(3) by (simp add: readShareContainer_def) (intro parses_then [OF parses_readU32] parses_last [OF parses_readU32])
  have deferred: "parses (\<lambda>d. readDeferredShares d (unat ?n)) (concat (map fixedPart xs)) (map deferredOf xs)"
    unfolding n by (rule parses_deferred)
  have items: "parsesC (\<lambda>d. andThen (orMessage m (readDeferredShares d (unat ?n))) (readShares d))
      (concat (map fixedPart xs) @ concat (map stringPart xs)) (map shareOf xs)" for m
    by (rule parsesC_andThen [where q = "\<lambda>x d. readShares d x",
          OF parsesC_orMessage [OF deferred] parses_readShares [OF assms(1)]])
  have buf: "parsesC (\<lambda>d. readShareBuffer d ?n buffer)
      (le32 ?n @ concat (map fixedPart xs) @ concat (map stringPart xs)) (map shareOf xs)"
    unfolding readShareBuffer_def if_P [OF assms(4)]
    by (intro parsesC_andThen [OF parsesC_orMessage [OF parses_readU32]]) (simp add: items del: of_nat_numeral)
  have handle: "parsesC (\<lambda>d. readResumeHandle d p) (le32 h) (Some h)" if "p \<noteq> 0" for p h
    using that by (simp add: readResumeHandle_def parsesC_last [OF parsesC_orMessage [OF parses_readU32]])
  have nohandle: "parsesC (\<lambda>d. readResumeHandle d 0) [] None"
    by (simp add: readResumeHandle_def parsesC_yielding)
  let ?p = "case resume of None \<Rightarrow> 0 | Some (p, h) \<Rightarrow> p"
  let ?h = "case resume of None \<Rightarrow> [] | Some (p, h) \<Rightarrow> le32 h"
  have res: "parsesC (\<lambda>d. readResumeHandle d ?p) ?h (map_option snd resume)"
    using assms(5) handle nohandle by (cases resume) auto
  have "parsesC decodeNetrShareEnum ((le32 1 @ le32 1 @ le32 container) @ (le32 ?n @ le32 buffer) @
      (le32 ?n @ concat (map fixedPart xs) @ concat (map stringPart xs)) @ le32 allEntries @ le32 ?p @ ?h @ le32 status)
     \<lparr>sse_shares = map shareOf xs, sse_totalEntries = allEntries, sse_resumeHandle = map_option snd resume,
      sse_apiStatus = status, sse_moreData = (status = 234)\<rparr>"
    unfolding decodeNetrShareEnum_def
    apply (rule parsesC_andThen [OF parsesC_orMessage [OF header]])
    apply (simp only: prod.case simp_thms if_False)
    apply (rule parsesC_andThen [OF parsesC_orMessage [OF counts]])
    apply (simp only: prod.case)
    by (intro parsesC_andThen [OF buf] parsesC_andThen [OF parsesC_orMessage [OF parses_readU32]]
        parsesC_andThen [OF res] parsesC_last [OF parsesC_orMessage [OF parses_readU32]])
  then show ?thesis by (cases resume) (auto simp: shareEnumStub_def)
qed

section \<open>Properties\<close>

text \<open>C16: the shares that a server lists in the NDR form of NetrShareEnum (any names and
  comments, absent strings included, with or without a resume handle) are decoded to
  exactly those shares in order, with the type and the hidden, special and temporary
  marks of each; the status ERROR_MORE_DATA is passed on as more data.\<close>

theorem share_enumeration_decoded:
  assumes "list_all fitsShare xs" "length xs < 2 ^ 32" "container \<noteq> 0" "buffer \<noteq> 0"
    and "\<forall>p h. resume = Some (p, h) \<longrightarrow> p \<noteq> 0" "status = 0 \<or> status = 234"
  shows "decodeNetrShareEnumResponseStub (shareEnumStub container buffer xs allEntries resume status) =
     Some (Success \<lparr>sse_shares = map shareOf xs, sse_totalEntries = allEntries,
       sse_resumeHandle = map_option snd resume, sse_apiStatus = status, sse_moreData = (status = 234)\<rparr>)"
proof -
  have "decodeNetrShareEnum ([] @ shareEnumStub container buffer xs allEntries resume status @ []) (length ([] :: bytes)) =
    Some (Inr (\<lparr>sse_shares = map shareOf xs, sse_totalEntries = allEntries,
       sse_resumeHandle = map_option snd resume, sse_apiStatus = status, sse_moreData = (status = 234)\<rparr>,
       length ([] :: bytes) + length (shareEnumStub container buffer xs allEntries resume status)))"
    by (rule parses_shareEnum [OF assms(1-5), unfolded parsesC_def, THEN conjunct2, rule_format]) simp
  then show ?thesis using assms(6) by (auto simp: decodeNetrShareEnumResponseStub_def)
qed

text \<open>The shares \<open>C$\<close> (special) and \<open>pub\<close> with its comment, and one without a name.\<close>

theorem share_enumeration_decoded_witness:
  "decodeNetrShareEnumResponseStub (shareEnumStub 1 2
      [(4, 0x80000000, 0, [0x43, 0x24], []), (4, 0, 5, [0x70, 0x75, 0x62], [0x63]), (0, 3, 0, [], [])] 3 None 234) =
   Some (Success \<lparr>sse_shares = map shareOf
      [(4, 0x80000000, 0, [0x43, 0x24], []), (4, 0, 5, [0x70, 0x75, 0x62], [0x63]), (0, 3, 0, [], [])],
      sse_totalEntries = 3, sse_resumeHandle = None, sse_apiStatus = 234, sse_moreData = True\<rparr>)"
  by (subst share_enumeration_decoded)
    (simp_all add: fitsNdr_def scalar_def utf16_def utf16Units_def)

text \<open>The fragment length of a request is cut to 16 bits, so the PDU of a stub of 65512
  bytes announces no bytes at all.\<close>

lemma request_fragment_truncated:
  assumes "length stub = 65512" shows "readU16Le (buildDcerpcRequestPdu 15 stub 2 0) 8 = Some 0"
  using assms by (simp add: buildDcerpcRequestPdu_def appendCommonHeader_def wire)

end
