(* ===== verification/Dfs.thy ===== *)
theory Dfs
  imports Session
begin

text \<open>
  DFS referrals: the request and the referral entries of versions 2 to 4
  (\<open>DfsReferral.cpp\<close>), the one IOCTL that carries them (\<open>RemoteDfsReferralFetcher.cpp\<close>) and
  \<open>NativeSmbSession::getDfsReferrals\<close>.
\<close>

section \<open>Referrals on the wire\<close>

record DfsReferralEntry =
  dre_version :: u16
  dre_serverType :: u16
  dre_flags :: u16
  dre_timeToLiveSeconds :: u32
  dre_dfsPath :: bytes
  dre_dfsAlternatePath :: bytes
  dre_networkAddress :: bytes
  dre_rootTarget :: bool
  dre_nameListReferral :: bool

record DfsReferralResponse =
  drr_pathConsumedBytes :: u16
  drr_headerFlags :: u32
  drr_entries :: "DfsReferralEntry list"

definition buildDfsGetReferralRequest :: "bytes \<Rightarrow> u16 \<Rightarrow> string + bytes" where
  "buildDfsGetReferralRequest requestPath maxReferralLevel =
    (case encodeUtf16Le requestPath of
       Inl m \<Rightarrow> Inl m
     | Inr encoded \<Rightarrow> Inr (le16 maxReferralLevel @ encoded @ le16 0))"

text \<open>The loop that looks for the terminating zero; \<open>from\<close> is where the string starts.\<close>

function findStringEnd :: "bytes \<Rightarrow> nat \<Rightarrow> nat option option" where
  "findStringEnd d e =
    (if e + 1 < length d
     then do { unit \<leftarrow> readU16Le d e; if unit = 0 then Some (Some e) else findStringEnd d (e + 2) }
     else Some None)"
  by pat_completeness auto

termination by (relation "measure (\<lambda>(d, e). length d - e)") auto

declare findStringEnd.simps [simp del]

definition readReferralString :: "bytes \<Rightarrow> nat \<Rightarrow> bytes DecodeResult option" where
  "readReferralString d offset =
    (if length d \<le> offset then Some (failure EcIoError ''DFS referral string offset is out of bounds.'')
     else do {
       found \<leftarrow> findStringEnd d offset;
       case found of
         None \<Rightarrow> Some (failure EcIoError ''DFS referral string is not null-terminated.'')
       | Some e \<Rightarrow> do { encoded \<leftarrow> slice d offset e; decodeUtf16Le encoded } })"

text \<open>\<open>Some None\<close> is the result false.\<close>

definition readOptionalString :: "bytes \<Rightarrow> nat \<Rightarrow> u16 \<Rightarrow> bytes option option" where
  "readOptionalString d entryOffset stringOffset =
    (if stringOffset = 0 then Some (Some [])
     else do {
       decoded \<leftarrow> readReferralString d (entryOffset + unat stringOffset);
       case decoded of Failure e \<Rightarrow> Some None | Success v \<Rightarrow> Some (Some v) })"

text \<open>The part of an entry that depends on its version: server type, flags, time to live,
  name list, and the offsets of the three strings.\<close>

definition decodeReferralFields ::
  "bytes \<Rightarrow> nat \<Rightarrow> u16 \<Rightarrow> u16 \<Rightarrow> (u16 \<times> u16 \<times> u32 \<times> bool \<times> u16 \<times> u16 \<times> u16) DecodeResult option" where
  "decodeReferralFields d entryOffset version entrySize =
    (if version = 2 then
       if entrySize < 22 then Some (failure EcIoError ''DFS referral v2 entry is truncated.'')
       else do {
         serverType \<leftarrow> readU16Le d (entryOffset + 4);
         flags \<leftarrow> readU16Le d (entryOffset + 6);
         timeToLive \<leftarrow> readU32Le d (entryOffset + 12);
         dfsPathOffset \<leftarrow> readU16Le d (entryOffset + 16);
         dfsAlternatePathOffset \<leftarrow> readU16Le d (entryOffset + 18);
         networkAddressOffset \<leftarrow> readU16Le d (entryOffset + 20);
         Some (Success (serverType, flags, timeToLive, False, dfsPathOffset, dfsAlternatePathOffset, networkAddressOffset)) }
     else if version = 3 \<or> version = 4 then
       if entrySize < 34 then Some (failure EcIoError ''DFS referral v3/v4 entry is truncated.'')
       else do {
         serverType \<leftarrow> readU16Le d (entryOffset + 4);
         flags \<leftarrow> readU16Le d (entryOffset + 6);
         timeToLive \<leftarrow> readU32Le d (entryOffset + 8);
         dfsPathOffset \<leftarrow> readU16Le d (entryOffset + 12);
         if flags AND 0x0002 \<noteq> 0
         then Some (Success (serverType, flags, timeToLive, True, dfsPathOffset, 0, 0))
         else do {
           dfsAlternatePathOffset \<leftarrow> readU16Le d (entryOffset + 14);
           networkAddressOffset \<leftarrow> readU16Le d (entryOffset + 16);
           Some (Success (serverType, flags, timeToLive, False, dfsPathOffset, dfsAlternatePathOffset,
             networkAddressOffset)) } }
     else Some (failure EcProtocolUnsupported ''Unsupported DFS referral entry version.''))"

text \<open>The three strings are read left to right and the first that fails ends the reading.\<close>

definition readReferralStrings :: "bytes \<Rightarrow> nat \<Rightarrow> u16 \<Rightarrow> u16 \<Rightarrow> u16 \<Rightarrow> (bytes \<times> bytes \<times> bytes) option option" where
  "readReferralStrings d entryOffset dfsPathOffset dfsAlternatePathOffset networkAddressOffset = do {
     dfsPath \<leftarrow> readOptionalString d entryOffset dfsPathOffset;
     case dfsPath of None \<Rightarrow> Some None | Some path \<Rightarrow> do {
     dfsAlternatePath \<leftarrow> readOptionalString d entryOffset dfsAlternatePathOffset;
     case dfsAlternatePath of None \<Rightarrow> Some None | Some alternate \<Rightarrow> do {
     networkAddress \<leftarrow> readOptionalString d entryOffset networkAddressOffset;
     case networkAddress of None \<Rightarrow> Some None | Some address \<Rightarrow> Some (Some (path, alternate, address)) } } }"

definition decodeReferralEntry :: "bytes \<Rightarrow> nat \<Rightarrow> DfsReferralEntry DecodeResult option" where
  "decodeReferralEntry d entryOffset =
    (if length d < entryOffset + 4 then Some (failure EcIoError ''DFS referral entry is truncated.'')
     else do {
       version \<leftarrow> readU16Le d entryOffset;
       entrySize \<leftarrow> readU16Le d (entryOffset + 2);
       if entrySize = 0 \<or> length d < entryOffset + unat entrySize
       then Some (failure EcIoError ''DFS referral entry size is invalid.'')
       else do {
         fields \<leftarrow> decodeReferralFields d entryOffset version entrySize;
         case fields of
           Failure e \<Rightarrow> Some (Failure e)
         | Success (serverType, flags, timeToLive, nameList, dfsPathOffset, dfsAlternatePathOffset,
             networkAddressOffset) \<Rightarrow> do {
             strings \<leftarrow> readReferralStrings d entryOffset dfsPathOffset dfsAlternatePathOffset networkAddressOffset;
             case strings of
               None \<Rightarrow> Some (failure EcIoError ''DFS referral entry string is invalid.'')
             | Some (path, alternate, address) \<Rightarrow> Some (Success
                 \<lparr>dre_version = version, dre_serverType = serverType, dre_flags = flags,
                  dre_timeToLiveSeconds = timeToLive, dre_dfsPath = path, dre_dfsAlternatePath = alternate,
                  dre_networkAddress = address, dre_rootTarget = (serverType = 1),
                  dre_nameListReferral = nameList\<rparr>) } } })"

text \<open>The loop over the announced number of entries.\<close>

fun decodeReferralEntries :: "bytes \<Rightarrow> nat \<Rightarrow> nat \<Rightarrow> DfsReferralEntry list DecodeResult option" where
  "decodeReferralEntries d 0 entryOffset = Some (Success [])"
| "decodeReferralEntries d (Suc n) entryOffset =
    (if length d < entryOffset + 4 then Some (failure EcIoError ''DFS referral response entries are truncated.'')
     else do {
       entrySize \<leftarrow> readU16Le d (entryOffset + 2);
       decoded \<leftarrow> decodeReferralEntry d entryOffset;
       case decoded of
         Failure e \<Rightarrow> Some (failureFrom e)
       | Success entry \<Rightarrow> do {
           rest \<leftarrow> decodeReferralEntries d n (entryOffset + unat entrySize);
           case rest of
             Failure e \<Rightarrow> Some (Failure e)
           | Success entries \<Rightarrow> Some (Success (entry # entries)) } })"

definition decodeDfsReferralResponse :: "bytes \<Rightarrow> DfsReferralResponse DecodeResult option" where
  "decodeDfsReferralResponse d =
    (if length d < 8 then Some (failure EcIoError ''DFS referral response header is truncated.'')
     else do {
       pathConsumed \<leftarrow> readU16Le d 0;
       referralCount \<leftarrow> readU16Le d 2;
       headerFlags \<leftarrow> readU32Le d 4;
       decoded \<leftarrow> decodeReferralEntries d (unat referralCount) 8;
       case decoded of
         Failure e \<Rightarrow> Some (Failure e)
       | Success entries \<Rightarrow> Some (Success
           \<lparr>drr_pathConsumedBytes = pathConsumed, drr_headerFlags = headerFlags, drr_entries = entries\<rparr>) })"

section \<open>RemoteDfsReferralFetcher\<close>

record NativeDfsReferralResult =
  ndr_response :: DfsReferralResponse
  ndr_messagesUsed :: u64

definition getReferralsAt ::
  "'w Transport \<Rightarrow> bytes \<Rightarrow> u64 \<Rightarrow> u32 \<Rightarrow> u64 \<Rightarrow> 'w OperationContext \<Rightarrow> ('w, 'z, NativeDfsReferralResult) prog" where
  "getReferralsAt transport requestPath messageId treeId sessionId context =
     unlessCancelled context (failureUsing EcCancelled ''SMB DFS referral request was cancelled.'' 0) (
     built (buildDfsGetReferralRequest requestPath 3) (\<lambda>input.
     onSuccess (exchangePayload transport context (buildIoctlRequest
         (ioctlOptionsFor 0x00060194 \<lparr>fid_persistent = - 1, fid_volatileId = - 1\<rparr> input (64 * 1024))
         messageId treeId sessionId)) (failureUsed 1) (\<lambda>payload.
     onSuccess (checked (decodeIoctlResponse payload)) (failureUsed 1) (\<lambda>ioctl.
     onSuccess (checked (decodeDfsReferralResponse (ior_output ioctl))) (failureUsed 1) (\<lambda>referrals.
     giving (Success \<lparr>ndr_response = referrals, ndr_messagesUsed = 1\<rparr>))))))"

definition getDfsReferrals ::
  "'w Transport \<Rightarrow> bytes \<Rightarrow> 'w OperationContext \<Rightarrow> ('w, 'y, NativeDfsReferralResult) sprog" where
  "getDfsReferrals transport requestPath context =
     counting (\<lambda>messageId treeId sessionId. getReferralsAt transport requestPath messageId treeId sessionId context)
       pe_messagesUsed ndr_messagesUsed (\<lambda>result. result)"

section \<open>No read out of bounds\<close>

lemma findStringEnd_in: "\<exists>r. findStringEnd d e = Some r \<and> (\<forall>n. r = Some n \<longrightarrow> e \<le> n \<and> n + 1 < length d)"
proof (induction d e rule: findStringEnd.induct)
  case (1 d e)
  show ?case
  proof (cases "e + 1 < length d")
    case True
    then have "readU16Le d e \<noteq> None" by simp
    then obtain unit where u: "readU16Le d e = Some unit" by blast
    show ?thesis
    proof (cases "unit = 0")
      case False
      from "1.IH" [OF True u False] obtain r where "findStringEnd d (e + 2) = Some r"
        "\<forall>n. r = Some n \<longrightarrow> e + 2 \<le> n \<and> n + 1 < length d" by blast
      then show ?thesis by (subst findStringEnd.simps) (use True u False in auto)
    qed (subst findStringEnd.simps, use True u in simp)
  next
    case False
    then show ?thesis by (subst findStringEnd.simps) simp
  qed
qed

lemma readReferralString_total: "readReferralString d offset \<noteq> None"
proof -
  obtain r where r: "findStringEnd d offset = Some r" "\<forall>n. r = Some n \<longrightarrow> offset \<le> n \<and> n + 1 < length d"
    using findStringEnd_in by blast
  then show ?thesis
    by (cases r) (auto simp: readReferralString_def in_bounds decodeUtf16Le_total simp del: not_None_eq)
qed

lemma readOptionalString_total: "readOptionalString d o' s \<noteq> None"
  using readReferralString_total [of d "o' + unat s"]
  by (auto simp: readOptionalString_def in_bounds split: DecodeResult.splits simp del: not_None_eq)

lemma readReferralStrings_total: "readReferralStrings d o' a b c \<noteq> None"
  by (auto simp: readReferralStrings_def in_bounds readOptionalString_total split: option.splits simp del: not_None_eq)

lemma decodeReferralFields_total:
  "o' + unat entrySize \<le> length d \<Longrightarrow> decodeReferralFields d o' version entrySize \<noteq> None"
  by (auto simp: decodeReferralFields_def in_bounds word_less_nat_alt simp del: not_None_eq)

lemma decodeReferralEntry_total: "decodeReferralEntry d o' \<noteq> None"
proof -
  have "decodeReferralFields d o' version entrySize \<noteq> None" if "\<not> length d < o' + unat entrySize" for version entrySize
    using that by (intro decodeReferralFields_total) simp
  then show ?thesis
    by (auto simp: decodeReferralEntry_def in_bounds readReferralStrings_total
        split: DecodeResult.splits option.splits prod.splits simp del: not_None_eq)
qed

lemma decodeReferralEntries_total: "decodeReferralEntries d n o' \<noteq> None"
proof (induction n arbitrary: o')
  case (Suc n)
  then show ?case
    by (auto simp: in_bounds decodeReferralEntry_total split: DecodeResult.splits simp del: not_None_eq)
qed simp

lemma decodeDfsReferralResponse_total: "decodeDfsReferralResponse d \<noteq> None"
  by (auto simp: decodeDfsReferralResponse_def in_bounds decodeReferralEntries_total
      split: DecodeResult.splits simp del: not_None_eq)

text \<open>Every entry stands for at least 22 bytes.\<close>

lemma decodeReferralEntries_count:
  "decodeReferralEntries d n o' = Some (Success es) \<Longrightarrow> o' \<le> length d \<Longrightarrow> o' + 22 * length es \<le> length d"
proof (induction n arbitrary: o' es)
  case (Suc n)
  have l: "\<not> length d < o' + 4" using Suc.prems(1) by (auto split: if_splits)
  then obtain entrySize where s1: "readU16Le d (o' + 2) = Some entrySize" by (fastforce simp del: not_None_eq)
  obtain r where r: "decodeReferralEntry d o' = Some r" using decodeReferralEntry_total by blast
  from Suc.prems(1) l s1 r obtain entry where s2: "r = Success entry" by (cases r) auto
  obtain q where q: "decodeReferralEntries d n (o' + unat entrySize) = Some q" using decodeReferralEntries_total by blast
  from Suc.prems(1) l s1 r s2 q obtain rest where s3: "q = Success rest" "es = entry # rest" by (cases q) auto
  have *: "o' + unat entrySize \<le> length d" "22 \<le> unat entrySize"
    using r s1 unfolding s2
    by (auto simp: decodeReferralEntry_def decodeReferralFields_def bind_eq_Some_conv word_less_nat_alt
        split: if_splits DecodeResult.splits)
  from Suc.IH [OF q [unfolded s3(1)] *(1)] *(2) s3(2) show ?case by simp
qed simp

section \<open>The referrals a server lists\<close>

text \<open>
  What the bytes of a response say, independent of how they are laid out: \<open>has d i b\<close> says that
  \<open>b\<close> stands at \<open>i\<close>. A listed string is an offset from its entry and its characters; offset
  zero is an absent string. Strings may be shared, padded or in any order.
\<close>

definition has :: "bytes \<Rightarrow> nat \<Rightarrow> bytes \<Rightarrow> bool" where
  "has d i b \<longleftrightarrow> take (length b) (drop i d) = b"

type_synonym listedString = "u16 \<times> u32 list"
type_synonym listedReferral =
  "u16 \<times> u16 \<times> u16 \<times> u16 \<times> u32 \<times> listedString \<times> listedString \<times> listedString"

fun lists :: "bytes \<Rightarrow> nat \<Rightarrow> listedString \<Rightarrow> bool" where
  "lists d entryOffset (o', cs) \<longleftrightarrow>
     (if o' = 0 then cs = []
      else list_all (\<lambda>c. scalar c \<and> c \<noteq> 0) cs \<and> has d (entryOffset + unat o') (utf16 cs @ le16 0))"

fun listsReferral :: "bytes \<Rightarrow> nat \<Rightarrow> listedReferral \<Rightarrow> bool" where
  "listsReferral d i (version, entrySize, ty, flags, ttl, path, alternate, address) \<longleftrightarrow>
     has d i (le16 version @ le16 entrySize @ le16 ty @ le16 flags) \<and>
     lists d i path \<and> lists d i alternate \<and> lists d i address \<and>
     i + unat entrySize \<le> length d \<and>
     (version = 2 \<and> 22 \<le> entrySize \<and>
        has d (i + 12) (le32 ttl @ le16 (fst path) @ le16 (fst alternate) @ le16 (fst address))
      \<or> (version = 3 \<or> version = 4) \<and> 34 \<le> entrySize \<and>
        (if flags AND 2 = 0
         then has d (i + 8) (le32 ttl @ le16 (fst path) @ le16 (fst alternate) @ le16 (fst address))
         else has d (i + 8) (le32 ttl @ le16 (fst path)) \<and> fst alternate = 0 \<and> fst address = 0))"

fun listsReferrals :: "bytes \<Rightarrow> nat \<Rightarrow> listedReferral list \<Rightarrow> bool" where
  "listsReferrals d i [] \<longleftrightarrow> True"
| "listsReferrals d i (r # rs) \<longleftrightarrow> listsReferral d i r \<and> listsReferrals d (i + unat (fst (snd r))) rs"

definition listsResponse :: "bytes \<Rightarrow> u16 \<Rightarrow> u32 \<Rightarrow> listedReferral list \<Rightarrow> bool" where
  "listsResponse d pathConsumed headerFlags rs \<longleftrightarrow>
     length rs < 2 ^ 16 \<and>
     has d 0 (le16 pathConsumed @ le16 (word_of_nat (length rs)) @ le32 headerFlags) \<and> listsReferrals d 8 rs"

fun referralOf :: "listedReferral \<Rightarrow> DfsReferralEntry" where
  "referralOf (version, entrySize, ty, flags, ttl, path, alternate, address) =
     \<lparr>dre_version = version, dre_serverType = ty, dre_flags = flags, dre_timeToLiveSeconds = ttl,
      dre_dfsPath = utf8 (snd path), dre_dfsAlternatePath = utf8 (snd alternate),
      dre_networkAddress = utf8 (snd address), dre_rootTarget = (ty = 1),
      dre_nameListReferral = (version \<noteq> 2 \<and> flags AND 2 \<noteq> 0)\<rparr>"

lemma le_not_Nil [simp]: "le16 v \<noteq> []" "le32 w \<noteq> []"
  by (simp_all add: le16_def le32_def)

lemma has_append: "has d i (b @ c) \<longleftrightarrow> has d i b \<and> has d (i + length b) c"
proof
  assume "has d i (b @ c)"
  then have all: "take (length b + length c) (drop i d) = b @ c" by (simp add: has_def)
  have "take (length b) (take (length b + length c) (drop i d)) = b" unfolding all by simp
  moreover have "drop (length b) (take (length b + length c) (drop i d)) = c" unfolding all by simp
  ultimately show "has d i b \<and> has d (i + length b) c" by (simp add: has_def drop_take add.commute)
qed (simp add: has_def take_add add.commute)

lemma has_length: "has d i b \<Longrightarrow> b \<noteq> [] \<Longrightarrow> i + length b \<le> length d"
  unfolding has_def by (drule arg_cong [where f = length]) (auto simp: min_def split: if_splits simp flip: length_greater_0_conv)

lemma has_split: "has d i b \<Longrightarrow> b \<noteq> [] \<Longrightarrow> \<exists>pre post. d = pre @ b @ post \<and> length pre = i"
  by (rule exI [of _ "take i d"], rule exI [of _ "drop (i + length b) d"], frule has_length)
    (simp_all add: has_def, metis add.commute append_take_drop_id drop_drop)

lemma has_read:
  "has d i (le16 v) \<Longrightarrow> readU16Le d i = Some v"
  "has d i (le32 w) \<Longrightarrow> readU32Le d i = Some w"
  using has_split [of d i "le16 v"] has_split [of d i "le32 w"] by (auto simp: wire)

lemma has_slice: "has d i b \<Longrightarrow> b \<noteq> [] \<Longrightarrow> slice d i (i + length b) = Some b"
  using has_length [of d i b] by (simp add: has_def slice_in)

lemma zero_free_units:
  "list_all (\<lambda>c. scalar c \<and> c \<noteq> 0) cs \<Longrightarrow> \<exists>us. utf16 cs = concat (map le16 us) \<and> 0 \<notin> set us"
proof (induction cs)
  case Nil
  then show ?case by (intro exI [of _ "[]"]) simp
next
  case (Cons c cs)
  then obtain us where us: "utf16 cs = concat (map le16 us)" "0 \<notin> set us" by auto
  from Cons.prems have c: "scalar c" "c \<noteq> 0" by simp_all
  show ?case
  proof (cases "c \<le> 0xFFFF")
    case True
    have "unat (ucast c :: u16) = unat c" using True by (intro unat_ucast_fits) (simp add: word_le_nat_alt)
    then have "(ucast c :: u16) \<noteq> 0" using c(2) by (metis unat_0 unat_eq_zero)
    moreover have "utf16 (c # cs) = le16 (ucast c) @ utf16 cs" using True by (intro utf16_Cons) (simp add: utf16Units_def)
    ultimately show ?thesis using us by (intro exI [of _ "ucast c # us"]) auto
  next
    case False
    then have *: "0xFFFF < c" "c \<le> 0x10FFFF" using scalar_in_range [OF c(1)] by simp_all
    obtain u v :: u16 where uv: "0xD800 \<le> u" "0xDC00 \<le> v" "utf16Units c = Inr (le16 u @ le16 v)"
      using surrogate_encode [OF *] by blast
    then have "u \<noteq> 0" "v \<noteq> 0" by auto
    with us utf16_Cons [OF uv(3), of cs] show ?thesis by (intro exI [of _ "u # v # us"]) auto
  qed
qed

lemma findStringEnd_units:
  "0 \<notin> set us \<Longrightarrow> has d i (concat (map le16 us) @ le16 0) \<Longrightarrow>
     findStringEnd d i = Some (Some (i + length (concat (map le16 us))))"
proof (induction us arbitrary: i)
  case Nil
  then have h: "has d i (le16 0)" by simp
  from has_length [OF this] have "i + 1 < length d" by (simp add: le16_def)
  with has_read(1) [OF h] show ?case by (subst findStringEnd.simps) simp
next
  case (Cons u us)
  then have h: "has d i (le16 u)" "has d (i + 2) (concat (map le16 us) @ le16 0)" by (simp_all add: has_append)
  from has_length [OF h(1)] have "i + 1 < length d" by (simp add: le16_def)
  with has_read(1) [OF h(1)] Cons.IH [OF _ h(2)] Cons.prems(1) show ?case by (subst findStringEnd.simps) simp
qed

lemma readOptionalString_lists:
  assumes "lists d i (p, cs)" shows "readOptionalString d i p = Some (Some (utf8 cs))"
proof (cases "p = 0")
  case True
  then show ?thesis using assms by (simp add: readOptionalString_def)
next
  case False
  let ?k = "i + unat p"
  from False assms have cs: "list_all (\<lambda>c. scalar c \<and> c \<noteq> 0) cs" and h: "has d ?k (utf16 cs @ le16 0)" by simp_all
  obtain us where us: "utf16 cs = concat (map le16 us)" "0 \<notin> set us" using zero_free_units [OF cs] by blast
  have e: "findStringEnd d ?k = Some (Some (?k + length (utf16 cs)))"
    using findStringEnd_units [OF us(2)] h us(1) by simp
  have l: "?k < length d" using has_length [OF h] by simp
  have s: "slice d ?k (?k + length (utf16 cs)) = Some (utf16 cs)"
  proof (cases "utf16 cs = []")
    case True
    then show ?thesis using l by (simp add: slice_in)
  next
    case False
    then show ?thesis using h by (simp add: has_append has_slice)
  qed
  have "list_all scalar cs" using cs by (simp add: list_all_iff)
  then have "decodeUtf16Le (utf16 cs) = Some (Success (utf8 cs))" by (rule decodeUtf16Le_utf16)
  with False e l s show ?thesis by (simp add: readOptionalString_def readReferralString_def)
qed

lemma has_reads:
  "has d i (le16 v @ b) \<longleftrightarrow> has d i (le16 v) \<and> has d (i + 2) b"
  "has d i (le32 w @ b) \<longleftrightarrow> has d i (le32 w) \<and> has d (i + 4) b"
  by (simp_all add: has_append)

text \<open>Offsets stay sums of numerals.\<close>

lemmas add_2_Suc = add_2_eq_Suc add_2_eq_Suc'

lemma decodeReferralEntry_lists:
  assumes "listsReferral d i r"
  shows "decodeReferralEntry d i = Some (Success (referralOf r)) \<and> readU16Le d (i + 2) = Some (fst (snd r)) \<and>
    i + 22 \<le> length d \<and> i + unat (fst (snd r)) \<le> length d"
proof -
  obtain v n ty fl ttl po pc ao ac no nc where r: "r = (v, n, ty, fl, ttl, (po, pc), (ao, ac), (no, nc))"
    by (metis prod.exhaust)
  from assms have head: "has d i (le16 v)" "has d (i + 2) (le16 n)" "has d (i + 4) (le16 ty)" "has d (i + 6) (le16 fl)"
    and l: "lists d i (po, pc)" "lists d i (ao, ac)" "lists d i (no, nc)" "i + unat n \<le> length d"
    by (simp_all add: r has_reads add.assoc del: add_2_Suc lists.simps)
  note read = head [THEN has_read(1)]
  from assms consider
    "v = 2" "22 \<le> n" "has d (i + 12) (le32 ttl)" "has d (i + 16) (le16 po)" "has d (i + 18) (le16 ao)" "has d (i + 20) (le16 no)"
    | "v = 3 \<or> v = 4" "34 \<le> n" "fl AND 2 = 0"
      "has d (i + 8) (le32 ttl)" "has d (i + 12) (le16 po)" "has d (i + 14) (le16 ao)" "has d (i + 16) (le16 no)"
    | "v = 3 \<or> v = 4" "34 \<le> n" "fl AND 2 \<noteq> 0" "has d (i + 8) (le32 ttl)" "has d (i + 12) (le16 po)" "ao = 0" "no = 0"
    by (auto simp: r has_reads add.assoc simp del: add_2_Suc lists.simps split: if_splits)
  then have "decodeReferralFields d i v n = Some (Success (ty, fl, ttl, v \<noteq> 2 \<and> fl AND 2 \<noteq> 0, po, ao, no)) \<and> 22 \<le> n"
    using read by cases (auto simp: decodeReferralFields_def has_read not_less word_le_nat_alt word_less_nat_alt)
  then have fields: "decodeReferralFields d i v n = Some (Success (ty, fl, ttl, v \<noteq> 2 \<and> fl AND 2 \<noteq> 0, po, ao, no))"
    and big: "22 \<le> unat n" "n \<noteq> 0" by (auto simp: word_le_nat_alt)
  have strings: "readReferralStrings d i po ao no = Some (Some (utf8 pc, utf8 ac, utf8 nc))"
    using l by (simp add: readReferralStrings_def readOptionalString_lists del: lists.simps)
  from read big fields strings l(4) show ?thesis by (auto simp: r decodeReferralEntry_def not_less)
qed

lemma decodeReferralEntries_lists:
  "listsReferrals d i rs \<Longrightarrow> decodeReferralEntries d (length rs) i = Some (Success (map referralOf rs))"
proof (induction rs arbitrary: i)
  case (Cons r rs)
  then have "listsReferral d i r" by simp
  from decodeReferralEntry_lists [OF this] Cons show ?case by simp
qed simp

section \<open>Properties\<close>

text \<open>C17: a referral response that lists any entries of versions 2 to 4, with strings
  anywhere in the message, shared or absent, is decoded to exactly those entries in
  order; an entry whose flags say name list keeps only its first string.\<close>

theorem dfs_referrals_decoded:
  assumes "listsResponse d pathConsumed headerFlags rs"
  shows "decodeDfsReferralResponse d = Some (Success \<lparr>drr_pathConsumedBytes = pathConsumed,
    drr_headerFlags = headerFlags, drr_entries = map referralOf rs\<rparr>)"
proof -
  let ?n = "word_of_nat (length rs) :: u16"
  from assms have n: "unat ?n = length rs" by (intro unat_of_nat16) (simp add: listsResponse_def)
  from assms have h: "has d 0 (le16 pathConsumed)" "has d 2 (le16 ?n)" "has d 4 (le32 headerFlags)"
    and rs: "listsReferrals d 8 rs" by (simp_all add: listsResponse_def has_reads del: add_2_Suc)
  from has_length [OF h(3)] has_read(1) [OF h(1)] has_read(1) [OF h(2)] has_read(2) [OF h(3)]
    decodeReferralEntries_lists [OF rs]
  show ?thesis by (simp add: decodeDfsReferralResponse_def n)
qed

text \<open>A version 3 referral of \<open>\r\d\<close> to \<open>\s\h\<close> (both strings once, the alternate path shares
  the first), followed by a version 2 entry with no strings.\<close>

definition sampleReferrals :: bytes where
  "sampleReferrals =
     le16 8 @ le16 2 @ le32 2 @
     (le16 3 @ le16 34 @ le16 0 @ le16 0 @ le32 300 @ le16 56 @ le16 56 @ le16 66 @ le64 0 @ le64 0) @
     (le16 2 @ le16 22 @ le16 1 @ le16 0 @ le32 0 @ le32 60 @ le16 0 @ le16 0 @ le16 0) @
     (utf16 [0x5C, 0x72, 0x5C, 0x64] @ le16 0) @ (utf16 [0x5C, 0x73, 0x5C, 0x68] @ le16 0)"

theorem dfs_referrals_decoded_witness:
  "decodeDfsReferralResponse sampleReferrals = Some (Success
    \<lparr>drr_pathConsumedBytes = 8, drr_headerFlags = 2, drr_entries =
      map referralOf [(3, 34, 0, 0, 300, (56, [0x5C, 0x72, 0x5C, 0x64]), (56, [0x5C, 0x72, 0x5C, 0x64]),
          (66, [0x5C, 0x73, 0x5C, 0x68])), (2, 22, 1, 0, 60, (0, []), (0, []), (0, []))]\<rparr>)"
  by (rule dfs_referrals_decoded)
    (simp add: sampleReferrals_def listsResponse_def has_def le16_def le32_def utf16_def utf16Units_def scalar_def le64_def)

end
