(* ===== verification/SessionIds.thy ===== *)
theory SessionIds
  imports Rpc Dfs
begin

text \<open>
  Which message ids the session operations use. MS-SMB2 makes a client use every id of its
  sequence window once; \<open>NativeSmbSession\<close> keeps the next id in \<open>m_nextMessageId\<close>. The lemmas
  \<open>issues_...\<close> say which ids an operator consumes, \<open>advances\<close> that an operation stays between
  the counter's old and new value, and the last section that a session which calls only such
  operations never uses an id twice. \<open>readFileOnce\<close> above one credit's worth of data,
  \<open>listDirectory\<close> after a failure and the cancelled metadata operations do not keep to that.
\<close>

section \<open>Ids the operators consume\<close>

lemma failures_not_Success [simp]:
  "failureFromAt m e \<noteq> Success v" "failureUsed u e \<noteq> Success v"
  by (simp_all add: failureFromAt_def failureUsed_def)

lemma issues_if:
  "(b \<Longrightarrow> issues p c F) \<Longrightarrow> (\<not> b \<Longrightarrow> issues q c F) \<Longrightarrow> issues (if b then p else q) c F"
  by simp

lemma issues_openObject: "issues (openObject transport options mid tid sid context) [mid] {[], [mid]}"
  unfolding openObject_def by (rule issues_weaken, (rule issues_rules | simp)+)

lemma issues_ioctlExchange: "issues (ioctlExchange transport options mid tid sid context) [mid] {[], [mid]}"
  unfolding ioctlExchange_def by (rule issues_weaken, (rule issues_rules | simp)+)

lemma issues_closeAndReturn: "issues (closeAndReturn transport fileId mid tid sid context) [mid] {[], [mid]}"
  unfolding closeAndReturn_def by (rule issues_weaken, (rule issues_rules | simp)+)

lemma issues_openMetadata: "issues (openMetadata transport options mid tid sid context) [mid] {[], [mid]}"
  unfolding openMetadata_def by (rule issues_weaken, (rule issues_rules | simp)+)

lemma issues_closeCounted: "issues (closeCounted transport fileId mid tid sid context v) [mid] {[], [mid]}"
  unfolding closeCounted_def by (rule issues_weaken, (rule issues_rules | simp)+)

lemmas operator_rules = issues_rules issues_openObject issues_ioctlExchange issues_closeAndReturn
  issues_openMetadata issues_closeCounted

fun prefixesOf :: "u64 list \<Rightarrow> u64 list set" where
  "prefixesOf [] = {[]}"
| "prefixesOf (x # xs) = insert [] ((#) x ` prefixesOf xs)"

lemma issues_createDirectoryAt:
  "issues (createDirectoryAt transport path mid tid sid context) [mid, mid + 1] (prefixesOf [mid, mid + 1])"
  unfolding createDirectoryAt_def by (rule issues_weaken, (rule operator_rules | simp)+)

lemma issues_mutateObject:
  "issues (mutateObject msg options cls buffer transport mid tid sid context)
     [mid, mid + 1, mid + 2] (prefixesOf [mid, mid + 1, mid + 2])"
  unfolding mutateObject_def by (rule issues_weaken, (rule operator_rules | simp)+)

lemma issues_createSymbolicLinkAt:
  "issues (createSymbolicLinkAt transport link target directory relative mid tid sid context)
     [mid, mid + 1, mid + 2] (prefixesOf [mid, mid + 1, mid + 2])"
  unfolding createSymbolicLinkAt_def by (rule issues_weaken, (rule operator_rules | simp)+)

lemma readCreditCharge_1: "len \<le> 65536 \<Longrightarrow> readCreditCharge len = 1"
proof -
  assume "len \<le> 65536"
  then have "unat len \<le> 65536" by (simp add: word_le_nat_alt)
  then have "unat len = 0 \<or> (unat len + 65535) div 65536 = 1" by (auto intro: div_nat_eqI)
  then have "unat (readCreditCharge len) = 1" unfolding unat_readCreditCharge by (auto simp: unat_eq_0)
  then show ?thesis by (metis unat_1 word_unat_eq_iff)
qed

lemma writeCreditCharge_1: "n \<le> 65536 \<Longrightarrow> writeCreditCharge n = 1"
proof -
  assume "n \<le> 65536"
  then have "n = 0 \<or> (n + 65535) div 65536 = 1" by (auto intro: div_nat_eqI)
  then have "unat (writeCreditCharge n) = 1" unfolding unat_writeCreditCharge by auto
  then show ?thesis by (metis unat_1 word_unat_eq_iff)
qed

lemma issues_small:
  "rdo_length ro \<le> 65536 \<Longrightarrow> issues (readExchange transport ro mid tid sid ctx) [mid] {[], [mid]}"
  "length (wro_data wo) \<le> 65536 \<Longrightarrow> issues (writeExchange transport wo mid tid sid ctx) [mid] {[], [mid]}"
  "cno_outputBufferLength no \<le> 65536 \<Longrightarrow>
     issues (changeNotifyExchange transport no mid tid sid ctx) [mid] {[], [mid]}"
  using issues_readExchange [of transport ro mid tid sid ctx] issues_writeExchange [of transport wo mid tid sid ctx]
    issues_changeNotifyExchange [of transport no mid tid sid ctx]
  by (simp_all add: readCreditCharge_1 writeCreditCharge_1)

lemma issues_waitOnce:
  "issues (waitOnce transport path filters tree 65536 mid tid sid context)
     [mid, mid + 1, mid + 2] (prefixesOf [mid, mid + 1, mid + 2])"
  unfolding waitOnce_def by (rule issues_weaken, (rule operator_rules(1-9) issues_small(3) issues_openObject | simp)+)

lemma issues_readOnce:
  assumes "len \<le> 65536"
  shows "issues (readOnce transport path len offset mid tid sid context)
     [mid, mid + 1, mid + 2] (prefixesOf [mid, mid + 1, mid + 2])"
  unfolding readOnce_def
  by (rule issues_weaken, (rule operator_rules(1-9) issues_small(1) | simp add: assms readOptionsFor_def)+)

lemma issues_writeOnce_empty:
  "issues (writeOnce transport path [] offset mid tid sid context) [mid, mid + 1] (prefixesOf [mid, mid + 1])"
  unfolding writeOnce_def if_P [OF refl]
  by (rule issues_weaken, (rule operator_rules(1-9) | simp)+)

lemma issues_writeOnce:
  assumes "length payload \<le> 65536" "payload \<noteq> []"
  shows "issues (writeOnce transport path payload offset mid tid sid context)
     [mid, mid + 1, mid + 2] (prefixesOf [mid, mid + 1, mid + 2])"
  unfolding writeOnce_def if_not_P [OF assms(2)]
  by (rule issues_weaken, (rule operator_rules(1-9) issues_small(2) | simp add: assms writeOptionsFor_def)+)

lemma issues_setMetadata:
  "issues (setMetadata options infoType cls buffer additional transport mid tid sid context)
     [mid, mid + 1, mid + 2] (prefixesOf [mid, mid + 1, mid + 2])"
  unfolding setMetadata_def by (rule issues_weaken, (rule operator_rules | simp)+)

lemma issues_statRemote:
  "issues (statRemote transport path mid tid sid context)
     [mid, mid + 1, mid + 2, mid + 3] (prefixesOf [mid, mid + 1, mid + 2, mid + 3])"
  unfolding statRemote_def by (rule issues_weaken, (rule operator_rules | simp)+)

section \<open>The discipline of message ids\<close>

definition within :: "nat \<Rightarrow> nat \<Rightarrow> u64 list \<Rightarrow> bool" where
  "within lo hi a \<longleftrightarrow> distinct a \<and> (\<forall>i \<in> set a. lo \<le> unat i \<and> unat i < hi)"

lemma within_Nil [simp]: "within lo hi []"
  by (simp add: within_def)

lemma within_append: "within lo mi a \<Longrightarrow> within mi hi b \<Longrightarrow> lo \<le> mi \<Longrightarrow> mi \<le> hi \<Longrightarrow> within lo hi (a @ b)"
  by (fastforce simp: within_def)

text \<open>The operation uses only ids from the counter on, each once, and moves the counter
  past them, by at most \<open>k\<close>.\<close>

definition advances :: "('w, 'y, 'a) sprog \<Rightarrow> nat \<Rightarrow> bool" where
  "advances p k \<longleftrightarrow> (\<forall>s. unat (m_nextMessageId s) + k < 2 ^ 64 \<longrightarrow>
     unat (m_nextMessageId s) \<le> unat (m_nextMessageId (snd (p s))) \<and>
     unat (m_nextMessageId (snd (p s))) \<le> unat (m_nextMessageId s) + k \<and>
     (\<exists>a. idsSent (snd (p s)) = idsSent s @ a \<and>
        within (unat (m_nextMessageId s)) (unat (m_nextMessageId (snd (p s)))) a))"

text \<open>Every id used so far is below the counter, and none was used twice.\<close>

definition fresh :: "('w, 'y) Session_scheme \<Rightarrow> bool" where
  "fresh s \<longleftrightarrow> within 0 (unat (m_nextMessageId s)) (idsSent s)"

locale session_operation =
  fixes run :: "('w, 'y, 'a) sprog" and budget :: nat
  assumes advancing: "advances run budget"
begin

lemma keeps_fresh:
  assumes "fresh s" "unat (m_nextMessageId s) + budget < 2 ^ 64"
  shows "fresh (snd (run s)) \<and> unat (m_nextMessageId (snd (run s))) \<le> unat (m_nextMessageId s) + budget"
proof -
  from advancing assms(2) obtain a where
    "unat (m_nextMessageId s) \<le> unat (m_nextMessageId (snd (run s)))"
    "unat (m_nextMessageId (snd (run s))) \<le> unat (m_nextMessageId s) + budget"
    "idsSent (snd (run s)) = idsSent s @ a"
    "within (unat (m_nextMessageId s)) (unat (m_nextMessageId (snd (run s)))) a"
    unfolding advances_def by blast
  with assms(1) show ?thesis by (auto simp: fresh_def intro: within_append)
qed

end

lemma advances_weaken:
  fixes p :: "('w, 'y, 'a) sprog"
  assumes "advances p k" "k \<le> k'" shows "advances p k'"
  unfolding advances_def
proof (intro allI impI conjI)
  fix s :: "('w, 'y) Session_scheme" assume b: "unat (m_nextMessageId s) + k' < 2 ^ 64"
  then have "unat (m_nextMessageId s) + k < 2 ^ 64" using assms(2) by simp
  with assms(1) have *: "unat (m_nextMessageId s) \<le> unat (m_nextMessageId (snd (p s)))"
    "unat (m_nextMessageId (snd (p s))) \<le> unat (m_nextMessageId s) + k"
    "\<exists>a. idsSent (snd (p s)) = idsSent s @ a \<and> within (unat (m_nextMessageId s)) (unat (m_nextMessageId (snd (p s)))) a"
    unfolding advances_def by blast+
  show "unat (m_nextMessageId s) \<le> unat (m_nextMessageId (snd (p s)))"
    "\<exists>a. idsSent (snd (p s)) = idsSent s @ a \<and> within (unat (m_nextMessageId s)) (unat (m_nextMessageId (snd (p s)))) a"
    by (fact *)+
  show "unat (m_nextMessageId (snd (p s))) \<le> unat (m_nextMessageId s) + k'" using *(2) assms(2) by simp
qed

lemma advances_giving: "advances (giving r) 0"
  by (simp add: advances_def giving_def)

lemma advances_checked: "advances (checked r) 0"
  by (simp add: advances_def checked_def split: option.splits)

lemma advances_built: "(\<And>b. advances (k b) n) \<Longrightarrow> advances (built r k) n"
  by (cases r) (simp_all add: advances_def built_def)

lemma advances_cong:
  fixes p p' :: "('w, 'y, 'a) sprog"
  assumes "advances p k" "\<And>s. p' s = p (h s) \<or> snd (p' s) = h s"
    "\<And>s. m_nextMessageId (h s) = m_nextMessageId s" "\<And>s. idsSent (h s) = idsSent s"
  shows "advances p' k"
  unfolding advances_def
proof (intro allI impI)
  fix s :: "('w, 'y) Session_scheme" assume "unat (m_nextMessageId s) + k < 2 ^ 64"
  with assms(1) assms(2) [of s] assms(3,4) [of s] show "unat (m_nextMessageId s) \<le> unat (m_nextMessageId (snd (p' s))) \<and>
     unat (m_nextMessageId (snd (p' s))) \<le> unat (m_nextMessageId s) + k \<and>
     (\<exists>a. idsSent (snd (p' s)) = idsSent s @ a \<and> within (unat (m_nextMessageId s)) (unat (m_nextMessageId (snd (p' s)))) a)"
    unfolding advances_def by (metis append_Nil2 le_add1 order_refl within_Nil)
qed

lemma advances_unlessCancelled:
  assumes "advances p k" shows "advances (unlessCancelled context stop p) k"
  by (rule advances_cong [OF assms, where h = "\<lambda>s. s\<lparr>net_world := snd (isCancellationRequested context (net_world s))\<rparr>"])
    (auto simp: unlessCancelled_def Let_def split: prod.splits)

text \<open>Sequencing: a call whose state the continuation goes on from.\<close>

lemma advances_then:
  fixes p :: "('w, 'y, 'a) sprog" and r :: "('w, 'y, 'b) sprog"
  assumes "advances p k" "\<And>v. advances (q v) n"
    and "\<And>s. snd (r s) = snd (p s) \<or> (\<exists>v. r s = q v (snd (p s)))"
  shows "advances r (k + n)"
  unfolding advances_def
proof (intro allI impI)
  fix s :: "('w, 'y) Session_scheme"
  let ?n = "\<lambda>s :: ('w, 'y) Session_scheme. unat (m_nextMessageId s)"
  assume b: "?n s + (k + n) < 2 ^ 64"
  with assms(1) obtain a where p: "?n s \<le> ?n (snd (p s))" "?n (snd (p s)) \<le> ?n s + k"
    "idsSent (snd (p s)) = idsSent s @ a" "within (?n s) (?n (snd (p s))) a"
    unfolding advances_def by (meson add_leE le_add1 le_less_trans add_le_mono order_refl)
  from assms(3) [of s]
  show "?n s \<le> ?n (snd (r s)) \<and> ?n (snd (r s)) \<le> ?n s + (k + n) \<and>
     (\<exists>a. idsSent (snd (r s)) = idsSent s @ a \<and> within (?n s) (?n (snd (r s))) a)"
  proof
    assume "snd (r s) = snd (p s)"
    with p show ?thesis by auto
  next
    assume "\<exists>v. r s = q v (snd (p s))"
    then obtain v where r: "r s = q v (snd (p s))" by blast
    from assms(2) [of v] p(2) b obtain c where "?n (snd (p s)) \<le> ?n (snd (r s))"
      "?n (snd (r s)) \<le> ?n (snd (p s)) + n" "idsSent (snd (r s)) = idsSent (snd (p s)) @ c"
      "within (?n (snd (p s))) (?n (snd (r s))) c"
      unfolding advances_def r by (metis (no_types, lifting) add.assoc add_le_cancel_right le_less_trans)
    with p show ?thesis by (auto intro: within_append)
  qed
qed

lemma advances_onSuccess:
  assumes "advances p k" "\<And>v. advances (q v) n" shows "advances (onSuccess p g q) (k + n)"
  by (rule advances_then [OF assms])
    (auto simp: onSuccess_def split: prod.splits outcome.splits DecodeResult.splits)

lemma advances_dropping:
  assumes "advances p k" "advances q n" shows "advances (dropping p q) (k + n)"
  by (rule advances_then [OF assms(1), of "\<lambda>_. q", OF assms(2)])
    (auto simp: dropping_def split: prod.splits outcome.splits)

lemma advances_reserving:
  fixes operator :: "u64 \<Rightarrow> u32 \<Rightarrow> u64 \<Rightarrow> ('w, 'y, 'a) sprog"
  assumes op: "\<And>mid tid sid. issues (operator mid tid sid) (c mid) (F mid)"
    and ids: "\<And>mid a. unat mid + unat count < 2 ^ 64 \<Longrightarrow> a \<in> insert (c mid) (F mid) \<Longrightarrow>
      within (unat mid) (unat mid + unat count) a"
  shows "advances (reserving count operator finish) (unat count)"
  unfolding advances_def
proof (intro allI impI)
  fix s :: "('w, 'y) Session_scheme"
  assume b: "unat (m_nextMessageId s) + unat count < 2 ^ 64"
  define mid where "mid = m_nextMessageId s"
  define s1 where "s1 = s\<lparr>m_nextMessageId := mid + count\<rparr>"
  obtain r s' where run: "operator mid (m_treeId s1) (m_sessionId s1) s1 = (r, s')" by fastforce
  have res: "snd (reserving count operator finish s) = s'"
    using run by (auto simp: reserving_def allocateMessageIds_def s1_def mid_def onSuccess_def giving_def
        split: prod.splits outcome.splits DecodeResult.splits)
  have "Net.more s' = Net.more s1" by (rule issues_more [OF op run])
  then have next': "m_nextMessageId s' = mid + count"
    by (cases s'; cases s) (simp add: s1_def)
  have sum: "unat (mid + count) = unat mid + unat count" using b by (simp add: mid_def unat_add_lem [THEN iffD1])
  have "\<exists>a \<in> insert (c mid) (F mid). idsSent s' = idsSent s1 @ a"
    using issues_ok [OF op] issues_bad [OF op run] run by (cases "\<exists>v. r = Value (Success v)") blast+
  moreover have "idsSent s1 = idsSent s" by (simp add: idsSent_def s1_def)
  ultimately show "unat (m_nextMessageId s) \<le> unat (m_nextMessageId (snd (reserving count operator finish s))) \<and>
     unat (m_nextMessageId (snd (reserving count operator finish s))) \<le> unat (m_nextMessageId s) + unat count \<and>
     (\<exists>a. idsSent (snd (reserving count operator finish s)) = idsSent s @ a \<and>
        within (unat (m_nextMessageId s)) (unat (m_nextMessageId (snd (reserving count operator finish s)))) a)"
    using ids [of mid] b sum next' by (auto simp: res mid_def)
qed

section \<open>Every operation that reserves its ids keeps the discipline\<close>

lemma unat_add_nat: "unat (n :: u64) + k < 2 ^ 64 \<Longrightarrow> unat (n + word_of_nat k) = unat n + k"
proof -
  assume b: "unat n + k < 2 ^ 64"
  then have "unat (word_of_nat k :: u64) = k" by (simp add: unsigned_of_nat take_bit_nat_eq_self)
  with b show ?thesis by (simp add: unat_add_lem [THEN iffD1])
qed

lemma within_idSpan: "unat n + k < 2 ^ 64 \<Longrightarrow> within (unat n) (unat n + k) (idSpan n k)"
proof -
  assume b: "unat n + k < 2 ^ 64"
  then have u: "i < k \<Longrightarrow> unat (n + word_of_nat i) = unat n + i" for i by (simp add: unat_add_nat)
  have "inj_on (\<lambda>i. n + word_of_nat i) {..<k}"
    by (rule inj_onI) (metis u lessThan_iff add_left_cancel)
  then show ?thesis by (auto simp: within_def idSpan_def distinct_map u atLeast0LessThan)
qed

lemma idSpan_2: "[n, n + 1] = idSpan n 2" and idSpan_3: "[n, n + 1, n + 2] = idSpan n 3"
  by (simp_all add: idSpan_def numeral_eq_Suc)

lemma prefixesOf_sub: "a \<in> prefixesOf c \<Longrightarrow> \<exists>k. a = take k c"
proof (induction c arbitrary: a)
  case Nil
  then show ?case by simp
next
  case (Cons x c)
  show ?case
  proof (cases "a = []")
    case True
    then show ?thesis by (auto intro: exI [of _ 0])
  next
    case False
    with Cons obtain b where "a = x # b" "b \<in> prefixesOf c" by auto
    with Cons.IH show ?thesis by (metis take_Suc_Cons)
  qed
qed

lemma advances_reserving_span:
  assumes op: "\<And>mid tid sid. issues (operator mid tid sid) (idSpan mid (unat count)) (F mid)"
    and F: "\<And>mid a. a \<in> F mid \<Longrightarrow> \<exists>k. a = take k (idSpan mid (unat count))"
  shows "advances (reserving count operator finish) (unat count)"
proof (rule advances_reserving [OF op])
  fix mid :: u64 and a
  assume "unat mid + unat count < 2 ^ 64" and a: "a \<in> insert (idSpan mid (unat count)) (F mid)"
  then have "within (unat mid) (unat mid + unat count) (idSpan mid (unat count))" by (intro within_idSpan)
  moreover obtain k where "a = take k (idSpan mid (unat count))" using a F [of a mid] by (metis insertE take_all_iff le_refl)
  ultimately show "within (unat mid) (unat mid + unat count) a"
    by (auto simp: within_def intro: distinct_take dest: in_set_takeD)
qed

lemma advances_reserving_2:
  assumes "\<And>mid tid sid. issues (operator mid tid sid) [mid, mid + 1] (prefixesOf [mid, mid + 1])"
  shows "advances (reserving 2 operator finish) 2"
  using advances_reserving_span [where count = 2 and F = "\<lambda>mid. prefixesOf [mid, mid + 1]" and operator = operator
      and finish = finish] assms prefixesOf_sub unfolding idSpan_2 by simp

lemma advances_reserving_3:
  assumes "\<And>mid tid sid. issues (operator mid tid sid) [mid, mid + 1, mid + 2] (prefixesOf [mid, mid + 1, mid + 2])"
  shows "advances (reserving 3 operator finish) 3"
  using advances_reserving_span [where count = 3 and F = "\<lambda>mid. prefixesOf [mid, mid + 1, mid + 2]"
      and operator = operator and finish = finish] assms prefixesOf_sub unfolding idSpan_3 by simp

lemma take_or_all: "a \<in> {[], xs} \<Longrightarrow> \<exists>k. a = take k xs"
  by (auto intro: exI [of _ 0] exI [of _ "length xs"])

lemma advances_reserving_1:
  assumes "\<And>mid tid sid. issues (operator mid tid sid) [mid] {[], [mid]}"
  shows "advances (reserving 1 operator finish) 1"
proof -
  have "advances (reserving 1 operator finish) (unat (1 :: u64))"
  proof (rule advances_reserving_span)
    show "issues (operator mid tid sid) (idSpan mid (unat 1)) {[], idSpan mid (unat 1)}" for mid tid sid
      using assms by simp
  qed (rule take_or_all)
  then show ?thesis by simp
qed

lemma chunk_span:
  assumes "len \<le> 0xFFFF0000"
  shows "max 1 (unat (readCreditCharge len)) = unat (creditChargeForPayload (ucast len))"
proof (cases "len = 0")
  case True
  then show ?thesis by (simp add: readCreditCharge_def creditChargeForPayload_def)
next
  case False
  have l: "unat len \<le> 0xFFFF0000" "0 < unat len" using assms False by (simp_all add: word_le_nat_alt unat_gt_0)
  have u: "unat (ucast len :: u64) = unat len" by (simp add: unat_ucast_wider)
  then have nz: "(ucast len :: u64) \<noteq> 0" using l(2) by force
  have "unat ((ucast len :: u64) - 1) = unat len - 1" using nz u by (simp add: unat_minus_one)
  then have d: "unat (((ucast len :: u64) - 1) div 65536) = (unat len - 1) div 65536" by (simp add: unat_div)
  also have "\<dots> < 2 ^ 63" using unsigned_less [of len, where 'a=nat] by (simp add: less_mult_imp_div_less)
  finally have "unat (1 + ((ucast len :: u64) - 1) div 65536) = 1 + (unat len - 1) div 65536"
    using d by (subst unat_add_lem [THEN iffD1]) simp_all
  then have 1: "unat (creditChargeForPayload (ucast len)) = (unat len + 65535) div 65536"
    using blocks_up [OF l(2)] nz by (simp add: creditChargeForPayload_def)
  have "(unat len + 65535) div 65536 < 65536" using l(1) by (simp add: less_mult_imp_div_less)
  moreover have "1 \<le> (unat len + 65535) div 65536" using l(2) by (simp add: less_eq_div_iff_mult_less_eq)
  ultimately show ?thesis unfolding 1 unat_readCreditCharge using False by simp
qed

lemma advances_readFileChunk:
  assumes "len \<le> 0xFFFF0000"
  shows "advances (readFileChunk transport fileId len offset context) (unat (creditChargeForPayload (ucast len)))"
  unfolding readFileChunk_def
proof (rule advances_reserving_span)
  fix mid tid sid
  show "issues (readExchange transport (readOptionsFor fileId len offset) mid tid sid context)
     (idSpan mid (unat (creditChargeForPayload (ucast len))))
     {[], idSpan mid (unat (creditChargeForPayload (ucast len)))}"
    using issues_readExchange [where options = "readOptionsFor fileId len offset"] chunk_span [OF assms]
    by (simp add: readOptionsFor_def)
qed (rule take_or_all)

lemma advances_readFileOnce: "len \<le> 65536 \<Longrightarrow> advances (readFileOnce transport path len offset context) 3"
  unfolding readFileOnce_def by (intro advances_reserving_3 issues_readOnce)

interpretation openFileForRead: session_operation "openFileForRead transport path ctx" 1
  for transport :: "'w Transport" and path ctx
  by unfold_locales (simp only: openFileForRead_def advances_reserving_1 issues_openObject)

interpretation closeFileHandle: session_operation "closeFileHandle transport fileId ctx" 1
  for transport :: "'w Transport" and fileId ctx
  by unfold_locales (simp only: closeFileHandle_def advances_reserving_1 issues_closeExchange)

interpretation createDirectory: session_operation "createDirectory transport path ctx" 2
  for transport :: "'w Transport" and path ctx
  by unfold_locales (simp only: createDirectory_def advances_reserving_2 issues_createDirectoryAt)

interpretation deleteObject: session_operation "deleteObject transport path directory ctx" 3
  for transport :: "'w Transport" and path directory ctx
  by unfold_locales (simp only: deleteObject_def deleteObjectAt_def advances_reserving_3 issues_mutateObject)

interpretation renameObject: session_operation "renameObject transport fromPath toPath replaceIfExists ctx" 3
  for transport :: "'w Transport" and fromPath toPath replaceIfExists ctx
  by unfold_locales (simp only: renameObject_def renameObjectAt_def advances_reserving_3 issues_mutateObject)

interpretation createHardLink: session_operation "createHardLink transport existing link replaceIfExists ctx" 3
  for transport :: "'w Transport" and existing link replaceIfExists ctx
  by unfold_locales (simp only: createHardLink_def createHardLinkAt_def advances_reserving_3 issues_mutateObject)

interpretation createSymbolicLink: session_operation "createSymbolicLink transport link target directory relative ctx" 3
  for transport :: "'w Transport" and link target directory relative ctx
  by unfold_locales (simp only: createSymbolicLink_def advances_reserving_3 issues_createSymbolicLinkAt)

interpretation watchDirectoryOnce: session_operation "watchDirectoryOnce transport path filters tree ctx" 3
  for transport :: "'w Transport" and path filters tree ctx
  by unfold_locales (simp only: watchDirectoryOnce_def advances_reserving_3 issues_waitOnce)

section \<open>Server-side copy\<close>

lemma advances_closeQuietly: "advances p k \<Longrightarrow> advances (closeQuietly transport context fileId p) (1 + k)"
  unfolding closeQuietly_def by (intro advances_dropping closeFileHandle.advancing)

lemma advances_closeBoth: "advances (closeBoth transport context source target (giving r)) 2"
  unfolding closeBoth_def
  using advances_closeQuietly [OF advances_closeQuietly [OF advances_giving]] by (simp add: numeral_2_eq_2)

lemma advances_ioctlOnce: "advances (ioctlOnce transport options context) 1"
  unfolding ioctlOnce_def by (intro advances_reserving_1 issues_ioctlExchange)

lemma advances_copyChunk: "advances (copyChunk transport context key target offset len) 1"
proof -
  have "advances (onSuccess (ioctlOnce transport options context) failureFrom (\<lambda>copied.
     onSuccess (checked (decodeSrvCopyChunkResponse (ior_output copied))) failureFrom (\<lambda>parsed.
     if ccr_totalBytesWritten parsed = 0 \<or> len < ccr_totalBytesWritten parsed
     then giving (failure EcProtocolUnsupported m)
     else giving (Success (ccr_totalBytesWritten parsed))))) (1 + (0 + 0))" for options m
    by (intro advances_onSuccess advances_ioctlOnce advances_checked) (simp add: advances_giving)
  then show ?thesis unfolding copyChunk_def by (intro advances_unlessCancelled advances_built) simp
qed

lemma reportProgress_simps [simp]:
  "m_nextMessageId (reportProgress ctx d a s) = m_nextMessageId s" "idsSent (reportProgress ctx d a s) = idsSent s"
  by (simp_all add: reportProgress_def split: option.splits)

lemma advances_copyLoop:
  "advances (copyLoop transport ctx key source target path n offset :: ('w, 'y, bytes) sprog)
     (unat n - unat offset + 2)"
proof (induction "unat n - unat offset" arbitrary: offset rule: less_induct)
  case less
  let ?loop = "copyLoop transport ctx key source target path n :: u64 \<Rightarrow> ('w, 'y, bytes) sprog"
  show ?case
  proof (cases "offset < n")
    case False
    then have "?loop offset = closeBoth transport ctx source target (giving (Success path))"
      by (intro ext) (simp add: copyLoop.simps)
    then show ?thesis by (simp only:) (rule advances_weaken [OF advances_closeBoth], simp)
  next
    case True
    define q :: "u32 DecodeResult \<Rightarrow> ('w, 'y, bytes) sprog" where "q v = (case v of
        Success w \<Rightarrow> if w \<noteq> 0 \<and> w \<le> chunkLength n offset
          then (\<lambda>s. ?loop (offset + ucast w) (reportProgress ctx (offset + ucast w) n s)) else giving (Success path)
      | Failure e \<Rightarrow> closeBoth transport ctx source target (giving (Failure e)))" for v
    have pos: "unat offset < unat n" using True by (simp add: word_less_nat_alt)
    have "advances (q v) (unat n - unat offset + 1)" for v
    proof (cases v)
      case (Failure e)
      then show ?thesis using pos by (simp add: q_def advances_weaken [OF advances_closeBoth])
    next
      case (Success w)
      show ?thesis
      proof (cases "w \<noteq> 0 \<and> w \<le> chunkLength n offset")
        case False
        then show ?thesis using Success by (auto simp: q_def intro: advances_weaken [OF advances_giving])
      next
        case w: True
        then have "unat offset < unat (offset + ucast w)" using chunk_progress [OF True] by simp
        then have lt: "unat n - unat (offset + ucast w) < unat n - unat offset" using pos by simp
        have "advances (\<lambda>s. ?loop (offset + ucast w) (reportProgress ctx (offset + ucast w) n s))
            (unat n - unat (offset + ucast w) + 2)"
          by (rule advances_cong [OF less [OF lt], where h = "reportProgress ctx (offset + ucast w) n"]) simp_all
        then show ?thesis using Success w lt by (simp add: q_def) (erule advances_weaken, simp)
      qed
    qed
    moreover have "snd (?loop offset s) = snd (copyChunk transport ctx key target offset (chunkLength n offset) s) \<or>
       (\<exists>v. ?loop offset s = q v (snd (copyChunk transport ctx key target offset (chunkLength n offset) s)))" for s
      using copyChunk_bounds [of transport ctx key target offset "chunkLength n offset" s]
      by (subst (1 2) copyLoop.simps)
        (auto simp: True q_def Let_def split: prod.splits outcome.splits DecodeResult.splits
          intro: exI [of _ "Success _"] exI [of _ "Failure _"])
    ultimately have "advances (?loop offset) (1 + (unat n - unat offset + 1))"
      by (rule advances_then [OF advances_copyChunk])
    then show ?thesis by simp
  qed
qed

lemma advances_opening:
  "advances (reserving 1 (\<lambda>messageId treeId sessionId. openObject transport options messageId treeId sessionId context) (\<lambda>r. r)) 1"
  by (intro advances_reserving_1 issues_openObject)

lemma advances_choice:
  fixes p q r :: "('w, 'y, 'a) sprog"
  assumes "advances p k" "advances q k" "\<And>s. r s = p (h s) \<or> r s = q (h s)"
    "\<And>s. m_nextMessageId (h s) = m_nextMessageId s" "\<And>s. idsSent (h s) = idsSent s"
  shows "advances r k"
  unfolding advances_def
proof (intro allI impI)
  fix s :: "('w, 'y) Session_scheme" assume "unat (m_nextMessageId s) + k < 2 ^ 64"
  with assms(1,2) assms(3-5) [of s] show "unat (m_nextMessageId s) \<le> unat (m_nextMessageId (snd (r s))) \<and>
     unat (m_nextMessageId (snd (r s))) \<le> unat (m_nextMessageId s) + k \<and>
     (\<exists>a. idsSent (snd (r s)) = idsSent s @ a \<and>
        within (unat (m_nextMessageId s)) (unat (m_nextMessageId (snd (r s)))) a)"
    unfolding advances_def by metis
qed

lemma advances_continue:
  assumes "advances p k" "\<And>v. advances (q v) n"
  shows "advances (\<lambda>s. case p s of (Value v, s') \<Rightarrow> q v s' | (Thrown m, s') \<Rightarrow> (Thrown m, s')
    | (Fault, s') \<Rightarrow> (Fault, s') | (NoFuel, s') \<Rightarrow> (NoFuel, s')) (k + n)"
  by (rule advances_then [OF assms]) (auto split: prod.splits outcome.splits)

text \<open>The part of the copy after the source is open.\<close>

lemma advances_copyFileServerSide:
  "advances (copyFileServerSide transport sourcePath targetPath copySize context :: ('w, 'y, bytes) sprog)
     (unat copySize + 5)"
proof -
  let ?close = "\<lambda>sourceId targetId e. closeBoth transport context sourceId targetId (giving e) :: ('w, 'y, bytes) sprog"
  define third where "third sourceId targetId r = (case r of
       Failure e \<Rightarrow> ?close sourceId targetId (failureFrom e)
     | Success resume \<Rightarrow>
         if length (ior_output resume) < 24
         then ?close sourceId targetId (failure EcUnsupportedCapability ''SMB server-side copy resume key response is too short.'')
         else copyLoop transport context (ior_output resume) sourceId targetId targetPath copySize 0)"
    for sourceId targetId and r :: "IoctlResponse DecodeResult"
  define ioctl :: "FileId \<Rightarrow> ('w, 'y, IoctlResponse) sprog"
    where "ioctl sourceId = ioctlOnce transport (ioctlOptionsFor 0x00140078 sourceId [] 32) context" for sourceId
  define second :: "FileId \<Rightarrow> CreateResponse DecodeResult \<Rightarrow> ('w, 'y, bytes) sprog" where "second sourceId r = (case r of
       Failure e \<Rightarrow> closeQuietly transport context sourceId (giving (failureFrom e))
     | Success targetCreate \<Rightarrow>
         if copySize = 0 then ?close sourceId (crr_fileId targetCreate) (Success targetPath)
         else (\<lambda>s. case ioctl sourceId s of
             (Value v, s3) \<Rightarrow> third sourceId (crr_fileId targetCreate) v s3
           | (Thrown m, s3) \<Rightarrow> (Thrown m, s3) | (Fault, s3) \<Rightarrow> (Fault, s3) | (NoFuel, s3) \<Rightarrow> (NoFuel, s3)))"
    for sourceId r
  define openAs :: "CreateRequestOptions \<Rightarrow> ('w, 'y, CreateResponse) sprog" where "openAs options =
     reserving 1 (\<lambda>messageId treeId sessionId. openObject transport options messageId treeId sessionId context) (\<lambda>r. r)"
    for options
  have "advances (third sourceId targetId r) (unat copySize + 2)" for sourceId targetId r
    using advances_copyLoop [where offset = 0 and n = copySize]
    by (auto simp: third_def intro: advances_weaken [OF advances_closeBoth] split: DecodeResult.splits)
  then have ioctl_third: "advances (\<lambda>s. case ioctl sourceId s of
             (Value v, s3) \<Rightarrow> third sourceId targetId v s3
           | (Thrown m, s3) \<Rightarrow> (Thrown m, s3) | (Fault, s3) \<Rightarrow> (Fault, s3) | (NoFuel, s3) \<Rightarrow> (NoFuel, s3))
           (1 + (unat copySize + 2))" for sourceId targetId
    unfolding ioctl_def
    by (intro advances_continue advances_ioctlOnce)
  have closing: "advances (closeQuietly transport context sourceId (giving e) :: ('w, 'y, bytes) sprog) 1" for sourceId e
    using advances_closeQuietly [OF advances_giving] by simp
  have second: "advances (second sourceId r) (unat copySize + 3)" for sourceId r
    unfolding second_def using ioctl_third
    by (auto intro: advances_weaken [OF closing] advances_weaken [OF advances_closeBoth] split: DecodeResult.splits)
      (simp add: numeral_eq_Suc)
  define first :: "CreateResponse \<Rightarrow> ('w, 'y, bytes) sprog" where "first sourceCreate s =
     (let (cancelled, w') = isCancellationRequested context (net_world s); s' = s\<lparr>net_world := w'\<rparr> in
      if cancelled then closeQuietly transport context (crr_fileId sourceCreate)
         (giving (failure EcCancelled ''SMB server-side copy was cancelled.'')) s'
      else case openAs (copyTargetOptions targetPath) s' of
         (Value v, s2) \<Rightarrow> second (crr_fileId sourceCreate) v s2
       | (Thrown m, s2) \<Rightarrow> (Thrown m, s2) | (Fault, s2) \<Rightarrow> (Fault, s2) | (NoFuel, s2) \<Rightarrow> (NoFuel, s2))"
    for sourceCreate s
  have first: "advances (first sourceCreate) (unat copySize + 4)" for sourceCreate
  proof -
    define after :: "('w, 'y, bytes) sprog" where "after s =
      (case openAs (copyTargetOptions targetPath) s of
         (Value v, s2) \<Rightarrow> second (crr_fileId sourceCreate) v s2
       | (Thrown m, s2) \<Rightarrow> (Thrown m, s2) | (Fault, s2) \<Rightarrow> (Fault, s2) | (NoFuel, s2) \<Rightarrow> (NoFuel, s2))" for s
    have "advances after (1 + (unat copySize + 3))"
      unfolding after_def openAs_def
      by (intro advances_continue advances_opening second)
    then have after: "advances after (unat copySize + 4)" by (simp add: add.commute)
    show ?thesis
      by (rule advances_choice [OF advances_weaken [OF closing] after,
            where h = "\<lambda>s. s\<lparr>net_world := snd (isCancellationRequested context (net_world s))\<rparr>"])
        (auto simp: first_def after_def Let_def split: prod.splits)
  qed
  have "copyFileServerSide transport sourcePath targetPath copySize context =
     unlessCancelled context (failure EcCancelled ''SMB server-side copy was cancelled.'') (
       onSuccess (openAs (copySourceOptions sourcePath)) failureFrom first)"
    unfolding copyFileServerSide_def openAs_def
    apply (rule arg_cong2 [where f="\<lambda>x. unlessCancelled context x"], rule refl)
    apply (rule arg_cong [where f="onSuccess _ _"])
    apply (intro ext)
    by (simp add: first_def second_def third_def ioctl_def openAs_def Let_def split: prod.splits outcome.splits DecodeResult.splits)
  moreover have "advances (onSuccess (openAs (copySourceOptions sourcePath)) failureFrom first) (1 + (unat copySize + 4))"
    unfolding openAs_def by (intro advances_onSuccess advances_opening first)
  ultimately show ?thesis by (simp add: advances_unlessCancelled add.commute)
qed

section \<open>Operations that count what they used\<close>

definition usedExactly :: "nat \<Rightarrow> ('w, 'y) Session_scheme \<Rightarrow> ('w, 'y) Session_scheme \<Rightarrow> bool" where
  "usedExactly n s s' \<longleftrightarrow> idsSent s' = idsSent s @ idSpan (m_nextMessageId s) n \<and>
     m_nextMessageId s' = m_nextMessageId s + word_of_nat n"

lemma counting_Success:
  assumes "counting operator failed used finish s = (Value (Success x), s')"
  obtains v s1 where "operator (m_nextMessageId s) (m_treeId s) (m_sessionId s) s = (Value (Success v), s1)"
    "s' = s1\<lparr>m_nextMessageId := m_nextMessageId s1 + used v\<rparr>" "x = finish v"
  using assms by (auto simp: counting_def failureFrom_def failure_def split: prod.splits outcome.splits DecodeResult.splits)

lemma counting_used:
  fixes s :: "('w, 'y) Session_scheme"
  assumes run: "counting operator failed used finish s = (Value (Success x), s')"
    and op: "\<And>v s1. operator (m_nextMessageId s) (m_treeId s) (m_sessionId s) s = (Value (Success v), s1) \<Longrightarrow>
      idsSent s1 = idsSent s @ idSpan (m_nextMessageId s) n \<and> Net.more s1 = Net.more s \<and> used v = word_of_nat n"
  shows "usedExactly n s s'"
proof -
  from run obtain v s1 where r: "operator (m_nextMessageId s) (m_treeId s) (m_sessionId s) s = (Value (Success v), s1)"
    "s' = s1\<lparr>m_nextMessageId := m_nextMessageId s1 + used v\<rparr>" by (rule counting_Success)
  from op [OF r(1)] have *: "idsSent s1 = idsSent s @ idSpan (m_nextMessageId s) n" "Net.more s1 = Net.more s"
    "used v = word_of_nat n" by simp_all
  from *(2) have "m_nextMessageId s1 = m_nextMessageId s" by (cases s1; cases s) simp
  with * r(2) show ?thesis by (simp add: usedExactly_def idsSent_def)
qed

lemma counting_issues:
  assumes "counting operator failed used finish s = (Value (Success x), s')"
    and "\<And>mid tid sid. issues (operator mid tid sid) (idSpan mid n) (F mid)"
    and "\<And>mid tid sid s v s1. operator mid tid sid s = (Value (Success v), s1) \<Longrightarrow> used v = word_of_nat n"
  shows "usedExactly n s s'"
  using assms(1) by (rule counting_used) (blast dest: issues_ok [OF assms(2)] issues_more [OF assms(2)] assms(3))

lemma failures_not_Success' [simp]:
  "failureFrom e \<noteq> Success v" "failure c m \<noteq> Success v" "failureUsing c m u \<noteq> Success v"
  by (simp_all add: failureFrom_def failure_def failureUsing_def)

lemma failureUsed_not [simp]: "(Value (failureUsed u e), s) = (Value (Success v), s') \<longleftrightarrow> False"
  by (simp add: failureUsed_def failureUsing_def)

text \<open>What a program returns when it succeeds is what its last statement returns.\<close>

definition returns :: "('w, 'z, 'a) prog \<Rightarrow> ('a \<Rightarrow> bool) \<Rightarrow> bool" where
  "returns p P \<longleftrightarrow> (\<forall>s v s'. p s = (Value (Success v), s') \<longrightarrow> P v)"

lemma returns_giving: "(\<And>v. r = Success v \<Longrightarrow> P v) \<Longrightarrow> returns (giving r) P"
  by (simp add: returns_def giving_def)

lemma returns_onSuccess:
  assumes "\<And>v. returns (k v) P" "\<And>e v. g e \<noteq> Success v" shows "returns (onSuccess call g k) P"
  unfolding returns_def
proof (intro allI impI)
  fix s v s' assume "onSuccess call g k s = (Value (Success v), s')"
  with assms(2) obtain x s1 where "k x s1 = (Value (Success v), s')" by (auto dest!: onSuccess_Success)
  with assms(1) show "P v" unfolding returns_def by blast
qed

lemma returns_unlessCancelled: "returns p P \<Longrightarrow> returns (unlessCancelled context (failure c m) p) P"
  by (auto simp: returns_def dest!: unlessCancelled_Success)

lemma returns_built: "(\<And>b. returns (k b) P) \<Longrightarrow> returns (built r k) P"
  by (cases r) (simp_all add: returns_def built_def)

lemma returns_if: "(b \<Longrightarrow> returns p P) \<Longrightarrow> (\<not> b \<Longrightarrow> returns q P) \<Longrightarrow> returns (if b then p else q) P"
  by simp

lemmas returns_rules = returns_unlessCancelled returns_onSuccess returns_built returns_if returns_giving

lemma idSpan_4: "[n, n + 1, n + 2, n + 3] = idSpan n 4"
  by (simp add: idSpan_def numeral_eq_Suc)

lemma returns_statRemote: "returns (statRemote transport path mid tid sid context) (\<lambda>r. rsr_messagesUsed r = 4)"
  unfolding statRemote_def by (intro returns_rules) auto

lemma returns_setMetadata:
  "returns (setMetadata options infoType cls buffer additional transport mid tid sid context) (\<lambda>r. snd r = 3)"
  unfolding setMetadata_def closeCounted_def by (intro returns_rules) auto

lemma returns_queries:
  "returns (listExtendedAttributesAt transport path mid tid sid context) (\<lambda>r. snd r = 3)"
  "returns (querySecurityDescriptorAt transport path si mid tid sid context) (\<lambda>r. snd r = 3)"
  unfolding listExtendedAttributesAt_def querySecurityDescriptorAt_def closeCounted_def
  by (intro returns_rules; auto)+

lemma issues_listExtendedAttributesAt:
  "issues (listExtendedAttributesAt transport path mid tid sid context)
     [mid, mid + 1, mid + 2] (prefixesOf [mid, mid + 1, mid + 2])"
  unfolding listExtendedAttributesAt_def by (rule issues_weaken, (rule operator_rules | simp)+)

lemma issues_querySecurityDescriptorAt:
  "issues (querySecurityDescriptorAt transport path si mid tid sid context)
     [mid, mid + 1, mid + 2] (prefixesOf [mid, mid + 1, mid + 2])"
  unfolding querySecurityDescriptorAt_def by (rule issues_weaken, (rule operator_rules | simp)+)

lemma returns_writeOnce:
  "returns (writeOnce transport path payload offset mid tid sid context)
     (\<lambda>r. fwr_messagesUsed r = (if payload = [] then 2 else 3))"
  unfolding writeOnce_def by (intro returns_rules) auto

lemma returnsD: "returns p P \<Longrightarrow> p s = (Value (Success v), s') \<Longrightarrow> P v"
  unfolding returns_def by blast

lemma used_statObject:
  "statObject transport path context s = (Value (Success x), s') \<Longrightarrow> usedExactly 4 s s'"
  unfolding statObject_def
  by (erule counting_issues)
    (use issues_statRemote returns_statRemote [THEN returnsD] in \<open>auto simp: idSpan_4 [symmetric]\<close>)

lemma used_3:
  assumes "counting operator failed used finish s = (Value (Success x), s')"
    and "\<And>mid tid sid. issues (operator mid tid sid) [mid, mid + 1, mid + 2] (F mid)"
    and "\<And>mid tid sid. returns (operator mid tid sid) (\<lambda>v. used v = 3)"
  shows "usedExactly 3 s s'"
  by (rule counting_issues [OF assms(1)]) (use assms(2) assms(3) [THEN returnsD] in \<open>auto simp: idSpan_3 [symmetric]\<close>)

lemma used_metadata:
  "setBasicInformation transport path info context s = (Value (Success x), s') \<Longrightarrow> usedExactly 3 s s'"
  "setExtendedAttributes transport path eas context s = (Value (Success x), s') \<Longrightarrow> usedExactly 3 s s'"
  "removeExtendedAttribute transport path name context s = (Value (Success x), s') \<Longrightarrow> usedExactly 3 s s'"
  "setSecurityDescriptor transport path si descriptor context s = (Value (Success x), s') \<Longrightarrow> usedExactly 3 s s'"
  unfolding setBasicInformation_def setExtendedAttributes_def removeExtendedAttribute_def setSecurityDescriptor_def
    setBasicInformationAt_def setExtendedAttributesAt_def removeExtendedAttributeAt_def setSecurityDescriptorAt_def
  by (erule used_3, rule issues_setMetadata, rule returns_setMetadata)+

lemma used_queries:
  "listExtendedAttributes transport path context s = (Value (Success eas), s') \<Longrightarrow> usedExactly 3 s s'"
  "querySecurityDescriptor transport path si context s = (Value (Success descriptor), s') \<Longrightarrow> usedExactly 3 s s'"
  unfolding listExtendedAttributes_def querySecurityDescriptor_def
  by (erule used_3, rule issues_listExtendedAttributesAt issues_querySecurityDescriptorAt, rule returns_queries)+

lemma used_writeFileOnce:
  assumes "length payload \<le> 65536" "writeFileOnce transport path payload offset context s = (Value (Success x), s')"
  shows "usedExactly (if payload = [] then 2 else 3) s s'"
proof (cases "payload = []")
  case True
  then show ?thesis using assms(2) unfolding writeFileOnce_def
    by (simp, elim counting_issues)
      (use issues_writeOnce_empty returns_writeOnce [where payload = "[]", THEN returnsD] in \<open>auto simp: idSpan_2 [symmetric]\<close>)
next
  case False
  then show ?thesis using assms(2) unfolding writeFileOnce_def
    by (simp, elim used_3) (use issues_writeOnce [OF assms(1) False] returns_writeOnce [where payload = payload] in auto)
qed


text \<open>A listing uses one id per query, one for the open and one for the close.\<close>

lemma idSpan_Suc: "idSpan n (Suc k) = n # idSpan (n + 1) k"
  by (simp add: idSpan_def upt_conv_Cons map_Suc_upt [symmetric] ac_simps del: upt_Suc)

lemma idSpan_snoc: "idSpan n (Suc k) = idSpan n k @ [n + word_of_nat k]"
  by (simp add: idSpan_def)

text \<open>When it succeeds with \<open>v\<close>, the program has used ids \<open>a\<close> with \<open>R v a\<close>.\<close>

definition issuing :: "('w, 'z, 'a) prog \<Rightarrow> ('a \<Rightarrow> u64 list \<Rightarrow> bool) \<Rightarrow> bool" where
  "issuing p R \<longleftrightarrow> (\<forall>s v s'. p s = (Value (Success v), s') \<longrightarrow>
     Net.more s' = Net.more s \<and> (\<exists>a. idsSent s' = idsSent s @ a \<and> R v a))"

lemma issuingD:
  "issuing p R \<Longrightarrow> p s = (Value (Success v), s') \<Longrightarrow>
     Net.more s' = Net.more s \<and> (\<exists>a. idsSent s' = idsSent s @ a \<and> R v a)"
  unfolding issuing_def by blast

lemma issuing_mono: "issuing p Q \<Longrightarrow> (\<And>v a. Q v a \<Longrightarrow> R v a) \<Longrightarrow> issuing p R"
  unfolding issuing_def by blast

lemma issuing_giving: "(\<And>v. r = Success v \<Longrightarrow> R v []) \<Longrightarrow> issuing (giving r) R"
  by (simp add: issuing_def giving_def)

lemma issuing_issues: "issues p c F \<Longrightarrow> (\<And>v. R v c) \<Longrightarrow> issuing p R"
  unfolding issuing_def by (blast dest: issues_ok issues_more)

lemma issuing_onSuccess:
  assumes m: "issuing m Q" and k: "\<And>v a. Q v a \<Longrightarrow> issuing (k v) (\<lambda>x b. R x (a @ b))" and g: "\<And>e v. g e \<noteq> Success v"
  shows "issuing (onSuccess m g k) R"
  unfolding issuing_def
proof (intro allI impI)
  fix s v s' assume "onSuccess m g k s = (Value (Success v), s')"
  with g obtain x s1 where run: "m s = (Value (Success x), s1)" "k x s1 = (Value (Success v), s')"
    by (auto dest!: onSuccess_Success)
  from issuingD [OF m run(1)] obtain a where a: "Net.more s1 = Net.more s" "idsSent s1 = idsSent s @ a" "Q x a" by blast
  from issuingD [OF k [OF a(3)] run(2)] a
  show "Net.more s' = Net.more s \<and> (\<exists>a. idsSent s' = idsSent s @ a \<and> R v a)" by auto
qed

lemma issuing_first:
  assumes "issues m c F" "\<And>v. issuing (k v) (\<lambda>x b. R x (c @ b))" "\<And>e v. g e \<noteq> Success v"
  shows "issuing (onSuccess m g k) R"
  by (rule issuing_onSuccess [OF issuing_issues [OF assms(1), where R = "\<lambda>_ a. a = c"]]) (use assms in auto)

lemma issuing_checked:
  assumes "\<And>v. issuing (k v) R" "\<And>e v. g e \<noteq> Success v"
  shows "issuing (onSuccess (checked r) g k) R"
  by (rule issuing_first [OF issues_checked]) (use assms in simp_all)

lemma issuing_unlessCancelled: "issuing p R \<Longrightarrow> issuing (unlessCancelled context (failure c m) p) R"
  unfolding issuing_def unlessCancelled_def Let_def
  by (fastforce split: prod.splits if_splits)

lemma issuing_if: "(b \<Longrightarrow> issuing p R) \<Longrightarrow> (\<not> b \<Longrightarrow> issuing q R) \<Longrightarrow> issuing (if b then p else q) R"
  by simp

lemma issuing_listLoop:
  "issuing (listLoop fuel transport context fileId mid tid sid used firstQuery entries :: ('w, 'z, DirectoryEntry list \<times> u64) prog)
     (\<lambda>r a. \<exists>n \<le> fuel. a = idSpan (mid + used) n \<and> snd r = used + word_of_nat n)"
proof (induction fuel arbitrary: used firstQuery entries)
  case 0
  then show ?case by (simp add: issuing_def)
next
  case (Suc fuel)
  have step: "issuing (listLoop fuel transport context fileId mid tid sid (used + 1) False es :: ('w, 'z, DirectoryEntry list \<times> u64) prog)
     (\<lambda>r b. \<exists>n \<le> Suc fuel. (mid + used) # b = idSpan (mid + used) n \<and> snd r = used + word_of_nat n)" for es
  proof (rule issuing_mono [OF Suc.IH], elim exE conjE)
    fix v :: "DirectoryEntry list \<times> u64" and b n
    assume "n \<le> fuel" "b = idSpan (mid + (used + 1)) n" "snd v = used + 1 + word_of_nat n"
    then show "\<exists>m \<le> Suc fuel. (mid + used) # b = idSpan (mid + used) m \<and> snd v = used + word_of_nat m"
      by (intro exI [of _ "Suc n"]) (simp add: idSpan_Suc ac_simps)
  qed
  have one: "\<exists>n \<le> Suc fuel. [mid + used] = idSpan (mid + used) n \<and> used + 1 = used + word_of_nat n"
    by (intro exI [of _ 1]) simp
  show ?case
    unfolding listLoop.simps
    by (intro issuing_first [OF issues_queryDirectory] issuing_unlessCancelled issuing_checked issuing_if
        issuing_giving failures_not_Success') (use step one in auto)
qed

lemma idSpan_add: "idSpan n (k + m) = idSpan n k @ idSpan (n + word_of_nat k) m"
  by (induction m) (simp_all add: idSpan_snoc ac_simps idSpan_def)

lemma issuing_listDirectoryAt:
  "issuing (listDirectoryAt fuel transport path mid tid sid context)
     (\<lambda>r a. \<exists>n \<le> fuel + 2. a = idSpan mid n \<and> dlr_messagesUsed r = word_of_nat n)"
proof -
  have ends: "\<exists>n \<le> Suc (Suc fuel). mid # idSpan (mid + 1) k @ [mid + (1 + word_of_nat k)] = idSpan mid n \<and>
     (2 + word_of_nat k :: u64) = word_of_nat n" if "k \<le> fuel" for k
  proof (intro exI [of _ "Suc (Suc k)"] conjI)
    show "mid # idSpan (mid + 1) k @ [mid + (1 + word_of_nat k)] = idSpan mid (Suc (Suc k))"
      by (subst idSpan_Suc) (simp add: idSpan_snoc ac_simps)
  qed (use that in simp_all)
  show ?thesis
    unfolding listDirectoryAt_def
    by (intro issuing_unlessCancelled issuing_first [OF issues_create] issuing_checked
        issuing_onSuccess [OF issuing_listLoop] issuing_first [OF issues_closeExchange] issuing_giving
        failures_not_Success' failures_not_Success)
      (auto intro!: issuing_first [OF issues_closeExchange] issuing_giving dest: ends)
qed

lemma used_listDirectory:
  assumes "listDirectory queries transport path context s = (Value (Success x), s')"
  shows "\<exists>n \<le> queries + 2. usedExactly n s s'"
proof -
  from assms obtain v s1 where run:
    "listDirectoryAt queries transport path (m_nextMessageId s) (m_treeId s) (m_sessionId s) context s = (Value (Success v), s1)"
    "s' = s1\<lparr>m_nextMessageId := m_nextMessageId s1 + dlr_messagesUsed v\<rparr>"
    unfolding listDirectory_def by (rule counting_Success)
  from issuingD [OF issuing_listDirectoryAt run(1)] obtain n where n: "n \<le> queries + 2"
    "idsSent s1 = idsSent s @ idSpan (m_nextMessageId s) n" "Net.more s1 = Net.more s" "dlr_messagesUsed v = word_of_nat n"
    by blast
  from n(3) have "m_nextMessageId s1 = m_nextMessageId s" by (cases s1; cases s) simp
  with n run(2) have "usedExactly n s s'" by (simp add: usedExactly_def idsSent_def)
  with n(1) show ?thesis by blast
qed

section \<open>Sessions\<close>

text \<open>The calls that use fresh ids whatever the server answers and however they end, with
  the number of ids each may take.\<close>

datatype 'w SessionCall =
  OpenFileForRead bytes "'w OperationContext"
| ReadFileChunk FileId u32 u64 "'w OperationContext"
| ReadFileOnce bytes u32 u64 "'w OperationContext"
| CloseFileHandle FileId "'w OperationContext"
| CreateDirectory bytes "'w OperationContext"
| DeleteObject bytes bool "'w OperationContext"
| RenameObject bytes bytes bool "'w OperationContext"
| CreateHardLink bytes bytes bool "'w OperationContext"
| CreateSymbolicLink bytes bytes bool bool "'w OperationContext"
| WatchDirectoryOnce bytes u32 bool "'w OperationContext"
| CopyFileServerSide bytes bytes u64 "'w OperationContext"

fun runCall :: "'w Transport \<Rightarrow> 'w SessionCall \<Rightarrow> ('w, 'y) Session_scheme \<Rightarrow> ('w, 'y) Session_scheme" where
  "runCall t (OpenFileForRead path ctx) s = snd (openFileForRead t path ctx s)"
| "runCall t (ReadFileChunk fileId len offset ctx) s = snd (readFileChunk t fileId len offset ctx s)"
| "runCall t (ReadFileOnce path len offset ctx) s = snd (readFileOnce t path len offset ctx s)"
| "runCall t (CloseFileHandle fileId ctx) s = snd (closeFileHandle t fileId ctx s)"
| "runCall t (CreateDirectory path ctx) s = snd (createDirectory t path ctx s)"
| "runCall t (DeleteObject path directory ctx) s = snd (deleteObject t path directory ctx s)"
| "runCall t (RenameObject a b replace ctx) s = snd (renameObject t a b replace ctx s)"
| "runCall t (CreateHardLink a b replace ctx) s = snd (createHardLink t a b replace ctx s)"
| "runCall t (CreateSymbolicLink a b directory relative ctx) s = snd (createSymbolicLink t a b directory relative ctx s)"
| "runCall t (WatchDirectoryOnce path filters tree ctx) s = snd (watchDirectoryOnce t path filters tree ctx s)"
| "runCall t (CopyFileServerSide a b n ctx) s = snd (copyFileServerSide t a b n ctx s)"

fun callBudget :: "'w SessionCall \<Rightarrow> nat" where
  "callBudget (OpenFileForRead _ _) = 1"
| "callBudget (ReadFileChunk _ len _ _) = unat (creditChargeForPayload (ucast len))"
| "callBudget (CloseFileHandle _ _) = 1"
| "callBudget (CreateDirectory _ _) = 2"
| "callBudget (CopyFileServerSide _ _ n _) = unat n + 5"
| "callBudget _ = 3"

text \<open>The two reads are limited to lengths whose credit charge fits.\<close>

fun callFits :: "'w SessionCall \<Rightarrow> bool" where
  "callFits (ReadFileChunk _ len _ _) = (len \<le> 0xFFFF0000)"
| "callFits (ReadFileOnce _ len _ _) = (len \<le> 65536)"
| "callFits _ = True"

lemma reads_are_operations:
  "len \<le> 0xFFFF0000 \<Longrightarrow> session_operation (readFileChunk t fileId len offset ctx) (unat (creditChargeForPayload (ucast len)))"
  "len \<le> 65536 \<Longrightarrow> session_operation (readFileOnce t path len offset ctx) 3"
  by (simp_all add: session_operation_def advances_readFileChunk advances_readFileOnce)

lemmas reads_keep_fresh = reads_are_operations [THEN session_operation.keeps_fresh]

interpretation copyFileServerSide: session_operation "copyFileServerSide transport a b n ctx" "unat n + 5"
  for transport :: "'w Transport" and a b n ctx
  by unfold_locales (rule advances_copyFileServerSide)

lemma runCall_fresh:
  assumes "callFits c" "fresh s" "unat (m_nextMessageId s) + callBudget c < 2 ^ 64"
  shows "fresh (runCall t c s) \<and> unat (m_nextMessageId (runCall t c s)) \<le> unat (m_nextMessageId s) + callBudget c"
  using assms
  apply (cases c)
  apply (simp_all add: openFileForRead.keeps_fresh reads_keep_fresh
      closeFileHandle.keeps_fresh createDirectory.keeps_fresh deleteObject.keeps_fresh renameObject.keeps_fresh
      createHardLink.keeps_fresh createSymbolicLink.keeps_fresh watchDirectoryOnce.keeps_fresh
      copyFileServerSide.keeps_fresh)
  using openFileForRead.keeps_fresh [of s] closeFileHandle.keeps_fresh [of s] createDirectory.keeps_fresh [of s]
  apply fastforce+
  done

section \<open>Share enumeration and referrals\<close>

lemma issuing_closingOnError:
  assumes m: "issues call c F" and k: "\<And>v. issuing (k v) (\<lambda>x b. R x (c @ b))"
  shows "issuing (closingOnError close used call k) R"
  unfolding issuing_def
proof (intro allI impI)
  fix s v s' assume "closingOnError close used call k s = (Value (Success v), s')"
  then obtain x s1 where run: "call s = (Value (Success x), s1)" "k x s1 = (Value (Success v), s')"
    by (auto simp: closingOnError_def dropping_def giving_def split: prod.splits outcome.splits DecodeResult.splits)
  from issuingD [OF k run(2)] issues_ok [OF m run(1)] issues_more [OF m run(1)]
  show "Net.more s' = Net.more s \<and> (\<exists>a. idsSent s' = idsSent s @ a \<and> R v a)" by auto
qed

lemma issuing_unlessCancelledUsing:
  "issuing p R \<Longrightarrow> issuing (unlessCancelled context (failureUsing c m u) p) R"
  unfolding issuing_def unlessCancelled_def Let_def
  by (fastforce split: prod.splits if_splits)

lemma issuing_built: "(\<And>b. r = Inr b \<Longrightarrow> issuing (k b) R) \<Longrightarrow> issuing (built r k) R"
  by (cases r) (simp_all add: issuing_def built_def)

lemma issues_pipe:
  "length payload \<le> 65536 \<Longrightarrow> issues (writePipe transport pipe payload mid tid sid context) [mid] {[], [mid]}"
  "issues (readPipe transport pipe mid tid sid context) [mid] {[], [mid]}"
  "issues (closePipe transport pipe mid tid sid context) [mid] {[], [mid]}"
proof -
  assume "length payload \<le> 65536"
  then have *: "issues (writeExchange transport (writeOptionsFor pipe payload 0) mid tid sid context) [mid] {[], [mid]}"
    by (intro issues_small) (simp add: writeOptionsFor_def)
  show "issues (writePipe transport pipe payload mid tid sid context) [mid] {[], [mid]}"
    unfolding writePipe_def by (rule issues_weaken, (rule issues_rules(1-9) issues_if issues_onSuccess [OF *] | simp)+)
next
  have *: "issues (readExchange transport (readOptionsFor pipe (64 * 1024) 0) mid tid sid context) [mid] {[], [mid]}"
    by (intro issues_small) (simp add: readOptionsFor_def)
  show "issues (readPipe transport pipe mid tid sid context) [mid] {[], [mid]}"
    unfolding readPipe_def by (rule issues_weaken, (rule issues_onSuccess [OF *] issues_giving | simp)+)
next
  show "issues (closePipe transport pipe mid tid sid context) [mid] {[], [mid]}"
    unfolding closePipe_def by (rule issues_weaken, (rule operator_rules | simp)+)
qed

lemma length_normalizeServerName: "length (normalizeServerName name) \<le> length name + 2"
proof -
  have "length (dropWhile P xs) \<le> length xs" for P and xs :: bytes by (induction xs) simp_all
  from this [of "\<lambda>c. c = 0x5C" "map (\<lambda>c. if c = 0x2F then 0x5C else c) name"] show ?thesis
    by (simp add: normalizeServerName_def Let_def)
qed

lemma length_appendNdrUtf16String: "appendNdrUtf16String p t = Inr b \<Longrightarrow> length b \<le> length p + 2 * length t + 17"
proof -
  have "(4 - n mod 4) mod 4 \<le> (3 :: nat)" for n by (simp add: less_Suc_eq_le [symmetric])
  from this [of "length p + (14 + n)" for n] show "appendNdrUtf16String p t = Inr b \<Longrightarrow> length b \<le> length p + 2 * length t + 17"
    by (auto simp: appendNdrUtf16String_def align4_def Let_def dest!: encodeUtf16Le_size split: sum.splits
      intro: order_trans [OF add_mono])
qed

lemma length_requestStub:
  assumes "buildNetrShareEnumRequestStub name m h = Inr b" shows "length b \<le> 2 * length name + 65"
  using assms length_normalizeServerName [of name]
  by (auto simp: buildNetrShareEnumRequestStub_def dest!: length_appendNdrUtf16String split: sum.splits option.splits)

lemma idSpan_6: "[n, n + 1, n + 2, n + 3, n + 4, n + 5] = idSpan n 6"
  by (simp add: idSpan_def numeral_eq_Suc)

lemma issuing_listSharesAt:
  assumes "length serverName \<le> 30000"
  shows "issuing (listSharesAt transport serverName mid tid sid context) (\<lambda>v a. a = idSpan mid 6 \<and> nsl_messagesUsed v = 6)"
proof -
  have r: "length (buildDcerpcRequestPdu 15 stub 2 0) \<le> 65536"
    if "buildNetrShareEnumRequestStub serverName 0xFFFFFFFF None = Inr stub" for stub
    using length_requestStub [OF that] assms by (simp add: buildDcerpcRequestPdu_def appendCommonHeader_def)
  have b: "length (buildDcerpcBindPdu srvsRpcSyntax 1 0 kDcerpcDefaultFragSize kDcerpcDefaultFragSize) \<le> 65536"
    by (simp add: buildDcerpcBindPdu_def appendCommonHeader_def appendSyntaxId_def srvsRpcSyntax_def ndr32TransferSyntax_def)
  show ?thesis
    unfolding listSharesAt_def Let_def
    by (intro issuing_unlessCancelledUsing issuing_first [OF issues_create] issuing_checked issuing_built
        issuing_closingOnError [OF issues_pipe(1) [OF b]] issuing_closingOnError [OF issues_pipe(1) [OF r]]
        issuing_closingOnError [OF issues_pipe(2)] issuing_closingOnError [OF issues_checked]
        issuing_first [OF issues_pipe(3)] issuing_giving failures_not_Success')
      (auto simp: idSpan_6 [symmetric])
qed

lemma issuing_getReferralsAt:
  "issuing (getReferralsAt transport path mid tid sid context) (\<lambda>v a. a = idSpan mid 1 \<and> ndr_messagesUsed v = 1)"
  unfolding getReferralsAt_def exchangePayload_def [symmetric]
  by (intro issuing_unlessCancelledUsing issuing_built issuing_first [OF issues_ioctl] issuing_checked issuing_giving
      failures_not_Success') auto

lemma used_issuing:
  assumes "counting operator failed used finish s = (Value (Success x), s')"
    and "\<And>mid tid sid. issuing (operator mid tid sid) (\<lambda>v a. a = idSpan mid n \<and> used v = word_of_nat n)"
  shows "usedExactly n s s'"
  using assms(1) by (rule counting_used) (blast dest: issuingD [OF assms(2)])

lemma used_pipes:
  "listShares transport serverName context s = (Value (Success shares), s') \<Longrightarrow> length serverName \<le> 30000 \<Longrightarrow> usedExactly 6 s s'"
  "getDfsReferrals transport path context s = (Value (Success referrals), s') \<Longrightarrow> usedExactly 1 s s'"
  unfolding listShares_def getDfsReferrals_def
  by (erule used_issuing, simp add: issuing_listSharesAt) (erule used_issuing, rule issuing_mono [OF issuing_getReferralsAt], simp)

text \<open>A call that counts its ids afterwards, in a run where it succeeds.\<close>

inductive countedCall :: "'w Transport \<Rightarrow> 'w Session \<Rightarrow> nat \<Rightarrow> 'w Session \<Rightarrow> bool" for t s where
  stat: "statObject t path ctx s = (Value (Success r), s') \<Longrightarrow> countedCall t s 4 s'"
| basic: "setBasicInformation t path info ctx s = (Value (Success p), s') \<Longrightarrow> countedCall t s 3 s'"
| list_ea: "listExtendedAttributes t path ctx s = (Value (Success eas), s') \<Longrightarrow> countedCall t s 3 s'"
| set_ea: "setExtendedAttributes t path eas ctx s = (Value (Success p), s') \<Longrightarrow> countedCall t s 3 s'"
| remove_ea: "removeExtendedAttribute t path name ctx s = (Value (Success p), s') \<Longrightarrow> countedCall t s 3 s'"
| query_acl: "querySecurityDescriptor t path si ctx s = (Value (Success acl), s') \<Longrightarrow> countedCall t s 3 s'"
| set_acl: "setSecurityDescriptor t path si acl ctx s = (Value (Success p), s') \<Longrightarrow> countedCall t s 3 s'"
| store: "writeFileOnce t path payload offset ctx s = (Value (Success w), s') \<Longrightarrow> length payload \<le> 65536 \<Longrightarrow>
     countedCall t s (if payload = [] then 2 else 3) s'"
| listing: "listDirectory queries t path ctx s = (Value (Success entries), s') \<Longrightarrow> usedExactly n s s' \<Longrightarrow>
     n \<le> queries + 2 \<Longrightarrow> countedCall t s n s'"
| shares: "listShares t serverName ctx s = (Value (Success shares), s') \<Longrightarrow> length serverName \<le> 30000 \<Longrightarrow>
     countedCall t s 6 s'"
| referrals: "getDfsReferrals t path ctx s = (Value (Success referrals), s') \<Longrightarrow> countedCall t s 1 s'"

lemma countedCall_used: "countedCall t s n s' \<Longrightarrow> usedExactly n s s'"
  by (induction rule: countedCall.induct)
    (blast intro: used_statObject used_metadata used_queries used_writeFileOnce used_pipes)+

lemma used_fresh:
  assumes "usedExactly n s s'" "fresh s" "unat (m_nextMessageId s) + n < 2 ^ 64"
  shows "fresh s' \<and> unat (m_nextMessageId s') = unat (m_nextMessageId s) + n"
proof -
  have "unat (m_nextMessageId s') = unat (m_nextMessageId s) + n"
    using assms(1,3) by (simp add: usedExactly_def unat_add_nat)
  moreover from this have "fresh s'"
    using assms within_idSpan [OF assms(3)] by (simp add: fresh_def usedExactly_def within_append)
  ultimately show ?thesis by simp
qed

text \<open>Runs of a session from its connection, with the ids they may have used.\<close>

inductive sessionRun :: "'w Transport \<Rightarrow> 'w Session \<Rightarrow> nat \<Rightarrow> 'w Session \<Rightarrow> bool" for t s0 where
  start: "sessionRun t s0 0 s0"
| reserved: "sessionRun t s0 k s \<Longrightarrow> callFits c \<Longrightarrow> sessionRun t s0 (k + callBudget c) (runCall t c s)"
| counted: "sessionRun t s0 k s \<Longrightarrow> countedCall t s n s' \<Longrightarrow> sessionRun t s0 (k + n) s'"

lemma sessionRun_fresh:
  assumes "sessionRun t s0 k s" "fresh s0" "unat (m_nextMessageId s0) + k < 2 ^ 64"
  shows "fresh s \<and> unat (m_nextMessageId s) \<le> unat (m_nextMessageId s0) + k"
  using assms(1,3)
proof (induction rule: sessionRun.induct)
  case start
  with assms(2) show ?case by simp
next
  case (reserved k s c)
  then have "fresh s" "unat (m_nextMessageId s) \<le> unat (m_nextMessageId s0) + k" by simp_all
  with runCall_fresh [OF reserved.hyps(2) this(1), of t] reserved.prems show ?case by simp
next
  case (counted k s n s')
  then have "fresh s" "unat (m_nextMessageId s) \<le> unat (m_nextMessageId s0) + k" by simp_all
  with used_fresh [OF countedCall_used [OF counted.hyps(2)] this(1)] counted.prems show ?case by simp
qed


definition silentServer :: "unit Transport" where
  "silentServer frame context w = (Value (failure EcTimeout ''SMB receive timed out.''), w)"

lemma length_buildCloseRequest: "length (buildCloseRequest options mid tid sid) = 88"
  by (simp add: buildCloseRequest_def appendFileId_def)

lemma silent_close:
  "idsSent (snd (closeFileHandle silentServer fileId plainContext s)) = idsSent s @ [m_nextMessageId s]"
  "m_nextMessageId (snd (closeFileHandle silentServer fileId plainContext s)) = m_nextMessageId s + 1"
  by (simp_all add: closeFileHandle_def reserving_def allocateMessageIds_def closeExchange_def exchangeMessage_def
      unlessCancelled_def isCancellationRequested_def plainContext_def Let_def onSuccess_def transmit_def built_def
      silentServer_def idsSent_def encodeDirectTcpFrame_def length_buildCloseRequest failure_def failureUsing_def failureFrom_def)


text \<open>Above one credit of data \<open>readFileOnce\<close> closes the file with an id that its READ
  already covers.\<close>

lemma idSpan_mem: "k < n \<Longrightarrow> m + word_of_nat k \<in> set (idSpan m n)"
  by (simp add: idSpan_def)

lemma large_read_repeats_an_id:
  assumes len: "65536 < len" "len \<le> 0xFFFF0000"
    and run: "readFileOnce transport path len offset context s = (Value (Success x), s')"
  shows "\<not> distinct (idsSent s')"
proof -
  have l: "65536 < unat len" "unat len \<le> 0xFFFF0000" using len by (simp_all add: word_less_nat_alt word_le_nat_alt)
  then have "(unat len + 65535) div 65536 < 65536" by (simp add: less_mult_imp_div_less)
  moreover have "2 \<le> (unat len + 65535) div 65536" using l(1) by (simp add: less_eq_div_iff_mult_less_eq)
  moreover have "len \<noteq> 0" using l(1) by auto
  ultimately have charge: "1 < unat (readCreditCharge len)" unfolding unat_readCreditCharge by simp
  have op: "issuing (readOnce transport path len offset mid tid sid context)
     (\<lambda>_ a. a = [mid] @ idSpan (mid + 1) (unat (readCreditCharge len)) @ [mid + 2])" for mid tid sid
    unfolding readOnce_def
    by (intro issuing_unlessCancelled issuing_first [OF issues_create] issuing_checked
        issuing_first [OF issues_readExchange] issuing_first [OF issues_closeExchange] issuing_giving
        failures_not_Success' failures_not_Success) (use charge in \<open>simp add: readOptionsFor_def max_def\<close>)
  let ?s = "s\<lparr>m_nextMessageId := m_nextMessageId s + 3\<rparr>"
  from run obtain v where "readOnce transport path len offset (m_nextMessageId s) (m_treeId s) (m_sessionId s) context ?s
      = (Value (Success v), s')"
    by (auto simp: readFileOnce_def reserving_def allocateMessageIds_def giving_def dest!: onSuccess_Success)
  from issuingD [OF op this] obtain b where
    "idsSent s' = b @ idSpan (m_nextMessageId s + 1) (unat (readCreditCharge len)) @ [m_nextMessageId s + 2]"
    by auto
  moreover have "m_nextMessageId s + 2 \<in> set (idSpan (m_nextMessageId s + 1) (unat (readCreditCharge len)))"
    using idSpan_mem [OF charge, of "m_nextMessageId s + 1"] by (simp add: ac_simps)
  ultimately show ?thesis by auto
qed

text \<open>A stat that is cancelled after its CREATE was sent reports no message as used, so the
  next operation sends with the same id.\<close>

definition obligingServer :: "nat Transport" where
  "obligingServer frame context w = (Value (Success [0, 0, 0, 0]), w + 1)"

definition cancelledAfterFirst :: "nat OperationContext" where
  "cancelledAfterFirst = \<lparr>ctx_timeout = 30000, ctx_cancellationToken = Some (\<lambda>w. (0 < w, w)),
     ctx_cancellationCallback = None, ctx_progressCallback = None\<rparr>"

lemma empty_frame: "decodeDirectTcpPayload [0, 0, 0, 0] = Some (Success [])"
  by (simp add: decodeDirectTcpPayload_def decodeDirectTcpPayloadLength_def wire Let_def)

lemma cancelled_stat_keeps_its_id:
  assumes "buildCreateRequest (statCreateOptions path) (m_nextMessageId s) (m_treeId s) (m_sessionId s) = Inr m"
    and "length m \<le> kMaxDirectTcpPayloadLength" "net_world s = 0"
    and "statObject obligingServer path cancelledAfterFirst s = (r, s')"
  shows "r = Value (failure EcCancelled ''SMB stat was cancelled.'') \<and>
    idsSent s' = idsSent s @ [m_nextMessageId s] \<and> m_nextMessageId s' = m_nextMessageId s"
  using assms(4) request_headers(5) [OF assms(1)] assms(1-3)
  by (auto simp: statObject_def counting_def statRemote_def unlessCancelled_def isCancellationRequested_def
      cancelledAfterFirst_def Let_def onSuccess_def exchangePayload_def transmit_def built_def checked_def empty_frame
      obligingServer_def idsSent_def encodeDirectTcpFrame_def failure_def failureUsing_def failureFrom_def
      credit_1_consumed)

end
