(* ===== verification/Wildcards.thy ===== *)
theory Wildcards
  imports Session
begin

text \<open>
  \<open>wildcardMatches\<close> of \<open>NativeSmbSession.cpp\<close> against the meaning of a pattern: a question
  mark stands for one byte, a star for any number of them, and every other byte for itself
  up to ASCII case. The loop backtracks to the last star only; that this is enough is the
  invariant of \<open>wildcardLoop_glob\<close>.
\<close>

definition sameByte :: "u8 \<Rightarrow> u8 \<Rightarrow> bool" where
  "sameByte p c = (p = 0x3F \<or> lowerAscii p = lowerAscii c)"

fun glob :: "bytes \<Rightarrow> bytes \<Rightarrow> bool" where
  "glob [] name = (name = [])"
| "glob (p # ps) name =
     (if p = 0x2A then \<exists>k \<le> length name. glob ps (drop k name)
      else name \<noteq> [] \<and> sameByte p (hd name) \<and> glob ps (tl name))"

lemma lowerAscii_star: "lowerAscii c = 0x2A \<longleftrightarrow> c = 0x2A"
proof -
  have "unat (c + 0x20) = unat c + 0x20" if "0x41 \<le> c" "c \<le> 0x5A"
    using that by (simp add: unat_add_lem [THEN iffD1] word_le_nat_alt)
  then show ?thesis by (auto simp: lowerAscii_def word_le_nat_alt word_unat_eq_iff)
qed

lemma sameByte_star: "sameByte 0x2A c \<longleftrightarrow> c = 0x2A"
proof -
  have "lowerAscii 0x2A = 0x2A" using lowerAscii_star by blast
  then show ?thesis unfolding sameByte_def using lowerAscii_star [of c] by (auto simp: eq_commute [of "0x2A"])
qed

text \<open>A segment without stars matches byte by byte.\<close>

lemma glob_segment:
  "0x2A \<notin> set seg \<Longrightarrow> glob (seg @ ps) name \<longleftrightarrow>
     length seg \<le> length name \<and> list_all2 sameByte seg (take (length seg) name) \<and> glob ps (drop (length seg) name)"
proof (induction seg arbitrary: name)
  case Nil
  then show ?case by simp
next
  case (Cons p seg)
  then show ?case by (cases name) auto
qed

lemma glob_Nil: "glob ps [] \<longleftrightarrow> dropWhile ((=) 0x2A) ps = []"
  by (induction ps) auto

lemma glob_star: "glob (0x2A # ps) (drop i name) \<longleftrightarrow> (\<exists>k. i \<le> k \<and> k \<le> length name \<and> glob ps (drop k name))"
  if "i \<le> length name"
proof
  assume "glob (0x2A # ps) (drop i name)"
  then obtain k where "k \<le> length name - i" "glob ps (drop k (drop i name))" by auto
  with that show "\<exists>k. i \<le> k \<and> k \<le> length name \<and> glob ps (drop k name)"
    by (intro exI [of _ "i + k"]) (simp add: add.commute)
next
  assume "\<exists>k. i \<le> k \<and> k \<le> length name \<and> glob ps (drop k name)"
  then obtain k where "i \<le> k" "k \<le> length name" "glob ps (drop k name)" by blast
  then show "glob (0x2A # ps) (drop i name)"
    by (auto intro!: exI [of _ "k - i"])
qed

text \<open>What the loop knows: since the last star at \<open>star\<close>, the pattern up to \<open>p\<close> has no star
  and matches the text from \<open>r\<close> to \<open>t\<close>.\<close>

definition sinceStar :: "bytes \<Rightarrow> bytes \<Rightarrow> nat \<Rightarrow> nat \<Rightarrow> nat \<Rightarrow> nat \<Rightarrow> bool" where
  "sinceStar pattern name p t star r \<longleftrightarrow> star < p \<and> r \<le> t \<and> p - (star + 1) = t - r \<and>
     0x2A \<notin> set (take (t - r) (drop (star + 1) pattern)) \<and>
     list_all2 sameByte (take (t - r) (drop (star + 1) pattern)) (take (t - r) (drop r name))"

lemma sinceStar_split:
  assumes "sinceStar pattern name p t star r" "p \<le> length pattern" "t \<le> length name" "k \<le> length name"
  shows "glob (drop (star + 1) pattern) (drop k name) \<longleftrightarrow>
     k + (t - r) \<le> length name \<and> list_all2 sameByte (take (t - r) (drop (star + 1) pattern)) (take (t - r) (drop k name)) \<and>
     glob (drop p pattern) (drop (k + (t - r)) name)"
proof -
  let ?seg = "take (t - r) (drop (star + 1) pattern)"
  have len: "length ?seg = t - r" using assms by (auto simp: sinceStar_def)
  have "drop (star + 1) pattern = ?seg @ drop p pattern"
  proof -
    have "(t - r) + (star + 1) = p" using assms(1) unfolding sinceStar_def by linarith
    then have "drop p pattern = drop (t - r) (drop (star + 1) pattern)" by (simp del: add_Suc_right)
    then show ?thesis by (metis append_take_drop_id)
  qed
  then have "glob (drop (star + 1) pattern) (drop k name) \<longleftrightarrow> glob (?seg @ drop p pattern) (drop k name)" by simp
  also have "\<dots> \<longleftrightarrow> t - r \<le> length name - k \<and> list_all2 sameByte ?seg (take (t - r) (drop k name)) \<and>
      glob (drop p pattern) (drop (t - r) (drop k name))"
    by (subst glob_segment, use assms(1) in \<open>simp add: sinceStar_def\<close>) (simp only: len length_drop)
  finally show ?thesis using assms(4) by (auto simp: add.commute)
qed

lemma sinceStar_start: "sinceStar pattern name (i + 1) r i r"
  by (simp add: sinceStar_def)

lemma sinceStar_extend:
  assumes "sinceStar pattern name p t i r" "p < length pattern" "t < length name"
    "pattern ! p \<noteq> 0x2A" "sameByte (pattern ! p) (name ! t)"
  shows "sinceStar pattern name (p + 1) (t + 1) i r"
proof -
  have p: "i + 1 + (t - r) = p" and r: "r \<le> t" using assms(1) unfolding sinceStar_def by linarith+
  have "t + 1 - r = Suc (t - r)" using r by simp
  moreover have "take (Suc (t - r)) (drop (i + 1) pattern) = take (t - r) (drop (i + 1) pattern) @ [pattern ! p]"
  proof (subst take_Suc_conv_app_nth)
    show "t - r < length (drop (i + 1) pattern)" using assms(2) p by simp
    then show "take (t - r) (drop (i + 1) pattern) @ [drop (i + 1) pattern ! (t - r)] =
        take (t - r) (drop (i + 1) pattern) @ [pattern ! p]" using p by (simp add: less_diff_conv)
  qed
  moreover have "take (Suc (t - r)) (drop r name) = take (t - r) (drop r name) @ [name ! t]"
    using assms(3) r by (subst take_Suc_conv_app_nth) simp_all
  moreover have "p + 1 - (i + 1) = Suc (t - r)" using p by linarith
  ultimately show ?thesis using assms by (simp add: sinceStar_def list_all2_appendI)
qed

lemma wildcardLoop_glob:
  assumes "0x2A \<notin> set name" "p \<le> length pattern" "t \<le> length name"
    "\<forall>i. star = Some i \<longrightarrow> sinceStar pattern name p t i r"
  shows "wildcardLoop pattern name p t star r \<longleftrightarrow>
    (case star of None \<Rightarrow> glob (drop p pattern) (drop t name)
     | Some i \<Rightarrow> \<exists>k. r \<le> k \<and> k \<le> length name \<and> glob (drop (i + 1) pattern) (drop k name))"
  using assms
proof (induction pattern name p t star r rule: wildcardLoop.induct)
  case (1 pattern name p t star r)
  let ?found = "\<lambda>i r. \<exists>k. r \<le> k \<and> k \<le> length name \<and> glob (drop (i + 1) pattern) (drop k name)"
  note IH = "1.IH"
  show ?case
  proof (cases "t < length name")
    case False
    then have t: "t = length name" using "1.prems" by simp
    have loop: "wildcardLoop pattern name p t star r \<longleftrightarrow> glob (drop p pattern) []"
      by (subst wildcardLoop.simps) (simp add: t glob_Nil)
    show ?thesis
    proof (cases star)
      case None
      then show ?thesis using loop t by simp
    next
      case (Some i)
      then have s: "sinceStar pattern name p t i r" using "1.prems" by simp
      then have r: "r \<le> t" by (simp add: sinceStar_def)
      have "?found i r \<longleftrightarrow> glob (drop p pattern) []"
      proof
        assume "?found i r"
        then obtain k where k: "r \<le> k" "k \<le> length name" "glob (drop (i + 1) pattern) (drop k name)" by blast
        with sinceStar_split [OF s "1.prems"(2,3) k(2)] have "k + (t - r) \<le> length name"
          "glob (drop p pattern) (drop (k + (t - r)) name)" by simp_all
        moreover from this k(1) r t have "k + (t - r) = length name" by linarith
        ultimately show "glob (drop p pattern) []" by simp
      next
        assume "glob (drop p pattern) []"
        with sinceStar_split [OF s "1.prems"(2,3), of r] s r t
        have "glob (drop (i + 1) pattern) (drop r name)" by (simp add: sinceStar_def)
        with r t show "?found i r" by auto
      qed
      with loop Some show ?thesis by simp
    qed
  next
    case t: True
    let ?hit = "p < length pattern \<and> (pattern ! p = 0x3F \<or> lowerAscii (pattern ! p) = lowerAscii (name ! t))"
    let ?star = "p < length pattern \<and> pattern ! p = 0x2A"
    have c: "name ! t \<noteq> 0x2A" using t "1.prems"(1) by (metis nth_mem)
    have tail: "drop t name = name ! t # drop (t + 1) name" using t by (simp add: Cons_nth_drop_Suc)
    from "1.prems"(4) have since: "star = Some i \<Longrightarrow> sinceStar pattern name p t i r" for i by simp
    then have rt: "star = Some i \<Longrightarrow> r \<le> t" for i by (simp add: sinceStar_def)
    consider (hit) ?hit | (star) "\<not> ?hit" ?star | (miss) "\<not> ?hit" "\<not> ?star" by blast
    then show ?thesis
    proof cases
      case hit
      then have same: "sameByte (pattern ! p) (name ! t)" by (simp add: sameByte_def)
      then have lit: "pattern ! p \<noteq> 0x2A" using c by (metis sameByte_star)
      have loop: "wildcardLoop pattern name p t star r = wildcardLoop pattern name (p + 1) (t + 1) star r"
        using t hit by (subst wildcardLoop.simps) simp
      have "glob (drop p pattern) (drop t name) = glob (drop (p + 1) pattern) (drop (t + 1) name)"
        using hit lit same tail by (simp add: Cons_nth_drop_Suc [symmetric])
      moreover have "\<forall>i. star = Some i \<longrightarrow> sinceStar pattern name (p + 1) (t + 1) i r"
        using sinceStar_extend [OF since _ t lit same] hit by blast
      ultimately show ?thesis using IH(1) [OF t hit "1.prems"(1)] t hit loop by (simp split: option.splits)
    next
      case star
      have loop: "wildcardLoop pattern name p t star r = wildcardLoop pattern name (p + 1) t (Some p) t"
        using t star by (subst wildcardLoop.simps) auto
      moreover have "wildcardLoop pattern name (p + 1) t (Some p) t \<longleftrightarrow> ?found p t"
        using IH(2) [OF t star "1.prems"(1)] t star sinceStar_start by simp
      moreover have "?found p t \<longleftrightarrow> glob (drop p pattern) (drop t name)"
        using glob_star [of t name "drop (p + 1) pattern"] t star(2) by (simp add: Cons_nth_drop_Suc [symmetric])
      ultimately have here: "wildcardLoop pattern name p t star r \<longleftrightarrow> ?found p t"
        "?found p t \<longleftrightarrow> glob (drop p pattern) (drop t name)" by simp_all
      show ?thesis
      proof (cases star)
        case None
        then show ?thesis using here by simp
      next
        case (Some i)
        note split = sinceStar_split [OF since [OF Some] "1.prems"(2,3)]
        have "?found i r \<longleftrightarrow> ?found p t"
        proof
          assume "?found i r"
          then obtain k where k: "r \<le> k" "k \<le> length name" "glob (drop (i + 1) pattern) (drop k name)" by blast
          with split have le: "k + (t - r) \<le> length name" and g: "glob (drop p pattern) (drop (k + (t - r)) name)" by simp_all
          then have "glob (0x2A # drop (p + 1) pattern) (drop (k + (t - r)) name)"
            using star(2) by (metis Cons_nth_drop_Suc Suc_eq_plus1)
          then obtain m where "k + (t - r) \<le> m" "m \<le> length name" "glob (drop (p + 1) pattern) (drop m name)"
            unfolding glob_star [OF le] by blast
          with k(1) rt [OF Some] show "?found p t" by (intro exI [of _ m]) simp
        next
          assume "?found p t"
          then have "glob (drop p pattern) (drop t name)" using here(2) by simp
          with split [of r] since [OF Some] rt [OF Some] t have "glob (drop (i + 1) pattern) (drop r name)"
            by (simp add: sinceStar_def)
          with rt [OF Some] t show "?found i r" by auto
        qed
        then show ?thesis using here Some by simp
      qed
    next
      case miss
      have no: "\<not> glob (drop p pattern) (drop t name)"
      proof (cases "p < length pattern")
        case True
        then show ?thesis using miss tail by (simp add: Cons_nth_drop_Suc [symmetric] sameByte_def)
      qed (use t in simp)
      show ?thesis
      proof (cases star)
        case None
        then have "\<not> wildcardLoop pattern name p t star r" using t miss by (subst wildcardLoop.simps) auto
        then show ?thesis using no None by simp
      next
        case (Some i)
        have "wildcardLoop pattern name p t star r = wildcardLoop pattern name (i + 1) (r + 1) star (r + 1)"
          using t miss Some by (subst wildcardLoop.simps) auto
        also have "\<dots> \<longleftrightarrow> ?found i (r + 1)"
          using IH(3) [OF t miss Some "1.prems"(1)] since [OF Some] "1.prems"(2) rt [OF Some] t Some sinceStar_start
          by (simp add: sinceStar_def)
        also have "\<dots> \<longleftrightarrow> ?found i r"
        proof -
          have "\<not> glob (drop (i + 1) pattern) (drop r name)"
            using sinceStar_split [OF since [OF Some] "1.prems"(2,3), of r] no rt [OF Some] t by simp
          then show ?thesis by (metis Suc_eq_plus1 Suc_leD not_less_eq_eq le_antisym)
        qed
        finally show ?thesis using Some by simp
      qed
    qed
  qed
qed

text \<open>C34: for names without a star, which servers that follow the Windows naming rules
  never return, the wildcard delete matches exactly the names that the pattern means.\<close>

theorem wildcard_matches_glob:
  assumes "0x2A \<notin> set name"
  shows "wildcardMatches pattern name \<longleftrightarrow> glob pattern name"
  unfolding wildcardMatches_def using wildcardLoop_glob [of name 0 pattern 0 None 0] assms by simp

lemma glob_steps:
  "glob (0x2A # ps) [] = glob ps []" "glob (0x2A # ps) (c # name) = (glob ps (c # name) \<or> glob (0x2A # ps) name)"
  "p \<noteq> 0x2A \<Longrightarrow> glob (p # ps) [] = False"
  "p \<noteq> 0x2A \<Longrightarrow> glob (p # ps) (c # name) = (sameByte p c \<and> glob ps name)"
proof -
  show "glob (0x2A # ps) (c # name) = (glob ps (c # name) \<or> glob (0x2A # ps) name)"
  proof
    assume "glob (0x2A # ps) (c # name)"
    then obtain k where "k \<le> Suc (length name)" "glob ps (drop k (c # name))" by auto
    then show "glob ps (c # name) \<or> glob (0x2A # ps) name" by (cases k) auto
  qed (auto intro: exI [of _ 0] exI [of _ "Suc k" for k])
qed simp_all

text \<open>The pattern \<open>*.t?t\<close> and the name \<open>a.b.TXT\<close>.\<close>

theorem wildcard_matches_glob_witness:
  "wildcardMatches [0x2A, 0x2E, 0x74, 0x3F, 0x74] [0x61, 0x2E, 0x62, 0x2E, 0x54, 0x58, 0x54] \<and>
   \<not> wildcardMatches [0x2A, 0x2E, 0x74, 0x3F, 0x74] [0x61, 0x2E, 0x62, 0x2E, 0x54, 0x58]"
  using wildcard_matches_glob [of "[0x61, 0x2E, 0x62, 0x2E, 0x54, 0x58, 0x54]" "[0x2A, 0x2E, 0x74, 0x3F, 0x74]"]
    wildcard_matches_glob [of "[0x61, 0x2E, 0x62, 0x2E, 0x54, 0x58]" "[0x2A, 0x2E, 0x74, 0x3F, 0x74]"]
  by (simp add: sameByte_def lowerAscii_def glob_steps del: glob.simps(2))

text \<open>A name that begins with a star is compared with the pattern's star as a byte, so the
  pattern \<open>*\<close> does not match the name \<open>*a\<close>.\<close>

lemma star_misses_a_starred_name: "\<not> wildcardMatches [0x2A] [0x2A, 0x61]" "glob [0x2A] [0x2A, 0x61]"
  by (simp_all add: wildcardMatches_def wildcardLoop.simps lowerAscii_def glob_steps del: glob.simps(2))

end
