(* ===== verification/Safety.thy ===== *)
theory Safety
  imports SessionIds
begin

text \<open>
  No operation of a session reads outside the bytes it was given, whatever the server sends:
  no run ends in \<open>Fault\<close>. The decoders are total by themselves (\<open>Responses\<close>, \<open>Listings\<close>); here
  the operators and the session operations are shown to call them and the EA decoder only
  in that way.
\<close>

lemma faultless_checks:
  "faultless (checked (decodeCreateResponse d))" "faultless (checked (decodeIoctlResponse d))"
  "faultless (checked (decodeQueryDirectoryResponse d))" "faultless (checked (decodeFileBasicInformation b))"
  "faultless (checked (decodeFileStandardInformation b))" "faultless (checked (decodeFileFullEaInformation b))"
  "faultless (checked (decodeSrvCopyChunkResponse b))" "faultless (checked (decodeDirectTcpPayload b))"
  by (intro faultless_checked; simp add: createFile.total ioctl.total queryDirectory.total
      decodeFileInformation_total decodeFileFullEaInformation_total
      decodeSrvCopyChunkResponse_total decodeDirectTcpPayload_total del: not_None_eq)+

lemma faultless_if: "(b \<Longrightarrow> faultless p) \<Longrightarrow> (\<not> b \<Longrightarrow> faultless q) \<Longrightarrow> faultless (if b then p else q)"
  by simp

lemmas operator_faultless = faultless_giving faultless_checks faultless_built faultless_unlessCancelled
  faultless_onSuccess faultless_exchangePayload faultless_exchangers faultless_if

lemma faultless_listLoop:
  assumes "faultlessTransport transport"
  shows "faultless (listLoop fuel transport context fileId mid tid sid used firstQuery entries)"
proof (induction fuel arbitrary: used firstQuery entries)
  case 0
  then show ?case by (simp add: faultless_def)
next
  case (Suc fuel)
  then show ?case unfolding listLoop.simps by (intro operator_faultless assms)
qed

lemma faultless_operators:
  assumes t: "faultlessTransport transport"
  shows "faultless (listDirectoryAt fuel transport path mid tid sid context)"
    "faultless (readOnce transport path len offset mid tid sid context)"
    "faultless (writeOnce transport path payload offset mid tid sid context)"
    "faultless (statRemote transport path mid tid sid context)"
    "faultless (createDirectoryAt transport path mid tid sid context)"
    "faultless (mutateObject msg options cls buffer transport mid tid sid context)"
    "faultless (createSymbolicLinkAt transport path target directory relative mid tid sid context)"
    "faultless (setMetadata options infoType cls buffer additional transport mid tid sid context)"
    "faultless (listExtendedAttributesAt transport path mid tid sid context)"
    "faultless (querySecurityDescriptorAt transport path si mid tid sid context)"
    "faultless (waitOnce transport path filters tree out mid tid sid context)"
    "faultless (openObject transport options mid tid sid context)"
    "faultless (ioctlExchange transport io mid tid sid context)"
  unfolding listDirectoryAt_def readOnce_def writeOnce_def statRemote_def createDirectoryAt_def mutateObject_def
    createSymbolicLinkAt_def setMetadata_def listExtendedAttributesAt_def querySecurityDescriptorAt_def waitOnce_def
    openObject_def ioctlExchange_def closeAndReturn_def openMetadata_def closeCounted_def
  by (intro operator_faultless faultless_listLoop t | clarsimp)+

lemma faultless_reserving:
  "(\<And>mid tid sid. faultless (operator mid tid sid)) \<Longrightarrow> faultless (reserving count operator finish)"
proof -
  assume op: "\<And>mid tid sid. faultless (operator mid tid sid)"
  have "faultless (onSuccess (operator mid tid sid) failureFrom (\<lambda>v. giving (Success (finish v))))" for mid tid sid
    by (intro faultless_onSuccess op faultless_giving)
  then show ?thesis by (simp add: faultless_def reserving_def split: prod.splits)
qed

lemma faultless_counting:
  assumes "\<And>mid tid sid. faultless (operator mid tid sid)"
  shows "faultless (counting operator failed used finish)"
  unfolding faultless_def
proof
  fix s :: "('a, 'b) Session_scheme"
  have "fst (operator (m_nextMessageId s) (m_treeId s) (m_sessionId s) s) \<noteq> Fault"
    using assms by (simp add: faultless_def)
  then show "fst (counting operator failed used finish s) \<noteq> Fault"
    by (auto simp: counting_def split: prod.splits outcome.splits DecodeResult.splits)
qed

lemma faultless_dropping: "faultless p \<Longrightarrow> faultless q \<Longrightarrow> faultless (dropping p q)"
proof -
  assume "faultless p" "faultless q"
  then have "fst (p s) \<noteq> Fault" "fst (q s) \<noteq> Fault" for s by (simp_all add: faultless_def)
  then show ?thesis
    by (auto simp: faultless_def dropping_def split: prod.splits outcome.splits) (metis fst_conv)+
qed

lemma faultless_closingOnError:
  assumes "\<And>u. faultless (close u)" "faultless call" "\<And>v. faultless (k v)"
  shows "faultless (closingOnError close used call k)"
  unfolding faultless_def
proof
  fix s
  have a: "fst (call s) \<noteq> Fault" and b: "fst (k v s') \<noteq> Fault" 
    and c: "fst (dropping (close used) (giving (failureUsed (used + 1) e)) s') \<noteq> Fault" for v e s'
    using assms(2,3) by (simp_all add: faultless_def faultless_dropping [OF assms(1) faultless_giving, unfolded faultless_def, rule_format])
  show "fst (closingOnError close used call k s) \<noteq> Fault"
    using a b c by (auto simp: closingOnError_def split: prod.splits outcome.splits DecodeResult.splits)
qed

lemma faultless_pipes:
  assumes t: "faultlessTransport transport"
  shows "faultless (listSharesAt transport serverName mid tid sid context)"
    "faultless (getReferralsAt transport path mid tid sid context)"
  unfolding listSharesAt_def getReferralsAt_def Let_def writePipe_def readPipe_def closePipe_def
  by (intro operator_faultless faultless_closingOnError faultless_checked t
      decodeDcerpcBindAck_total decodeDcerpcResponse_total decodeNetrShareEnumResponseStub_total
      decodeDfsReferralResponse_total)+

lemma faultless_session:
  assumes t: "faultlessTransport transport"
  shows "faultless (listDirectory queries transport path context)"
    "faultless (readFileOnce transport path len offset context)"
    "faultless (openFileForRead transport path context)"
    "faultless (readFileChunk transport fileId len offset context)"
    "faultless (closeFileHandle transport fileId context)"
    "faultless (writeFileOnce transport path payload offset context)"
    "faultless (statObject transport path context)"
    "faultless (setBasicInformation transport path info context)"
    "faultless (listExtendedAttributes transport path context)"
    "faultless (setExtendedAttributes transport path entries context)"
    "faultless (removeExtendedAttribute transport path name context)"
    "faultless (querySecurityDescriptor transport path si context)"
    "faultless (setSecurityDescriptor transport path si descriptor context)"
    "faultless (createDirectory transport path context)"
    "faultless (deleteObject transport path directory context)"
    "faultless (renameObject transport path toPath replaceIfExists context)"
    "faultless (createHardLink transport path linkPath replaceIfExists context)"
    "faultless (createSymbolicLink transport path target directory relative context)"
    "faultless (watchDirectoryOnce transport path filters tree context)"
    "faultless (ioctlOnce transport io context)"
    "faultless (listShares transport serverName context)"
    "faultless (getDfsReferrals transport path context)"
  unfolding listDirectory_def readFileOnce_def openFileForRead_def readFileChunk_def closeFileHandle_def
    writeFileOnce_def statObject_def setBasicInformation_def listExtendedAttributes_def setExtendedAttributes_def
    removeExtendedAttribute_def querySecurityDescriptor_def setSecurityDescriptor_def createDirectory_def
    deleteObject_def renameObject_def createHardLink_def createSymbolicLink_def watchDirectoryOnce_def ioctlOnce_def
    listShares_def getDfsReferrals_def setBasicInformationAt_def setExtendedAttributesAt_def removeExtendedAttributeAt_def setSecurityDescriptorAt_def
    deleteObjectAt_def renameObjectAt_def createHardLinkAt_def
  by (intro faultless_reserving faultless_counting faultless_operators faultless_pipes faultless_exchangers t)+

lemma faultless_trees:
  assumes t: "faultlessTransport transport"
  shows "faultless (deleteTreeInternal depth queries transport path ctx :: ('w, 'y, bytes) sprog)"
    "faultless (deleteChildren depth queries transport path ctx entries :: ('w, 'y, unit) sprog)"
  using t
proof (induction depth queries transport path ctx and depth queries transport path ctx entries
    rule: deleteTreeInternal_deleteChildren.induct)
  case (1 queries transport path ctx)
  then show ?case by (simp add: faultless_def)
next
  case (2 depth queries transport path ctx)
  then show ?case unfolding deleteTreeInternal.simps
    by (intro operator_faultless faultless_session "2.prems") (use "2.IH" "2.prems" in blast)+
next
  case (3 depth queries transport path ctx)
  then show ?case by (simp add: faultless_giving)
next
  case (4 depth queries transport path ctx entry entries)
  then show ?case unfolding deleteChildren.simps
    by (intro operator_faultless faultless_session "4.prems") (use "4.IH" "4.prems" in blast)+
qed

lemma faultless_deleteMatching:
  assumes t: "faultlessTransport transport"
  shows "faultless (deleteMatching depth queries transport parent pattern ctx entries)"
  by (induction entries)
    (auto intro!: operator_faultless faultless_session faultless_trees t)

lemma faultless_deleteWildcard:
  assumes t: "faultlessTransport transport"
  shows "faultless (deleteWildcard depth queries transport parent pattern ctx)"
  unfolding deleteWildcard_def by (intro operator_faultless faultless_session faultless_deleteMatching t)

lemma faultless_closeQuietly:
  assumes "faultlessTransport transport" "faultless p" shows "faultless (closeQuietly transport ctx fileId p)"
  unfolding closeQuietly_def by (intro faultless_dropping faultless_session assms)

lemma faultless_closeBoth:
  assumes "faultlessTransport transport" "faultless p" shows "faultless (closeBoth transport ctx a b p)"
  unfolding closeBoth_def by (intro faultless_closeQuietly assms)

lemma faultless_copyChunk:
  assumes "faultlessTransport transport" shows "faultless (copyChunk transport ctx key target offset len)"
  unfolding copyChunk_def by (intro operator_faultless faultless_session assms)

lemma faultless_copyLoop:
  assumes t: "faultlessTransport transport"
  shows "fst (copyLoop transport ctx key source target path n offset s) \<noteq> Fault"
  using t
proof (induction transport ctx key source target path n offset s rule: copyLoop.induct)
  case (1 transport ctx key source target path n offset s)
  have c: "fst (copyChunk transport ctx key target offset (chunkLength n offset) s) \<noteq> Fault"
    by (rule faultless_copyChunk [OF "1.prems", unfolded faultless_def, rule_format])
  have b: "fst (closeBoth transport ctx source target (giving r) s') \<noteq> Fault" for r s'
    by (rule faultless_closeBoth [OF "1.prems" faultless_giving, unfolded faultless_def, rule_format])
  show ?case
    by (subst copyLoop.simps)
      (use c b "1.IH" "1.prems" in \<open>auto simp: Let_def split: prod.splits outcome.splits DecodeResult.splits\<close>)
qed


lemma faultless_copyFileServerSide:
  assumes t: "faultlessTransport transport"
  shows "faultless (copyFileServerSide transport sourcePath targetPath n ctx)"
proof -
  have opened: "fst (reserving 1 (\<lambda>mid tid sid. openObject transport options mid tid sid ctx) (\<lambda>r. r) s) \<noteq> Fault" for options s
    by (rule faultless_reserving [OF faultless_operators(12) [OF t], unfolded faultless_def, rule_format])
  have ioctl: "fst (ioctlOnce transport options ctx s) \<noteq> Fault" for options s
    by (rule faultless_session(20) [OF t, unfolded faultless_def, rule_format])
  have both: "fst (closeBoth transport ctx a b (giving r) s) \<noteq> Fault" for a b r s
    by (rule faultless_closeBoth [OF t faultless_giving, unfolded faultless_def, rule_format])
  have one: "fst (closeQuietly transport ctx a (giving r) s) \<noteq> Fault" for a r s
    by (rule faultless_closeQuietly [OF t faultless_giving, unfolded faultless_def, rule_format])
  note parts = opened ioctl both one faultless_copyLoop [OF t]
  show ?thesis
    unfolding copyFileServerSide_def
    by (intro faultless_unlessCancelled faultless_onSuccess faultless_reserving faultless_operators(12) t,
        unfold faultless_def Let_def)
      (auto simp: parts dest: arg_cong [where f = fst] split: prod.splits outcome.splits DecodeResult.splits)
qed

lemmas never_fault =
  faultless_session [unfolded faultless_def, rule_format] faultless_trees(1) [unfolded faultless_def, rule_format]
  faultless_deleteWildcard [unfolded faultless_def, rule_format]
  faultless_copyFileServerSide [unfolded faultless_def, rule_format]

text \<open>C6: no operation of a session reads outside the bytes of an answer or of a buffer it
  holds. For every transport that does not fault itself, whatever bytes it returns and
  whenever the operation is cancelled, the run ends in a value, in an exception or, for the
  loops whose end the server decides, with its fuel used up, and never in a fault.\<close>

theorem session_operations_never_fault:
  assumes "faultlessTransport transport"
  shows "fst (listDirectory queries transport path ctx s) \<noteq> Fault \<and>
    fst (readFileOnce transport path len offset ctx s) \<noteq> Fault \<and>
    fst (openFileForRead transport path ctx s) \<noteq> Fault \<and>
    fst (readFileChunk transport fileId len offset ctx s) \<noteq> Fault \<and>
    fst (closeFileHandle transport fileId ctx s) \<noteq> Fault \<and>
    fst (writeFileOnce transport path payload offset ctx s) \<noteq> Fault \<and>
    fst (statObject transport path ctx s) \<noteq> Fault \<and>
    fst (setBasicInformation transport path info ctx s) \<noteq> Fault \<and>
    fst (listExtendedAttributes transport path ctx s) \<noteq> Fault \<and>
    fst (setExtendedAttributes transport path eas ctx s) \<noteq> Fault \<and>
    fst (removeExtendedAttribute transport path name ctx s) \<noteq> Fault \<and>
    fst (querySecurityDescriptor transport path si ctx s) \<noteq> Fault \<and>
    fst (setSecurityDescriptor transport path si descriptor ctx s) \<noteq> Fault \<and>
    fst (createDirectory transport path ctx s) \<noteq> Fault \<and>
    fst (deleteObject transport path directory ctx s) \<noteq> Fault \<and>
    fst (renameObject transport path toPath replace ctx s) \<noteq> Fault \<and>
    fst (createHardLink transport path linkPath replace ctx s) \<noteq> Fault \<and>
    fst (createSymbolicLink transport path target directory relative ctx s) \<noteq> Fault \<and>
    fst (watchDirectoryOnce transport path filters tree ctx s) \<noteq> Fault \<and>
    fst (listShares transport serverName ctx s) \<noteq> Fault \<and>
    fst (getDfsReferrals transport path ctx s) \<noteq> Fault \<and>
    fst (deleteTree depth queries transport path ctx s) \<noteq> Fault \<and>
    fst (deleteWildcard depth queries transport path pattern ctx s) \<noteq> Fault \<and>
    fst (copyFileServerSide transport path toPath n ctx s) \<noteq> Fault"
  unfolding deleteTree_def by (intro conjI never_fault assms)

lemma faultless_silentServer: "faultlessTransport silentServer"
  by (simp add: faultlessTransport_def silentServer_def)

theorem session_operations_never_fault_witness:
  "fst (statObject silentServer [0x61] plainContext (newSession () 7 8 0)) \<noteq> Fault \<and>
   fst (deleteTree 3 4 silentServer [0x61] plainContext (newSession () 7 8 0)) \<noteq> Fault"
  using session_operations_never_fault [OF faultless_silentServer, where path = "[0x61]"
      and ctx = plainContext and s = "newSession () 7 8 0" and depth = 3 and queries = 4] by blast

end
