(* ===== verification/DirectTcp.thy ===== *)
theory DirectTcp
  imports Client
begin

text \<open>
  \<open>DirectTcpTransport.cpp\<close>, the transport that carries the frames over a socket, in its POSIX
  branch. The operating system is the argument \<open>os\<close>: one function per system call, from the
  state of the outside world to what the call returns (with \<open>errno\<close>) and the state after it. The
  loops that wait for the socket take fuel; one unit is one turn of a loop.

  \<open>tcp_handles\<close>, \<open>tcp_sent\<close> and \<open>tcp_received\<close> record the sockets that were opened and not yet
  closed and the bytes that went over the current connection; no operation reads them.
\<close>

section \<open>State and system calls\<close>

record 'v Tcp =
  tcp_outside :: 'v
  m_socket :: int
  tcp_handles :: "int list"
  tcp_sent :: bytes
  tcp_received :: bytes

record AddrInfo =
  ai_family :: int
  ai_socktype :: int
  ai_protocol :: int
  ai_addr :: bytes

text \<open>\<open>os_select h writable sec usec\<close> waits for one descriptor; \<open>os_getsockopt\<close> reads
  \<open>SO_ERROR\<close> and returns its own status, that value and \<open>errno\<close>; \<open>os_recv\<close> returns the bytes it
  stored (none when the peer has closed) or \<open>errno\<close>.\<close>

record 'v Sockets =
  os_getaddrinfo :: "bytes \<Rightarrow> string \<Rightarrow> 'v \<Rightarrow> (int \<times> AddrInfo list) \<times> 'v"
  os_socket :: "int \<Rightarrow> int \<Rightarrow> int \<Rightarrow> 'v \<Rightarrow> (int \<times> int) \<times> 'v"
  os_getfl :: "int \<Rightarrow> 'v \<Rightarrow> (int \<times> int) \<times> 'v"
  os_setfl :: "int \<Rightarrow> int \<Rightarrow> 'v \<Rightarrow> (int \<times> int) \<times> 'v"
  os_connect :: "int \<Rightarrow> bytes \<Rightarrow> 'v \<Rightarrow> (int \<times> int) \<times> 'v"
  os_select :: "int \<Rightarrow> bool \<Rightarrow> int \<Rightarrow> int \<Rightarrow> 'v \<Rightarrow> (int \<times> int) \<times> 'v"
  os_getsockopt :: "int \<Rightarrow> 'v \<Rightarrow> (int \<times> int \<times> int) \<times> 'v"
  os_send :: "int \<Rightarrow> bytes \<Rightarrow> 'v \<Rightarrow> (int \<times> int) \<times> 'v"
  os_recv :: "int \<Rightarrow> nat \<Rightarrow> 'v \<Rightarrow> (int + bytes) \<times> 'v"
  os_close :: "int \<Rightarrow> 'v \<Rightarrow> 'v"
  os_now :: "'v \<Rightarrow> int \<times> 'v"

record DirectTcpEndpoint =
  ep_host :: bytes
  ep_port :: u16

type_synonym ('v, 'a) tcp = "'v Tcp \<Rightarrow> 'a DecodeResult outcome \<times> 'v Tcp"

definition calling :: "('v \<Rightarrow> 'r \<times> 'v) \<Rightarrow> 'v Tcp \<Rightarrow> 'r \<times> 'v Tcp" where
  "calling f s = (let (r, v) = f (tcp_outside s) in (r, s\<lparr>tcp_outside := v\<rparr>))"

abbreviation (input) kInvalidSocket :: int where "kInvalidSocket \<equiv> - 1"

text \<open>Linux error numbers, \<open>O_NONBLOCK\<close>, and the number of descriptors an \<open>fd_set\<close> holds:
  \<open>FD_SET\<close> of a larger one writes outside it.\<close>

abbreviation (input) eEINTR :: int where "eEINTR \<equiv> 4"
abbreviation (input) eEAGAIN :: int where "eEAGAIN \<equiv> 11"
abbreviation (input) eEPROTONOSUPPORT :: int where "eEPROTONOSUPPORT \<equiv> 93"
abbreviation (input) eEAFNOSUPPORT :: int where "eEAFNOSUPPORT \<equiv> 97"
abbreviation (input) eENETUNREACH :: int where "eENETUNREACH \<equiv> 101"
abbreviation (input) eECONNRESET :: int where "eECONNRESET \<equiv> 104"
abbreviation (input) eETIMEDOUT :: int where "eETIMEDOUT \<equiv> 110"
abbreviation (input) eECONNREFUSED :: int where "eECONNREFUSED \<equiv> 111"
abbreviation (input) eEHOSTUNREACH :: int where "eEHOSTUNREACH \<equiv> 113"
abbreviation (input) eEINPROGRESS :: int where "eEINPROGRESS \<equiv> 115"
abbreviation (input) oNONBLOCK :: int where "oNONBLOCK \<equiv> 0x800"
abbreviation (input) kFdSetSize :: int where "kFdSetSize \<equiv> 1024"

definition isWouldBlock :: "int \<Rightarrow> bool" where
  "isWouldBlock error = (error = eEAGAIN \<or> error = eEINPROGRESS)"

definition setNonBlocking :: "'v Sockets \<Rightarrow> int \<Rightarrow> 'v Tcp \<Rightarrow> (int \<times> int) \<times> 'v Tcp" where
  "setNonBlocking os handle s =
    (let ((flags, error), s) = calling (os_getfl os handle) s in
     if flags < 0 then ((- 1, error), s) else calling (os_setfl os handle (flags OR oNONBLOCK)) s)"

definition closeSocket :: "'v Sockets \<Rightarrow> int \<Rightarrow> 'v Tcp \<Rightarrow> 'v Tcp" where
  "closeSocket os handle s =
     s\<lparr>tcp_outside := os_close os handle (tcp_outside s), tcp_handles := remove1 handle (tcp_handles s)\<rparr>"

section \<open>Results and messages\<close>

text \<open>Decimal notation, as a stream prints an integer.\<close>

fun decimalNat :: "nat \<Rightarrow> string" where
  "decimalNat n = (if n < 10 then [hexDigit n] else decimalNat (n div 10) @ [hexDigit (n mod 10)])"

declare decimalNat.simps [simp del]

definition decimal :: "int \<Rightarrow> string" where
  "decimal i = (if i < 0 then ''-'' @ decimalNat (nat (- i)) else decimalNat (nat i))"

definition cancelledResult :: "'a DecodeResult" where
  "cancelledResult = failure EcCancelled ''SMB Direct TCP operation was cancelled.''"

definition timeoutResult :: "'a DecodeResult" where
  "timeoutResult = failure EcTimeout ''SMB Direct TCP operation timed out.''"

definition socketErrorMessage :: "string \<Rightarrow> int \<Rightarrow> string" where
  "socketErrorMessage operation error = operation @ '' failed with socket error '' @ decimal error @ ''.''"

definition mapSocketError :: "int \<Rightarrow> ErrorCode" where
  "mapSocketError error =
    (if error = eETIMEDOUT then EcTimeout
     else if error = eECONNREFUSED \<or> error = eECONNRESET \<or> error = eEHOSTUNREACH \<or> error = eENETUNREACH
     then EcServerUnavailable
     else if error = eEAFNOSUPPORT \<or> error = eEPROTONOSUPPORT then EcProtocolUnsupported
     else EcNetworkError)"

definition socketFailure :: "string \<Rightarrow> int \<Rightarrow> 'a DecodeResult" where
  "socketFailure operation error = failure (mapSocketError error) (socketErrorMessage operation error)"

definition requestContext :: "bytes \<Rightarrow> string option" where
  "requestContext requestFrame = do {
     payload \<leftarrow> decodeDirectTcpPayload requestFrame;
     case payload of
       Failure e \<Rightarrow> Some []
     | Success message \<Rightarrow> do {
         header \<leftarrow> decodeSmb2SyncHeader message;
         case header of
           Failure e \<Rightarrow> Some []
         | Success h \<Rightarrow> Some ('' while waiting for '' @ commandName (hdr_command h) @
             '' response message_id=0x'' @ hexUpper 16 (hdr_messageId h)) } }"

text \<open>\<open>withRequestContext\<close> and \<open>bytesFailureWithRequestContext\<close> for a result that failed.\<close>

definition failureInContext :: "ProtocolError \<Rightarrow> bytes \<Rightarrow> 'a DecodeResult option" where
  "failureInContext e requestFrame = do {
     requested \<leftarrow> requestContext requestFrame;
     Some (failure (pe_code e) (if requested = [] then pe_message e else pe_message e @ requested @ ''.'')) }"

section \<open>Waiting\<close>

text \<open>Times are in nanoseconds, timeouts in milliseconds.\<close>

definition deadlineFor :: "'v Sockets \<Rightarrow> 'v Tcp OperationContext \<Rightarrow> 'v Tcp \<Rightarrow> int \<times> 'v Tcp" where
  "deadlineFor os context s =
    (let timeout = (if ctx_timeout context \<le> 0 then 30000 else ctx_timeout context);
         (now, s) = calling (os_now os) s
     in (now + timeout * 1000000, s))"

primrec waitForSocket ::
  "nat \<Rightarrow> 'v Sockets \<Rightarrow> int \<Rightarrow> bool \<Rightarrow> 'v Tcp OperationContext \<Rightarrow> int \<Rightarrow> ('v, bool) tcp" where
  "waitForSocket 0 os socket writable context deadline s = (NoFuel, s)"
| "waitForSocket (Suc fuel) os socket writable context deadline s =
    (let (cancelled, s) = isCancellationRequested context s in
     if cancelled then (Value cancelledResult, s)
     else
       let (now, s) = calling (os_now os) s in
       if deadline \<le> now then (Value timeoutResult, s)
       else
         let remaining = (deadline - now) div 1000000;
             waitSlice = min remaining 100
         in
         if \<not> (0 \<le> socket \<and> socket < kFdSetSize) then (Fault, s)
         else
           let ((selected, error), s) =
                 calling (os_select os socket writable (waitSlice div 1000) (waitSlice mod 1000 * 1000)) s
           in
           if 0 < selected then (Value (Success True), s)
           else if selected < 0 \<and> error \<noteq> eEINTR then (Value (socketFailure ''select'' error), s)
           else waitForSocket fuel os socket writable context deadline s)"

section \<open>Connecting\<close>

text \<open>A new handle is open from the call that makes it.\<close>

definition openSocket :: "'v Sockets \<Rightarrow> AddrInfo \<Rightarrow> 'v Tcp \<Rightarrow> (int \<times> int) \<times> 'v Tcp" where
  "openSocket os entry s =
    (let ((handle, error), s) =
           calling (os_socket os (ai_family entry) (ai_socktype entry) (ai_protocol entry)) s in
     ((handle, error), if handle = kInvalidSocket then s else s\<lparr>tcp_handles := tcp_handles s @ [handle]\<rparr>))"

definition socketError :: "string \<Rightarrow> int \<Rightarrow> ProtocolError" where
  "socketError operation error =
     \<lparr>pe_code = mapSocketError error, pe_message = socketErrorMessage operation error, pe_messagesUsed = 0\<rparr>"

text \<open>The loop over the addresses; \<open>lastError\<close> is what it reports when none of them answers.\<close>

fun connectLoop ::
  "nat \<Rightarrow> 'v Sockets \<Rightarrow> 'v Tcp OperationContext \<Rightarrow> int \<Rightarrow> ProtocolError \<Rightarrow> AddrInfo list \<Rightarrow> ('v, int) tcp" where
  "connectLoop fuel os context deadline lastError [] s = (Value (failureFrom lastError), s)"
| "connectLoop fuel os context deadline lastError (entry # entries) s =
    (let (cancelled, s) = isCancellationRequested context s in
     if cancelled then (Value (failure EcCancelled ''SMB Direct TCP connect was cancelled.''), s)
     else
       let ((handle, error), s) = openSocket os entry s in
       if handle = kInvalidSocket
       then connectLoop fuel os context deadline (socketError ''socket'' error) entries s
       else
         let ((status, error), s) = setNonBlocking os handle s in
         if status \<noteq> 0
         then connectLoop fuel os context deadline (socketError ''set non-blocking'' error) entries
                (closeSocket os handle s)
         else
           let ((connectResult, connectError), s) = calling (os_connect os handle (ai_addr entry)) s in
           if connectResult = 0 then (Value (Success handle), s)
           else if \<not> isWouldBlock connectError
           then connectLoop fuel os context deadline (socketError ''connect'' connectError) entries
                  (closeSocket os handle s)
           else
             case waitForSocket fuel os handle True context deadline s of
               (Value (Failure e), s) \<Rightarrow> (Value (failureFrom e), closeSocket os handle s)
             | (Value (Success ready), s) \<Rightarrow>
                 (let ((status, pending, error), s) = calling (os_getsockopt os handle) s in
                  if status \<noteq> 0 \<or> pending \<noteq> 0
                  then connectLoop fuel os context deadline
                         (socketError ''connect'' (if pending \<noteq> 0 then pending else error)) entries
                         (closeSocket os handle s)
                  else (Value (Success handle), s))
             | (Thrown m, s) \<Rightarrow> (Thrown m, s)
             | (Fault, s) \<Rightarrow> (Fault, s)
             | (NoFuel, s) \<Rightarrow> (NoFuel, s))"

definition connectSocket ::
  "nat \<Rightarrow> 'v Sockets \<Rightarrow> DirectTcpEndpoint \<Rightarrow> 'v Tcp OperationContext \<Rightarrow> ('v, int) tcp" where
  "connectSocket fuel os endpoint context s =
    (let ((resolveStatus, results), s) =
           calling (os_getaddrinfo os (ep_host endpoint) (decimalNat (unat (ep_port endpoint)))) s in
     if resolveStatus \<noteq> 0 \<or> results = []
     then (Value (failure EcDnsError ''SMB Direct TCP host resolution failed.''), s)
     else
       let (deadline, s) = deadlineFor os context s in
       connectLoop fuel os context deadline
         \<lparr>pe_code = EcServerUnavailable, pe_message = ''SMB Direct TCP connect failed.'', pe_messagesUsed = 0\<rparr>
         results s)"

section \<open>The connection\<close>

definition close :: "'v Sockets \<Rightarrow> 'v Tcp \<Rightarrow> 'v Tcp" where
  "close os s =
    (if m_socket s \<noteq> kInvalidSocket then (closeSocket os (m_socket s) s)\<lparr>m_socket := kInvalidSocket\<rparr> else s)"

definition connectIfNeeded ::
  "nat \<Rightarrow> 'v Sockets \<Rightarrow> DirectTcpEndpoint \<Rightarrow> 'v Tcp OperationContext \<Rightarrow> ('v, bool) tcp" where
  "connectIfNeeded fuel os endpoint context s =
    (if m_socket s \<noteq> kInvalidSocket then (Value (Success True), s)
     else case connectSocket fuel os endpoint context s of
       (Value (Success handle), s) \<Rightarrow>
         (Value (Success True), s\<lparr>m_socket := handle, tcp_sent := [], tcp_received := []\<rparr>)
     | (Value (Failure e), s) \<Rightarrow> (Value (failureFrom e), s)
     | (Thrown m, s) \<Rightarrow> (Thrown m, s)
     | (Fault, s) \<Rightarrow> (Fault, s)
     | (NoFuel, s) \<Rightarrow> (NoFuel, s))"

abbreviation (input) kIntMax :: nat where "kIntMax \<equiv> 2147483647"

primrec sendLoop ::
  "nat \<Rightarrow> 'v Sockets \<Rightarrow> bytes \<Rightarrow> 'v Tcp OperationContext \<Rightarrow> int \<Rightarrow> nat \<Rightarrow> ('v, bool) tcp" where
  "sendLoop 0 os data context deadline offset s =
    (if offset < length data then (NoFuel, s) else (Value (Success True), s))"
| "sendLoop (Suc fuel) os data context deadline offset s =
    (if offset < length data then
       let (cancelled, s) = isCancellationRequested context s in
       if cancelled then (Value cancelledResult, s)
       else case waitForSocket (Suc fuel) os (m_socket s) True context deadline s of
         (Value (Failure e), s) \<Rightarrow> (Value (Failure e), s)
       | (Value (Success ready), s) \<Rightarrow>
           (let remaining = length data - offset;
                chunk = take (min remaining kIntMax) (drop offset data);
                ((sent, error), s) = calling (os_send os (m_socket s) chunk) s
            in
            if 0 < sent
            then sendLoop fuel os data context deadline (offset + nat sent)
                   (s\<lparr>tcp_sent := tcp_sent s @ take (nat sent) chunk\<rparr>)
            else if sent = 0 then (Value (failure EcNetworkError ''SMB Direct TCP socket closed during send.''), s)
            else if isWouldBlock error then sendLoop fuel os data context deadline offset s
            else (Value (socketFailure ''send'' error), s))
       | (Thrown m, s) \<Rightarrow> (Thrown m, s)
       | (Fault, s) \<Rightarrow> (Fault, s)
       | (NoFuel, s) \<Rightarrow> (NoFuel, s)
     else (Value (Success True), s))"

definition sendAll :: "nat \<Rightarrow> 'v Sockets \<Rightarrow> bytes \<Rightarrow> 'v Tcp OperationContext \<Rightarrow> ('v, bool) tcp" where
  "sendAll fuel os data context s =
    (let (deadline, s) = deadlineFor os context s in sendLoop fuel os data context deadline 0 s)"

text \<open>The buffer is filled from the left: \<open>received\<close> is the part that has been filled.\<close>

primrec receiveLoop ::
  "nat \<Rightarrow> 'v Sockets \<Rightarrow> nat \<Rightarrow> 'v Tcp OperationContext \<Rightarrow> int \<Rightarrow> bytes \<Rightarrow> ('v, bytes) tcp" where
  "receiveLoop 0 os n context deadline received s =
    (if length received < n then (NoFuel, s) else (Value (Success received), s))"
| "receiveLoop (Suc fuel) os n context deadline received s =
    (if length received < n then
       let (cancelled, s) = isCancellationRequested context s in
       if cancelled then (Value cancelledResult, s)
       else case waitForSocket (Suc fuel) os (m_socket s) False context deadline s of
         (Value (Failure e), s) \<Rightarrow> (Value (failureFrom e), s)
       | (Value (Success ready), s) \<Rightarrow>
           (let remaining = n - length received;
                chunk = min remaining kIntMax;
                (r, s) = calling (os_recv os (m_socket s) chunk) s
            in case r of
              Inr stored \<Rightarrow>
                (if stored \<noteq> []
                 then receiveLoop fuel os n context deadline (received @ take chunk stored)
                        (s\<lparr>tcp_received := tcp_received s @ take chunk stored\<rparr>)
                 else (Value (failure EcNetworkError ''SMB Direct TCP socket closed during receive.''), s))
            | Inl error \<Rightarrow>
                (if isWouldBlock error then receiveLoop fuel os n context deadline received s
                 else (Value (socketFailure ''receive'' error), s)))
       | (Thrown m, s) \<Rightarrow> (Thrown m, s)
       | (Fault, s) \<Rightarrow> (Fault, s)
       | (NoFuel, s) \<Rightarrow> (NoFuel, s)
     else (Value (Success received), s))"

definition receiveExact :: "nat \<Rightarrow> 'v Sockets \<Rightarrow> nat \<Rightarrow> 'v Tcp OperationContext \<Rightarrow> ('v, bytes) tcp" where
  "receiveExact fuel os n context s =
    (let (deadline, s) = deadlineFor os context s in receiveLoop fuel os n context deadline [] s)"

text \<open>A failure closes the connection and names the request it belongs to.\<close>

definition failingExchange :: "'v Sockets \<Rightarrow> bytes \<Rightarrow> ProtocolError \<Rightarrow> ('v, bytes) tcp" where
  "failingExchange os requestFrame e s =
    (case failureInContext e requestFrame of None \<Rightarrow> (Fault, close os s) | Some r \<Rightarrow> (Value r, close os s))"

definition onReady ::
  "('v, 'a) tcp \<Rightarrow> (ProtocolError \<Rightarrow> ('v, 'b) tcp) \<Rightarrow> ('a \<Rightarrow> ('v, 'b) tcp) \<Rightarrow> ('v, 'b) tcp" where
  "onReady call onError continue s =
    (case call s of
       (Value (Success v), s') \<Rightarrow> continue v s'
     | (Value (Failure e), s') \<Rightarrow> onError e s'
     | (Thrown m, s') \<Rightarrow> (Thrown m, s')
     | (Fault, s') \<Rightarrow> (Fault, s')
     | (NoFuel, s') \<Rightarrow> (NoFuel, s'))"

definition tcpChecked :: "'a DecodeResult option \<Rightarrow> ('v, 'a) tcp" where
  "tcpChecked r s = (case r of Some v \<Rightarrow> (Value v, s) | None \<Rightarrow> (Fault, s))"

definition exchange :: "nat \<Rightarrow> 'v Sockets \<Rightarrow> DirectTcpEndpoint \<Rightarrow> 'v Tcp Transport" where
  "exchange fuel os endpoint requestFrame context =
     onReady (connectIfNeeded fuel os endpoint context) (\<lambda>e s. (Value (failureFrom e), s)) (\<lambda>_.
     onReady (sendAll fuel os requestFrame context) (failingExchange os requestFrame) (\<lambda>_.
     onReady (receiveExact fuel os kDirectTcpHeaderSize context) (failingExchange os requestFrame) (\<lambda>header.
     onReady (tcpChecked (decodeDirectTcpPayloadLength header)) (\<lambda>e s. (Value (failureFrom e), close os s))
       (\<lambda>payloadLength.
     onReady (receiveExact fuel os (unat payloadLength) context) (failingExchange os requestFrame) (\<lambda>payload s.
       (Value (Success (header @ payload)), s))))))"

section \<open>What the loops leave alone\<close>

text \<open>The waiting code changes the outside world only; every relation that the system calls
  and the cancellation callbacks keep is kept by it.\<close>

definition outsideOnly :: "'v Tcp \<Rightarrow> 'v Tcp \<Rightarrow> bool" where
  "outsideOnly s s' \<longleftrightarrow> (\<exists>v. s' = s\<lparr>tcp_outside := v\<rparr>)"

text \<open>A ctx whose callbacks do not touch the transport.\<close>

definition harmless :: "'v Tcp OperationContext \<Rightarrow> bool" where
  "harmless ctx \<longleftrightarrow> (\<forall>s. outsideOnly s (snd (isCancellationRequested ctx s)))"

lemma outsideOnly_refl [simp]: "outsideOnly s s"
  unfolding outsideOnly_def by (rule exI [of _ "tcp_outside s"]) simp

lemma outsideOnly_trans: "outsideOnly s s' \<Longrightarrow> outsideOnly s' s'' \<Longrightarrow> outsideOnly s s''"
  by (auto simp: outsideOnly_def)

lemma outsideOnly_calling: "outsideOnly s (snd (calling f s))"
  by (auto simp: outsideOnly_def calling_def Let_def split: prod.splits)

lemma outsideOnly_fields:
  "outsideOnly s s' \<Longrightarrow> m_socket s' = m_socket s \<and> tcp_handles s' = tcp_handles s \<and>
     tcp_sent s' = tcp_sent s \<and> tcp_received s' = tcp_received s"
  by (auto simp: outsideOnly_def)

text \<open>A relation between states that the callbacks of a context, the clock and \<open>select\<close> keep.\<close>

definition keptBy :: "('v Tcp \<Rightarrow> 'v Tcp \<Rightarrow> bool) \<Rightarrow> 'v Sockets \<Rightarrow> 'v Tcp OperationContext \<Rightarrow> bool" where
  "keptBy R os ctx \<longleftrightarrow> reflp R \<and> transp R \<and>
     (\<forall>s. R s (snd (isCancellationRequested ctx s)) \<and> R s (snd (calling (os_now os) s)) \<and>
       (\<forall>h w a b. R s (snd (calling (os_select os h w a b) s))))"

lemma keptBy_waitForSocket:
  assumes "keptBy R os ctx" shows "R s (snd (waitForSocket fuel os socket writable ctx deadline s))"
proof (induction fuel arbitrary: s)
  case 0
  then show ?case using assms by (simp add: keptBy_def reflp_def)
next
  case (Suc fuel)
  have trans: "R x y \<Longrightarrow> R y z \<Longrightarrow> R x z" for x y z using assms unfolding keptBy_def by (blast dest: transpD)
  obtain b s1 where c: "isCancellationRequested ctx s = (b, s1)" by fastforce
  obtain t s2 where n: "calling (os_now os) s1 = (t, s2)" by fastforce
  define slice where "slice = min ((deadline - t) div 1000000) 100"
  obtain r e s3 where r: "calling (os_select os socket writable (slice div 1000) (slice mod 1000 * 1000)) s2 = ((r, e), s3)"
    by (metis prod.exhaust)
  have "R s s1" "R s1 s2" "R s2 s3" using assms c n r unfolding keptBy_def by (metis snd_conv)+
  with Suc [of s3] have "R s s1" "R s s2" "R s s3" "R s (snd (waitForSocket fuel os socket writable ctx deadline s3))"
    by (blast intro: trans)+
  then show ?case
    unfolding waitForSocket.simps Let_def c n prod.case slice_def [symmetric] r by simp
qed

lemma keptBy_outsideOnly: "harmless ctx \<Longrightarrow> keptBy outsideOnly os ctx"
  by (auto simp: keptBy_def harmless_def outsideOnly_calling reflp_def intro!: transpI intro: outsideOnly_trans)

lemmas outsideOnly_waitForSocket = keptBy_waitForSocket [OF keptBy_outsideOnly]

lemma outsideOnly_deadlineFor: "outsideOnly s (snd (deadlineFor os ctx s))"
  using outsideOnly_calling [of s "os_now os"] by (auto simp: deadlineFor_def Let_def split: prod.splits)

section \<open>Sockets are not leaked\<close>

definition owns :: "'v Tcp \<Rightarrow> bool" where
  "owns s \<longleftrightarrow> tcp_handles s = (if m_socket s = kInvalidSocket then [] else [m_socket s])"

fun connected :: "int DecodeResult outcome \<Rightarrow> 'v Tcp \<Rightarrow> 'v Tcp \<Rightarrow> bool" where
  "connected (Value (Success h)) s s' \<longleftrightarrow> h \<noteq> kInvalidSocket \<and> tcp_handles s' = [h] \<and> m_socket s' = m_socket s"
| "connected (Value (Failure e)) s s' \<longleftrightarrow> tcp_handles s' = [] \<and> m_socket s' = m_socket s"
| "connected _ s s' \<longleftrightarrow> True"

lemma connected_after: "connected r s1 s' \<Longrightarrow> m_socket s1 = m_socket s \<Longrightarrow> connected r s s'"
  by (cases r; simp) (rename_tac d, case_tac d; simp)

lemma calling_fields:
  "calling f s = (r, s') \<Longrightarrow> tcp_handles s' = tcp_handles s \<and> m_socket s' = m_socket s"
  using outsideOnly_fields [OF outsideOnly_calling [of s f]] by simp

lemma harmless_fields:
  "harmless ctx \<Longrightarrow> isCancellationRequested ctx s = (b, s') \<Longrightarrow> tcp_handles s' = tcp_handles s \<and> m_socket s' = m_socket s"
  unfolding harmless_def by (metis outsideOnly_fields snd_conv)

lemma waiting_fields:
  "harmless ctx \<Longrightarrow> waitForSocket fuel os socket writable ctx deadline s = (r, s') \<Longrightarrow>
     tcp_handles s' = tcp_handles s \<and> m_socket s' = m_socket s"
  using outsideOnly_fields [OF outsideOnly_waitForSocket [of ctx s fuel os socket writable deadline]] by simp

lemma setNonBlocking_fields:
  "setNonBlocking os h s = (r, s') \<Longrightarrow> tcp_handles s' = tcp_handles s \<and> m_socket s' = m_socket s"
  by (auto simp: setNonBlocking_def Let_def dest!: calling_fields split: prod.splits if_splits)

lemma openSocket_fields:
  "openSocket os entry s = ((h, e), s') \<Longrightarrow>
     tcp_handles s' = tcp_handles s @ (if h = kInvalidSocket then [] else [h]) \<and> m_socket s' = m_socket s"
  by (auto simp: openSocket_def Let_def dest!: calling_fields split: prod.splits if_splits)

lemma closeSocket_fields:
  "tcp_handles (closeSocket os h s) = remove1 h (tcp_handles s)" "m_socket (closeSocket os h s) = m_socket s"
  by (simp_all add: closeSocket_def)

lemma connectLoop_connected:
  assumes "harmless ctx" "tcp_handles s = []" "connectLoop fuel os ctx deadline lastError entries s = (r, s')"
  shows "connected r s s'"
  using assms(2,3)
proof (induction entries arbitrary: lastError s)
  case Nil
  then show ?case by (auto simp: failureFrom_def failure_def failureUsing_def)
next
  case (Cons entry entries)
  obtain b s1 where 1: "isCancellationRequested ctx s = (b, s1)" by fastforce
  obtain h e s2 where 2: "openSocket os entry s1 = ((h, e), s2)" by (metis prod.exhaust)
  obtain st e3 s3 where 3: "setNonBlocking os h s2 = ((st, e3), s3)" by (metis prod.exhaust)
  obtain cr ce s4 where 4: "calling (os_connect os h (ai_addr entry)) s3 = ((cr, ce), s4)" by (metis prod.exhaust)
  obtain w s5 where 5: "waitForSocket fuel os h True ctx deadline s4 = (w, s5)" by fastforce
  obtain gs p ge s6 where 6: "calling (os_getsockopt os h) s5 = ((gs, p, ge), s6)" by (metis prod.exhaust)
  note f = harmless_fields [OF assms(1) 1] openSocket_fields [OF 2] setNonBlocking_fields [OF 3]
    calling_fields [OF 4] waiting_fields [OF assms(1) 5] calling_fields [OF 6]
  have again: "connected r s s'"
    if "connectLoop fuel os ctx deadline l entries t = (r, s')" "tcp_handles t = []" "m_socket t = m_socket s" for l t
    using connected_after [OF Cons.IH [OF that(2,1)] that(3)] .
  show ?case
    using Cons.prems f
    by (auto simp: 1 2 3 4 5 6 failure_def failureUsing_def failureFrom_def closeSocket_fields
        split: if_split_asm outcome.split_asm DecodeResult.split_asm intro!: again)
qed

lemma connectSocket_connected:
  assumes "harmless ctx" "tcp_handles s = []" "connectSocket fuel os endpoint ctx s = (r, s')"
  shows "connected r s s'"
proof -
  obtain st rs s1 where 1: "calling (os_getaddrinfo os (ep_host endpoint) (decimalNat (unat (ep_port endpoint)))) s = ((st, rs), s1)"
    by (metis prod.exhaust)
  obtain d s2 where 2: "deadlineFor os ctx s1 = (d, s2)" by fastforce
  have f: "tcp_handles s2 = []" "m_socket s2 = m_socket s" "tcp_handles s1 = []" "m_socket s1 = m_socket s"
    using calling_fields [OF 1] outsideOnly_fields [OF outsideOnly_deadlineFor [of s1 os ctx]] assms(2) 2 by auto
  show ?thesis
    using assms(3) f connected_after [OF connectLoop_connected [OF assms(1) f(1)]]
    by (auto simp: connectSocket_def Let_def 1 2 failure_def failureUsing_def split: if_split_asm)
qed

lemma owns_close [simp]: "owns s \<Longrightarrow> owns (close os s)" "m_socket (close os s) = kInvalidSocket"
  by (auto simp: owns_def close_def closeSocket_def)

lemma connectIfNeeded_owns:
  assumes "harmless ctx" "owns s" "connectIfNeeded fuel os endpoint ctx s = (Value r, s')"
  shows "owns s' \<and> (case r of Failure e \<Rightarrow> m_socket s' = kInvalidSocket
    | Success _ \<Rightarrow> m_socket s' \<noteq> kInvalidSocket \<and>
       (if m_socket s = kInvalidSocket then tcp_sent s' = [] \<and> tcp_received s' = [] else s' = s))"
proof (cases "m_socket s = kInvalidSocket")
  case True
  with assms(2) have "tcp_handles s = []" by (simp add: owns_def)
  from connectSocket_connected [OF assms(1) this, of fuel os endpoint] assms(3) True show ?thesis
    by (cases "connectSocket fuel os endpoint ctx s")
      (auto simp: connectIfNeeded_def owns_def failureFrom_def failure_def failureUsing_def
        split: outcome.split_asm DecodeResult.split_asm)
next
  case False
  with assms show ?thesis by (auto simp: connectIfNeeded_def)
qed

section \<open>The bytes of a connection\<close>

definition sendsAtMost :: "'v Sockets \<Rightarrow> bool" where
  "sendsAtMost os \<longleftrightarrow> (\<forall>h c v. fst (fst (os_send os h c v)) \<le> int (length c))"

definition sameSocket :: "'v Tcp \<Rightarrow> 'v Tcp \<Rightarrow> bool" where
  "sameSocket s s' \<longleftrightarrow> tcp_handles s' = tcp_handles s \<and> m_socket s' = m_socket s"

lemma sendLoop_sends:
  assumes "harmless ctx" "sendsAtMost os" "sendLoop fuel os data ctx deadline offset s = (r, s')"
  shows "sameSocket s s' \<and> tcp_received s' = tcp_received s \<and>
    (\<forall>v. r = Value (Success v) \<longrightarrow> tcp_sent s' = tcp_sent s @ drop offset data)"
  using assms(3)
proof (induction fuel arbitrary: offset s)
  case 0
  then show ?case by (auto simp: sameSocket_def split: if_split_asm)
next
  case (Suc fuel)
  show ?case
  proof (cases "offset < length data")
    case False
    with Suc.prems show ?thesis by (auto simp: sameSocket_def)
  next
    case True
    define chunk where "chunk = take (min (length data - offset) kIntMax) (drop offset data)"
    obtain b s1 where 1: "isCancellationRequested ctx s = (b, s1)" by fastforce
    obtain w s2 where 2: "waitForSocket (Suc fuel) os (m_socket s1) True ctx deadline s1 = (w, s2)" by fastforce
    obtain n e s3 where 3: "calling (os_send os (m_socket s2) chunk) s2 = ((n, e), s3)" by (metis prod.exhaust)
    have f: "sameSocket s s1" "sameSocket s s2" "sameSocket s s3" and t: "tcp_received s1 = tcp_received s"
      "tcp_received s2 = tcp_received s" "tcp_received s3 = tcp_received s" "tcp_sent s3 = tcp_sent s"
      using outsideOnly_fields [of s s1] outsideOnly_fields [of s1 s2] outsideOnly_fields [of s2 s3]
        outsideOnly_waitForSocket [OF assms(1), of s1 "Suc fuel" os "m_socket s1" True deadline]
        outsideOnly_calling [of s2 "os_send os (m_socket s2) chunk"] assms(1) 1 2 3
      by (auto simp: sameSocket_def harmless_def dest: spec [of _ s])
    have n: "n \<le> int (length chunk)"
      using assms(2) 3 unfolding sendsAtMost_def calling_def Let_def
      by (auto split: prod.splits dest: spec [of _ "m_socket s2"] dest!: spec [of _ chunk] spec [of _ "tcp_outside s2"])
    let ?s4 = "s3\<lparr>tcp_sent := tcp_sent s3 @ take (nat n) chunk\<rparr>"
    have split: "take (nat n) chunk @ drop (offset + nat n) data = drop offset data"
    proof -
      have "nat n \<le> min (length data - offset) kIntMax" using n by (simp add: chunk_def min_def split: if_splits)
      then have "take (nat n) chunk = take (nat n) (drop offset data)"
        unfolding chunk_def take_take by (simp add: min.absorb1)
      then show ?thesis by (metis add.commute append_take_drop_id drop_drop)
    qed
    have go: "sendLoop fuel os data ctx deadline (offset + nat n) ?s4 = (r, s') \<Longrightarrow> ?thesis"
      using Suc.IH [of "offset + nat n" ?s4] f t split by (auto simp: sameSocket_def)
    have again: "sendLoop fuel os data ctx deadline offset s3 = (r, s') \<Longrightarrow> ?thesis"
      using Suc.IH [of offset s3] f t by (auto simp: sameSocket_def)
    from Suc.prems True consider "sendLoop fuel os data ctx deadline (offset + nat n) ?s4 = (r, s')"
      | "sendLoop fuel os data ctx deadline offset s3 = (r, s')"
      | "s' = s1 \<or> s' = s2 \<or> s' = s3" "\<forall>v. r \<noteq> Value (Success v)"
      unfolding sendLoop.simps Let_def 1 2 prod.case chunk_def [symmetric]
      by (cases w) (auto simp: 3 cancelledResult_def socketFailure_def split: if_split_asm DecodeResult.split_asm)
    then show ?thesis
    proof cases
      case 3
      with f t show ?thesis by auto
    qed (fact go again)+
  qed
qed

lemma receiveLoop_receives:
  assumes "harmless ctx" "receiveLoop fuel os n ctx deadline received s = (r, s')"
  shows "sameSocket s s' \<and> tcp_sent s' = tcp_sent s \<and>
    (\<forall>d. r = Value (Success d) \<longrightarrow> length received \<le> n \<longrightarrow>
       length d = n \<and> (\<exists>e. d = received @ e \<and> tcp_received s' = tcp_received s @ e))"
  using assms(2)
proof (induction fuel arbitrary: received s)
  case 0
  then show ?case by (auto simp: sameSocket_def split: if_split_asm)
next
  case (Suc fuel)
  show ?case
  proof (cases "length received < n")
    case False
    with Suc.prems show ?thesis by (auto simp: sameSocket_def)
  next
    case True
    define chunk where "chunk = min (n - length received) kIntMax"
    obtain b s1 where 1: "isCancellationRequested ctx s = (b, s1)" by fastforce
    obtain w s2 where 2: "waitForSocket (Suc fuel) os (m_socket s1) False ctx deadline s1 = (w, s2)" by fastforce
    obtain x s3 where 3: "calling (os_recv os (m_socket s2) chunk) s2 = (x, s3)" by fastforce
    have f: "sameSocket s s1" "sameSocket s s2" "sameSocket s s3" and t: "tcp_sent s1 = tcp_sent s"
      "tcp_sent s2 = tcp_sent s" "tcp_sent s3 = tcp_sent s" "tcp_received s3 = tcp_received s"
      using outsideOnly_fields [of s s1] outsideOnly_fields [of s1 s2] outsideOnly_fields [of s2 s3]
        outsideOnly_waitForSocket [OF assms(1), of s1 "Suc fuel" os "m_socket s1" False deadline]
        outsideOnly_calling [of s2 "os_recv os (m_socket s2) chunk"] assms(1) 1 2 3
      by (auto simp: sameSocket_def harmless_def dest: spec [of _ s])
    have go: ?thesis if "receiveLoop fuel os n ctx deadline (received @ take chunk y)
        (s3\<lparr>tcp_received := tcp_received s3 @ take chunk y\<rparr>) = (r, s')" for y
      using Suc.IH [OF that] f t True by (auto simp: sameSocket_def chunk_def)
    have again: "receiveLoop fuel os n ctx deadline received s3 = (r, s') \<Longrightarrow> ?thesis"
      using Suc.IH [of received s3] f t by (auto simp: sameSocket_def)
    from Suc.prems True consider y where "receiveLoop fuel os n ctx deadline (received @ take chunk y)
        (s3\<lparr>tcp_received := tcp_received s3 @ take chunk y\<rparr>) = (r, s')"
      | "receiveLoop fuel os n ctx deadline received s3 = (r, s')"
      | "s' = s1 \<or> s' = s2 \<or> s' = s3" "\<forall>v. r \<noteq> Value (Success v)"
      unfolding receiveLoop.simps Let_def 1 2 prod.case chunk_def [symmetric]
      by (cases w) (auto simp: 3 cancelledResult_def socketFailure_def failureFrom_def failure_def failureUsing_def
          split: if_split_asm DecodeResult.split_asm sum.split_asm)
    then show ?thesis
    proof cases
      case 3
      with f t show ?thesis by auto
    qed (fact go again)+
  qed
qed

lemma deadline_then:
  assumes "deadlineFor os ctx s = (d, s1)"
  shows "sameSocket s s1 \<and> tcp_sent s1 = tcp_sent s \<and> tcp_received s1 = tcp_received s"
  using outsideOnly_fields [OF outsideOnly_deadlineFor [of s os ctx]] assms by (simp add: sameSocket_def)

lemma sendAll_sends:
  assumes "harmless ctx" "sendsAtMost os" "sendAll fuel os data ctx s = (r, s')"
  shows "sameSocket s s' \<and> tcp_received s' = tcp_received s \<and>
    (\<forall>v. r = Value (Success v) \<longrightarrow> tcp_sent s' = tcp_sent s @ data)"
proof -
  obtain d s1 where 1: "deadlineFor os ctx s = (d, s1)" by fastforce
  from assms(3) have 2: "sendLoop fuel os data ctx d 0 s1 = (r, s')" by (simp add: sendAll_def 1)
  from sendLoop_sends [OF assms(1,2) 2] deadline_then [OF 1] show ?thesis by (auto simp: sameSocket_def)
qed

lemma receiveExact_receives:
  assumes "harmless ctx" "receiveExact fuel os n ctx s = (r, s')"
  shows "sameSocket s s' \<and> tcp_sent s' = tcp_sent s \<and>
    (\<forall>d. r = Value (Success d) \<longrightarrow> length d = n \<and> tcp_received s' = tcp_received s @ d)"
proof -
  obtain d s1 where 1: "deadlineFor os ctx s = (d, s1)" by fastforce
  from assms(2) have 2: "receiveLoop fuel os n ctx d [] s1 = (r, s')" by (simp add: receiveExact_def 1)
  from receiveLoop_receives [OF assms(1) 2] deadline_then [OF 1] show ?thesis by (auto simp: sameSocket_def)
qed

lemma onReady_cases:
  assumes "onReady call onError k s = (r, s')"
  obtains (ok) v s1 where "call s = (Value (Success v), s1)" "k v s1 = (r, s')"
  | (failed) e s1 where "call s = (Value (Failure e), s1)" "onError e s1 = (r, s')"
  | (stopped) "\<forall>d. r \<noteq> Value d"
  using assms by (auto simp: onReady_def split: prod.splits outcome.splits DecodeResult.splits)

lemma failingExchange_closes:
  "failingExchange os f e s = (Value r, s') \<Longrightarrow> s' = close os s \<and> (\<forall>v. r \<noteq> Success v)"
  by (auto simp: failingExchange_def failureInContext_def bind_eq_Some_conv split: option.splits)

text \<open>What an exchange leaves of the connection: after a failure nothing; after a success the
  same socket (or a new one), with one whole request sent and one whole reply received.\<close>

definition exchanged :: "bytes \<Rightarrow> bytes DecodeResult \<Rightarrow> 'v Tcp \<Rightarrow> 'v Tcp \<Rightarrow> bool" where
  "exchanged requestFrame r s s' \<longleftrightarrow>
    (case r of
       Failure e \<Rightarrow> m_socket s' = kInvalidSocket
     | Success reply \<Rightarrow> wholeFrame reply \<and> m_socket s' \<noteq> kInvalidSocket \<and>
         (if m_socket s = kInvalidSocket
          then tcp_sent s' = requestFrame \<and> tcp_received s' = reply
          else m_socket s' = m_socket s \<and>
            tcp_sent s' = tcp_sent s @ requestFrame \<and> tcp_received s' = tcp_received s @ reply))"

lemma wholeFrame_received:
  assumes "length header = 4" "decodeDirectTcpPayloadLength header = Some (Success n)" "length payload = unat n"
  shows "wholeFrame (header @ payload)"
proof -
  obtain a b c d where h: "header = [a, b, c, d]"
    using assms(1) by (auto simp: length_Suc_conv numeral_eq_Suc)
  have "decodeDirectTcpPayload (header @ payload) = Some (Success payload)"
    using assms(2,3)
    by (auto simp: h decodeDirectTcpPayload_def decodeDirectTcpPayloadLength_def slice_def split: if_splits)
  with assms(1) show ?thesis by (auto simp: wholeFrame_def)
qed

text \<open>A step of an exchange either ends it with the connection closed or goes on.\<close>

lemma failing_step:
  assumes "onReady call (failingExchange os f) k s = (Value r, s')" "owns s" "\<And>r s1. call s = (r, s1) \<Longrightarrow> sameSocket s s1"
  shows "(owns s' \<and> m_socket s' = kInvalidSocket \<and> (\<forall>v. r \<noteq> Success v)) \<or>
    (\<exists>v s1. call s = (Value (Success v), s1) \<and> owns s1 \<and> k v s1 = (Value r, s'))"
  using assms(1)
proof (cases rule: onReady_cases)
  case (ok v s1)
  with assms(2) assms(3) [OF ok(1)] show ?thesis by (auto simp: owns_def sameSocket_def)
next
  case (failed e s1)
  have "owns s1" using assms(2) assms(3) [OF failed(1)] by (simp add: owns_def sameSocket_def)
  with failingExchange_closes [OF failed(2)] show ?thesis by simp
qed simp

definition receiveReply :: "nat \<Rightarrow> 'v Sockets \<Rightarrow> bytes \<Rightarrow> 'v Tcp OperationContext \<Rightarrow> ('v, bytes) tcp" where
  "receiveReply fuel os requestFrame ctx =
     onReady (receiveExact fuel os kDirectTcpHeaderSize ctx) (failingExchange os requestFrame) (\<lambda>header.
     onReady (tcpChecked (decodeDirectTcpPayloadLength header)) (\<lambda>e s. (Value (failureFrom e), close os s))
       (\<lambda>payloadLength.
     onReady (receiveExact fuel os (unat payloadLength) ctx) (failingExchange os requestFrame) (\<lambda>payload s.
       (Value (Success (header @ payload)), s))))"

lemma receiveReply_whole:
  assumes "harmless ctx" "owns s" "receiveReply fuel os requestFrame ctx s = (Value r, s')"
  shows "owns s' \<and> (case r of Failure e \<Rightarrow> m_socket s' = kInvalidSocket
    | Success reply \<Rightarrow> wholeFrame reply \<and> sameSocket s s' \<and> tcp_sent s' = tcp_sent s \<and>
        tcp_received s' = tcp_received s @ reply)" (is "?goal")
proof -
  have closed: ?goal if "owns s' \<and> m_socket s' = kInvalidSocket \<and> (\<forall>v. r \<noteq> Success v)"
    using that by (cases r) auto
  note rec = receiveExact_receives [OF assms(1)]
  from failing_step [OF assms(3) [unfolded receiveReply_def] assms(2)] rec closed consider ?goal
    | header s1 where "receiveExact fuel os 4 ctx s = (Value (Success header), s1)" "owns s1"
      "onReady (tcpChecked (decodeDirectTcpPayloadLength header)) (\<lambda>e s. (Value (failureFrom e), close os s))
         (\<lambda>payloadLength. onReady (receiveExact fuel os (unat payloadLength) ctx) (failingExchange os requestFrame)
           (\<lambda>payload s. (Value (Success (header @ payload)), s))) s1 = (Value r, s')" by blast
  then show ?thesis
  proof cases
    case (2 header s1)
    from 2(3,2) consider ?goal
      | n where "decodeDirectTcpPayloadLength header = Some (Success n)"
        "onReady (receiveExact fuel os (unat n) ctx) (failingExchange os requestFrame)
           (\<lambda>payload s. (Value (Success (header @ payload)), s)) s1 = (Value r, s')"
      by (cases rule: onReady_cases) (auto simp: tcpChecked_def failureFrom_def failure_def failureUsing_def split: option.splits)
    then show ?thesis
    proof cases
      case (2 n)
      from failing_step [OF 2(2) \<open>owns s1\<close>] rec closed consider ?goal
        | payload where "receiveExact fuel os (unat n) ctx s1 = (Value (Success payload), s')" "owns s'"
          "r = Success (header @ payload)" by blast
      then show ?thesis
      proof cases
        case (2 payload)
        with rec [OF 2(1)] rec [OF \<open>receiveExact fuel os 4 ctx s = (Value (Success header), s1)\<close>]
          wholeFrame_received [OF _ \<open>decodeDirectTcpPayloadLength header = Some (Success n)\<close>]
        show ?thesis by (auto simp: sameSocket_def)
      qed
    qed
  qed
qed

section \<open>Every wait ends\<close>

text \<open>A clock behind the outside world: \<open>os_now\<close> reads it, no call sets it back, and a call of
  \<open>select\<close> takes time. The callbacks of a patient context do not set it back either.\<close>

definition laterBy :: "('v \<Rightarrow> int) \<Rightarrow> 'v Tcp \<Rightarrow> 'v Tcp \<Rightarrow> bool" where
  "laterBy clock s s' \<longleftrightarrow> clock (tcp_outside s) \<le> clock (tcp_outside s')"

definition ticking :: "'v Sockets \<Rightarrow> ('v \<Rightarrow> int) \<Rightarrow> bool" where
  "ticking os clock \<longleftrightarrow>
     (\<forall>v. clock v \<le> fst (os_now os v) \<and> fst (os_now os v) \<le> clock (snd (os_now os v))) \<and>
     (\<forall>h w a b v. clock v < clock (snd (os_select os h w a b v))) \<and>
     (\<forall>h c v. clock v \<le> clock (snd (os_send os h c v))) \<and>
     (\<forall>h n v. clock v \<le> clock (snd (os_recv os h n v))) \<and>
     (\<forall>h v. clock v \<le> clock (os_close os h v)) \<and>
     (\<forall>h v. clock v \<le> clock (snd (os_getfl os h v))) \<and>
     (\<forall>h f v. clock v \<le> clock (snd (os_setfl os h f v))) \<and>
     (\<forall>h a v. clock v \<le> clock (snd (os_connect os h a v))) \<and>
     (\<forall>h v. clock v \<le> clock (snd (os_getsockopt os h v))) \<and>
     (\<forall>f t p v. clock v \<le> clock (snd (os_socket os f t p v)))"

definition patient :: "'v Tcp OperationContext \<Rightarrow> ('v \<Rightarrow> int) \<Rightarrow> bool" where
  "patient ctx clock \<longleftrightarrow> (\<forall>s. laterBy clock s (snd (isCancellationRequested ctx s)))"

text \<open>Handles that fit into a descriptor set.\<close>

definition smallHandles :: "'v Sockets \<Rightarrow> bool" where
  "smallHandles os \<longleftrightarrow> 
     (\<forall>f t p v. let h = fst (fst (os_socket os f t p v)) in h = kInvalidSocket \<or> 0 \<le> h \<and> h < kFdSetSize)"

lemma laterBy_calling: "laterBy clock s (snd (calling f s)) \<longleftrightarrow> clock (tcp_outside s) \<le> clock (snd (f (tcp_outside s)))"
  by (simp add: laterBy_def calling_def split: prod.splits)

lemma keptBy_laterBy: "ticking os clock \<Longrightarrow> patient ctx clock \<Longrightarrow> keptBy (laterBy clock) os ctx"
  unfolding keptBy_def patient_def laterBy_calling ticking_def
  by (auto simp: reflp_def laterBy_def less_imp_le intro!: transpI) (meson order_trans)+

lemma waitForSocket_ends:
  assumes "ticking os clock" "patient ctx clock" "0 \<le> socket" "socket < kFdSetSize"
    and "deadline - clock (tcp_outside s) < int fuel"
    and "waitForSocket fuel os socket writable ctx deadline s = (r, s')" "0 < fuel"
  shows "\<exists>v. r = Value v \<and>
    (\<forall>b. v = Success b \<longrightarrow> clock (tcp_outside s) < clock (tcp_outside s') \<and> clock (tcp_outside s) < deadline)"
  using assms(5-7)
proof (induction fuel arbitrary: s)
  case (Suc fuel)
  obtain b s1 where c: "isCancellationRequested ctx s = (b, s1)" by fastforce
  obtain t s2 where n: "calling (os_now os) s1 = (t, s2)" by fastforce
  define slice where "slice = min ((deadline - t) div 1000000) 100"
  obtain x e s3 where r: "calling (os_select os socket writable (slice div 1000) (slice mod 1000 * 1000)) s2 = ((x, e), s3)"
    by (metis prod.exhaust)
  have 1: "clock (tcp_outside s) \<le> clock (tcp_outside s1)"
    using assms(2) c unfolding patient_def laterBy_def by (metis snd_conv)
  have 2: "clock (tcp_outside s1) \<le> t" "t \<le> clock (tcp_outside s2)"
    using assms(1) n by (auto simp: ticking_def calling_def split: prod.splits dest!: spec [of _ "tcp_outside s1"])
  have 3: "clock (tcp_outside s2) < clock (tcp_outside s3)"
    using assms(1) r unfolding ticking_def calling_def Let_def
    by (auto split: prod.splits) (metis snd_conv)
  have again: "\<exists>v. r = Value v \<and>
    (\<forall>b. v = Success b \<longrightarrow> clock (tcp_outside s) < clock (tcp_outside s') \<and> clock (tcp_outside s) < deadline)"
    if "waitForSocket fuel os socket writable ctx deadline s3 = (r, s')" "t < deadline"
  proof -
    have "deadline - clock (tcp_outside s3) < int fuel" "0 < fuel" using Suc.prems(1) 1 2 3 that(2) by simp_all
    with Suc.IH [OF _ that(1)] 1 2 3 show ?thesis by fastforce
  qed
  from Suc.prems(2) 1 2 3 again assms(3,4) show ?case
    unfolding waitForSocket.simps Let_def c n prod.case slice_def [symmetric] r
    by (auto simp: cancelledResult_def timeoutResult_def socketFailure_def split: if_split_asm)
qed simp

lemma calling_clock:
  assumes "calling f s = (r, s')" "\<And>v. clock v \<le> clock (snd (f v))"
  shows "clock (tcp_outside s) \<le> clock (tcp_outside s')"
  using assms(1) assms(2) [of "tcp_outside s"] by (auto simp: calling_def split: prod.splits)

lemma cancel_clock:
  "patient ctx clock \<Longrightarrow> isCancellationRequested ctx s = (b, s') \<Longrightarrow> clock (tcp_outside s) \<le> clock (tcp_outside s')"
  unfolding patient_def laterBy_def by (metis snd_conv)

lemma ticking_calls:
  assumes "ticking os clock"
  shows "clock v \<le> clock (snd (os_send os h c v))" "clock v \<le> clock (snd (os_recv os h n v))"
    "clock v \<le> clock (os_close os h v)" "clock v \<le> clock (snd (os_getfl os h v))"
    "clock v \<le> clock (snd (os_setfl os h i v))" "clock v \<le> clock (snd (os_connect os h a v))"
    "clock v \<le> clock (snd (os_getsockopt os h v))" "clock v \<le> clock (snd (os_socket os i j k v))"
  using assms by (simp_all add: ticking_def)

lemma sendLoop_ends:
  assumes t: "ticking os clock" and p: "patient ctx clock" and h: "harmless ctx"
    and "m_socket s \<in> {0..<kFdSetSize}" "deadline - clock (tcp_outside s) < int fuel" "0 < fuel"
  shows "\<exists>v. fst (sendLoop fuel os data ctx deadline offset s) = Value v"
  using assms(4-6)
proof (induction fuel arbitrary: offset s)
  case (Suc fuel)
  show ?case
  proof (cases "offset < length data")
    case True
    define chunk where "chunk = take (min (length data - offset) kIntMax) (drop offset data)"
    obtain b s1 where 1: "isCancellationRequested ctx s = (b, s1)" by fastforce
    obtain w s2 where 2: "waitForSocket (Suc fuel) os (m_socket s1) True ctx deadline s1 = (w, s2)" by fastforce
    obtain n e s3 where 3: "calling (os_send os (m_socket s2) chunk) s2 = ((n, e), s3)" by (metis prod.exhaust)
    have m: "m_socket s1 = m_socket s" "m_socket s2 = m_socket s" "m_socket s3 = m_socket s"
      using harmless_fields [OF h 1] waiting_fields [OF h 2] calling_fields [OF 3] by simp_all
    note c1 = cancel_clock [OF p 1]
    have "deadline - clock (tcp_outside s1) < int (Suc fuel)" using c1 Suc.prems(2) by simp
    from waitForSocket_ends [OF t p _ _ this 2] Suc.prems(1) m obtain v where
      w: "w = Value v" "\<And>b. v = Success b \<Longrightarrow> clock (tcp_outside s1) < clock (tcp_outside s2) \<and> clock (tcp_outside s1) < deadline"
      by auto
    have again: "\<exists>v. fst (sendLoop fuel os data ctx deadline offset' s4) = Value v"
      if "v = Success b" "tcp_outside s4 = tcp_outside s3" "m_socket s4 = m_socket s" for b offset' s4
    proof (rule Suc.IH)
      have "clock (tcp_outside s2) \<le> clock (tcp_outside s3)"
        using calling_clock [OF 3] ticking_calls(1) [OF t] by blast
      then show "deadline - clock (tcp_outside s4) < int fuel" "0 < fuel"
        using w(2) [OF that(1)] c1 Suc.prems(2) that(2) by simp_all
      show "m_socket s4 \<in> {0..<1024}" using that(3) Suc.prems(1) by simp
    qed
    show ?thesis
      using True again m(3) unfolding sendLoop.simps Let_def 1 2 prod.case chunk_def [symmetric] w(1)
      by (cases v) (simp_all add: 3)
  qed simp
qed simp

lemma receiveLoop_ends:
  assumes t: "ticking os clock" and p: "patient ctx clock" and h: "harmless ctx"
    and "m_socket s \<in> {0..<kFdSetSize}" "deadline - clock (tcp_outside s) < int fuel" "0 < fuel"
  shows "\<exists>v. fst (receiveLoop fuel os n ctx deadline received s) = Value v"
  using assms(4-6)
proof (induction fuel arbitrary: received s)
  case (Suc fuel)
  show ?case
  proof (cases "length received < n")
    case True
    define chunk where "chunk = min (n - length received) kIntMax"
    obtain b s1 where 1: "isCancellationRequested ctx s = (b, s1)" by fastforce
    obtain w s2 where 2: "waitForSocket (Suc fuel) os (m_socket s1) False ctx deadline s1 = (w, s2)" by fastforce
    obtain x s3 where 3: "calling (os_recv os (m_socket s2) chunk) s2 = (x, s3)" by fastforce
    have m: "m_socket s1 = m_socket s" "m_socket s2 = m_socket s" "m_socket s3 = m_socket s"
      using harmless_fields [OF h 1] waiting_fields [OF h 2] calling_fields [OF 3] by simp_all
    note c1 = cancel_clock [OF p 1]
    have "deadline - clock (tcp_outside s1) < int (Suc fuel)" using c1 Suc.prems(2) by simp
    from waitForSocket_ends [OF t p _ _ this 2] Suc.prems(1) m obtain v where
      w: "w = Value v" "\<And>b. v = Success b \<Longrightarrow> clock (tcp_outside s1) < clock (tcp_outside s2) \<and> clock (tcp_outside s1) < deadline"
      by auto
    have again: "\<exists>v. fst (receiveLoop fuel os n ctx deadline received' s4) = Value v"
      if "v = Success b" "tcp_outside s4 = tcp_outside s3" "m_socket s4 = m_socket s" for b received' s4
    proof (rule Suc.IH)
      have "clock (tcp_outside s2) \<le> clock (tcp_outside s3)"
        using calling_clock [OF 3] ticking_calls(2) [OF t] by blast
      then show "deadline - clock (tcp_outside s4) < int fuel" "0 < fuel"
        using w(2) [OF that(1)] c1 Suc.prems(2) that(2) by simp_all
      show "m_socket s4 \<in> {0..<1024}" using that(3) Suc.prems(1) by simp
    qed
    show ?thesis
      using True again m(3) unfolding receiveLoop.simps Let_def 1 2 prod.case chunk_def [symmetric] w(1)
      by (cases v) (auto simp: 3 split: sum.splits)
  qed simp
qed simp

text \<open>Nanoseconds an operation may wait.\<close>

definition patienceOf :: "'v Tcp OperationContext \<Rightarrow> int" where
  "patienceOf ctx = (if ctx_timeout ctx \<le> 0 then 30000 else ctx_timeout ctx) * 1000000"

lemma deadlineFor_clock:
  assumes "ticking os clock" "deadlineFor os ctx s = (d, s')"
  shows "d - clock (tcp_outside s') \<le> patienceOf ctx \<and> m_socket s' = m_socket s"
  using assms(2) assms(1) [unfolded ticking_def, THEN conjunct1, rule_format, of "tcp_outside s"]
  by (auto simp: deadlineFor_def calling_def patienceOf_def Let_def split: prod.splits)

lemma sendAll_ends:
  assumes t: "ticking os clock" and "patient ctx clock" "harmless ctx"
    and "m_socket s \<in> {0..<kFdSetSize}" "patienceOf ctx < int fuel"
  shows "\<exists>v. fst (sendAll fuel os data ctx s) = Value v"
proof -
  obtain d s1 where 1: "deadlineFor os ctx s = (d, s1)" by fastforce
  have "0 < fuel" using assms(5) by (auto simp: patienceOf_def split: if_splits intro: Nat.gr0I)
  with deadlineFor_clock [OF t 1] assms(4,5) sendLoop_ends [OF assms(1-3), of s1 d fuel]
  show ?thesis by (simp add: sendAll_def 1)
qed

lemma receiveExact_ends:
  assumes t: "ticking os clock" and "patient ctx clock" "harmless ctx"
    and "m_socket s \<in> {0..<kFdSetSize}" "patienceOf ctx < int fuel"
  shows "\<exists>v. fst (receiveExact fuel os n ctx s) = Value v"
proof -
  obtain d s1 where 1: "deadlineFor os ctx s = (d, s1)" by fastforce
  have "0 < fuel" using assms(5) by (auto simp: patienceOf_def split: if_splits intro: Nat.gr0I)
  with deadlineFor_clock [OF t 1] assms(4,5) receiveLoop_ends [OF assms(1-3), of s1 d fuel]
  show ?thesis by (simp add: receiveExact_def 1)
qed

lemma setNonBlocking_clock:
  assumes t: "ticking os clock" and r: "setNonBlocking os h s = (r, s')"
  shows "clock (tcp_outside s) \<le> clock (tcp_outside s')"
proof -
  obtain g e s1 where 1: "calling (os_getfl os h) s = ((g, e), s1)" by (metis prod.exhaust)
  obtain x s2 where 2: "calling (os_setfl os h (g OR oNONBLOCK)) s1 = (x, s2)" by fastforce
  have "clock (tcp_outside s) \<le> clock (tcp_outside s1)" by (rule calling_clock [OF 1]) (rule ticking_calls(4) [OF t])
  moreover have "clock (tcp_outside s1) \<le> clock (tcp_outside s2)"
    by (rule calling_clock [OF 2]) (rule ticking_calls(5) [OF t])
  ultimately show ?thesis using r by (auto simp: setNonBlocking_def 1 2 split: if_split_asm)
qed

lemma openSocket_clock:
  assumes t: "ticking os clock" and r: "openSocket os entry s = (r, s')"
  shows "clock (tcp_outside s) \<le> clock (tcp_outside s')"
proof -
  obtain h e s1 where 1: "calling (os_socket os (ai_family entry) (ai_socktype entry) (ai_protocol entry)) s = ((h, e), s1)"
    by (metis prod.exhaust)
  have "clock (tcp_outside s) \<le> clock (tcp_outside s1)" by (rule calling_clock [OF 1]) (rule ticking_calls(8) [OF t])
  with r show ?thesis by (auto simp: openSocket_def 1 split: if_split_asm)
qed

lemma openSocket_small:
  assumes "smallHandles os" "openSocket os entry s = ((h, e), s')" "h \<noteq> kInvalidSocket"
  shows "0 \<le> h \<and> h < kFdSetSize"
proof -
  obtain h' e' s1 where 1: "calling (os_socket os (ai_family entry) (ai_socktype entry) (ai_protocol entry)) s = ((h', e'), s1)"
    by (metis prod.exhaust)
  from assms(2) have "h' = h" by (auto simp: openSocket_def 1 split: if_split_asm)
  with 1 have "fst (fst (os_socket os (ai_family entry) (ai_socktype entry) (ai_protocol entry) (tcp_outside s))) = h"
    by (auto simp: calling_def split: prod.splits)
  with assms(1,3) show ?thesis unfolding smallHandles_def Let_def by metis
qed

lemma connectLoop_ends:
  assumes t: "ticking os clock" and p: "patient ctx clock" and h: "smallHandles os"
    and "deadline - clock (tcp_outside s) < int fuel" "0 < fuel"
  shows "\<exists>v. fst (connectLoop fuel os ctx deadline lastError entries s) = Value v \<and>
    (\<forall>h. v = Success h \<longrightarrow> 0 \<le> h \<and> h < kFdSetSize)"
  using assms(4)
proof (induction entries arbitrary: lastError s)
  case Nil
  then show ?case by simp
next
  case (Cons entry entries)
  obtain b s1 where 1: "isCancellationRequested ctx s = (b, s1)" by fastforce
  obtain h e s2 where 2: "openSocket os entry s1 = ((h, e), s2)" by (metis prod.exhaust)
  obtain st e3 s3 where 3: "setNonBlocking os h s2 = ((st, e3), s3)" by (metis prod.exhaust)
  obtain cr ce s4 where 4: "calling (os_connect os h (ai_addr entry)) s3 = ((cr, ce), s4)" by (metis prod.exhaust)
  obtain w s5 where 5: "waitForSocket fuel os h True ctx deadline s4 = (w, s5)" by fastforce
  obtain gs pe ge s6 where 6: "calling (os_getsockopt os h) s5 = ((gs, pe, ge), s6)" by (metis prod.exhaust)
  let ?c = "\<lambda>s. clock (tcp_outside s)"
  have c: "?c s \<le> ?c s1" "?c s1 \<le> ?c s2" "?c s2 \<le> ?c s3" "?c s3 \<le> ?c s4" "?c s5 \<le> ?c s6"
    using cancel_clock [OF p 1] openSocket_clock [OF t 2] setNonBlocking_clock [OF t 3]
      calling_clock [OF 4, of clock] calling_clock [OF 6, of clock] ticking_calls(6,7) [OF t] by simp_all
  have closed: "?c x \<le> ?c (closeSocket os h x)" for x
    using ticking_calls(3) [OF t] by (simp add: closeSocket_def)
  have again: "\<exists>v. fst (connectLoop fuel os ctx deadline l entries x) = Value v \<and> (\<forall>h. v = Success h \<longrightarrow> 0 \<le> h \<and> h < 1024)"
    if "?c s \<le> ?c x" for l x
    by (rule Cons.IH) (use that Cons.prems in simp)
  show ?case
  proof (cases "h = kInvalidSocket")
    case True
    have "?c s \<le> ?c s2" using c by simp
    with again True show ?thesis by (simp add: 1 2)
  next
    case False
    have small: "0 \<le> h" "h < kFdSetSize" using openSocket_small [OF assms(3) 2 False] by simp_all
    have "deadline - ?c s4 < int fuel" using c Cons.prems by simp
    from waitForSocket_ends [OF t p small this 5 assms(5)] obtain v where
      w: "w = Value v" "\<forall>b. v = Success b \<longrightarrow> ?c s4 < ?c s5" by auto
    have late: "?c s \<le> ?c (closeSocket os h s3)" "?c s \<le> ?c (closeSocket os h s4)"
      using c closed [of s3] closed [of s4] by simp_all
    have late': "?c s \<le> ?c (closeSocket os h s6)" if "v = Success b" for b
      using c closed [of s6] w(2) that by fastforce
    show ?thesis
      using again late late' small
      by (cases v) (auto simp: 1 2 3 4 5 6 w(1) Let_def failureFrom_def failure_def failureUsing_def)
  qed
qed

lemma connectIfNeeded_ends:
  assumes t: "ticking os clock" and "patient ctx clock" "smallHandles os"
    and "m_socket s \<in> {- 1..<kFdSetSize}" "patienceOf ctx < int fuel"
  shows "\<exists>v. fst (connectIfNeeded fuel os endpoint ctx s) = Value v \<and>
    (\<forall>b. v = Success b \<longrightarrow> m_socket (snd (connectIfNeeded fuel os endpoint ctx s)) \<in> {0..<kFdSetSize})"
proof (cases "m_socket s = kInvalidSocket")
  case True
  obtain st rs s1 where 1: "calling (os_getaddrinfo os (ep_host endpoint) (decimalNat (unat (ep_port endpoint)))) s = ((st, rs), s1)"
    by (metis prod.exhaust)
  obtain d s2 where 2: "deadlineFor os ctx s1 = (d, s2)" by fastforce
  have "0 < fuel" using assms(5) by (auto simp: patienceOf_def split: if_splits intro: Nat.gr0I)
  with connectLoop_ends [OF assms(1-3), of d s2 fuel] deadlineFor_clock [OF t 2] assms(5)
  have "\<exists>v. fst (connectLoop fuel os ctx d l rs s2) = Value v \<and> (\<forall>h. v = Success h \<longrightarrow> 0 \<le> h \<and> h < kFdSetSize)" for l
    by simp
  then obtain v where "fst (connectLoop fuel os ctx d \<lparr>pe_code = EcServerUnavailable,
      pe_message = ''SMB Direct TCP connect failed.'', pe_messagesUsed = 0\<rparr> rs s2) = Value v"
    "\<forall>h. v = Success h \<longrightarrow> 0 \<le> h \<and> h < kFdSetSize" by blast
  with True show ?thesis
    by (cases v; cases "connectLoop fuel os ctx d \<lparr>pe_code = EcServerUnavailable,
      pe_message = ''SMB Direct TCP connect failed.'', pe_messagesUsed = 0\<rparr> rs s2")
      (simp_all add: connectIfNeeded_def connectSocket_def 1 2 Let_def failureFrom_def failure_def failureUsing_def)
qed (use assms(4) in \<open>auto simp: connectIfNeeded_def\<close>)

lemma onReady_ends:
  assumes "\<exists>v. fst (call s) = Value v" "\<And>e s. \<exists>v. fst (onError e s) = Value v"
    and "\<And>x s1. call s = (Value (Success x), s1) \<Longrightarrow> \<exists>v. fst (k x s1) = Value v"
  shows "\<exists>v. fst (onReady call onError k s) = Value v"
proof -
  obtain v s1 where "call s = (Value v, s1)" using assms(1) by (metis prod.collapse)
  then show ?thesis using assms(2) assms(3) [of _ s1] by (cases v) (auto simp: onReady_def)
qed

lemma failingExchange_ends: "\<exists>v. fst (failingExchange os f e s) = Value v"
proof -
  have "requestContext f \<noteq> None"
    by (auto simp: requestContext_def in_bounds decodeDirectTcpPayload_total decodeSmb2SyncHeader_total
        split: DecodeResult.splits simp del: not_None_eq)
  then show ?thesis by (auto simp: failingExchange_def failureInContext_def)
qed

section \<open>Properties\<close>

text \<open>C7: the transport never leaks a socket and never reuses a connection that stopped inside
  a frame. Whatever the network does, after an exchange that returns it holds its own socket
  and no other; if the exchange failed or was cancelled the connection is closed; if it
  succeeded, exactly the request went out and exactly one whole frame came in, however the
  two were cut into pieces.\<close>

theorem exchange_keeps_whole_frames:
  assumes "harmless ctx" "sendsAtMost os" "owns s"
    and "exchange fuel os endpoint requestFrame ctx s = (Value r, s')"
  shows "owns s' \<and> exchanged requestFrame r s s'" (is "?goal")
proof -
  have closed: ?goal if "owns s' \<and> m_socket s' = kInvalidSocket \<and> (\<forall>v. r \<noteq> Success v)"
    using that by (cases r) (auto simp: exchanged_def)
  from assms(4) consider v s1 where "connectIfNeeded fuel os endpoint ctx s = (Value (Success v), s1)"
      "onReady (sendAll fuel os requestFrame ctx) (failingExchange os requestFrame)
         (\<lambda>_. receiveReply fuel os requestFrame ctx) s1 = (Value r, s')"
    | e where "connectIfNeeded fuel os endpoint ctx s = (Value (Failure e), s')" "r = failureFrom e"
    unfolding exchange_def receiveReply_def [symmetric] by (cases rule: onReady_cases) auto
  then show ?thesis
  proof cases
    case (2 e)
    with connectIfNeeded_owns [OF assms(1,3) 2(1)] show ?thesis by (intro closed) auto
  next
    case (1 v s1)
    note c = connectIfNeeded_owns [OF assms(1,3) 1(1)]
    from failing_step [OF 1(2) c [THEN conjunct1]] sendAll_sends [OF assms(1,2)] closed consider ?goal
      | u s2 where "sendAll fuel os requestFrame ctx s1 = (Value (Success u), s2)" "owns s2"
        "receiveReply fuel os requestFrame ctx s2 = (Value r, s')" by blast
    then show ?thesis
    proof cases
      case (2 u s2)
      from receiveReply_whole [OF assms(1) 2(2,3)] sendAll_sends [OF assms(1,2) 2(1)] c
      show ?thesis by (auto simp: exchanged_def sameSocket_def split: DecodeResult.splits if_splits)
    qed
  qed
qed

text \<open>C15: an exchange returns. When the clock runs, a call of \<open>select\<close> takes time, the handles
  fit into a descriptor set and the timeout (30 seconds if none is given) is finite, then
  connecting, sending and receiving end with a result, whatever the peer does; one turn per
  nanosecond of the timeout is enough fuel.\<close>

theorem exchange_returns:
  assumes "ticking os clock" "patient ctx clock" "harmless ctx" "smallHandles os"
    and "m_socket s \<in> {- 1..<kFdSetSize}" "patienceOf ctx < int fuel" "sendsAtMost os"
  shows "\<exists>r s'. exchange fuel os endpoint requestFrame ctx s = (Value r, s')"
proof -
  have rec: "\<exists>v. fst (receiveExact fuel os n ctx s) = Value v" if "m_socket s \<in> {0..<kFdSetSize}" for n s
    by (rule receiveExact_ends [OF assms(1-3) that assms(6)])
  have same: "m_socket s1 = m_socket s" if "receiveExact fuel os n ctx s = (r, s1)" for n r s s1
    using receiveExact_receives [OF assms(3) that] by (simp add: sameSocket_def)
  have "\<exists>v. fst (receiveReply fuel os requestFrame ctx s) = Value v" if "m_socket s \<in> {0..<kFdSetSize}" for s
    unfolding receiveReply_def
  proof (intro onReady_ends rec failingExchange_ends that)
    fix header s1 assume h: "receiveExact fuel os 4 ctx s = (Value (Success header), s1)"
    show "\<exists>v. fst (tcpChecked (decodeDirectTcpPayloadLength header) s1) = Value v"
      using decodeDirectTcpPayloadLength_total [of header] by (auto simp: tcpChecked_def)
    fix n s2 assume "tcpChecked (decodeDirectTcpPayloadLength header) s1 = (Value (Success n), s2)"
    then have "s2 = s1" by (auto simp: tcpChecked_def split: option.splits)
    with same [OF h] that show "m_socket s2 \<in> {0..<kFdSetSize}" by simp
  qed auto
  moreover have "m_socket s2 = m_socket s1" if "sendAll fuel os requestFrame ctx s1 = (r, s2)" for r s1 s2
    using sendAll_sends [OF assms(3,7) that] by (simp add: sameSocket_def)
  ultimately have sent: "\<exists>v. fst (onReady (sendAll fuel os requestFrame ctx) (failingExchange os requestFrame)
      (\<lambda>_. receiveReply fuel os requestFrame ctx) s1) = Value v" if "m_socket s1 \<in> {0..<kFdSetSize}" for s1
    using that by (intro onReady_ends sendAll_ends [OF assms(1-3) that assms(6)] failingExchange_ends) auto
  have "\<exists>v. fst (exchange fuel os endpoint requestFrame ctx s) = Value v"
    unfolding exchange_def receiveReply_def [symmetric]
    using connectIfNeeded_ends [OF assms(1,2,4-6), of endpoint] by (intro onReady_ends sent) auto
  then show ?thesis by (metis prod.collapse)
qed

text \<open>A network that accepts one byte at a time and whose peer answers with a fixed stream, two
  bytes at a time; every call takes one nanosecond.\<close>

definition slowNetwork :: "(int \<times> bytes) Sockets" where
  "slowNetwork =
     \<lparr>os_getaddrinfo = \<lambda>host port v. ((0, [\<lparr>ai_family = 2, ai_socktype = 1, ai_protocol = 6, ai_addr = host\<rparr>]), v),
      os_socket = \<lambda>f t p v. ((3, 0), v), os_getfl = \<lambda>h v. ((2, 0), v), os_setfl = \<lambda>h f v. ((0, 0), v),
      os_connect = \<lambda>h a v. ((0, 0), v), os_select = \<lambda>h w a b v. ((1, 0), (fst v + 1, snd v)),
      os_getsockopt = \<lambda>h v. ((0, 0, 0), v), os_send = \<lambda>h c v. ((if c = [] then 0 else 1, 0), v),
      os_recv = \<lambda>h n v. (Inr (take (min n 2) (snd v)), (fst v, drop (min n 2) (snd v))),
      os_close = \<lambda>h v. v, os_now = \<lambda>v. (fst v, v)\<rparr>"

definition closedTcp :: "'v \<Rightarrow> 'v Tcp" where
  "closedTcp v = \<lparr>tcp_outside = v, m_socket = - 1, tcp_handles = [], tcp_sent = [], tcp_received = []\<rparr>"

lemma plainContext_contract: "harmless plainContext" "patient plainContext clock"
  by (simp_all add: harmless_def patient_def laterBy_def plainContext_def isCancellationRequested_def)

lemma slowNetwork_contract:
  "sendsAtMost slowNetwork" "smallHandles slowNetwork" "ticking slowNetwork fst"
  by (simp_all add: sendsAtMost_def smallHandles_def ticking_def slowNetwork_def Suc_leI)

theorem exchange_returns_witness:
  "\<exists>r s'. exchange 30000000001 slowNetwork \<lparr>ep_host = [], ep_port = 445\<rparr> [0, 0, 0, 1, 7] plainContext
     (closedTcp (0, [0, 0, 0])) = (Value r, s')"
  by (rule exchange_returns [OF slowNetwork_contract(3) plainContext_contract(2,1) slowNetwork_contract(2) _ _ slowNetwork_contract(1)])
    (simp_all add: closedTcp_def patienceOf_def plainContext_def)

lemmas runTcp = exchange_def onReady_def connectIfNeeded_def connectSocket_def slowNetwork_def closedTcp_def calling_def
  deadlineFor_def plainContext_def isCancellationRequested_def openSocket_def setNonBlocking_def sendAll_def
  receiveExact_def tcpChecked_def Let_def

lemma slow_exchange:
  "exchange (Suc (Suc (Suc (Suc (Suc (Suc 0)))))) slowNetwork \<lparr>ep_host = [], ep_port = 445\<rparr> [0, 0, 0, 1, 7] plainContext
       (closedTcp (0, [0, 0, 0, 3, 1, 2, 3])) =
     (Value (Success [0, 0, 0, 3, 1, 2, 3]), \<lparr>tcp_outside = (9, []), m_socket = 3, tcp_handles = [3],
        tcp_sent = [0, 0, 0, 1, 7], tcp_received = [0, 0, 0, 3, 1, 2, 3]\<rparr>)"
  by (simp add: runTcp decodeDirectTcpPayloadLength_def byte_at_def)

theorem exchange_keeps_whole_frames_witness:
  "let s = snd (exchange (Suc (Suc (Suc (Suc (Suc (Suc 0)))))) slowNetwork \<lparr>ep_host = [], ep_port = 445\<rparr>
       [0, 0, 0, 1, 7] plainContext (closedTcp (0, [0, 0, 0, 3, 1, 2, 3])))
   in m_socket s = 3 \<and> owns s \<and> exchanged [0, 0, 0, 1, 7] (Success [0, 0, 0, 3, 1, 2, 3])
        (closedTcp (0, [0, 0, 0, 3, 1, 2, 3])) s"
proof -
  have "owns (closedTcp (0, [0, 0, 0, 3, 1, 2, 3]))" by (simp add: owns_def closedTcp_def)
  from exchange_keeps_whole_frames [OF plainContext_contract(1) slowNetwork_contract(1) this slow_exchange]
  show ?thesis unfolding slow_exchange Let_def snd_conv by simp
qed

text \<open>A descriptor above the limit of an \<open>fd_set\<close> is written outside the set.\<close>

lemma large_handle_faults:
  assumes "kFdSetSize \<le> h" "fst (os_now os (tcp_outside s)) < deadline"
  shows "fst (waitForSocket (Suc fuel) os h writable plainContext deadline s) = Fault"
  using assms by (cases "os_now os (tcp_outside s)") (simp add: plainContext_def isCancellationRequested_def calling_def)

end
