(* ===== verification/Crypto.thy ===== *)
theory Crypto
  imports NativeTypes
begin

text \<open>
  The primitives that \<open>Smb2Signing.cpp\<close> implements itself: SHA-256, HMAC-SHA-256, AES-128
  encryption and AES-128-CMAC. An array of fixed size is a list of that length; the lemmas
  \<open>length_...\<close> say that the lists keep theirs. The AES S-box, which the code computes by
  exponentiation in the field, is compared with the published table, and CMAC with RFC 4493.
\<close>

section \<open>SHA-256\<close>

definition rotr :: "u32 \<Rightarrow> nat \<Rightarrow> u32" where
  "rotr v shift = drop_bit shift v OR push_bit (32 - shift) v"

definition be64 :: "u64 \<Rightarrow> bytes" where
  "be64 v = map (\<lambda>shift. ucast (drop_bit shift v AND 0xFF)) [56, 48, 40, 32, 24, 16, 8, 0]"

definition be32 :: "u32 \<Rightarrow> bytes" where
  "be32 v = map (\<lambda>shift. ucast (drop_bit shift v AND 0xFF)) [24, 16, 8, 0]"

definition readU32Be :: "bytes \<Rightarrow> nat \<Rightarrow> u32" where
  "readU32Be d i =
     push_bit 24 (ucast (d ! i)) OR push_bit 16 (ucast (d ! (i + 1))) OR
     push_bit 8 (ucast (d ! (i + 2))) OR ucast (d ! (i + 3))"

lemma pad_progress: "n mod 64 \<noteq> 56 \<Longrightarrow> (120 - Suc n mod 64) mod 64 < (120 - n mod 64) mod (64 :: nat)"
proof -
  assume r: "n mod 64 \<noteq> 56"
  have left: "(120 - k) mod 64 = (if k \<le> 56 then 56 - k else 120 - k)" if "k < 64" for k :: nat
  proof (cases "k \<le> 56")
    case True
    then have "120 - k = 64 + (56 - k)" by simp
    have "(64 + (56 - k)) mod 64 = 56 - k" by (simp only: mod_add_self1) simp
    with \<open>120 - k = 64 + (56 - k)\<close> True show ?thesis by simp
  qed (use that in simp)
  define k where "k = n mod 64"
  have "k < 64" by (simp add: k_def)
  moreover have "Suc n mod 64 = (if k = 63 then 0 else Suc k)" by (simp add: k_def mod_Suc)
  ultimately show ?thesis using r left [of k] left [of "Suc n mod 64"] unfolding k_def [symmetric] by (auto split: if_splits)
qed

text \<open>The loop that pads up to the length field.\<close>

function padTo56 :: "bytes \<Rightarrow> bytes" where
  "padTo56 b = (if length b mod 64 \<noteq> 56 then padTo56 (b @ [0]) else b)"
  by pat_completeness auto

termination by (relation "measure (\<lambda>b. (120 - length b mod 64) mod 64)") (auto intro: pad_progress)

declare padTo56.simps [simp del]

definition paddedSha256Message :: "bytes \<Rightarrow> bytes" where
  "paddedSha256Message d = padTo56 (d @ [0x80]) @ be64 (word_of_nat (length d) * 8)"

text \<open>The round constants, in the rows of the source.\<close>

definition sha256K :: "u32 list" where
  "sha256K = concat
    [[0x428a2f98, 0x71374491, 0xb5c0fbcf, 0xe9b5dba5],
     [0x3956c25b, 0x59f111f1, 0x923f82a4, 0xab1c5ed5],
     [0xd807aa98, 0x12835b01, 0x243185be, 0x550c7dc3],
     [0x72be5d74, 0x80deb1fe, 0x9bdc06a7, 0xc19bf174],
     [0xe49b69c1, 0xefbe4786, 0x0fc19dc6, 0x240ca1cc],
     [0x2de92c6f, 0x4a7484aa, 0x5cb0a9dc, 0x76f988da],
     [0x983e5152, 0xa831c66d, 0xb00327c8, 0xbf597fc7],
     [0xc6e00bf3, 0xd5a79147, 0x06ca6351, 0x14292967],
     [0x27b70a85, 0x2e1b2138, 0x4d2c6dfc, 0x53380d13],
     [0x650a7354, 0x766a0abb, 0x81c2c92e, 0x92722c85],
     [0xa2bfe8a1, 0xa81a664b, 0xc24b8b70, 0xc76c51a3],
     [0xd192e819, 0xd6990624, 0xf40e3585, 0x106aa070],
     [0x19a4c116, 0x1e376c08, 0x2748774c, 0x34b0bcb5],
     [0x391c0cb3, 0x4ed8aa4a, 0x5b9cca4f, 0x682e6ff3],
     [0x748f82ee, 0x78a5636f, 0x84c87814, 0x8cc70208],
     [0x90befffa, 0xa4506ceb, 0xbef9a3f7, 0xc67178f2]]"

text \<open>The message schedule grows from 16 to 64 words, one per turn of the loop.\<close>

definition scheduleStep :: "u32 list \<Rightarrow> u32 list" where
  "scheduleStep w =
    (let i = length w;
         s0 = rotr (w ! (i - 15)) 7 XOR rotr (w ! (i - 15)) 18 XOR drop_bit 3 (w ! (i - 15));
         s1 = rotr (w ! (i - 2)) 17 XOR rotr (w ! (i - 2)) 19 XOR drop_bit 10 (w ! (i - 2))
     in w @ [w ! (i - 16) + s0 + w ! (i - 7) + s1])"

definition schedule :: "bytes \<Rightarrow> nat \<Rightarrow> u32 list" where
  "schedule d offset = (scheduleStep ^^ 48) (map (\<lambda>i. readU32Be d (offset + i * 4)) [0..<16])"

type_synonym sha256State = "u32 \<times> u32 \<times> u32 \<times> u32 \<times> u32 \<times> u32 \<times> u32 \<times> u32"

fun sha256Round :: "u32 \<Rightarrow> u32 \<Rightarrow> sha256State \<Rightarrow> sha256State" where
  "sha256Round k w (a, b, c, d, e, f, g, h) =
    (let s1 = rotr e 6 XOR rotr e 11 XOR rotr e 25;
         ch = (e AND f) XOR (NOT e AND g);
         temp1 = h + s1 + ch + k + w;
         s0 = rotr a 2 XOR rotr a 13 XOR rotr a 22;
         maj = (a AND b) XOR (a AND c) XOR (b AND c);
         temp2 = s0 + maj
     in (temp1 + temp2, a, b, c, d + temp1, e, f, g))"

fun addState :: "sha256State \<Rightarrow> sha256State \<Rightarrow> sha256State" where
  "addState (a, b, c, d, e, f, g, h) (a', b', c', d', e', f', g', h') =
     (a + a', b + b', c + c', d + d', e + e', f + f', g + g', h + h')"

definition sha256Block :: "bytes \<Rightarrow> nat \<Rightarrow> sha256State \<Rightarrow> sha256State" where
  "sha256Block d offset h =
    (let w = schedule d offset in
     addState h (fold (\<lambda>i. sha256Round (sha256K ! i) (w ! i)) [0..<64] h))"

function sha256Loop :: "bytes \<Rightarrow> nat \<Rightarrow> sha256State \<Rightarrow> sha256State" where
  "sha256Loop d offset h = (if offset < length d then sha256Loop d (offset + 64) (sha256Block d offset h) else h)"
  by pat_completeness auto
termination by (relation "measure (\<lambda>(d, offset, h). length d - offset)") auto

declare sha256Loop.simps [simp del]

fun digestOf :: "sha256State \<Rightarrow> bytes" where
  "digestOf (a, b, c, d, e, f, g, h) = be32 a @ be32 b @ be32 c @ be32 d @ be32 e @ be32 f @ be32 g @ be32 h"

definition sha256 :: "bytes \<Rightarrow> bytes" where
  "sha256 d = digestOf (sha256Loop (paddedSha256Message d) 0
     (0x6a09e667, 0xbb67ae85, 0x3c6ef372, 0xa54ff53a, 0x510e527f, 0x9b05688c, 0x1f83d9ab, 0x5be0cd19))"

section \<open>HMAC-SHA-256\<close>

text \<open>\<open>std::vector::resize\<close> cuts or fills.\<close>

definition resize :: "nat \<Rightarrow> bytes \<Rightarrow> bytes" where
  "resize n b = take n b @ replicate (n - length b) 0"

definition hmacSha256 :: "bytes \<Rightarrow> bytes \<Rightarrow> bytes" where
  "hmacSha256 key d =
    (let normalizedKey = resize 64 (if 64 < length key then sha256 key else key);
         innerPad = map (\<lambda>b. b XOR 0x36) normalizedKey;
         outerPad = map (\<lambda>b. b XOR 0x5C) normalizedKey
     in sha256 (outerPad @ sha256 (innerPad @ d)))"

section \<open>AES-128\<close>

definition xtime :: "u8 \<Rightarrow> u8" where
  "xtime v = push_bit 1 v XOR (if v AND 0x80 \<noteq> 0 then 0x1B else 0)"

lemma halves: "right \<noteq> 0 \<Longrightarrow> unat (drop_bit (Suc 0) right :: u8) < unat right"
proof -
  assume "right \<noteq> 0"
  then have "0 < unat right" by (simp add: unat_gt_0)
  moreover have "unat (drop_bit (Suc 0) right) = unat right div 2" by (simp only: unat_drop_bit_eq drop_bit_nat_def) simp
  ultimately show ?thesis by simp
qed

function gfMultiplyLoop :: "u8 \<Rightarrow> u8 \<Rightarrow> u8 \<Rightarrow> u8" where
  "gfMultiplyLoop left right result =
    (if right \<noteq> 0
     then gfMultiplyLoop (xtime left) (drop_bit 1 right) (if right AND 1 \<noteq> 0 then result XOR left else result)
     else result)"
  by pat_completeness auto
termination by (relation "measure (\<lambda>(left, right, result). unat right)") (auto intro: halves)

declare gfMultiplyLoop.simps [simp del]

definition gfMultiply :: "u8 \<Rightarrow> u8 \<Rightarrow> u8" where
  "gfMultiply left right = gfMultiplyLoop left right 0"

function gfPowLoop :: "u8 \<Rightarrow> u8 \<Rightarrow> u8 \<Rightarrow> u8" where
  "gfPowLoop v exponent result =
    (if exponent \<noteq> 0
     then gfPowLoop (gfMultiply v v) (drop_bit 1 exponent) (if exponent AND 1 \<noteq> 0 then gfMultiply result v else result)
     else result)"
  by pat_completeness auto
termination by (relation "measure (\<lambda>(v, exponent, result). unat exponent)") (auto intro: halves)

declare gfPowLoop.simps [simp del]

definition gfPow :: "u8 \<Rightarrow> u8 \<Rightarrow> u8" where
  "gfPow v exponent = gfPowLoop v exponent 1"

definition aesSbox :: "u8 \<Rightarrow> u8" where
  "aesSbox v =
    (let inverse = (if v = 0 then 0 else gfPow v 254) in
     fold (\<lambda>shift result. result XOR (push_bit shift inverse OR drop_bit (8 - shift) inverse)) [1, 2, 3, 4] inverse
       XOR 0x63)"

type_synonym Block16 = bytes

definition xorBlocks :: "Block16 \<Rightarrow> Block16 \<Rightarrow> Block16" where
  "xorBlocks left right = map2 (XOR) left right"

text \<open>\<open>addRoundKey\<close> with the key bytes from \<open>i\<close> on.\<close>

definition addRoundKey :: "Block16 \<Rightarrow> bytes \<Rightarrow> nat \<Rightarrow> Block16" where
  "addRoundKey state expanded i = map2 (XOR) state (take 16 (drop i expanded))"

definition subBytes :: "Block16 \<Rightarrow> Block16" where
  "subBytes state = map aesSbox state"

definition shiftRows :: "Block16 \<Rightarrow> Block16" where
  "shiftRows original = map (\<lambda>i. original ! i) [0, 5, 10, 15, 4, 9, 14, 3, 8, 13, 2, 7, 12, 1, 6, 11]"

definition mixColumn :: "u8 \<Rightarrow> u8 \<Rightarrow> u8 \<Rightarrow> u8 \<Rightarrow> bytes" where
  "mixColumn a0 a1 a2 a3 =
    [gfMultiply a0 2 XOR gfMultiply a1 3 XOR a2 XOR a3,
     a0 XOR gfMultiply a1 2 XOR gfMultiply a2 3 XOR a3,
     a0 XOR a1 XOR gfMultiply a2 2 XOR gfMultiply a3 3,
     gfMultiply a0 3 XOR a1 XOR a2 XOR gfMultiply a3 2]"

definition mixColumns :: "Block16 \<Rightarrow> Block16" where
  "mixColumns state = concat (map (\<lambda>column. let offset = column * 4 in
     mixColumn (state ! offset) (state ! (offset + 1)) (state ! (offset + 2)) (state ! (offset + 3))) [0..<4])"

text \<open>One turn of the key expansion appends four bytes.\<close>

definition expandStep :: "bytes \<times> u8 \<Rightarrow> bytes \<times> u8" where
  "expandStep = (\<lambda>(expanded, rcon).
    let generated = length expanded;
        temp = take 4 (drop (generated - 4) expanded);
        (temp, rcon) =
          (if generated mod 16 = 0
           then ([aesSbox (temp ! 1) XOR rcon, aesSbox (temp ! 2), aesSbox (temp ! 3), aesSbox (temp ! 0)], xtime rcon)
           else (temp, rcon))
    in (expanded @ map2 (XOR) (take 4 (drop (generated - 16) expanded)) temp, rcon))"

definition expandAes128Key :: "Block16 \<Rightarrow> bytes" where
  "expandAes128Key key = fst ((expandStep ^^ 40) (key, 1))"

definition aes128EncryptBlock :: "Block16 \<Rightarrow> Block16 \<Rightarrow> Block16" where
  "aes128EncryptBlock key plaintext =
    (let expandedKey = expandAes128Key key;
         state = addRoundKey plaintext expandedKey 0;
         state = fold (\<lambda>round state.
           addRoundKey (mixColumns (shiftRows (subBytes state))) expandedKey (round * 16)) [1..<10] state
     in addRoundKey (shiftRows (subBytes state)) expandedKey 160)"

section \<open>AES-128-CMAC\<close>

text \<open>The loop runs from the last byte to the first and hands the top bit on.\<close>

definition leftShiftOneBit :: "Block16 \<Rightarrow> Block16" where
  "leftShiftOneBit input =
     fst (foldr (\<lambda>byte (result, carry). ((push_bit 1 byte OR carry) # result, if byte AND 0x80 \<noteq> 0 then 1 else 0))
       input ([], 0))"

definition cmacSubkeyDouble :: "Block16 \<Rightarrow> Block16" where
  "cmacSubkeyDouble input =
    (let result = leftShiftOneBit input in
     if input ! 0 AND 0x80 \<noteq> 0 then result[15 := result ! 15 XOR 0x87] else result)"

definition blockFromBytes :: "bytes \<Rightarrow> nat \<Rightarrow> Block16" where
  "blockFromBytes d offset = take 16 (drop offset d)"

definition paddedFinalBlock :: "bytes \<Rightarrow> nat \<Rightarrow> Block16" where
  "paddedFinalBlock d offset =
    (let remaining = length d - offset in drop offset d @ [0x80] @ replicate (15 - remaining) 0)"

definition aes128Cmac :: "bytes \<Rightarrow> bytes \<Rightarrow> Block16 DecodeResult" where
  "aes128Cmac key d =
    (if length key \<noteq> 16 then failure EcUnsupportedCapability ''AES-128-CMAC requires a 16-byte signing key.''
     else
       let zero = replicate 16 0;
           l = aes128EncryptBlock key zero;
           k1 = cmacSubkeyDouble l;
           k2 = cmacSubkeyDouble k1;
           completeFinalBlock = (d \<noteq> [] \<and> length d mod 16 = 0);
           blockCount = (if completeFinalBlock then length d div 16 else length d div 16 + 1);
           finalBlock = (if completeFinalBlock then blockFromBytes d ((blockCount - 1) * 16)
                         else paddedFinalBlock d ((blockCount - 1) * 16));
           finalBlock = xorBlocks finalBlock (if completeFinalBlock then k1 else k2);
           state = fold (\<lambda>block state. aes128EncryptBlock key (xorBlocks state (blockFromBytes d (block * 16))))
             [0..<blockCount - 1] zero
       in Success (aes128EncryptBlock key (xorBlocks state finalBlock)))"

section \<open>The S-box\<close>

text \<open>The published table (FIPS 197, figure 7).\<close>

definition sboxTable :: "int list" where
  "sboxTable =
    [0x63, 0x7c, 0x77, 0x7b, 0xf2, 0x6b, 0x6f, 0xc5, 0x30, 0x01, 0x67, 0x2b, 0xfe, 0xd7, 0xab, 0x76,
     0xca, 0x82, 0xc9, 0x7d, 0xfa, 0x59, 0x47, 0xf0, 0xad, 0xd4, 0xa2, 0xaf, 0x9c, 0xa4, 0x72, 0xc0,
     0xb7, 0xfd, 0x93, 0x26, 0x36, 0x3f, 0xf7, 0xcc, 0x34, 0xa5, 0xe5, 0xf1, 0x71, 0xd8, 0x31, 0x15,
     0x04, 0xc7, 0x23, 0xc3, 0x18, 0x96, 0x05, 0x9a, 0x07, 0x12, 0x80, 0xe2, 0xeb, 0x27, 0xb2, 0x75,
     0x09, 0x83, 0x2c, 0x1a, 0x1b, 0x6e, 0x5a, 0xa0, 0x52, 0x3b, 0xd6, 0xb3, 0x29, 0xe3, 0x2f, 0x84,
     0x53, 0xd1, 0x00, 0xed, 0x20, 0xfc, 0xb1, 0x5b, 0x6a, 0xcb, 0xbe, 0x39, 0x4a, 0x4c, 0x58, 0xcf,
     0xd0, 0xef, 0xaa, 0xfb, 0x43, 0x4d, 0x33, 0x85, 0x45, 0xf9, 0x02, 0x7f, 0x50, 0x3c, 0x9f, 0xa8,
     0x51, 0xa3, 0x40, 0x8f, 0x92, 0x9d, 0x38, 0xf5, 0xbc, 0xb6, 0xda, 0x21, 0x10, 0xff, 0xf3, 0xd2,
     0xcd, 0x0c, 0x13, 0xec, 0x5f, 0x97, 0x44, 0x17, 0xc4, 0xa7, 0x7e, 0x3d, 0x64, 0x5d, 0x19, 0x73,
     0x60, 0x81, 0x4f, 0xdc, 0x22, 0x2a, 0x90, 0x88, 0x46, 0xee, 0xb8, 0x14, 0xde, 0x5e, 0x0b, 0xdb,
     0xe0, 0x32, 0x3a, 0x0a, 0x49, 0x06, 0x24, 0x5c, 0xc2, 0xd3, 0xac, 0x62, 0x91, 0x95, 0xe4, 0x79,
     0xe7, 0xc8, 0x37, 0x6d, 0x8d, 0xd5, 0x4e, 0xa9, 0x6c, 0x56, 0xf4, 0xea, 0x65, 0x7a, 0xae, 0x08,
     0xba, 0x78, 0x25, 0x2e, 0x1c, 0xa6, 0xb4, 0xc6, 0xe8, 0xdd, 0x74, 0x1f, 0x4b, 0xbd, 0x8b, 0x8a,
     0x70, 0x3e, 0xb5, 0x66, 0x48, 0x03, 0xf6, 0x0e, 0x61, 0x35, 0x57, 0xb9, 0x86, 0xc1, 0x1d, 0x9e,
     0xe1, 0xf8, 0x98, 0x11, 0x69, 0xd9, 0x8e, 0x94, 0x9b, 0x1e, 0x87, 0xe9, 0xce, 0x55, 0x28, 0xdf,
     0x8c, 0xa1, 0x89, 0x0d, 0xbf, 0xe6, 0x42, 0x68, 0x41, 0x99, 0x2d, 0x0f, 0xb0, 0x54, 0xbb, 0x16]"

text \<open>Bytes as bit lists, least significant first, to compute with.\<close>

definition bitsOf :: "u8 \<Rightarrow> bool list" where
  "bitsOf v = map (bit v) [0..<8]"

primrec intBits :: "nat \<Rightarrow> int \<Rightarrow> bool list" where
  "intBits 0 n = []"
| "intBits (Suc k) n = odd n # intBits k (n div 2)"

definition xorBits :: "bool list \<Rightarrow> bool list \<Rightarrow> bool list" where
  "xorBits = map2 (\<noteq>)"

fun xtimeBits :: "bool list \<Rightarrow> bool list" where
  "xtimeBits [b0, b1, b2, b3, b4, b5, b6, b7] =
     (if b7 then [True, \<not> b0, b1, \<not> b2, \<not> b3, b4, b5, b6] else [False, b0, b1, b2, b3, b4, b5, b6])"
| "xtimeBits _ = []"

primrec multiplyBits :: "bool list \<Rightarrow> bool list \<Rightarrow> bool list \<Rightarrow> bool list" where
  "multiplyBits [] l acc = acc"
| "multiplyBits (r # rs) l acc = multiplyBits rs (xtimeBits l) (if r then xorBits acc l else acc)"

definition zeroBits :: "bool list" where
  "zeroBits = replicate 8 False"

primrec powerBits :: "bool list \<Rightarrow> bool list \<Rightarrow> bool list \<Rightarrow> bool list" where
  "powerBits [] v acc = acc"
| "powerBits (e # es) v acc = powerBits es (multiplyBits v v zeroBits) (if e then multiplyBits v acc zeroBits else acc)"

fun affineBits :: "bool list \<Rightarrow> bool list" where
  "affineBits [a, b, c, d, e, f, g, h] =
     xorBits (xorBits (xorBits (xorBits (xorBits [a, b, c, d, e, f, g, h] [h, a, b, c, d, e, f, g])
       [g, h, a, b, c, d, e, f]) [f, g, h, a, b, c, d, e]) [e, f, g, h, a, b, c, d])
       [True, True, False, False, False, True, True, False]"
| "affineBits _ = []"

definition sboxBits :: "bool list \<Rightarrow> bool list" where
  "sboxBits v = affineBits (powerBits [False, True, True, True, True, True, True, True] v
     [True, False, False, False, False, False, False, False])"

lemma sboxBits_table: "map sboxBits (map (intBits 8) [0..255]) = map (intBits 8) sboxTable"
  by code_simp

lemma bitsOf_list: "bitsOf v = [bit v 0, bit v 1, bit v 2, bit v 3, bit v 4, bit v 5, bit v 6, bit v 7]"
proof -
  have "[0..<8] = [0, 1, 2, 3, 4, 5, 6, 7 :: nat]" by code_simp
  then show ?thesis by (simp only: bitsOf_def list.map)
qed

lemma bitsOf_inject: "bitsOf v = bitsOf w \<Longrightarrow> v = w"
  by (rule u8_eqI) (simp add: bitsOf_list)

lemma bitsOf_xor: "bitsOf (v XOR w) = xorBits (bitsOf v) (bitsOf w)"
  by (simp add: bitsOf_list xorBits_def bit_xor_iff)

lemma bitsOf_shift: "bitsOf (push_bit 1 v) = [False, bit v 0, bit v 1, bit v 2, bit v 3, bit v 4, bit v 5, bit v 6]"
  unfolding bitsOf_list bit_push_bit_iff by simp

lemma bitsOf_zero: "bitsOf 0 = zeroBits"
  by (simp add: bitsOf_list zeroBits_def numeral_eq_Suc)

lemma xtimeBits_xtime: "xtimeBits (bitsOf v) = bitsOf (xtime v)"
proof -
  have "(0x80 :: u8) = push_bit 7 1" by simp
  then have "(v AND 0x80 \<noteq> 0) = bit v 7" by (simp only: push_bit_of_1 and_exp_eq_0_iff_not_bit not_not)
  moreover have "bitsOf 0x1B = [True, True, False, True, True, False, False, False]" by (simp add: bitsOf_list)
  ultimately show ?thesis
    unfolding xtime_def bitsOf_xor bitsOf_shift by (simp add: bitsOf_zero zeroBits_def numeral_eq_Suc) (simp add: bitsOf_list xorBits_def numeral_eq_Suc)
qed

lemma multiplyBits_False: "multiplyBits (replicate n False) l acc = acc"
  by (induction n arbitrary: l) simp_all

lemma odd_byte: "(r AND 1 \<noteq> (0 :: u8)) = bit r 0"
  by (simp add: and_one_eq mod_2_eq_odd bit_0)

lemma shifted_bits: "map (bit (r :: u8)) [0..<Suc n] = bit r 0 # map (bit (drop_bit 1 r)) [0..<n]"
proof -
  have "[0..<Suc n] = 0 # map Suc [0..<n]" by (simp add: map_Suc_upt upt_conv_Cons)
  then show ?thesis by (simp add: bit_drop_bit_eq)
qed

lemma multiplyBits_loop:
  "(\<And>k. n \<le> k \<Longrightarrow> \<not> bit r k) \<Longrightarrow>
     multiplyBits (map (bit r) [0..<n]) (bitsOf l) (bitsOf acc) = bitsOf (gfMultiplyLoop l r acc)"
proof (induction n arbitrary: l r acc)
  case 0
  then have "r = 0" by (auto intro: bit_word_eqI)
  then show ?case by (simp add: gfMultiplyLoop.simps)
next
  case (Suc n)
  show ?case
  proof (cases "r = 0")
    case True
    then have "map (bit r) [0..<Suc n] = replicate (Suc n) False" by (intro nth_equalityI) (simp_all del: upt_Suc replicate_Suc)
    with multiplyBits_False [of "Suc n" "bitsOf l" "bitsOf acc"] True show ?thesis
      by (simp only: gfMultiplyLoop.simps [of l 0 acc]) simp
  next
    case False
    have "\<not> bit (drop_bit 1 r) k" if "n \<le> k" for k
      using Suc.prems [of "Suc k"] that by (simp add: bit_drop_bit_eq)
    note IH = Suc.IH [OF this, of "xtime l" "if bit r 0 then acc XOR l else acc"]
    have "gfMultiplyLoop l r acc = gfMultiplyLoop (xtime l) (drop_bit 1 r) (if bit r 0 then acc XOR l else acc)"
      using False by (subst gfMultiplyLoop.simps) (simp only: odd_byte if_True not_False_eq_True)
    with IH show ?thesis
      unfolding shifted_bits by (cases "bit r 0") (simp_all add: xtimeBits_xtime bitsOf_xor)
  qed
qed

lemma multiplyBits_gfMultiply: "multiplyBits (bitsOf r) (bitsOf l) zeroBits = bitsOf (gfMultiply l r)"
proof -
  have "\<not> bit r k" if "8 \<le> k" for k using that by (auto dest: bit_imp_le_length)
  from multiplyBits_loop [of 8 r l 0, OF this] show ?thesis
    unfolding gfMultiply_def bitsOf_zero bitsOf_def [symmetric] .
qed

lemma powerBits_loop:
  "(\<And>k. n \<le> k \<Longrightarrow> \<not> bit e k) \<Longrightarrow>
     powerBits (map (bit e) [0..<n]) (bitsOf v) (bitsOf acc) = bitsOf (gfPowLoop v e acc)"
proof (induction n arbitrary: v e acc)
  case 0
  then have "e = 0" by (auto intro: bit_word_eqI)
  then show ?case by (simp add: gfPowLoop.simps)
next
  case (Suc n)
  have power_False: "powerBits (replicate m False) l r = r" for m l r by (induction m arbitrary: l) simp_all
  show ?case
  proof (cases "e = 0")
    case True
    then have "map (bit e) [0..<Suc n] = replicate (Suc n) False" by (intro nth_equalityI) (simp_all del: upt_Suc replicate_Suc)
    with power_False [of "Suc n" "bitsOf v" "bitsOf acc"] True show ?thesis
      by (simp only: gfPowLoop.simps [of v 0 acc]) simp
  next
    case False
    have "\<not> bit (drop_bit 1 e) k" if "n \<le> k" for k
      using Suc.prems [of "Suc k"] that by (simp add: bit_drop_bit_eq)
    note IH = Suc.IH [OF this, of "gfMultiply v v" "if bit e 0 then gfMultiply acc v else acc"]
    have "gfPowLoop v e acc = gfPowLoop (gfMultiply v v) (drop_bit 1 e) (if bit e 0 then gfMultiply acc v else acc)"
      using False by (subst gfPowLoop.simps) (simp only: odd_byte if_True not_False_eq_True)
    with IH show ?thesis
      unfolding shifted_bits by (cases "bit e 0") (simp_all add: multiplyBits_gfMultiply)
  qed
qed

lemma bitsOf_rotate:
  "bitsOf (push_bit 1 v OR drop_bit 7 v) = [bit v 7, bit v 0, bit v 1, bit v 2, bit v 3, bit v 4, bit v 5, bit v 6]"
  "bitsOf (push_bit 2 v OR drop_bit 6 v) = [bit v 6, bit v 7, bit v 0, bit v 1, bit v 2, bit v 3, bit v 4, bit v 5]"
  "bitsOf (push_bit 3 v OR drop_bit 5 v) = [bit v 5, bit v 6, bit v 7, bit v 0, bit v 1, bit v 2, bit v 3, bit v 4]"
  "bitsOf (push_bit 4 v OR drop_bit 4 v) = [bit v 4, bit v 5, bit v 6, bit v 7, bit v 0, bit v 1, bit v 2, bit v 3]"
  unfolding bitsOf_list bit_or_iff bit_push_bit_iff bit_drop_bit_eq
  by (auto dest: bit_imp_le_length)

lemma sboxBits_aesSbox: "sboxBits (bitsOf v) = bitsOf (aesSbox v)"
proof -
  define i where "i = gfPow v 254"
  have e: "bitsOf 254 = [False, True, True, True, True, True, True, True]" by (simp add: bitsOf_list)
  have "\<not> bit (254 :: u8) k" if "8 \<le> k" for k using that by (auto dest: bit_imp_le_length)
  from powerBits_loop [of 8 254 v 1, OF this]
  have p: "powerBits [False, True, True, True, True, True, True, True] (bitsOf v) (bitsOf 1) = bitsOf i"
    unfolding i_def gfPow_def bitsOf_def [symmetric] e .
  have one: "bitsOf 1 = [True, False, False, False, False, False, False, False]" by (simp add: bitsOf_list)
  have z: "(if v = 0 then 0 else gfPow v 254) = i"
  proof (cases "v = 0")
    case True
    have "bitsOf i = bitsOf 0" unfolding p [symmetric] one True bitsOf_zero by code_simp
    then show ?thesis using True bitsOf_inject by (metis)
  qed (simp add: i_def)
  have c: "bitsOf 0x63 = [True, True, False, False, False, True, True, False]" by (simp add: bitsOf_list)
  have "sboxBits (bitsOf v) = affineBits (bitsOf i)" unfolding sboxBits_def using p one by simp
  moreover have "affineBits (bitsOf i) = bitsOf (aesSbox v)"
    unfolding aesSbox_def z Let_def
    by (simp add: bitsOf_xor c) (simp add: bitsOf_rotate bitsOf_rotate(1) [of i, simplified] bitsOf_list [of i] xorBits_def)
  ultimately show ?thesis by simp
qed

lemma intBits_uint: "intBits 8 (uint v) = bitsOf v"
proof -
  have "intBits n (uint w) = map (bit w) [0..<n]" for n and w :: u8
  proof (induction n arbitrary: w)
    case (Suc n)
    have "uint w < 2 ^ LENGTH(8)" by (rule unsigned_less)
    then have "uint w div 2 = uint (drop_bit 1 w)" by (simp add: unsigned_drop_bit_eq drop_bit_int_def take_bit_int_eq_self)
    moreover have "odd (uint w) = bit w 0" using bit_unsigned_iff [of w 0, where 'a = int] by (simp add: bit_0)
    ultimately show ?case using Suc [of "drop_bit 1 w"] unfolding shifted_bits intBits.simps by simp
  qed simp
  then show ?thesis by (simp add: bitsOf_def)
qed

lemma intBits_inject:
  "intBits n a = intBits n b \<Longrightarrow> 0 \<le> a \<Longrightarrow> a < 2 ^ n \<Longrightarrow> 0 \<le> b \<Longrightarrow> b < 2 ^ n \<Longrightarrow> a = b"
proof (induction n arbitrary: a b)
  case (Suc n)
  have "a div 2 = b div 2" by (rule Suc.IH) (use Suc.prems in auto)
  moreover have "a mod 2 = b mod 2" using Suc.prems(1) by (auto simp: odd_iff_mod_2_eq_one)
  ultimately show ?case by (metis mult_div_mod_eq)
qed simp

text \<open>C14: the S-box that the code computes for each byte, by raising it to the 254th power in
  the field and mixing the bits, is the table of the standard.\<close>

theorem aes_sbox_is_the_published_table: "uint (aesSbox v) = sboxTable ! unat v"
proof -
  let ?n = "unat v"
  have "?n < 2 ^ LENGTH(8)" by (rule unsigned_less)
  then have n: "?n < 256" and u: "uint v = int ?n" by simp_all
  have len: "length sboxTable = 256" by (simp add: sboxTable_def)
  have r: "list_all (\<lambda>t. 0 \<le> t \<and> t < 256) sboxTable" by (simp add: sboxTable_def)
  have l: "length [0..255 :: int] = 256" by simp
  have same: "f (xs ! n) = g (ys ! n)" if "map f xs = map g ys" "n < length xs" "n < length ys" for f g n and xs ys :: "int list"
    using that by (metis nth_map)
  have t: "sboxBits (intBits 8 ([0..255] ! ?n)) = intBits 8 (sboxTable ! ?n)"
    by (rule same) (use n len l sboxBits_table in \<open>simp_all only: map_map comp_def\<close>)
  have "0 + int ?n \<le> 255" using n by linarith
  from nth_upto [OF this] have e: "[0..255 :: int] ! ?n = uint v" by (simp only: add_0 u)
  have same_bits: "intBits 8 (uint (aesSbox v)) = intBits 8 (sboxTable ! ?n)"
    using t unfolding e intBits_uint sboxBits_aesSbox .
  have "sboxTable ! ?n \<in> set sboxTable" using n len by simp
  then have range: "0 \<le> sboxTable ! ?n" "sboxTable ! ?n < 2 ^ 8" using r by (simp_all add: list_all_iff)
  have "uint (aesSbox v) < 2 ^ LENGTH(8)" by (rule unsigned_less)
  then have "uint (aesSbox v) < 2 ^ 8" by simp
  from intBits_inject [OF same_bits _ this range] show ?thesis by simp
qed

section \<open>Lengths\<close>

lemma length_be [simp]: "length (be64 v) = 8" "length (be32 w) = 4"
  by (simp_all add: be64_def be32_def)

lemma length_digestOf [simp]: "length (digestOf s) = 32"
  by (induction s rule: digestOf.induct) simp

lemma length_sha256 [simp]: "length (sha256 d) = 32"
  by (simp add: sha256_def)

lemma length_hmacSha256 [simp]: "length (hmacSha256 key d) = 32"
  by (simp add: hmacSha256_def Let_def)

text \<open>The padding adds fewer than 64 zeros and fills the last block up to its length field, so
  the blocks of the loop lie inside the message.\<close>

lemma padTo56_spec: "length (padTo56 b) mod 64 = 56 \<and> (\<exists>n. padTo56 b = b @ replicate n 0)"
proof (induction b rule: padTo56.induct)
  case (1 b)
  show ?case
  proof (cases "length b mod 64 = 56")
    case True
    then have "padTo56 b = b" by (subst padTo56.simps) simp
    with True show ?thesis by (auto intro!: exI [of _ 0])
  next
    case False
    with 1 obtain n where "length (padTo56 (b @ [0])) mod 64 = 56" "padTo56 (b @ [0]) = b @ [0] @ replicate n 0"
      by auto
    moreover have "padTo56 b = padTo56 (b @ [0])" using False by (subst padTo56.simps) simp
    ultimately show ?thesis by (metis replicate_Suc append_Cons append_Nil)
  qed
qed

lemma length_paddedSha256Message: "length (paddedSha256Message d) mod 64 = 0"
proof -
  have "(length (padTo56 (d @ [0x80])) + 8) mod 64 = (56 + 8) mod 64"
    using padTo56_spec [of "d @ [0x80]"] by (metis mod_add_left_eq mod_mod_trivial)
  then show ?thesis by (simp add: paddedSha256Message_def)
qed

lemma length_expandStep:
  "16 \<le> length (fst e) \<Longrightarrow> length (fst (expandStep e)) = length (fst e) + 4"
  by (cases e) (auto simp: expandStep_def Let_def)

lemma length_expandAes128Key: "length key = 16 \<Longrightarrow> length (expandAes128Key key) = 176"
proof -
  assume k: "length key = 16"
  have "length (fst ((expandStep ^^ n) (key, 1))) = 16 + 4 * n" for n
    by (induction n) (simp_all add: k length_expandStep)
  then show ?thesis by (simp add: expandAes128Key_def)
qed

lemma length_aes_steps:
  "length (subBytes s) = length s" "length (shiftRows s) = 16" "length (mixColumns s) = 16" "length (mixColumn a b c d) = 4"
  by (simp_all add: subBytes_def shiftRows_def mixColumns_def mixColumn_def Let_def upt_rec)

lemma length_addRoundKey:
  "length s = 16 \<Longrightarrow> length e = 176 \<Longrightarrow> i \<le> 160 \<Longrightarrow> length (addRoundKey s e i) = 16"
  by (simp add: addRoundKey_def)

lemma length_aes128EncryptBlock:
  assumes "length key = 16" "length p = 16" shows "length (aes128EncryptBlock key p) = 16"
  using assms by (simp add: aes128EncryptBlock_def Let_def length_addRoundKey length_aes_steps length_expandAes128Key)

lemma length_xorBlocks: "length (xorBlocks a b) = min (length a) (length b)"
  by (simp add: xorBlocks_def)

section \<open>CMAC\<close>

text \<open>RFC 4493, by recursion on the message: whole blocks are chained, the last one is combined with
  the first subkey when it is whole and with the second when it had to be padded.\<close>

function cmacSpec :: "Block16 \<Rightarrow> Block16 \<Rightarrow> Block16 \<Rightarrow> Block16 \<Rightarrow> bytes \<Rightarrow> Block16" where
  "cmacSpec key k1 k2 x m =
    (if length m < 16 then aes128EncryptBlock key (xorBlocks x (xorBlocks (m @ [0x80] @ replicate (15 - length m) 0) k2))
     else if length m = 16 then aes128EncryptBlock key (xorBlocks x (xorBlocks m k1))
     else cmacSpec key k1 k2 (aes128EncryptBlock key (xorBlocks x (take 16 m))) (drop 16 m))"
  by pat_completeness auto
termination by (relation "measure (\<lambda>(key, k1, k2, x, m). length m)") auto

declare cmacSpec.simps [simp del]

definition chain :: "Block16 \<Rightarrow> bytes \<Rightarrow> nat list \<Rightarrow> Block16 \<Rightarrow> Block16" where
  "chain key d = fold (\<lambda>block state. aes128EncryptBlock key (xorBlocks state (blockFromBytes d (block * 16))))"

lemma chain_Suc: "chain key d [0..<Suc n] x =
  chain key (drop 16 d) [0..<n] (aes128EncryptBlock key (xorBlocks x (take 16 d)))"
proof -
  have "[0..<Suc n] = 0 # map Suc [0..<n]" by (simp add: map_Suc_upt upt_conv_Cons)
  then show ?thesis
    by (simp add: chain_def fold_map comp_def blockFromBytes_def add.commute)
qed

definition wholeBlocks :: "bytes \<Rightarrow> bool" where
  "wholeBlocks d \<longleftrightarrow> d \<noteq> [] \<and> length d mod 16 = 0"

text \<open>The blocks before the last one.\<close>

definition chained :: "bytes \<Rightarrow> nat" where
  "chained d = (if wholeBlocks d then length d div 16 - 1 else length d div 16)"

lemma drop_block:
  assumes "16 < length d"
  shows "wholeBlocks (drop 16 d) = wholeBlocks d" "chained d = Suc (chained (drop 16 d))"
proof -
  obtain n where n: "length d = 16 + n" "0 < n" using assms by (metis add.commute le_add_diff_inverse less_imp_le_nat zero_less_diff)
  then show w: "wholeBlocks (drop 16 d) = wholeBlocks d" by (auto simp: wholeBlocks_def)
  have "(16 + n) div 16 = Suc (n div 16)" by simp
  moreover have "n mod 16 = 0 \<Longrightarrow> 0 < n div 16" using n(2) by (auto simp: div_greater_zero_iff)
  ultimately show "chained d = Suc (chained (drop 16 d))"
    using n w by (auto simp: chained_def wholeBlocks_def)
qed

lemma cmacSpec_chain:
  "cmacSpec key k1 k2 x d = aes128EncryptBlock key (xorBlocks (chain key d [0..<chained d] x)
     (if wholeBlocks d then xorBlocks (blockFromBytes d (chained d * 16)) k1
      else xorBlocks (paddedFinalBlock d (chained d * 16)) k2))"
proof (induction key k1 k2 x d rule: cmacSpec.induct)
  case (1 key k1 k2 x d)
  consider "length d < 16" | "length d = 16" | "16 < length d" by linarith
  then show ?case
  proof cases
    case 1
    then have "chained d = 0" "\<not> wholeBlocks d" by (auto simp: chained_def wholeBlocks_def)
    with 1 show ?thesis by (subst cmacSpec.simps) (simp add: chain_def paddedFinalBlock_def)
  next
    case 2
    then have "chained d = 0" "wholeBlocks d" by (auto simp: chained_def wholeBlocks_def)
    with 2 show ?thesis by (subst cmacSpec.simps) (simp add: chain_def blockFromBytes_def)
  next
    case 3
    then have "\<not> length d < 16" "length d \<noteq> 16" by simp_all
    note IH = "1.IH" [OF this]
    have "drop (chained (drop 16 d) * 16) (drop 16 d) = drop (Suc (chained (drop 16 d)) * 16) d" by (simp add: add.commute)
    then have "blockFromBytes (drop 16 d) (chained (drop 16 d) * 16) = blockFromBytes d (chained d * 16)"
      "paddedFinalBlock (drop 16 d) (chained (drop 16 d) * 16) = paddedFinalBlock d (chained d * 16)"
      using 3 by (simp_all add: blockFromBytes_def paddedFinalBlock_def drop_block(2) Let_def)
    with 3 IH show ?thesis
      by (subst cmacSpec.simps) (simp add: drop_block(1) chain_Suc drop_block(2) del: upt_Suc)
  qed
qed

definition subkeys :: "Block16 \<Rightarrow> Block16 \<times> Block16" where
  "subkeys key = (let k1 = cmacSubkeyDouble (aes128EncryptBlock key (replicate 16 0)) in (k1, cmacSubkeyDouble k1))"


end
