(* ===== verification/Signing.thy ===== *)
theory Signing
  imports Client Crypto
begin

text \<open>
  Signatures of SMB2 messages (\<open>Smb2Signing.cpp\<close>): the key derivations, the pre-authentication
  hash, signing and verifying a frame, and \<open>SigningTransport\<close>, which signs what goes out and
  returns only what it could verify. SHA-512 comes from libsodium and is the argument
  \<open>crypto_hash_sha512\<close> of the functions that use it.
\<close>

section \<open>Keys\<close>

text \<open>\<open>std::hex\<close> without a width: no leading zeros.\<close>

definition hexPlain :: "u16 \<Rightarrow> string" where
  "hexPlain v = (let digits = dropWhile (\<lambda>c. c = CHR ''0'') (hexUpper 4 v) in if digits = [] then ''0'' else digits)"

definition unsupportedSigning :: "Dialect \<Rightarrow> 'a DecodeResult" where
  "unsupportedSigning dialect = failure EcUnsupportedCapability
     (''SMB signing for dialect 0x'' @ hexPlain dialect @ '' is not implemented in the clean-room engine yet.'')"

definition asciiWithNull :: "string \<Rightarrow> bytes" where
  "asciiWithNull s = map of_char s @ [0]"

definition deriveSmb311Key :: "bytes \<Rightarrow> string \<Rightarrow> bytes \<Rightarrow> bytes DecodeResult" where
  "deriveSmb311Key sessionKey label context =
    (if sessionKey = [] then failure EcAuthenticationFailed ''Cannot derive SMB 3.1.1 key without a session key.''
     else if length context \<noteq> 64
     then failure EcProtocolUnsupported ''SMB 3.1.1 key derivation requires a 64-byte preauth hash.''
     else Success (take 16 (hmacSha256 sessionKey
       (be32 1 @ asciiWithNull label @ [0] @ context @ be32 128))))"

definition deriveSmb3SigningKey :: "bytes \<Rightarrow> Dialect \<Rightarrow> bytes DecodeResult" where
  "deriveSmb3SigningKey sessionKey dialect =
    (if dialect \<noteq> Smb300 \<and> dialect \<noteq> Smb302 then unsupportedSigning dialect
     else if sessionKey = [] then failure EcAuthenticationFailed ''Cannot derive SMB3 signing key without a session key.''
     else Success (take 16 (hmacSha256 sessionKey
       (be32 1 @ asciiWithNull ''SMB2AESCMAC'' @ [0] @ asciiWithNull ''SmbSign'' @ be32 128))))"

definition initialSmb311PreauthHash :: bytes where
  "initialSmb311PreauthHash = replicate 64 0"

definition updateSmb311PreauthHash :: "(bytes \<Rightarrow> bytes) \<Rightarrow> bytes \<Rightarrow> bytes \<Rightarrow> bytes DecodeResult" where
  "updateSmb311PreauthHash crypto_hash_sha512 currentHash message =
    (if length currentHash \<noteq> 64
     then failure EcProtocolUnsupported ''SMB 3.1.1 preauth hash state must be 64 bytes.''
     else Success (crypto_hash_sha512 (currentHash @ message)))"

definition deriveSmb311SigningKey :: "bytes \<Rightarrow> bytes \<Rightarrow> bytes DecodeResult" where
  "deriveSmb311SigningKey sessionKey preauthIntegrityHash =
     deriveSmb311Key sessionKey ''SMBSigningKey'' preauthIntegrityHash"

definition supportsHmacSha256Signing :: "Dialect \<Rightarrow> bool" where
  "supportsHmacSha256Signing dialect = (dialect = Smb202 \<or> dialect = Smb210)"

definition supportsAesCmacSigning :: "Dialect \<Rightarrow> bool" where
  "supportsAesCmacSigning dialect = (dialect = Smb300 \<or> dialect = Smb302 \<or> dialect = Smb311)"

definition supportsSigning :: "Dialect \<Rightarrow> bool" where
  "supportsSigning dialect = (supportsHmacSha256Signing dialect \<or> supportsAesCmacSigning dialect)"

section \<open>Signing and verifying a frame\<close>

abbreviation (input) kSmb2SignatureOffset :: nat where "kSmb2SignatureOffset \<equiv> 48"
abbreviation (input) kSmb2FlagsOffset :: nat where "kSmb2FlagsOffset \<equiv> 16"

definition writeU32Le :: "bytes \<Rightarrow> nat \<Rightarrow> u32 \<Rightarrow> bytes" where
  "writeU32Le d i v = d
     [i := ucast (v AND 0xFF), i + 1 := ucast (drop_bit 8 v AND 0xFF),
      i + 2 := ucast (drop_bit 16 v AND 0xFF), i + 3 := ucast (drop_bit 24 v AND 0xFF)]"

text \<open>\<open>std::copy_n\<close> and \<open>std::fill\<close> over sixteen bytes of the signature field.\<close>

definition setSignature :: "bytes \<Rightarrow> bytes \<Rightarrow> bytes" where
  "setSignature payload signature =
     take kSmb2SignatureOffset payload @ take 16 signature @ drop (kSmb2SignatureOffset + 16) payload"

definition zeroSmb2Signature :: "bytes \<Rightarrow> bytes" where
  "zeroSmb2Signature payload = setSignature payload (replicate 16 0)"

definition signatureOf :: "bytes \<Rightarrow> Dialect \<Rightarrow> bytes \<Rightarrow> bytes DecodeResult" where
  "signatureOf sessionKey dialect payload =
    (if supportsHmacSha256Signing dialect then Success (hmacSha256 sessionKey payload)
     else case aes128Cmac sessionKey payload of Failure e \<Rightarrow> failureFrom e | Success digest \<Rightarrow> Success digest)"

definition signSmb2DirectTcpFrame :: "bytes \<Rightarrow> bytes \<Rightarrow> Dialect \<Rightarrow> bytes DecodeResult outcome" where
  "signSmb2DirectTcpFrame requestFrame sessionKey dialect =
    (if \<not> supportsSigning dialect then Value (unsupportedSigning dialect)
     else case decodeDirectTcpPayload requestFrame of
       None \<Rightarrow> Fault
     | Some (Failure e) \<Rightarrow> Value (failureFrom e)
     | Some (Success payload) \<Rightarrow>
         if length payload < kSmb2HeaderSize
         then Value (failure EcProtocolUnsupported ''SMB2 message is shorter than header.'')
         else case readU32Le payload kSmb2FlagsOffset of
           None \<Rightarrow> Fault
         | Some flags \<Rightarrow>
             let payload = zeroSmb2Signature (writeU32Le payload kSmb2FlagsOffset (flags OR kFlagSigned)) in
             case signatureOf sessionKey dialect payload of
               Failure e \<Rightarrow> Value (Failure e)
             | Success digest \<Rightarrow>
                 case encodeDirectTcpFrame (setSignature payload digest) of
                   Inl m \<Rightarrow> Thrown m
                 | Inr frame \<Rightarrow> Value (Success frame))"

definition verifySmb2DirectTcpFrameSignature :: "bytes \<Rightarrow> bytes \<Rightarrow> Dialect \<Rightarrow> bool DecodeResult option" where
  "verifySmb2DirectTcpFrameSignature responseFrame sessionKey dialect =
    (if \<not> supportsSigning dialect then Some (unsupportedSigning dialect)
     else do {
       decoded \<leftarrow> decodeDirectTcpPayload responseFrame;
       case decoded of
         Failure e \<Rightarrow> Some (failureFrom e)
       | Success payload \<Rightarrow>
           if length payload < kSmb2HeaderSize
           then Some (failure EcProtocolUnsupported ''SMB2 response is shorter than header.'')
           else do {
             flags \<leftarrow> readU32Le payload kSmb2FlagsOffset;
             if flags AND kFlagSigned = 0 then Some (Success False)
             else do {
               expected \<leftarrow> slice payload kSmb2SignatureOffset (kSmb2SignatureOffset + 16);
               case signatureOf sessionKey dialect (zeroSmb2Signature payload) of
                 Failure e \<Rightarrow> Some (Failure e)
               | Success digest \<Rightarrow> Some (Success (expected = take 16 digest)) } } })"

section \<open>SigningTransport\<close>

definition describeSignatureVerificationFailure :: "bytes \<Rightarrow> bytes \<Rightarrow> Dialect \<Rightarrow> string option" where
  "describeSignatureVerificationFailure requestFrame responseFrame dialect = do {
     requestPayload \<leftarrow> decodeDirectTcpPayload requestFrame;
     request \<leftarrow> (case requestPayload of Failure e \<Rightarrow> Some [] | Success payload \<Rightarrow> do {
       header \<leftarrow> decodeSmb2SyncHeader payload;
       Some (case header of Failure e \<Rightarrow> [] | Success h \<Rightarrow> '' after request='' @ commandName (hdr_command h)) });
     responsePayload \<leftarrow> decodeDirectTcpPayload responseFrame;
     response \<leftarrow> (case responsePayload of Failure e \<Rightarrow> Some [] | Success payload \<Rightarrow> do {
       header \<leftarrow> decodeSmb2SyncHeader payload;
       Some (case header of Failure e \<Rightarrow> [] | Success h \<Rightarrow>
         '' response='' @ commandName (hdr_command h) @ '' status=0x'' @ hexUpper 8 (hdr_status h) @
         '' message_id=0x'' @ hexUpper 16 (hdr_messageId h) @ '' flags=0x'' @ hexUpper 8 (hdr_flags h) @
         (if hdr_flags h AND kFlagSigned = 0 then '' signed_flag=missing'' else '' signed_flag=present'')) });
     Some (''SMB2 signed response verification failed'' @ request @ response @
       '' dialect=0x'' @ hexUpper 4 dialect @ ''.'') }"

record 'w SigningTransport =
  sgt_inner :: "'w Transport option"
  sgt_sessionKey :: bytes
  sgt_dialect :: Dialect
  sgt_verifyResponses :: bool

definition signingExchange :: "'w SigningTransport \<Rightarrow> 'w Transport" where
  "signingExchange t requestFrame context w =
    (case sgt_inner t of
       None \<Rightarrow> (Value (failure EcInternalError ''Signing transport has no inner transport.''), w)
     | Some inner \<Rightarrow>
         case signSmb2DirectTcpFrame requestFrame (sgt_sessionKey t) (sgt_dialect t) of
           Value (Success signedRequest) \<Rightarrow>
             (case inner signedRequest context w of
                (Value (Success response), w) \<Rightarrow>
                  if \<not> sgt_verifyResponses t then (Value (Success response), w)
                  else
                    (case verifySmb2DirectTcpFrameSignature response (sgt_sessionKey t) (sgt_dialect t) of
                       None \<Rightarrow> (Fault, w)
                     | Some (Failure e) \<Rightarrow> (Value (failureFrom e), w)
                     | Some (Success True) \<Rightarrow> (Value (Success response), w)
                     | Some (Success False) \<Rightarrow>
                         case describeSignatureVerificationFailure signedRequest response (sgt_dialect t) of
                           None \<Rightarrow> (Fault, w)
                         | Some m \<Rightarrow> (Value (failure EcProtocolUnsupported m), w))
              | other \<Rightarrow> other)
         | other \<Rightarrow> (other, w))"

section \<open>What signing changes\<close>

lemma length_aes128Cmac: "aes128Cmac key d = Success digest \<Longrightarrow> length digest = 16"
proof -
  have "length key = 16 \<Longrightarrow> length (aes128EncryptBlock key p) = 16" for p
    by (simp add: aes128EncryptBlock_def Let_def addRoundKey_def length_aes_steps length_expandAes128Key)
  then show "aes128Cmac key d = Success digest \<Longrightarrow> length digest = 16"
    by (auto simp: aes128Cmac_def Let_def split: if_split_asm)
qed

lemma length_signatureOf: "signatureOf key dialect p = Success digest \<Longrightarrow> 16 \<le> length digest"
  by (auto simp: signatureOf_def length_aes128Cmac split: if_split_asm DecodeResult.split_asm)

text \<open>A message from the point of view of the signature: the flags and the signature field.\<close>

lemma header_parts:
  assumes "64 \<le> length p"
  obtains a flags b s c where "p = a @ le32 flags @ b @ s @ c" "length a = 16" "length b = 28" "length s = 16"
proof -
  let ?f = "take 4 (drop 16 p)"
  have 1: "p = take 16 p @ drop 16 p" and 2: "drop 16 p = ?f @ drop 20 p"
    and 3: "drop 20 p = take 28 (drop 20 p) @ drop 48 p" and 4: "drop 48 p = take 16 (drop 48 p) @ drop 64 p"
    using append_take_drop_id [of 16 p] append_take_drop_id [of 4 "drop 16 p"] append_take_drop_id [of 28 "drop 20 p"]
      append_take_drop_id [of 16 "drop 48 p"] by simp_all
  have "length ?f = 4" using assms by simp
  then obtain b0 b1 b2 b3 where "?f = [b0, b1, b2, b3]" using four_bytes by blast
  then obtain flags where "?f = le32 flags" using le32_join by metis
  with 1 2 3 4 have "p = take 16 p @ le32 flags @ take 28 (drop 20 p) @ take 16 (drop 48 p) @ drop 64 p" by metis
  then show ?thesis by (rule that) (use assms in simp_all)
qed

lemma header_fields:
  assumes "p = a @ le32 flags @ b @ s @ c" "length a = 16" "length b = 28" "length s = 16"
  shows "readU32Le p 16 = Some flags" "slice p 48 64 = Some s"
    "writeU32Le p 16 v = a @ le32 v @ b @ s @ c" "setSignature p d = a @ le32 flags @ b @ take 16 d @ c"
proof -
  show "readU32Le p 16 = Some flags" "slice p 48 64 = Some s" using assms by (simp_all add: wire)
  show "setSignature p d = a @ le32 flags @ b @ take 16 d @ c" using assms by (simp add: setSignature_def)
  obtain b0 b1 b2 b3 where f: "le32 flags = [b0, b1, b2, b3]" by (simp add: le32_def)
  show "writeU32Le p 16 v = a @ le32 v @ b @ s @ c"
    using assms(2) unfolding assms(1) f by (simp add: writeU32Le_def list_update_append le32_def)
qed

lemma signed_bit: "((f :: u32) OR 8) AND 8 \<noteq> 0" "(f AND 8 \<noteq> 0) \<Longrightarrow> f OR 8 = f"
proof -
  have e: "(8 :: u32) = push_bit 3 1" by simp
  have b: "(f AND 8 \<noteq> 0) = bit f 3" for f :: u32
    unfolding e by (simp only: push_bit_of_1 and_exp_eq_0_iff_not_bit not_not)
  have o': "bit (f OR 8) n = (bit f n \<or> n = 3)" if "n < 32" for n
    unfolding e bit_or_iff bit_push_bit_iff using that by (auto simp: bit_1_iff)
  show "(f OR 8) AND 8 \<noteq> 0" unfolding b using o' [of 3] by simp
  show "(f AND 8 \<noteq> 0) \<Longrightarrow> f OR 8 = f" unfolding b by (rule bit_word_eqI) (auto simp: o')
qed

section \<open>No read out of bounds\<close>

lemma readU32Le_flags: "64 \<le> length p \<Longrightarrow> readU32Le p 16 \<noteq> None"
  by (simp del: not_None_eq)

lemma sign_faultless: "signSmb2DirectTcpFrame f key dialect \<noteq> Fault"
  using decodeDirectTcpPayload_total [of f]
  by (auto simp: signSmb2DirectTcpFrame_def Let_def readU32Le_flags split: option.split DecodeResult.split sum.split)

lemma verify_total: "verifySmb2DirectTcpFrameSignature f key dialect \<noteq> None"
  by (auto simp: verifySmb2DirectTcpFrameSignature_def in_bounds decodeDirectTcpPayload_total split: DecodeResult.splits
      simp del: not_None_eq)

lemma describe_total: "describeSignatureVerificationFailure f f' dialect \<noteq> None"
  by (auto simp: describeSignatureVerificationFailure_def in_bounds decodeDirectTcpPayload_total decodeSmb2SyncHeader_total
      split: DecodeResult.splits simp del: not_None_eq)

text \<open>A signing transport reads out of bounds only if the one it wraps does.\<close>

lemma faultless_signingExchange:
  assumes "\<And>inner. sgt_inner t = Some inner \<Longrightarrow> faultlessTransport inner"
  shows "faultlessTransport (signingExchange t)"
  unfolding faultlessTransport_def
proof (intro allI)
  fix f ctx w
  show "fst (signingExchange t f ctx w) \<noteq> Fault"
  proof (cases "sgt_inner t")
    case None
    then show ?thesis by (simp add: signingExchange_def)
  next
    case (Some inner)
    with assms have "fst (inner g ctx w) \<noteq> Fault" for g by (simp add: faultlessTransport_def)
    then have i: "inner g ctx w \<noteq> (Fault, w')" for g w' by (metis fst_conv)
    show ?thesis
      using Some i sign_faultless [of f "sgt_sessionKey t" "sgt_dialect t"]
      by (auto simp: signingExchange_def verify_total describe_total
          split: outcome.split DecodeResult.split prod.split option.split bool.split simp del: not_None_eq)
  qed
qed

section \<open>Properties\<close>

definition flagsOf :: "bytes \<Rightarrow> u32" where
  "flagsOf p = (case readU32Le p 16 of Some flags \<Rightarrow> flags | None \<Rightarrow> 0)"

lemma signing_runs:
  assumes "decodeDirectTcpPayload f = Some (Success (a @ le32 flags @ b @ s @ c))" "length a = 16" "length b = 28" "length s = 16"
    "supportsSigning dialect"
  shows "signSmb2DirectTcpFrame f key dialect =
    (case signatureOf key dialect (a @ le32 (flags OR 8) @ b @ replicate 16 0 @ c) of
       Failure e \<Rightarrow> Value (Failure e)
     | Success digest \<Rightarrow>
         case encodeDirectTcpFrame (a @ le32 (flags OR 8) @ b @ take 16 digest @ c) of
           Inl m \<Rightarrow> Thrown m | Inr f' \<Rightarrow> Value (Success f'))"
proof -
  let ?z = "a @ le32 (flags OR 8) @ b @ replicate 16 0 @ c"
  have z: "zeroSmb2Signature (writeU32Le (a @ le32 flags @ b @ s @ c) 16 (flags OR 8)) = ?z"
    unfolding zeroSmb2Signature_def header_fields(3) [OF refl assms(2-4)]
    by (subst header_fields(4) [OF refl assms(2-4)]) simp
  have "setSignature ?z digest = a @ le32 (flags OR 8) @ b @ take 16 digest @ c" for digest
    by (subst header_fields(4) [OF refl assms(2,3)]) simp_all
  with assms z show ?thesis
    by (simp add: signSmb2DirectTcpFrame_def header_fields(1) [OF refl assms(2-4)] Let_def split: DecodeResult.split)
qed

lemma signing_steps:
  assumes "signSmb2DirectTcpFrame f key dialect = Value (Success f')"
  obtains a flags b s c digest where
    "decodeDirectTcpPayload f = Some (Success (a @ le32 flags @ b @ s @ c))" "length a = 16" "length b = 28" "length s = 16"
    "supportsSigning dialect"
    "signatureOf key dialect (a @ le32 (flags OR 8) @ b @ replicate 16 0 @ c) = Success digest"
    "encodeDirectTcpFrame (a @ le32 (flags OR 8) @ b @ take 16 digest @ c) = Inr f'"
proof -
  obtain p where p: "decodeDirectTcpPayload f = Some (Success p)" "64 \<le> length p" "supportsSigning dialect"
    using assms by (auto simp: signSmb2DirectTcpFrame_def unsupportedSigning_def
        split: if_split_asm option.split_asm DecodeResult.split_asm)
  obtain a flags b s c where parts: "p = a @ le32 flags @ b @ s @ c" "length a = 16" "length b = 28" "length s = 16"
    using header_parts [OF p(2)] by metis
  from assms signing_runs [OF p(1) [unfolded parts(1)] parts(2-4) p(3)] obtain digest where
    "signatureOf key dialect (a @ le32 (flags OR 8) @ b @ replicate 16 0 @ c) = Success digest"
    "encodeDirectTcpFrame (a @ le32 (flags OR 8) @ b @ take 16 digest @ c) = Inr f'"
    by (auto split: DecodeResult.split_asm sum.split_asm)
  with p parts show ?thesis by (intro that [of a flags b s c digest]) simp_all
qed

lemma verifying_steps:
  assumes "decodeDirectTcpPayload f = Some (Success (a @ le32 flags @ b @ s @ c))" "length a = 16" "length b = 28" "length s = 16"
    "supportsSigning dialect" "flags AND 8 \<noteq> 0"
  shows "verifySmb2DirectTcpFrameSignature f key dialect = Some
    (case signatureOf key dialect (a @ le32 flags @ b @ replicate 16 0 @ c) of
       Failure e \<Rightarrow> Failure e | Success digest \<Rightarrow> Success (s = take 16 digest))"
proof -
  note fields = header_fields [OF refl assms(2-4), of flags c]
  have "zeroSmb2Signature (a @ le32 flags @ b @ s @ c) = a @ le32 flags @ b @ replicate 16 0 @ c"
    unfolding zeroSmb2Signature_def fields(4) by simp
  with assms fields show ?thesis
    by (simp add: verifySmb2DirectTcpFrameSignature_def split: DecodeResult.splits)
qed

lemma signed_verifies:
  assumes "signSmb2DirectTcpFrame f key dialect = Value (Success f')"
  shows "verifySmb2DirectTcpFrameSignature f' key dialect = Some (Success True)"
proof -
  from assms obtain a flags b s c digest where
    p: "decodeDirectTcpPayload f = Some (Success (a @ le32 flags @ b @ s @ c))" "length a = 16" "length b = 28" "length s = 16"
    and d: "supportsSigning dialect"
    "signatureOf key dialect (a @ le32 (flags OR 8) @ b @ replicate 16 0 @ c) = Success digest"
    "encodeDirectTcpFrame (a @ le32 (flags OR 8) @ b @ take 16 digest @ c) = Inr f'" by (rule signing_steps)
  have l: "length (take 16 digest) = 16" using length_signatureOf [OF d(2)] by simp
  have p': "decodeDirectTcpPayload f' = Some (Success (a @ le32 (flags OR 8) @ b @ take 16 digest @ c))"
    using decodeDirectTcpPayload_encode [OF d(3), of "[]"] by simp
  show ?thesis unfolding verifying_steps [OF p' p(2,3) l d(1) signed_bit(1)] d(2) by simp
qed

text \<open>C18: what this client signs, this client accepts: a frame that was signed for a dialect and a
  key verifies under them, and signing it has changed its flags and its signature field and
  nothing else.\<close>

theorem signed_frame_verifies:
  assumes "signSmb2DirectTcpFrame f key dialect = Value (Success f')"
  shows "verifySmb2DirectTcpFrameSignature f' key dialect = Some (Success True) \<and>
    (\<exists>p p'. decodeDirectTcpPayload f = Some (Success p) \<and> decodeDirectTcpPayload f' = Some (Success p') \<and>
       length p' = length p \<and> flagsOf p' = flagsOf p OR kFlagSigned \<and>
       (\<forall>i < length p. i \<notin> {16..<20} \<union> {48..<64} \<longrightarrow> p' ! i = p ! i))"
proof -
  from assms obtain a flags b s c digest where
    p: "decodeDirectTcpPayload f = Some (Success (a @ le32 flags @ b @ s @ c))" "length a = 16" "length b = 28" "length s = 16"
    and d: "supportsSigning dialect"
    "signatureOf key dialect (a @ le32 (flags OR 8) @ b @ replicate 16 0 @ c) = Success digest"
    "encodeDirectTcpFrame (a @ le32 (flags OR 8) @ b @ take 16 digest @ c) = Inr f'" by (rule signing_steps)
  have l: "length (take 16 digest) = 16" using length_signatureOf [OF d(2)] by simp
  have p': "decodeDirectTcpPayload f' = Some (Success (a @ le32 (flags OR 8) @ b @ take 16 digest @ c))"
    using decodeDirectTcpPayload_encode [OF d(3), of "[]"] by simp
  have "verifySmb2DirectTcpFrameSignature f' key dialect = Some (Success True)" by (rule signed_verifies [OF assms])
  moreover have "flagsOf (a @ le32 (flags OR 8) @ b @ take 16 digest @ c) = flagsOf (a @ le32 flags @ b @ s @ c) OR 8"
    unfolding flagsOf_def header_fields(1) [OF refl p(2,3) l] header_fields(1) [OF refl p(2-4)] by simp
  moreover have "(a @ le32 (flags OR 8) @ b @ take 16 digest @ c) ! i = (a @ le32 flags @ b @ s @ c) ! i"
    if "i \<notin> {16..<20} \<union> {48..<64}" for i
    using that l p(2-4) by (auto simp: nth_append)
  ultimately show ?thesis
    by (intro conjI exI [of _ "a @ le32 flags @ b @ s @ c"] exI [of _ "a @ le32 (flags OR 8) @ b @ take 16 digest @ c"])
      (use p p' l in simp_all)
qed

text \<open>C12: a response is accepted exactly when it is its own signature: signing it again, with
  the same key, gives the same frame.\<close>

theorem accepted_iff_own_signature:
  assumes "wholeFrame f" "supportsSigning dialect"
  shows "verifySmb2DirectTcpFrameSignature f key dialect = Some (Success True) \<longleftrightarrow>
    signSmb2DirectTcpFrame f key dialect = Value (Success f)"
proof
  assume v: "verifySmb2DirectTcpFrameSignature f key dialect = Some (Success True)"
  then obtain p where p: "decodeDirectTcpPayload f = Some (Success p)" "64 \<le> length p"
    by (auto simp: verifySmb2DirectTcpFrameSignature_def unsupportedSigning_def bind_eq_Some_conv
        split: if_split_asm DecodeResult.split_asm)
  obtain a flags b s c where parts: "p = a @ le32 flags @ b @ s @ c" "length a = 16" "length b = 28" "length s = 16"
    using header_parts [OF p(2)] by metis
  have "flags AND 8 \<noteq> 0"
    using v p assms(2) header_fields(1) [OF parts] by (auto simp: verifySmb2DirectTcpFrameSignature_def)
  from verifying_steps [OF p(1) [unfolded parts(1)] parts(2-4) assms(2) this, of key] v obtain digest where
    d: "signatureOf key dialect (a @ le32 flags @ b @ replicate 16 0 @ c) = Success digest" "s = take 16 digest"
    by (auto split: DecodeResult.split_asm)
  have "encodeDirectTcpFrame p = Inr f"
    using assms(1) p(1) by (auto simp: wholeFrame_def intro: encode_wholeFrame)
  with signing_runs [OF p(1) [unfolded parts(1)] parts(2-4) assms(2), of key] d parts(1)
    signed_bit(2) [OF \<open>flags AND 8 \<noteq> 0\<close>]
  show "signSmb2DirectTcpFrame f key dialect = Value (Success f)" by simp
qed (rule signed_verifies)


text \<open>A message of 64 zero bytes, signed with a one-byte key for dialect 2.0.2.\<close>

abbreviation (input) zeroFrame :: bytes where "zeroFrame \<equiv> [0, 0, 0, 64] @ replicate 64 0"

lemma zeroFrame_message:
  "decodeDirectTcpPayload zeroFrame = Some (Success (replicate 16 0 @ le32 0 @ replicate 28 0 @ replicate 16 0 @ []))"
proof -
  have "decodeDirectTcpPayload ([0, 0, 0, 64] @ q) = Some (Success q)" if "length q = 64" for q
    using that by (simp add: decodeDirectTcpPayload_def decodeDirectTcpPayloadLength_def byte_at_def slice_def)
  moreover have "replicate 16 0 @ le32 0 @ replicate 28 0 @ replicate 16 0 @ [] = replicate 64 (0 :: u8)"
    by (simp add: le32_def numeral_eq_Suc)
  ultimately show ?thesis by simp
qed

lemma zeroFrame_signed: "\<exists>f'. signSmb2DirectTcpFrame zeroFrame [7] Smb202 = Value (Success f')"
proof -
  let ?p = "\<lambda>d. replicate 16 0 @ le32 (0 OR 8) @ replicate 28 0 @ take 16 d @ [] :: bytes"
  have "\<exists>f'. encodeDirectTcpFrame (?p d) = Inr f'" for d by (rule encodeDirectTcpFrame_Inr) simp
  then obtain g where g: "encodeDirectTcpFrame (?p d) = Inr (g d)" for d by metis
  show ?thesis
    using signing_runs [OF zeroFrame_message, of Smb202 "[7]"] g
    by (simp add: supportsSigning_def supportsHmacSha256Signing_def signatureOf_def)
qed

theorem signed_frame_verifies_witness:
  "\<exists>f'. signSmb2DirectTcpFrame zeroFrame [7] Smb202 = Value (Success f') \<and>
     verifySmb2DirectTcpFrameSignature f' [7] Smb202 = Some (Success True)"
  using zeroFrame_signed signed_frame_verifies by blast

theorem accepted_iff_own_signature_witness:
  "signSmb2DirectTcpFrame zeroFrame [7] Smb202 \<noteq> Value (Success zeroFrame)"
proof -
  have "wholeFrame zeroFrame" using zeroFrame_message by (simp add: wholeFrame_def)
  moreover have "verifySmb2DirectTcpFrameSignature zeroFrame [7] Smb202 = Some (Success False)"
    using header_fields(1) [of _ "replicate 16 0" 0 "replicate 28 0" "replicate 16 0" "[]", OF refl]
    by (simp add: verifySmb2DirectTcpFrameSignature_def zeroFrame_message [simplified] supportsSigning_def
        supportsHmacSha256Signing_def)
  ultimately show ?thesis
    using accepted_iff_own_signature [of zeroFrame Smb202 "[7]"] by (simp add: supportsSigning_def supportsHmacSha256Signing_def)
qed

definition echo :: "unit Transport" where
  "echo frame ctx w = (Value (Success frame), w)"


end
