(* ===== verification/Encryption.thy ===== *)
theory Encryption
  imports Signing
begin

text \<open>
  Encryption of SMB 3.0 messages (\<open>Smb3Encryption.cpp\<close>): AES-128-CCM over the block cipher of
  the signatures, the transform header, encrypting and decrypting a frame, and
  \<open>Smb3EncryptionTransport\<close>, which seals what goes out under a fresh nonce and returns only
  what it could open. The counter of the nonces is the state of the transport; the ghost field
  \<open>enc_sent\<close> records the frames handed to the transport below, no operation reads it.
\<close>

section \<open>AES-CCM\<close>

record AesCcmEncryptedMessage =
  ccm_ciphertext :: bytes
  ccm_tag :: bytes

text \<open>The loops that fill a block from its last byte with a number, and the blocks of a
  vector, the last one padded with zeros.\<close>

definition bigEndian :: "nat \<Rightarrow> u64 \<Rightarrow> bytes" where
  "bigEndian n v = rev (map (\<lambda>i. ucast (drop_bit (8 * i) v AND 0xFF)) [0..<n])"

definition zeroPaddedBlock :: "bytes \<Rightarrow> nat \<Rightarrow> Block16" where
  "zeroPaddedBlock d offset = (let block = take 16 (drop offset d) in block @ replicate (16 - length block) 0)"

text \<open>Sixteen bytes are copied from the key whatever its length.\<close>

definition keyBlockFrom :: "bytes \<Rightarrow> Block16 option" where
  "keyBlockFrom key = (if length key < 16 then None else Some (take 16 key))"

definition formatAad :: "bytes \<Rightarrow> bytes" where
  "formatAad aad =
    (if aad = [] then []
     else if 0xFF00 \<le> length aad then []
     else let n = word_of_nat (length aad) :: u16;
              formatted = [ucast (drop_bit 8 n AND 0xFF), ucast (n AND 0xFF)] @ aad
          in formatted @ replicate ((16 - length formatted mod 16) mod 16) 0)"

definition macBlocks :: "Block16 \<Rightarrow> bytes \<Rightarrow> Block16 \<Rightarrow> Block16" where
  "macBlocks keyBlock d =
     fold (\<lambda>block state. aes128EncryptBlock keyBlock (xorBlocks state (zeroPaddedBlock d (block * 16))))
       [0..<(length d + 15) div 16]"

definition firstMacBlock :: "bytes \<Rightarrow> bytes \<Rightarrow> bytes \<Rightarrow> nat \<Rightarrow> Block16" where
  "firstMacBlock nonce plaintext aad tagLength =
    (let lengthFieldSize = 15 - length nonce in
     [(if aad = [] then 0 else 0x40) OR push_bit 3 (word_of_nat ((tagLength - 2) div 2) AND 7) OR
        (word_of_nat lengthFieldSize - 1) AND 7]
     @ nonce @ bigEndian lengthFieldSize (word_of_nat (length plaintext)))"

definition cbcMac :: "bytes \<Rightarrow> bytes \<Rightarrow> bytes \<Rightarrow> bytes \<Rightarrow> nat \<Rightarrow> Block16 DecodeResult option" where
  "cbcMac key nonce plaintext aad tagLength =
    (if length key \<noteq> 16
     then Some (failure EcUnsupportedCapability ''AES-128-CCM requires a 16-byte encryption key.'')
     else if nonce = [] \<or> 13 < length nonce
     then Some (failure EcProtocolUnsupported ''AES-CCM nonce length must be between 1 and 13 bytes.'')
     else if tagLength < 4 \<or> 16 < tagLength \<or> tagLength mod 2 \<noteq> 0
     then Some (failure EcProtocolUnsupported ''AES-CCM tag length must be an even value between 4 and 16 bytes.'')
     else
       let lengthFieldSize = 15 - length nonce;
           maxLength = (push_bit 8 ^^ lengthFieldSize) (1 :: u64)
       in
       if unat maxLength \<le> length plaintext
       then Some (failure EcProtocolUnsupported ''AES-CCM plaintext is too large for the selected nonce length.'')
       else do {
         keyBlock \<leftarrow> keyBlockFrom key;
         let state = aes128EncryptBlock keyBlock (firstMacBlock nonce plaintext aad tagLength);
             formattedAad = formatAad aad
         in
         if aad \<noteq> [] \<and> formattedAad = []
         then Some (failure EcProtocolUnsupported ''AES-CCM AAD is too large for the implemented encoder.'')
         else Some (Success (macBlocks keyBlock plaintext (macBlocks keyBlock formattedAad state))) })"

text \<open>A nonce of more than 15 bytes does not fit into the block it is copied to.\<close>

definition counterBlock :: "bytes \<Rightarrow> u64 \<Rightarrow> Block16 option" where
  "counterBlock nonce counter =
    (if 15 < length nonce then None
     else let lengthFieldSize = 15 - length nonce in
       Some ([(word_of_nat lengthFieldSize - 1) AND 7] @ nonce @ bigEndian lengthFieldSize counter))"

function ccmLoop :: "Block16 \<Rightarrow> bytes \<Rightarrow> u64 \<Rightarrow> bytes \<Rightarrow> bytes option" where
  "ccmLoop keyBlock nonce counter input =
    (if input = [] then Some []
     else do {
       block \<leftarrow> counterBlock nonce counter;
       let stream = aes128EncryptBlock keyBlock block in do {
         rest \<leftarrow> ccmLoop keyBlock nonce (counter + 1) (drop 16 input);
         Some (map2 (XOR) (take 16 input) stream @ rest) } })"
  by pat_completeness auto

termination by (relation "measure (\<lambda>(keyBlock, nonce, counter, input). length input)") auto

declare ccmLoop.simps [simp del]

definition ccmCrypt :: "bytes \<Rightarrow> bytes \<Rightarrow> bytes \<Rightarrow> bytes option" where
  "ccmCrypt key nonce input = do { keyBlock \<leftarrow> keyBlockFrom key; ccmLoop keyBlock nonce 1 input }"

definition ccmTagMask :: "bytes \<Rightarrow> bytes \<Rightarrow> bytes option" where
  "ccmTagMask key nonce = do {
     keyBlock \<leftarrow> keyBlockFrom key;
     block \<leftarrow> counterBlock nonce 0;
     Some (aes128EncryptBlock keyBlock block) }"

definition aes128CcmEncrypt ::
  "bytes \<Rightarrow> bytes \<Rightarrow> bytes \<Rightarrow> bytes \<Rightarrow> nat \<Rightarrow> AesCcmEncryptedMessage DecodeResult option" where
  "aes128CcmEncrypt key nonce plaintext aad tagLength = do {
     mac \<leftarrow> cbcMac key nonce plaintext aad tagLength;
     case mac of
       Failure e \<Rightarrow> Some (failureFrom e)
     | Success code \<Rightarrow> do {
         mask \<leftarrow> ccmTagMask key nonce;
         ciphertext \<leftarrow> ccmCrypt key nonce plaintext;
         Some (Success \<lparr>ccm_ciphertext = ciphertext, ccm_tag = take tagLength (xorBlocks code mask)\<rparr>) } }"

definition aes128CcmDecrypt :: "bytes \<Rightarrow> bytes \<Rightarrow> bytes \<Rightarrow> bytes \<Rightarrow> bytes \<Rightarrow> bytes DecodeResult option" where
  "aes128CcmDecrypt key nonce ciphertext aad tag = do {
     plaintext \<leftarrow> ccmCrypt key nonce ciphertext;
     encrypted \<leftarrow> aes128CcmEncrypt key nonce plaintext aad (length tag);
     case encrypted of
       Failure e \<Rightarrow> Some (failureFrom e)
     | Success message \<Rightarrow>
         if ccm_tag message \<noteq> tag
         then Some (failure EcProtocolUnsupported ''SMB3 encrypted message authentication failed.'')
         else Some (Success plaintext) }"

section \<open>Keys\<close>

datatype Smb3KeyDirection = ClientToServer | ServerToClient

definition deriveKey :: "bytes \<Rightarrow> string \<Rightarrow> string \<Rightarrow> bytes DecodeResult" where
  "deriveKey sessionKey label context =
    (if sessionKey = []
     then failure EcAuthenticationFailed ''Cannot derive SMB3 encryption key without a session key.''
     else Success (take 16 (hmacSha256 sessionKey
       (be32 1 @ asciiWithNull label @ [0] @ asciiWithNull context @ be32 128))))"

definition unsupportedDialect :: "Dialect \<Rightarrow> 'a DecodeResult" where
  "unsupportedDialect dialect = failure EcUnsupportedCapability
     (''SMB3 AES-CCM encryption for dialect 0x'' @ hexPlain dialect @ '' is not implemented in the clean-room engine.'')"

definition deriveSmb3EncryptionKey :: "bytes \<Rightarrow> Dialect \<Rightarrow> Smb3KeyDirection \<Rightarrow> bytes DecodeResult" where
  "deriveSmb3EncryptionKey sessionKey dialect direction =
    (if dialect \<noteq> Smb300 \<and> dialect \<noteq> Smb302 then unsupportedDialect dialect
     else deriveKey sessionKey ''SMB2AESCCM''
       (if direction = ClientToServer then ''ServerIn '' else ''ServerOut''))"

section \<open>The transform header\<close>

abbreviation (input) kSmb3TransformProtocolId :: u32 where "kSmb3TransformProtocolId \<equiv> 0x424D53FD"
abbreviation (input) kSmb3TransformHeaderSize :: nat where "kSmb3TransformHeaderSize \<equiv> 52"
abbreviation (input) kSmb3TransformSignatureOffset :: nat where "kSmb3TransformSignatureOffset \<equiv> 4"
abbreviation (input) kSmb3TransformNonceOffset :: nat where "kSmb3TransformNonceOffset \<equiv> 20"
abbreviation (input) kSmb3AesCcmNonceSize :: nat where "kSmb3AesCcmNonceSize \<equiv> 11"
abbreviation (input) kSmb3AesCcmTagSize :: nat where "kSmb3AesCcmTagSize \<equiv> 16"
abbreviation (input) kSmb3Aes128CcmAlgorithm :: u16 where "kSmb3Aes128CcmAlgorithm \<equiv> 1"

definition buildTransformHeader :: "u32 \<Rightarrow> u64 \<Rightarrow> bytes \<Rightarrow> Dialect \<Rightarrow> bytes" where
  "buildTransformHeader originalMessageSize sessionId nonce dialect =
     le32 kSmb3TransformProtocolId @ replicate kSmb3AesCcmTagSize 0 @ nonce @ le32 originalMessageSize @ le16 0
     @ le16 (if dialect = Smb311 then 1 else kSmb3Aes128CcmAlgorithm) @ le64 sessionId"

definition smb3AadFromHeader :: "bytes \<Rightarrow> bytes option" where
  "smb3AadFromHeader transformHeader = slice transformHeader 20 kSmb3TransformHeaderSize"

definition ccmNonceFromTransformNonce :: "bytes \<Rightarrow> bytes option" where
  "ccmNonceFromTransformNonce transformPayload =
     slice transformPayload kSmb3TransformNonceOffset (kSmb3TransformNonceOffset + kSmb3AesCcmNonceSize)"

text \<open>What a computation of an option of a result does as a program: \<open>None\<close> is a read out of
  bounds, a builder may throw.\<close>

fun framed :: "bytes DecodeResult option \<Rightarrow> bytes DecodeResult outcome" where
  "framed None = Fault"
| "framed (Some (Failure e)) = Value (failureFrom e)"
| "framed (Some (Success message)) =
     (case encodeDirectTcpFrame message of Inl m \<Rightarrow> Thrown m | Inr frame \<Rightarrow> Value (Success frame))"

definition sealMessage :: "bytes \<Rightarrow> bytes \<Rightarrow> u64 \<Rightarrow> bytes \<Rightarrow> Dialect \<Rightarrow> bytes DecodeResult option" where
  "sealMessage payload encryptionKey sessionId nonce dialect =
    (let transformHeader = buildTransformHeader (word_of_nat (length payload)) sessionId nonce dialect in do {
       aad \<leftarrow> smb3AadFromHeader transformHeader;
       encrypted \<leftarrow> aes128CcmEncrypt encryptionKey (take kSmb3AesCcmNonceSize nonce) payload aad kSmb3AesCcmTagSize;
       case encrypted of
         Failure e \<Rightarrow> Some (failureFrom e)
       | Success message \<Rightarrow>
           Some (Success (take kSmb3TransformSignatureOffset transformHeader @ ccm_tag message @
             drop (kSmb3TransformSignatureOffset + kSmb3AesCcmTagSize) transformHeader @ ccm_ciphertext message)) })"

definition encryptSmb3DirectTcpFrame ::
  "bytes \<Rightarrow> bytes \<Rightarrow> u64 \<Rightarrow> bytes \<Rightarrow> Dialect \<Rightarrow> bytes DecodeResult outcome" where
  "encryptSmb3DirectTcpFrame requestFrame encryptionKey sessionId nonce dialect =
    (if dialect \<noteq> Smb300 \<and> dialect \<noteq> Smb302 then Value (unsupportedDialect dialect)
     else framed (do {
       decoded \<leftarrow> decodeDirectTcpPayload requestFrame;
       case decoded of
         Failure e \<Rightarrow> Some (failureFrom e)
       | Success payload \<Rightarrow>
           if 0xFFFFFFFF < length payload
           then Some (failure EcProtocolUnsupported ''SMB3 transform payload is too large.'')
           else sealMessage payload encryptionKey sessionId nonce dialect }))"

definition openMessage :: "bytes \<Rightarrow> bytes \<Rightarrow> u64 \<Rightarrow> bytes DecodeResult option" where
  "openMessage payload decryptionKey expectedSessionId = do {
     originalMessageSize \<leftarrow> readU32Le payload 36;
     algorithm \<leftarrow> readU16Le payload 42;
     sessionId \<leftarrow> readU64Le payload 44;
     if algorithm \<noteq> kSmb3Aes128CcmAlgorithm
     then Some (failure EcUnsupportedCapability ''SMB3 response uses an unsupported encryption algorithm.'')
     else if sessionId \<noteq> expectedSessionId
     then Some (failure EcProtocolUnsupported ''SMB3 response transform session id does not match the session.'')
     else do {
       aad \<leftarrow> smb3AadFromHeader payload;
       ccmNonce \<leftarrow> ccmNonceFromTransformNonce payload;
       tag \<leftarrow> slice payload kSmb3TransformSignatureOffset (kSmb3TransformSignatureOffset + kSmb3AesCcmTagSize);
       ciphertext \<leftarrow> slice payload kSmb3TransformHeaderSize (length payload);
       plaintext \<leftarrow> aes128CcmDecrypt decryptionKey ccmNonce ciphertext aad tag;
       case plaintext of
         Failure e \<Rightarrow> Some (failureFrom e)
       | Success message \<Rightarrow>
           if length message \<noteq> unat originalMessageSize
           then Some (failure EcProtocolUnsupported
             ''SMB3 decrypted message size does not match transform header.'')
           else Some (Success message) } }"

definition decryptSmb3DirectTcpFrame ::
  "bytes \<Rightarrow> bytes \<Rightarrow> u64 \<Rightarrow> Dialect \<Rightarrow> bytes DecodeResult outcome" where
  "decryptSmb3DirectTcpFrame responseFrame decryptionKey expectedSessionId dialect =
    (if dialect \<noteq> Smb300 \<and> dialect \<noteq> Smb302 then Value (unsupportedDialect dialect)
     else framed (do {
       decoded \<leftarrow> decodeDirectTcpPayload responseFrame;
       case decoded of
         Failure e \<Rightarrow> Some (failureFrom e)
       | Success payload \<Rightarrow>
           if length payload < kSmb3TransformHeaderSize \<or> readU32Le payload 0 \<noteq> Some kSmb3TransformProtocolId
           then Some (failure EcProtocolUnsupported ''SMB3 response is not an encrypted transform message.'')
           else openMessage payload decryptionKey expectedSessionId }))"

section \<open>Smb3EncryptionTransport\<close>

record 'v Smb3State =
  enc_outside :: 'v
  m_nonceCounter :: u64
  enc_sent :: "bytes list"

record 'v Smb3EncryptionTransport =
  enc_inner :: "'v Smb3State Transport option"
  enc_encryptionKey :: bytes
  enc_decryptionKey :: bytes
  enc_sessionId :: u64
  enc_dialect :: Dialect

definition newSmb3State :: "'v \<Rightarrow> 'v Smb3State" where
  "newSmb3State v = \<lparr>enc_outside = v, m_nonceCounter = 1, enc_sent = []\<rparr>"

definition nextNonce :: "'v Smb3State \<Rightarrow> bytes \<times> 'v Smb3State" where
  "nextNonce s = (le64 (m_nonceCounter s) @ replicate 8 0, s\<lparr>m_nonceCounter := m_nonceCounter s + 1\<rparr>)"

definition encryptionExchange :: "'v Smb3EncryptionTransport \<Rightarrow> 'v Smb3State Transport" where
  "encryptionExchange t requestFrame context s =
    (case enc_inner t of
       None \<Rightarrow> (Value (failure EcInternalError ''SMB3 encryption transport has no inner transport.''), s)
     | Some inner \<Rightarrow>
         let (nonce, s) = nextNonce s in
         case encryptSmb3DirectTcpFrame requestFrame (enc_encryptionKey t) (enc_sessionId t) nonce (enc_dialect t) of
           Value (Success encryptedRequest) \<Rightarrow>
             (case inner encryptedRequest context (s\<lparr>enc_sent := enc_sent s @ [encryptedRequest]\<rparr>) of
                (Value (Success encryptedResponse), s) \<Rightarrow>
                  (decryptSmb3DirectTcpFrame encryptedResponse (enc_decryptionKey t) (enc_sessionId t) (enc_dialect t), s)
              | other \<Rightarrow> other)
         | other \<Rightarrow> (other, s))"

section \<open>What the cipher keeps\<close>

lemma length_counterBlock: "counterBlock nonce c = Some b \<Longrightarrow> length b = 16"
  by (auto simp: counterBlock_def Let_def bigEndian_def split: if_split_asm)

lemma length_macBlocks: "length k = 16 \<Longrightarrow> length st = 16 \<Longrightarrow> length (macBlocks k d st) = 16"
proof -
  assume k: "length k = 16"
  have "length st = 16 \<Longrightarrow> length (fold (\<lambda>block st. aes128EncryptBlock k (xorBlocks st (zeroPaddedBlock d (block * 16)))) bs st) = 16" for bs
    by (induction bs arbitrary: st)
      (simp_all add: k length_aes128EncryptBlock length_xorBlocks zeroPaddedBlock_def Let_def)
  then show "length st = 16 \<Longrightarrow> ?thesis" by (simp add: macBlocks_def)
qed

lemma length_cbcMac: "cbcMac key nonce p aad t = Some (Success code) \<Longrightarrow> length code = 16"
  by (auto simp: cbcMac_def Let_def keyBlockFrom_def firstMacBlock_def bigEndian_def
      length_macBlocks length_aes128EncryptBlock split: if_split_asm)

text \<open>The key stream does not depend on the text, so crypting twice gives the text back.\<close>

lemma ccmLoop_involutive:
  assumes "ccmLoop k nonce c input = Some res" "length k = 16"
  shows "length res = length input \<and> ccmLoop k nonce c res = Some input"
  using assms
proof (induction k nonce c input arbitrary: res rule: ccmLoop.induct)
  case (1 k nonce c input)
  show ?case
  proof (cases "input = []")
    case True
    with 1(2) show ?thesis by (simp add: ccmLoop.simps)
  next
    case False
    with 1(2) obtain block rest where b: "counterBlock nonce c = Some block"
      and rest: "ccmLoop k nonce (c + 1) (drop 16 input) = Some rest"
      and out: "res = map2 (XOR) (take 16 input) (aes128EncryptBlock k block) @ rest"
      by (subst (asm) ccmLoop.simps) (auto simp: Let_def bind_eq_Some_conv)
    have l: "length (aes128EncryptBlock k block) = 16"
      using 1(3) by (simp add: length_aes128EncryptBlock length_counterBlock [OF b])
    from 1(1) [OF False b refl rest 1(3)] have ih: "length rest = length input - 16"
      "ccmLoop k nonce (c + 1) rest = Some (drop 16 input)" by simp_all
    let ?first = "map2 (XOR) (take 16 input) (aes128EncryptBlock k block)"
    have first: "length ?first = min 16 (length input)" by (simp add: l)
    have parts: "take 16 res = ?first" "drop 16 res = rest"
      using ih(1) first by (cases "16 \<le> length input"; simp add: out l)+
    have "map2 (XOR) ?first (aes128EncryptBlock k block) = take 16 input"
      by (rule nth_equalityI) (auto simp: l xor.assoc)
    with parts ih False first show ?thesis
      by (subst ccmLoop.simps) (auto simp: b Let_def out)
  qed
qed

lemma ccm_opens:
  assumes "aes128CcmEncrypt key nonce p aad t = Some (Success m)"
  shows "aes128CcmDecrypt key nonce (ccm_ciphertext m) aad (ccm_tag m) = Some (Success p)"
    "length (ccm_tag m) = t" "length (ccm_ciphertext m) = length p"
proof -
  from assms obtain code mask c where m: "cbcMac key nonce p aad t = Some (Success code)"
    "ccmTagMask key nonce = Some mask" "ccmCrypt key nonce p = Some c"
    "m = \<lparr>ccm_ciphertext = c, ccm_tag = take t (xorBlocks code mask)\<rparr>"
    by (auto simp: aes128CcmEncrypt_def bind_eq_Some_conv split: DecodeResult.split_asm)
  from m(1) have key: "length key = 16" and t: "t \<le> 16" by (auto simp: cbcMac_def split: if_split_asm)
  have "length mask = 16"
    using m(2) by (auto simp: ccmTagMask_def bind_eq_Some_conv keyBlockFrom_def length_aes128EncryptBlock length_counterBlock
        split: if_split_asm)
  with length_cbcMac [OF m(1)] t show tag: "length (ccm_tag m) = t" by (simp add: m(4) length_xorBlocks)
  have "length c = length p \<and> ccmLoop key nonce 1 c = Some p"
    using m(3) key by (intro ccmLoop_involutive) (simp_all add: ccmCrypt_def keyBlockFrom_def)
  then show "length (ccm_ciphertext m) = length p" "aes128CcmDecrypt key nonce (ccm_ciphertext m) aad (ccm_tag m) = Some (Success p)"
    using assms tag key by (simp_all add: m(4) aes128CcmDecrypt_def ccmCrypt_def keyBlockFrom_def)
qed

text \<open>And what is opened is what was sealed: a text comes out only with its own code.\<close>

lemma ccm_opened:
  assumes "aes128CcmDecrypt key nonce c aad tag = Some (Success p)"
  shows "aes128CcmEncrypt key nonce p aad (length tag) = Some (Success \<lparr>ccm_ciphertext = c, ccm_tag = tag\<rparr>)"
proof -
  from assms obtain m where p: "ccmCrypt key nonce c = Some p"
    "aes128CcmEncrypt key nonce p aad (length tag) = Some (Success m)" "ccm_tag m = tag"
    by (auto simp: aes128CcmDecrypt_def bind_eq_Some_conv split: DecodeResult.split_asm if_split_asm)
  from p(2) have key: "length key = 16" and again: "ccmCrypt key nonce p = Some (ccm_ciphertext m)"
    by (auto simp: aes128CcmEncrypt_def cbcMac_def bind_eq_Some_conv split: DecodeResult.split_asm if_split_asm)
  have "ccmLoop key nonce 1 p = Some c"
    using ccmLoop_involutive [of key nonce 1 c p] p(1) key by (simp add: ccmCrypt_def keyBlockFrom_def)
  with again key have "ccm_ciphertext m = c" by (simp add: ccmCrypt_def keyBlockFrom_def)
  with p show ?thesis by (metis AesCcmEncryptedMessage.surjective old.unit.exhaust)
qed

section \<open>The parts of a sealed message\<close>

lemma le64_halves: "le64 (ucast (a :: u32) OR push_bit 32 (ucast (b :: u32))) = le32 a @ le32 b"
proof -
  have no: "32 \<le> n \<Longrightarrow> \<not> bit (x :: u32) n" for n x using bit_imp_le_length [of x n] by auto
  let ?v = "ucast a OR push_bit 32 (ucast b) :: u64"
  have "(ucast ?v :: u8) = ucast a" "(ucast (drop_bit 8 ?v) :: u8) = ucast (drop_bit 8 a)"
    "(ucast (drop_bit 16 ?v) :: u8) = ucast (drop_bit 16 a)" "(ucast (drop_bit 24 ?v) :: u8) = ucast (drop_bit 24 a)"
    "(ucast (drop_bit 32 ?v) :: u8) = ucast b" "(ucast (drop_bit 40 ?v) :: u8) = ucast (drop_bit 8 b)"
    "(ucast (drop_bit 48 ?v) :: u8) = ucast (drop_bit 16 b)" "(ucast (drop_bit 56 ?v) :: u8) = ucast (drop_bit 24 b)"
    by (rule u8_eqI, simp add: bit_simps no)+
  then show ?thesis by (simp add: le64_def le32_def low_byte)
qed

lemma le_exists:
  "length x = 2 \<Longrightarrow> \<exists>v. x = le16 v" "length x = 4 \<Longrightarrow> \<exists>v. x = le32 v" "length x = 8 \<Longrightarrow> \<exists>v. x = le64 v"
proof -
  show 2: "\<exists>v. x = le16 v" if "length x = 2" for x
    using that by (auto simp: length_Suc_conv numeral_eq_Suc) (metis le16_join)
  show 4: "\<exists>v. x = le32 v" if "length x = 4" for x using four_bytes [OF that] le32_join by metis
  show "\<exists>v. x = le64 v" if "length x = 8" for x
  proof -
    have "length (take 4 x) = 4" "length (drop 4 x) = 4" using that by simp_all
    with 4 obtain a b where "take 4 x = le32 a" "drop 4 x = le32 b" by metis
    then have "x = le32 a @ le32 b" by (metis append_take_drop_id)
    then show ?thesis using le64_halves by metis
  qed
qed

lemma split_at: "k \<le> length p \<Longrightarrow> p = take k p @ drop k p \<and> length (take k p) = k"
  by simp

definition sealedParts :: "bytes \<Rightarrow> u32 \<Rightarrow> bytes \<Rightarrow> bytes \<Rightarrow> u32 \<Rightarrow> u16 \<Rightarrow> u16 \<Rightarrow> u64 \<Rightarrow> bytes \<Rightarrow> bool" where
  "sealedParts m protocolId tag nonce n reserved algorithm sessionId c \<longleftrightarrow>
     m = le32 protocolId @ tag @ nonce @ le32 n @ le16 reserved @ le16 algorithm @ le64 sessionId @ c \<and>
     length tag = 16 \<and> length nonce = 16"

lemma sealedParts_exist:
  assumes "52 \<le> length m"
  obtains protocolId tag nonce n reserved algorithm sessionId c where
    "sealedParts m protocolId tag nonce n reserved algorithm sessionId c"
proof -
  let ?part = "\<lambda>a n. take n (drop a m)"
  have l: "length (?part a n) = n" if "a + n \<le> 52" for a n using that assms by simp
  have cut: "drop a m = ?part a n @ drop (a + n) m" for a n
    by (metis add.commute append_take_drop_id drop_drop)
  have m: "m = ?part 0 4 @ ?part 4 16 @ ?part 20 16 @ ?part 36 4 @ ?part 40 2 @ ?part 42 2 @ ?part 44 8 @ drop 52 m"
    using cut [of 0 4] cut [of 4 16] cut [of 20 16] cut [of 36 4] cut [of 40 2] cut [of 42 2] cut [of 44 8] by simp
  obtain protocolId where 0: "?part 0 4 = le32 protocolId" using le_exists(2) [OF l [of 0 4]] by auto
  obtain n where 36: "?part 36 4 = le32 n" using le_exists(2) [OF l [of 36 4]] by auto
  obtain reserved where 40: "?part 40 2 = le16 reserved" using le_exists(1) [OF l [of 40 2]] by auto
  obtain algorithm where 42: "?part 42 2 = le16 algorithm" using le_exists(1) [OF l [of 42 2]] by auto
  obtain sessionId where 44: "?part 44 8 = le64 sessionId" using le_exists(3) [OF l [of 44 8]] by auto
  show ?thesis
    by (rule that [of protocolId "?part 4 16" "?part 20 16" n reserved algorithm sessionId "drop 52 m"])
      (use m l [of 4 16] l [of 20 16] 0 36 40 42 44 in \<open>simp add: sealedParts_def\<close>)
qed

lemma sealedParts_reads:
  assumes "sealedParts m protocolId tag nonce n reserved algorithm sessionId c"
  shows "52 \<le> length m" "readU32Le m 0 = Some protocolId" "readU32Le m 36 = Some n" "readU16Le m 42 = Some algorithm"
    "readU64Le m 44 = Some sessionId" "smb3AadFromHeader m = Some (nonce @ le32 n @ le16 reserved @ le16 algorithm @ le64 sessionId)"
    "ccmNonceFromTransformNonce m = Some (take 11 nonce)" "slice m 4 20 = Some tag" "slice m 52 (length m) = Some c"
proof -
  from assms have m: "m = le32 protocolId @ tag @ nonce @ le32 n @ le16 reserved @ le16 algorithm @ le64 sessionId @ c"
    and l: "length tag = 16" "length nonce = 16" by (simp_all add: sealedParts_def)
  show "52 \<le> length m" "readU32Le m 0 = Some protocolId" "readU32Le m 36 = Some n" "readU16Le m 42 = Some algorithm"
    "readU64Le m 44 = Some sessionId" "slice m 4 20 = Some tag" "slice m 52 (length m) = Some c"
    by (simp_all add: m l wire)
  show "smb3AadFromHeader m = Some (nonce @ le32 n @ le16 reserved @ le16 algorithm @ le64 sessionId)"
    "ccmNonceFromTransformNonce m = Some (take 11 nonce)"
    by (simp_all add: m l smb3AadFromHeader_def ccmNonceFromTransformNonce_def Prelude.slice_def)
qed

lemma sealMessage_runs:
  assumes "length nonce = 16" "dialect \<noteq> Smb311"
  shows "sealMessage p key sid nonce dialect =
    (let n = word_of_nat (length p); aad = nonce @ le32 n @ le16 0 @ le16 1 @ le64 sid in
     case aes128CcmEncrypt key (take 11 nonce) p aad 16 of
       None \<Rightarrow> None
     | Some (Failure e) \<Rightarrow> Some (failureFrom e)
     | Some (Success m) \<Rightarrow> Some (Success (le32 kSmb3TransformProtocolId @ ccm_tag m @ aad @ ccm_ciphertext m)))"
proof -
  let ?n = "word_of_nat (length p)"
  have "smb3AadFromHeader (buildTransformHeader ?n sid nonce dialect) = Some (nonce @ le32 ?n @ le16 0 @ le16 1 @ le64 sid)"
    using assms by (simp add: smb3AadFromHeader_def buildTransformHeader_def Prelude.slice_def)
  with assms show ?thesis
    by (simp add: sealMessage_def Let_def buildTransformHeader_def split: option.split DecodeResult.split)
qed

text \<open>Opening what was sealed, and sealing what was opened, are the same thing.\<close>

lemma sealed_opens:
  assumes "sealMessage p key sid nonce dialect = Some (Success m)" "length nonce = 16" "dialect \<noteq> Smb311" "length p < 2 ^ 32"
  obtains tag c where "sealedParts m kSmb3TransformProtocolId tag nonce (word_of_nat (length p)) 0 1 sid c"
    "openMessage m key sid = Some (Success p)"
proof -
  let ?n = "word_of_nat (length p) :: u32"
  let ?aad = "nonce @ le32 ?n @ le16 0 @ le16 1 @ le64 sid"
  from assms(1) obtain e where e: "aes128CcmEncrypt key (take 11 nonce) p ?aad 16 = Some (Success e)"
    and m: "m = le32 kSmb3TransformProtocolId @ ccm_tag e @ ?aad @ ccm_ciphertext e"
    unfolding sealMessage_runs [OF assms(2,3)] by (auto simp: Let_def split: option.split_asm DecodeResult.split_asm)
  note opened = ccm_opens [OF e]
  have parts: "sealedParts m kSmb3TransformProtocolId (ccm_tag e) nonce ?n 0 1 sid (ccm_ciphertext e)"
    using assms(2) opened(2) by (simp add: sealedParts_def m)
  have "unat ?n = length p" using assms(4) by (intro unat_of_nat32) simp
  with sealedParts_reads [OF parts] opened(1) have "openMessage m key sid = Some (Success p)"
    by (simp add: openMessage_def)
  with parts show ?thesis by (rule that)
qed

lemma opened_seals:
  assumes "openMessage m key sid = Some (Success p)" "dialect \<noteq> Smb311"
    and parts: "sealedParts m kSmb3TransformProtocolId tag nonce n 0 algorithm sessionId c"
  shows "sealMessage p key sid nonce dialect = Some (Success m)"
proof -
  let ?aad = "nonce @ le32 n @ le16 0 @ le16 1 @ le64 sid"
  from assms(1) sealedParts_reads [OF parts] have eq: "algorithm = 1" "sessionId = sid" "length p = unat n"
    and "aes128CcmDecrypt key (take 11 nonce) c ?aad tag = Some (Success p)"
    by (auto simp: openMessage_def split: if_split_asm option.split_asm DecodeResult.split_asm bind_splits)
  from ccm_opened [OF this(4)] parts have
    "aes128CcmEncrypt key (take 11 nonce) p ?aad 16 = Some (Success \<lparr>ccm_ciphertext = c, ccm_tag = tag\<rparr>)"
    by (simp add: sealedParts_def)
  moreover have "word_of_nat (length p) = n" by (simp add: eq)
  ultimately show ?thesis
    using parts eq by (simp add: sealMessage_runs assms(2) sealedParts_def Let_def)
qed

lemma framed_Success:
  "framed r = Value (Success f) \<longleftrightarrow> (\<exists>m. r = Some (Success m) \<and> encodeDirectTcpFrame m = Inr f)"
  by (cases r rule: framed.cases) (auto split: sum.split)

lemma encrypt_Success:
  assumes "dialect = Smb300 \<or> dialect = Smb302"
  shows "encryptSmb3DirectTcpFrame f key sid nonce dialect = Value (Success r) \<longleftrightarrow>
    (\<exists>p m. decodeDirectTcpPayload f = Some (Success p) \<and> length p < 2 ^ 32 \<and>
       sealMessage p key sid nonce dialect = Some (Success m) \<and> encodeDirectTcpFrame m = Inr r)"
  by (rule decodeDirectTcpPayload_cases [of f]) (use assms in \<open>auto simp: encryptSmb3DirectTcpFrame_def framed_Success\<close>)

lemma decrypt_Success:
  assumes "dialect = Smb300 \<or> dialect = Smb302"
  shows "decryptSmb3DirectTcpFrame r key sid dialect = Value (Success f) \<longleftrightarrow>
    (\<exists>m p. decodeDirectTcpPayload r = Some (Success m) \<and> 52 \<le> length m \<and>
       readU32Le m 0 = Some kSmb3TransformProtocolId \<and> openMessage m key sid = Some (Success p) \<and>
       encodeDirectTcpFrame p = Inr f)"
  by (rule decodeDirectTcpPayload_cases [of r]) (use assms in \<open>auto simp: decryptSmb3DirectTcpFrame_def framed_Success\<close>)

lemma encoded_frame: "encodeDirectTcpFrame m = Inr f \<Longrightarrow> length m < 2 ^ 32 \<and> (\<exists>h. f = h @ m \<and> length h = 4)"
  by (auto simp: encodeDirectTcpFrame_def Let_def split: if_split_asm
      intro!: exI [of _ "[_, _, _, _]"])

lemma sealed_frame_opens:
  assumes "encryptSmb3DirectTcpFrame f key sid nonce dialect = Value (Success r)" "length nonce = 16"
    and "wholeFrame f" "dialect = Smb300 \<or> dialect = Smb302"
  obtains tag n m c where "sealedParts m kSmb3TransformProtocolId tag nonce n 0 1 sid c" "encodeDirectTcpFrame m = Inr r"
    "decryptSmb3DirectTcpFrame r key sid dialect = Value (Success f)"
proof -
  have d: "dialect \<noteq> Smb311" using assms(4) by auto
  from assms(1,4) obtain p m where p: "decodeDirectTcpPayload f = Some (Success p)" "length p < 2 ^ 32"
    "sealMessage p key sid nonce dialect = Some (Success m)" "encodeDirectTcpFrame m = Inr r" by (auto simp: encrypt_Success)
  obtain tag c where parts: "sealedParts m kSmb3TransformProtocolId tag nonce (word_of_nat (length p)) 0 1 sid c"
    and opens: "openMessage m key sid = Some (Success p)" using sealed_opens [OF p(3) assms(2) d p(2)] .
  have "encodeDirectTcpFrame p = Inr f" using assms(3) p(1) by (auto simp: wholeFrame_def intro: encode_wholeFrame)
  moreover have "decodeDirectTcpPayload r = Some (Success m)" using decodeDirectTcpPayload_encode [OF p(4), of "[]"] by simp
  ultimately have "decryptSmb3DirectTcpFrame r key sid dialect = Value (Success f)"
    using assms(4) opens sealedParts_reads(1,2) [OF parts] by (auto simp: decrypt_Success)
  with parts p(4) show ?thesis by (rule that)
qed

text \<open>Sealing succeeds with a key of 16 bytes, when the frame has room for the transform header.\<close>

lemma ccmLoop_total: "length nonce \<le> 15 \<Longrightarrow> \<exists>c. ccmLoop k nonce i p = Some c"
proof (induction k nonce i p rule: ccmLoop.induct)
  case (1 k nonce i p)
  then obtain b where b: "counterBlock nonce i = Some b" by (simp add: counterBlock_def Let_def)
  show ?case
  proof (cases "p = []")
    case False
    from 1(1) [OF False b refl 1(2)] False b show ?thesis by (subst ccmLoop.simps) (auto simp: Let_def)
  qed (simp add: ccmLoop.simps)
qed

lemma sealing_succeeds:
  assumes "length key = 16" "length nonce = 16" "dialect = Smb300 \<or> dialect = Smb302"
    and "decodeDirectTcpPayload f = Some (Success p)" "length p + 52 \<le> kMaxDirectTcpPayloadLength"
  shows "\<exists>r. encryptSmb3DirectTcpFrame f key sid nonce dialect = Value (Success r)"
proof -
  have d: "dialect \<noteq> Smb311" using assms(3) by auto
  let ?n = "word_of_nat (length p) :: u32"
  let ?aad = "nonce @ le32 ?n @ le16 0 @ le16 1 @ le64 sid" and ?nonce = "take 11 nonce"
  have shift: "(push_bit 8 ^^ 4) (1 :: u64) = 0x100000000" by (simp add: numeral_eq_Suc)
  have aad: "formatAad ?aad \<noteq> []" "?aad \<noteq> []" using assms(2) by (auto simp: formatAad_def Let_def)
  have nonce: "length ?nonce = 11" "?nonce \<noteq> []" using assms(2) by auto
  have "\<exists>code. cbcMac key ?nonce p ?aad 16 = Some (Success code)"
    using assms(1,5) nonce aad by (simp add: cbcMac_def keyBlockFrom_def Let_def shift)
  then obtain code where code: "cbcMac key ?nonce p ?aad 16 = Some (Success code)" ..
  have counter: "\<exists>b. counterBlock ?nonce i = Some b" for i using nonce by (simp add: counterBlock_def Let_def)
  then have mask: "\<exists>mask. ccmTagMask key ?nonce = Some mask"
    using assms(1) by (auto simp: ccmTagMask_def keyBlockFrom_def bind_eq_Some_conv)
  have "\<exists>c. ccmLoop key ?nonce 1 p = Some c" by (rule ccmLoop_total) (use nonce in simp)
  then obtain c where "ccmCrypt key ?nonce p = Some c" using assms(1) by (auto simp: ccmCrypt_def keyBlockFrom_def)
  with code mask obtain e where e: "aes128CcmEncrypt key ?nonce p ?aad 16 = Some (Success e)"
    by (auto simp: aes128CcmEncrypt_def)
  with assms(2) d obtain m where m: "sealMessage p key sid nonce dialect = Some (Success m)"
    "length m = 52 + length (ccm_ciphertext e)"
    using ccm_opens(2) [OF e] by (simp add: sealMessage_runs Let_def)
  then obtain r where "encodeDirectTcpFrame m = Inr r"
    using assms(5) ccm_opens(3) [OF e] encodeDirectTcpFrame_Inr [of m] by auto
  with m assms(3-5) show ?thesis by (auto simp: encrypt_Success)
qed

section \<open>Nonces\<close>

text \<open>The transport below and the callbacks of a context cannot reach the private counter.\<close>

definition sameNonces :: "'v Smb3State \<Rightarrow> 'v Smb3State \<Rightarrow> bool" where
  "sameNonces s s' \<longleftrightarrow> m_nonceCounter s' = m_nonceCounter s \<and> enc_sent s' = enc_sent s"

definition leavesNonces :: "'v Smb3EncryptionTransport \<Rightarrow> 'v Smb3State OperationContext \<Rightarrow> bool" where
  "leavesNonces t ctx \<longleftrightarrow> (\<forall>inner f s. enc_inner t = Some inner \<longrightarrow> sameNonces s (snd (inner f ctx s)))"

text \<open>A run of \<open>n\<close> exchanges, whatever is asked and whatever comes back.\<close>

inductive encryptionRun :: "'v Smb3EncryptionTransport \<Rightarrow> 'v Smb3State \<Rightarrow> nat \<Rightarrow> 'v Smb3State \<Rightarrow> bool" for t s0 where
  starts: "encryptionRun t s0 0 s0"
| exchanges: "encryptionRun t s0 n s \<Longrightarrow> leavesNonces t ctx \<Longrightarrow>
    encryptionExchange t requestFrame ctx s = (r, s') \<Longrightarrow> encryptionRun t s0 (Suc n) s'"

definition nonceOf :: "bytes \<Rightarrow> bytes option" where
  "nonceOf f = slice f (kDirectTcpHeaderSize + kSmb3TransformNonceOffset)
     (kDirectTcpHeaderSize + kSmb3TransformNonceOffset + kSmb3AesCcmNonceSize)"

definition nonceAt :: "nat \<Rightarrow> bytes" where
  "nonceAt k = take 11 (le64 (word_of_nat k) @ replicate 8 0)"

lemma nonceAt_inject: "k < 2 ^ 64 \<Longrightarrow> l < 2 ^ 64 \<Longrightarrow> nonceAt k = nonceAt l \<Longrightarrow> k = l"
proof -
  assume b: "k < 2 ^ 64" "l < 2 ^ 64" and "nonceAt k = nonceAt l"
  then have "le64 (word_of_nat k) = le64 (word_of_nat l)" by (simp add: nonceAt_def)
  then have "word_of_nat k = (word_of_nat l :: u64)" by (metis read_le_all(3) option.inject)
  then have "unat (word_of_nat k :: u64) = unat (word_of_nat l :: u64)" by simp
  then show "k = l" using b by (simp add: unsigned_of_nat take_bit_nat_eq_self)
qed

lemma word_of_nat_Suc: "word_of_nat (Suc n) = 1 + (word_of_nat n :: u64)"
  by simp

lemma sealed_nonce:
  assumes "encryptSmb3DirectTcpFrame f key sid nonce dialect = Value (Success r)" "length nonce = 16"
    and "dialect = Smb300 \<or> dialect = Smb302"
  shows "nonceOf r = Some (take 11 nonce)"
proof -
  from assms(1,3) obtain p m where m: "length p < 2 ^ 32" "sealMessage p key sid nonce dialect = Some (Success m)"
    "encodeDirectTcpFrame m = Inr r" by (auto simp: encrypt_Success)
  have "dialect \<noteq> Smb311" using assms(3) by auto
  from sealed_opens [OF m(2) assms(2) this m(1)] obtain tag c where
    "sealedParts m kSmb3TransformProtocolId tag nonce (word_of_nat (length p)) 0 1 sid c" by metis
  from sealedParts_reads(7) [OF this] have "slice m 20 31 = Some (take 11 nonce)"
    by (simp add: ccmNonceFromTransformNonce_def)
  moreover obtain h where "r = h @ m" "length h = 4" using encoded_frame [OF m(3)] by auto
  ultimately show ?thesis by (simp add: nonceOf_def slice_append)
qed

lemma encryptionExchange_nonces:
  assumes "encryptionExchange t requestFrame ctx s = (r, s')" "leavesNonces t ctx" "m_nonceCounter s = word_of_nat (Suc n)"
  shows "(m_nonceCounter s' = m_nonceCounter s \<or> m_nonceCounter s' = word_of_nat (Suc (Suc n))) \<and>
    (enc_sent s' = enc_sent s \<or> (\<exists>f. enc_sent s' = enc_sent s @ [f] \<and> nonceOf f = Some (nonceAt (Suc n)) \<and>
       m_nonceCounter s' = word_of_nat (Suc (Suc n))))"
proof -
  let ?nonce = "le64 (1 + word_of_nat n) @ replicate 8 0"
  have keeps: "sameNonces s1 s2" if "enc_inner t = Some inner" "inner f ctx s1 = (q, s2)" for inner f s1 q s2
    using assms(2) that unfolding leavesNonces_def by (metis snd_conv)
  have nonce: "nonceOf f = Some (nonceAt (Suc n))"
    if "encryptSmb3DirectTcpFrame requestFrame (enc_encryptionKey t) (enc_sessionId t) ?nonce (enc_dialect t) = Value (Success f)" for f
  proof -
    have "enc_dialect t = Smb300 \<or> enc_dialect t = Smb302"
      using that by (auto simp: encryptSmb3DirectTcpFrame_def unsupportedDialect_def split: if_split_asm)
    with sealed_nonce [OF that] show ?thesis by (simp add: nonceAt_def)
  qed
  have counter: "m_nonceCounter s = 1 + word_of_nat n" by (simp add: assms(3))
  show ?thesis
    using assms(1) counter
    by (auto simp: encryptionExchange_def nextNonce_def sameNonces_def Let_def
        split: option.split_asm outcome.split_asm DecodeResult.split_asm prod.split_asm
        dest!: keeps nonce)
qed

lemma encryptionRun_nonces:
  assumes "encryptionRun t (newSmb3State v) n s"
  shows "\<exists>m ks. m \<le> n \<and> m_nonceCounter s = word_of_nat (Suc m) \<and> set ks \<subseteq> {1..m} \<and> distinct ks \<and>
    map nonceOf (enc_sent s) = map (\<lambda>k. Some (nonceAt k)) ks"
  using assms
proof (induction)
  case starts
  show ?case by (intro exI [of _ 0] exI [of _ "[]"]) (simp add: newSmb3State_def)
next
  case (exchanges n s ctx requestFrame r s')
  then obtain m ks where m: "m \<le> n" "m_nonceCounter s = word_of_nat (Suc m)" "set ks \<subseteq> {1..m}" "distinct ks"
    "map nonceOf (enc_sent s) = map (\<lambda>k. Some (nonceAt k)) ks" by blast
  from encryptionExchange_nonces [OF exchanges.hyps(3,2) m(2)]
  consider "m_nonceCounter s' = word_of_nat (Suc m)" "enc_sent s' = enc_sent s"
    | "m_nonceCounter s' = word_of_nat (Suc (Suc m))" "enc_sent s' = enc_sent s"
    | f where "m_nonceCounter s' = word_of_nat (Suc (Suc m))" "enc_sent s' = enc_sent s @ [f]"
      "nonceOf f = Some (nonceAt (Suc m))" using m(2) by metis
  then show ?case
  proof cases
    case 1
    with m show ?thesis by (intro exI [of _ m] exI [of _ ks]) simp
  next
    case 2
    with m show ?thesis by (intro exI [of _ "Suc m"] exI [of _ ks]) (auto simp del: of_nat_Suc)
  next
    case 3
    with m show ?thesis
      by (intro exI [of _ "Suc m"] exI [of _ "ks @ [Suc m]"]) (auto simp del: of_nat_Suc)
  qed
qed

section \<open>Staying inside the vectors\<close>

text \<open>With keys of 16 bytes neither direction of the cipher reads outside its vectors.\<close>

lemma ccm_total:
  assumes "length key = 16" "length nonce = 11"
  shows "aes128CcmEncrypt key nonce p aad t \<noteq> None" "aes128CcmDecrypt key nonce p aad tag \<noteq> None"
proof -
  have mac: "\<exists>r. cbcMac key nonce q aad' t' = Some r" for q aad' t'
    using assms(1) by (simp add: cbcMac_def keyBlockFrom_def Let_def)
  have crypt: "\<exists>c. ccmCrypt key nonce q = Some c" for q
    using ccmLoop_total [of nonce] assms by (simp add: ccmCrypt_def keyBlockFrom_def)
  have mask: "\<exists>mask. ccmTagMask key nonce = Some mask"
    using assms by (simp add: ccmTagMask_def keyBlockFrom_def counterBlock_def Let_def)
  have encrypt: "aes128CcmEncrypt key nonce q aad' t' \<noteq> None" for q aad' t'
  proof -
    obtain r where "cbcMac key nonce q aad' t' = Some r" using mac by blast
    with crypt [of q] mask show ?thesis by (cases r) (auto simp: aes128CcmEncrypt_def)
  qed
  then show "aes128CcmEncrypt key nonce p aad t \<noteq> None" .
  show "aes128CcmDecrypt key nonce p aad tag \<noteq> None"
    using crypt [of p] encrypt by (auto simp: aes128CcmDecrypt_def bind_eq_None_conv split: DecodeResult.split)
qed

lemma framed_faultless: "framed r = Fault \<longleftrightarrow> r = None"
  by (cases r rule: framed.cases) (auto split: sum.split)

lemma encrypt_faultless:
  assumes "length key = 16" "length nonce = 16"
  shows "encryptSmb3DirectTcpFrame f key sid nonce dialect \<noteq> Fault"
proof -
  have "sealMessage p key sid nonce dialect \<noteq> None" if "dialect \<noteq> Smb311" for p
    using ccm_total(1) [OF assms(1), of "take 11 nonce"] assms(2) that
    by (auto simp: sealMessage_runs Let_def split: option.split DecodeResult.split)
  then show ?thesis
    by (auto simp: encryptSmb3DirectTcpFrame_def framed_faultless bind_eq_None_conv decodeDirectTcpPayload_total
        split: DecodeResult.split_asm if_split_asm)
qed

lemma openMessage_total:
  assumes "length key = 16" "52 \<le> length m" shows "openMessage m key sid \<noteq> None"
proof -
  have nonce: "length (the (slice m 20 31)) = 11" using assms(2) by (simp add: slice_def)
  show ?thesis
    using assms nonce by (auto simp: openMessage_def in_bounds smb3AadFromHeader_def ccmNonceFromTransformNonce_def ccm_total
      simp del: not_None_eq split: DecodeResult.split_asm)
qed

lemma decrypt_faultless: "length key = 16 \<Longrightarrow> decryptSmb3DirectTcpFrame f key sid dialect \<noteq> Fault"
  by (auto simp: decryptSmb3DirectTcpFrame_def framed_faultless bind_eq_None_conv decodeDirectTcpPayload_total
      openMessage_total split: DecodeResult.split_asm if_split_asm simp del: not_None_eq)

lemma faultless_encryptionExchange:
  assumes "\<And>inner. enc_inner t = Some inner \<Longrightarrow> faultlessTransport inner"
    and "length (enc_encryptionKey t) = 16" "length (enc_decryptionKey t) = 16"
  shows "faultlessTransport (encryptionExchange t)"
  unfolding faultlessTransport_def
proof (intro allI)
  fix f ctx s
  show "fst (encryptionExchange t f ctx s) \<noteq> Fault"
  proof (cases "enc_inner t")
    case (Some inner)
    with assms(1) have i: "inner g ctx w \<noteq> (Fault, w')" for g w w' by (metis faultlessTransport_def fst_conv)
    show ?thesis
      using Some i decrypt_faultless [OF assms(3)]
        encrypt_faultless [OF assms(2), of "le64 (m_nonceCounter s) @ replicate 8 0" f "enc_sessionId t" "enc_dialect t"]
      by (auto simp: encryptionExchange_def nextNonce_def split: outcome.split DecodeResult.split prod.split)
  qed (simp add: encryptionExchange_def)
qed

section \<open>Properties\<close>

text \<open>C10: opening is the exact inverse of sealing. A whole frame with a zero reserved field is
  opened to a frame precisely when it is what sealing that frame with the same key and
  session id gives, under some nonce: nothing that was not sealed with the key is opened.\<close>

theorem opened_iff_sealed:
  assumes "wholeFrame r" "wholeFrame f" "dialect = Smb300 \<or> dialect = Smb302" "readU16Le r 44 = Some 0"
  shows "decryptSmb3DirectTcpFrame r key sid dialect = Value (Success f) \<longleftrightarrow>
    (\<exists>nonce. length nonce = 16 \<and> encryptSmb3DirectTcpFrame f key sid nonce dialect = Value (Success r))"
proof
  have d: "dialect \<noteq> Smb311" using assms(3) by auto
  {
    assume "decryptSmb3DirectTcpFrame r key sid dialect = Value (Success f)"
    then obtain m p where m: "decodeDirectTcpPayload r = Some (Success m)" "52 \<le> length m"
      "readU32Le m 0 = Some kSmb3TransformProtocolId" "openMessage m key sid = Some (Success p)"
      "encodeDirectTcpFrame p = Inr f" using assms(3) by (auto simp: decrypt_Success)
    have r: "encodeDirectTcpFrame m = Inr r" using assms(1) m(1) by (auto simp: wholeFrame_def intro: encode_wholeFrame)
    obtain protocolId tag nonce n reserved algorithm sessionId c where
      parts: "sealedParts m protocolId tag nonce n reserved algorithm sessionId c" using sealedParts_exist [OF m(2)] .
    obtain h where h: "r = h @ m" "length h = 4" using encoded_frame [OF r] by auto
    have "readU16Le m 40 = Some reserved" using parts by (auto simp: sealedParts_def wire)
    with assms(4) h have "reserved = 0" by (simp add: readU16Le_append)
    moreover have "protocolId = kSmb3TransformProtocolId" using sealedParts_reads(2) [OF parts] m(3) by simp
    ultimately have "sealMessage p key sid nonce dialect = Some (Success m)"
      using opened_seals [OF m(4) d, of tag nonce n algorithm sessionId c] parts by simp
    moreover have "decodeDirectTcpPayload f = Some (Success p)" using decodeDirectTcpPayload_encode [OF m(5), of "[]"] by simp
    moreover have "length nonce = 16" using parts by (simp add: sealedParts_def)
    ultimately show "\<exists>nonce. length nonce = 16 \<and> encryptSmb3DirectTcpFrame f key sid nonce dialect = Value (Success r)"
      using assms(3) r encoded_frame [OF m(5)] by (auto simp: encrypt_Success)
  next
    assume "\<exists>nonce. length nonce = 16 \<and> encryptSmb3DirectTcpFrame f key sid nonce dialect = Value (Success r)"
    then show "decryptSmb3DirectTcpFrame r key sid dialect = Value (Success f)"
      using assms(2,3) sealed_frame_opens by metis
  }
qed

text \<open>C9: no nonce is used twice. The first 2^64 - 1 exchanges of an encrypting transport, failed
  ones included, hand down frames whose CCM nonces are pairwise distinct.\<close>

theorem nonces_never_repeat:
  assumes "encryptionRun t (newSmb3State v) n s" "n < 2 ^ 64"
  shows "distinct (map nonceOf (enc_sent s))"
proof -
  obtain m ks where m: "m \<le> n" "set ks \<subseteq> {1..m}" "distinct ks"
    "map nonceOf (enc_sent s) = map (\<lambda>k. Some (nonceAt k)) ks"
    using encryptionRun_nonces [OF assms(1)] by blast
  have "k < 2 ^ 64" if "k \<in> set ks" for k using that m(1,2) assms(2) by fastforce
  then have "inj_on (\<lambda>k. Some (nonceAt k)) (set ks)" by (auto intro!: inj_onI nonceAt_inject)
  with m(3,4) show ?thesis by (simp add: distinct_map)
qed


text \<open>An empty message, sealed with a key of zeros and echoed by the transport below.\<close>

definition echoing :: "unit Smb3EncryptionTransport" where
  "echoing = \<lparr>enc_inner = Some (\<lambda>f ctx s. (Value (Success f), s)), enc_encryptionKey = replicate 16 0,
     enc_decryptionKey = replicate 16 0, enc_sessionId = 7, enc_dialect = Smb300\<rparr>"

lemma emptyFrame: "decodeDirectTcpPayload [0, 0, 0, 0] = Some (Success [])" "wholeFrame [0, 0, 0, 0]"
  by (simp_all add: wholeFrame_def decodeDirectTcpPayload_def decodeDirectTcpPayloadLength_def byte_at_def slice_def)

lemma echoing_exchange:
  "\<exists>r. encryptionExchange echoing [0, 0, 0, 0] plainContext s = (Value (Success [0, 0, 0, 0]),
     s\<lparr>m_nonceCounter := m_nonceCounter s + 1, enc_sent := enc_sent s @ [r]\<rparr>)"
proof -
  let ?nonce = "le64 (m_nonceCounter s) @ replicate 8 0"
  obtain r where r: "encryptSmb3DirectTcpFrame [0, 0, 0, 0] (replicate 16 0) 7 ?nonce Smb300 = Value (Success r)"
    using sealing_succeeds [of "replicate 16 0" ?nonce Smb300 "[0, 0, 0, 0]" "[]" 7] emptyFrame by auto
  then have "decryptSmb3DirectTcpFrame r (replicate 16 0) 7 Smb300 = Value (Success [0, 0, 0, 0])"
    using sealed_frame_opens [OF r _ emptyFrame(2)] by auto
  with r show ?thesis
    by (intro exI [of _ r]) (simp add: encryptionExchange_def echoing_def nextNonce_def)
qed

theorem opened_iff_sealed_witness:
  "\<exists>r. decryptSmb3DirectTcpFrame r (replicate 16 0) 7 Smb300 = Value (Success [0, 0, 0, 0])"
proof -
  let ?nonce = "replicate 16 0 :: bytes"
  obtain r where r: "encryptSmb3DirectTcpFrame [0, 0, 0, 0] (replicate 16 0) 7 ?nonce Smb300 = Value (Success r)"
    using sealing_succeeds [of "replicate 16 0" ?nonce Smb300 "[0, 0, 0, 0]" "[]" 7] emptyFrame by auto
  then obtain tag n m c where m: "sealedParts m kSmb3TransformProtocolId tag ?nonce n 0 1 7 c"
    "encodeDirectTcpFrame m = Inr r" by (rule sealed_frame_opens [OF _ _ emptyFrame(2)]) auto
  obtain h where h: "r = h @ m" "length h = 4" using encoded_frame [OF m(2)] by auto
  have "wholeFrame r" using decodeDirectTcpPayload_encode [OF m(2), of "[]"] h by (auto simp: wholeFrame_def)
  moreover have "readU16Le r 44 = Some 0"
    using m(1) h by (simp add: sealedParts_def wire)
  ultimately show ?thesis
    using r opened_iff_sealed [OF _ emptyFrame(2), of r Smb300 "replicate 16 0" 7] by (metis length_replicate)
qed

theorem nonces_never_repeat_witness:
  "\<exists>s. length (enc_sent s) = 2 \<and> encryptionRun echoing (newSmb3State ()) 2 s \<and> distinct (map nonceOf (enc_sent s))"
proof -
  have leaves: "leavesNonces echoing plainContext" by (simp add: leavesNonces_def sameNonces_def echoing_def)
  obtain r where r: "encryptionExchange echoing [0, 0, 0, 0] plainContext (newSmb3State ()) =
    (Value (Success [0, 0, 0, 0]), (newSmb3State ())\<lparr>m_nonceCounter := 1 + 1, enc_sent := [] @ [r]\<rparr>)"
    using echoing_exchange [of "newSmb3State ()"] by (auto simp: newSmb3State_def)
  let ?s = "(newSmb3State ())\<lparr>m_nonceCounter := 1 + 1, enc_sent := [] @ [r]\<rparr>"
  obtain r' where r': "encryptionExchange echoing [0, 0, 0, 0] plainContext ?s =
    (Value (Success [0, 0, 0, 0]), ?s\<lparr>m_nonceCounter := m_nonceCounter ?s + 1, enc_sent := enc_sent ?s @ [r']\<rparr>)"
    using echoing_exchange [of ?s] by blast
  let ?t = "?s\<lparr>m_nonceCounter := m_nonceCounter ?s + 1, enc_sent := enc_sent ?s @ [r']\<rparr>"
  have run: "encryptionRun echoing (newSmb3State ()) 2 ?t"
    using encryptionRun.exchanges [OF encryptionRun.exchanges [OF encryptionRun.starts leaves r] leaves r']
    by (simp add: numeral_2_eq_2)
  have "distinct (map nonceOf (enc_sent ?t))" by (rule nonces_never_repeat [OF run]) simp
  with run show ?thesis by (intro exI [of _ ?t]) simp
qed


text \<open>The length field of a nonce of at most 7 bytes is 8 bytes or longer, and the bound on the
  message wraps to zero: such nonces, which the standard allows from 7 bytes on, are refused.\<close>

lemma short_nonces_refused:
  assumes "length nonce \<le> 7" shows "cbcMac key nonce p aad t \<noteq> Some (Success code)"
proof -
  have "(push_bit 8 ^^ n) (1 :: u64) = 2 ^ (8 * n)" for n
    by (induction n) (simp_all add: push_bit_eq_mult power_add)
  moreover have "(2 :: u64) ^ (8 * (15 - length nonce)) = 0"
    using assms by (simp only: exp_eq_zero_iff) simp
  ultimately have "(push_bit 8 ^^ (15 - length nonce)) (1 :: u64) = 0" by metis
  then show ?thesis by (simp add: cbcMac_def Let_def)
qed

text \<open>A short key is read beyond its end before its length is checked.\<close>

lemma short_key_faults: "length key < 16 \<Longrightarrow> aes128CcmDecrypt key nonce c aad tag = None"
  by (simp add: aes128CcmDecrypt_def ccmCrypt_def keyBlockFrom_def)

end
