(* ===== verification/Connection.thy ===== *)
theory Connection
  imports SessionIds Encryption
begin

text \<open>
  Setting up and closing a connection: \<open>Negotiator.cpp\<close>, \<open>NativeSmbConnector.cpp\<close> and the
  teardown of \<open>NativeSmbConnection.cpp\<close>. The connector negotiates, authenticates in rounds,
  then wraps the transport for signing and encryption as the policy and the server ask, and
  connects the tree. The transports it stacks are a datatype, so that a connection can be
  asked what protects it; the token provider is a record of functions of the outside world,
  and SHA-512 (libsodium) is an argument.
\<close>

section \<open>Negotiation\<close>

abbreviation (input) CapDfs :: u32 where "CapDfs \<equiv> 0x00000001"
abbreviation (input) CapLargeMtu :: u32 where "CapLargeMtu \<equiv> 0x00000004"

record NegotiatedConnection =
  ngc_dialect :: Dialect
  ngc_signingRequired :: bool
  ngc_encryptionSupported :: bool
  ngc_capabilities :: u32
  ngc_maxReadSize :: u32
  ngc_maxWriteSize :: u32
  ngc_securityBuffer :: bytes
  ngc_preauthIntegrityHash :: bytes

definition hasCapability :: "u32 \<Rightarrow> u32 \<Rightarrow> bool" where
  "hasCapability capabilities capability = (capabilities AND capability \<noteq> 0)"

definition negotiatedHash :: "(bytes \<Rightarrow> bytes) \<Rightarrow> Dialect \<Rightarrow> bytes \<Rightarrow> bytes \<Rightarrow> bytes DecodeResult" where
  "negotiatedHash crypto_hash_sha512 dialect requestPayload payload =
    (if dialect = Smb311 then
       case updateSmb311PreauthHash crypto_hash_sha512 initialSmb311PreauthHash requestPayload of
         Failure e \<Rightarrow> failureFrom e
       | Success updated \<Rightarrow>
           case updateSmb311PreauthHash crypto_hash_sha512 updated payload of
             Failure e \<Rightarrow> failureFrom e | Success updated \<Rightarrow> Success updated
     else Success [])"

definition negotiate ::
  "(bytes \<Rightarrow> bytes) \<Rightarrow> 'w Transport \<Rightarrow> NegotiateRequestOptions \<Rightarrow> 'w OperationContext \<Rightarrow>
   ('w, 'z, NegotiatedConnection) prog" where
  "negotiate crypto_hash_sha512 transport options context =
     unlessCancelled context (failure EcCancelled ''SMB negotiation was cancelled.'') (
     onSuccess (transmit transport context (buildNegotiateRequest options 0)) failureFrom (\<lambda>responseFrame.
     unlessCancelled context (failure EcCancelled ''SMB negotiation was cancelled.'') (
     onSuccess (checked (decodeDirectTcpPayload responseFrame)) failureFrom (\<lambda>payload.
     onSuccess (checked (decodeNegotiateResponse payload (effectiveDialects options))) failureFrom (\<lambda>response.
     built (buildNegotiateRequest options 0) (\<lambda>requestPayload.
     onSuccess (giving (negotiatedHash crypto_hash_sha512 (ner_dialect response) requestPayload payload)) failureFrom
       (\<lambda>preauthIntegrityHash. giving (Success
         \<lparr>ngc_dialect = ner_dialect response,
          ngc_signingRequired = (ner_securityMode response AND 0x0002 \<noteq> 0 \<or> neg_signing options = Required),
          ngc_encryptionSupported = hasCapability (ner_capabilities response) CapEncryption,
          ngc_capabilities = ner_capabilities response,
          ngc_maxReadSize = ner_maxReadSize response,
          ngc_maxWriteSize = ner_maxWriteSize response,
          ngc_securityBuffer = ner_securityBuffer response,
          ngc_preauthIntegrityHash = preauthIntegrityHash\<rparr>))))))))"

section \<open>Configuration and tokens\<close>

datatype DialectFamily = Smb2AndSmb3

datatype AuthMode = PasswordMode | GuestMode | AnonymousMode | CurrentUserMode

record ConnectionConfig =
  cfg_server :: bytes
  cfg_share :: bytes
  cfg_normalizedUri :: bytes
  cfg_domain :: bytes
  cfg_username :: bytes
  cfg_authMode :: AuthMode
  cfg_dialectFamily :: DialectFamily
  cfg_signing :: SecurityPolicy
  cfg_encryption :: SecurityPolicy
  cfg_timeout :: int

record NativeSmbConnectorOptions =
  nco_config :: ConnectionConfig
  nco_negotiateOptions :: NegotiateRequestOptions
  nco_firstSessionMessageId :: u64
  nco_maxSessionSetupRounds :: u16

text \<open>The interface \<open>SessionSetupTokenProvider\<close>; what a provider remembers is part of the
  outside world.\<close>

record 'w TokenProvider =
  tp_initialToken :: "NegotiatedConnection \<Rightarrow> ConnectionConfig \<Rightarrow> 'w \<Rightarrow> bytes DecodeResult outcome \<times> 'w"
  tp_nextToken :: "SessionSetupResponse \<Rightarrow> ConnectionConfig \<Rightarrow> 'w \<Rightarrow> bytes DecodeResult outcome \<times> 'w"
  tp_sessionBaseKey :: "'w \<Rightarrow> bytes DecodeResult"

definition asking :: "('w \<Rightarrow> 'a DecodeResult outcome \<times> 'w) \<Rightarrow> ('w, 'z, 'a) prog" where
  "asking f s = (let (r, w) = f (net_world s) in (r, s\<lparr>net_world := w\<rparr>))"

section \<open>Stacked transports\<close>

datatype 'w TransportStack =
    Wire "'w Transport"
  | SignedWith bytes Dialect "'w TransportStack"
  | SealedWith bytes bytes u64 Dialect "'w TransportStack"

fun exchangeOver :: "'v Smb3State TransportStack \<Rightarrow> 'v Smb3State Transport" where
  "exchangeOver (Wire transport) = transport"
| "exchangeOver (SignedWith key dialect inner) = signingExchange
     \<lparr>sgt_inner = Some (exchangeOver inner), sgt_sessionKey = key, sgt_dialect = dialect, sgt_verifyResponses = True\<rparr>"
| "exchangeOver (SealedWith encryptionKey decryptionKey sessionId dialect inner) = encryptionExchange
     \<lparr>enc_inner = Some (exchangeOver inner), enc_encryptionKey = encryptionKey, enc_decryptionKey = decryptionKey,
      enc_sessionId = sessionId, enc_dialect = dialect\<rparr>"

section \<open>The options of the requests\<close>

definition negotiateOptionsFrom :: "NativeSmbConnectorOptions \<Rightarrow> NegotiateRequestOptions" where
  "negotiateOptionsFrom options =
    (let negotiateOptions = (nco_negotiateOptions options)\<lparr>neg_signing := cfg_signing (nco_config options)\<rparr>;
         negotiateOptions = negotiateOptions
           \<lparr>neg_capabilities := neg_capabilities negotiateOptions OR capabilityMask [CapDfs, CapLargeMtu]\<rparr>
     in if cfg_encryption (nco_config options) \<noteq> Disabled
        then negotiateOptions\<lparr>neg_capabilities := neg_capabilities negotiateOptions OR capabilityMask [CapEncryption]\<rparr>
        else negotiateOptions)"

definition sessionSetupOptionsFrom :: "NativeSmbConnectorOptions \<Rightarrow> bytes \<Rightarrow> SessionSetupRequestOptions" where
  "sessionSetupOptionsFrom options token =
     \<lparr>sso_flags = 0, sso_signing = cfg_signing (nco_config options),
      sso_capabilities = (let mask = capabilityMask [CapDfs, CapLargeMtu] in
        if cfg_encryption (nco_config options) \<noteq> Disabled then mask OR capabilityMask [CapEncryption] else mask),
      sso_previousSessionId = 0, sso_securityBuffer = token\<rparr>"

definition supportsAesCcmEncryption :: "Dialect \<Rightarrow> bool" where
  "supportsAesCcmEncryption dialect = (dialect = Smb300 \<or> dialect = Smb302)"

section \<open>Authentication\<close>

text \<open>Where the loop stands: the last answer, the session id, the next message id and the
  pre-authentication hash.\<close>

record SetupState =
  sst_session :: SessionSetupResponse
  sst_sessionId :: u64
  sst_messageId :: u64
  sst_preauthHash :: bytes

definition hashRound :: "(bytes \<Rightarrow> bytes) \<Rightarrow> Dialect \<Rightarrow> bytes \<Rightarrow> SessionSetupResponse \<Rightarrow> bytes DecodeResult" where
  "hashRound crypto_hash_sha512 dialect preauthIntegrityHash session =
    (if dialect = Smb311 then
       case updateSmb311PreauthHash crypto_hash_sha512 preauthIntegrityHash (ssr_requestPayload session) of
         Failure e \<Rightarrow> failureFrom e
       | Success updated \<Rightarrow>
           if ssr_moreProcessingRequired session then
             case updateSmb311PreauthHash crypto_hash_sha512 updated (ssr_responsePayload session) of
               Failure e \<Rightarrow> failureFrom e | Success updated \<Rightarrow> Success updated
           else Success updated
     else Success preauthIntegrityHash)"

text \<open>One turn of the loop; \<open>rest\<close> is what follows when the server asks for another token.\<close>

definition setupRound ::
  "(bytes \<Rightarrow> bytes) \<Rightarrow> 'w Transport \<Rightarrow> 'w TokenProvider \<Rightarrow> NativeSmbConnectorOptions \<Rightarrow> 'w OperationContext \<Rightarrow>
   Dialect \<Rightarrow> (bytes \<Rightarrow> u64 \<Rightarrow> u64 \<Rightarrow> bytes \<Rightarrow> ('w, 'z, SetupState) prog) \<Rightarrow>
   bytes \<Rightarrow> u64 \<Rightarrow> u64 \<Rightarrow> bytes \<Rightarrow> ('w, 'z, SetupState) prog" where
  "setupRound crypto_hash_sha512 transport provider options context dialect rest token messageId sessionId hash =
     onSuccess (sessionSetupExchange transport (sessionSetupOptionsFrom options token) messageId sessionId context)
       failureFrom (\<lambda>session.
     onSuccess (giving (hashRound crypto_hash_sha512 dialect hash session)) failureFrom (\<lambda>hash.
     if \<not> ssr_moreProcessingRequired session
     then giving (Success \<lparr>sst_session = session, sst_sessionId = ssr_sessionId session,
       sst_messageId = messageId + 1, sst_preauthHash = hash\<rparr>)
     else onSuccess (asking (tp_nextToken provider session (nco_config options))) failureFrom (\<lambda>token.
       rest token (messageId + 1) (ssr_sessionId session) hash)))"

primrec setupLoop ::
  "nat \<Rightarrow> (bytes \<Rightarrow> bytes) \<Rightarrow> 'w Transport \<Rightarrow> 'w TokenProvider \<Rightarrow> NativeSmbConnectorOptions \<Rightarrow>
   'w OperationContext \<Rightarrow> Dialect \<Rightarrow> bytes \<Rightarrow> u64 \<Rightarrow> u64 \<Rightarrow> bytes \<Rightarrow> ('w, 'z, SetupState) prog" where
  "setupLoop 0 crypto_hash_sha512 transport provider options context dialect token messageId sessionId hash =
     giving (failure EcInternalError ''SMB SESSION_SETUP exceeded round limit.'')"
| "setupLoop (Suc rounds) crypto_hash_sha512 transport provider options context dialect token messageId sessionId hash =
     setupRound crypto_hash_sha512 transport provider options context dialect
       (setupLoop rounds crypto_hash_sha512 transport provider options context dialect) token messageId sessionId hash"

section \<open>Protecting the connection\<close>

definition unsupportedEncryption :: "string \<Rightarrow> 'a DecodeResult" where
  "unsupportedEncryption message = failure EcUnsupportedCapability message"

text \<open>The key that signs: the session key itself, or what the dialect derives from it.\<close>

definition signingKeyFor :: "Dialect \<Rightarrow> bytes \<Rightarrow> bytes \<Rightarrow> bytes DecodeResult" where
  "signingKeyFor dialect sessionKey preauthIntegrityHash =
    (if dialect = Smb311 then deriveSmb311SigningKey sessionKey preauthIntegrityHash
     else if supportsAesCmacSigning dialect then deriveSmb3SigningKey sessionKey dialect
     else Success sessionKey)"

text \<open>The result of a program, failed or not, handed to what follows.\<close>

definition attempting :: "('w, 'z, 'a) prog \<Rightarrow> ('a DecodeResult \<Rightarrow> ('w, 'z, 'b) prog) \<Rightarrow> ('w, 'z, 'b) prog" where
  "attempting call continue s =
    (case call s of
       (Value r, s') \<Rightarrow> continue r s'
     | (Thrown m, s') \<Rightarrow> (Thrown m, s') | (Fault, s') \<Rightarrow> (Fault, s') | (NoFuel, s') \<Rightarrow> (NoFuel, s'))"

text \<open>The last SESSION_SETUP answer must verify when it is signed or signing is required.\<close>

definition verifyFinalSession ::
  "NegotiatedConnection \<Rightarrow> SessionSetupResponse \<Rightarrow> bytes \<Rightarrow> ('w, 'z, bool) prog" where
  "verifyFinalSession negotiated session signingKey =
     built (encodeDirectTcpFrame (ssr_responsePayload session)) (\<lambda>finalSessionFrame.
     attempting (checked (decodeDirectTcpPayload finalSessionFrame)) (\<lambda>finalSessionPayload.
       case finalSessionPayload of
         Failure e \<Rightarrow> giving (Success True)
       | Success payload \<Rightarrow>
           attempting (checked (decodeSmb2SyncHeader payload)) (\<lambda>finalSessionHeader.
             let finalSessionIsSigned = (case finalSessionHeader of
                   Failure e \<Rightarrow> False | Success header \<Rightarrow> hdr_flags header AND kFlagSigned \<noteq> 0) in
             if \<not> (finalSessionIsSigned \<or> ngc_signingRequired negotiated) then giving (Success True)
             else onSuccess (checked (verifySmb2DirectTcpFrameSignature finalSessionFrame signingKey
                    (ngc_dialect negotiated))) failureFrom
               (\<lambda>finalSessionVerified. giving
                 (if finalSessionVerified then Success True
                  else failure EcProtocolUnsupported
                    ''SMB2 final SESSION_SETUP response has an invalid signature.'')))))"

definition shouldSignConnection :: "NativeSmbConnectorOptions \<Rightarrow> NegotiatedConnection \<Rightarrow> SessionSetupResponse \<Rightarrow> bool" where
  "shouldSignConnection options negotiated session =
     ((ngc_signingRequired negotiated \<or> cfg_signing (nco_config options) \<noteq> Disabled) \<and>
      \<not> ssr_guestSession session \<and> \<not> ssr_nullSession session)"

definition signConnection ::
  "NativeSmbConnectorOptions \<Rightarrow> NegotiatedConnection \<Rightarrow> SetupState \<Rightarrow> bytes \<Rightarrow> 'v Smb3State TransportStack \<Rightarrow>
   ('v Smb3State, 'z, 'v Smb3State TransportStack) prog" where
  "signConnection options negotiated setup sessionKey stack =
    (if \<not> shouldSignConnection options negotiated (sst_session setup) then giving (Success stack)
     else if \<not> supportsSigning (ngc_dialect negotiated)
     then giving (failure EcUnsupportedCapability
       ''Clean-room SMB signing is not implemented for the negotiated dialect.'')
     else onSuccess (giving (signingKeyFor (ngc_dialect negotiated) sessionKey (sst_preauthHash setup))) failureFrom
       (\<lambda>signingKey.
     onSuccess (verifyFinalSession negotiated (sst_session setup) signingKey) failureFrom (\<lambda>_.
     giving (Success (SignedWith signingKey (ngc_dialect negotiated) stack)))))"

definition sessionCanEncrypt :: "NegotiatedConnection \<Rightarrow> SessionSetupResponse \<Rightarrow> bool" where
  "sessionCanEncrypt negotiated session =
     (ngc_encryptionSupported negotiated \<and> supportsAesCcmEncryption (ngc_dialect negotiated) \<and>
      \<not> ssr_guestSession session \<and> \<not> ssr_nullSession session)"

text \<open>What \<open>enableEncryption\<close> captures by reference and changes.\<close>

record 'w Protection =
  prt_stack :: "'w TransportStack"
  prt_sessionKey :: bytes
  prt_encrypted :: bool

definition keyed :: "'w TokenProvider \<Rightarrow> bytes \<Rightarrow> ('w, 'z, bytes) prog" where
  "keyed provider sessionKey s =
    (if sessionKey = [] then onSuccess (\<lambda>s. (Value (tp_sessionBaseKey provider (net_world s)), s)) failureFrom
       (\<lambda>key. giving (Success key)) s
     else giving (Success sessionKey) s)"

text \<open>The new transport starts with its own counter of nonces.\<close>

definition startNonces :: "('v Smb3State, 'z, 'a) prog \<Rightarrow> ('v Smb3State, 'z, 'a) prog" where
  "startNonces continue s = continue (s\<lparr>net_world := (net_world s)\<lparr>m_nonceCounter := 1\<rparr>\<rparr>)"

definition enableEncryption ::
  "'v Smb3State TokenProvider \<Rightarrow> NegotiatedConnection \<Rightarrow> SetupState \<Rightarrow> 'v Smb3State Protection \<Rightarrow>
   ('v Smb3State, 'z, 'v Smb3State Protection) prog" where
  "enableEncryption provider negotiated setup p =
    (if prt_encrypted p then giving (Success p)
     else if \<not> sessionCanEncrypt negotiated (sst_session setup)
     then giving (unsupportedEncryption (''SMB encryption is required, but the negotiated connection does not ''
       @ ''support the clean-room AES-CCM transform layer.''))
     else onSuccess (keyed provider (prt_sessionKey p)) failureFrom (\<lambda>sessionKey.
       onSuccess (giving (deriveSmb3EncryptionKey sessionKey (ngc_dialect negotiated) ClientToServer)) failureFrom
         (\<lambda>encryptionKey.
       onSuccess (giving (deriveSmb3EncryptionKey sessionKey (ngc_dialect negotiated) ServerToClient)) failureFrom
         (\<lambda>decryptionKey.
       startNonces (giving (Success
         \<lparr>prt_stack = SealedWith encryptionKey decryptionKey (sst_sessionId setup) (ngc_dialect negotiated) (prt_stack p),
          prt_sessionKey = sessionKey, prt_encrypted = True\<rparr>))))))"

text \<open>\<open>if (condition) { enableEncryption(); return its failure }\<close>\<close>

definition encryptWhen ::
  "bool \<Rightarrow> 'v Smb3State TokenProvider \<Rightarrow> NegotiatedConnection \<Rightarrow> SetupState \<Rightarrow> 'v Smb3State Protection \<Rightarrow>
   ('v Smb3State, 'z, 'v Smb3State Protection) prog" where
  "encryptWhen condition provider negotiated setup p =
    (if condition then enableEncryption provider negotiated setup p else giving (Success p))"

section \<open>The tree\<close>

definition trueOrFalse :: "bool \<Rightarrow> string" where
  "trueOrFalse b = (if b then ''true'' else ''false'')"

definition treeConnectFailureFrom :: "ProtocolError \<Rightarrow> NegotiatedConnection \<Rightarrow> SessionSetupResponse \<Rightarrow> 'a DecodeResult" where
  "treeConnectFailureFrom e negotiated session =
     failure (pe_code e) (pe_message e @ '' negotiated_dialect=0x'' @ hexPlain (ngc_dialect negotiated)
       @ '' signing_required='' @ trueOrFalse (ngc_signingRequired negotiated)
       @ '' encryption_supported='' @ trueOrFalse (ngc_encryptionSupported negotiated)
       @ '' session_encrypt='' @ trueOrFalse (ssr_encryptData session)
       @ '' guest='' @ trueOrFalse (ssr_guestSession session)
       @ '' null_session='' @ trueOrFalse (ssr_nullSession session) @ ''.'')"

definition treeOptions :: "NativeSmbConnectorOptions \<Rightarrow> TreeConnectRequestOptions" where
  "treeOptions options =
     \<lparr>tco_server = cfg_server (nco_config options), tco_share = cfg_share (nco_config options), tco_flags = 0\<rparr>"

text \<open>The tree is connected once, and once more over encryption when the server refuses the
  first attempt and the policy prefers encryption.\<close>

definition connectTree ::
  "'v Smb3State TokenProvider \<Rightarrow> NativeSmbConnectorOptions \<Rightarrow> 'v Smb3State OperationContext \<Rightarrow> NegotiatedConnection \<Rightarrow>
   SetupState \<Rightarrow> 'v Smb3State Protection \<Rightarrow>
   ('v Smb3State, 'z, TreeConnectResult \<times> u64 \<times> 'v Smb3State Protection) prog" where
  "connectTree provider options context negotiated setup p =
    (let messageId = sst_messageId setup;
         connectOver = \<lambda>p messageId. treeConnect (exchangeOver (prt_stack p)) (treeOptions options) messageId
           (sst_sessionId setup) context;
         refused = \<lambda>e. treeConnectFailureFrom e negotiated (sst_session setup)
     in attempting (connectOver p messageId) (\<lambda>tree.
       case tree of
         Success t \<Rightarrow> giving (Success (t, messageId + 1, p))
       | Failure e \<Rightarrow>
           if pe_code e = EcPermissionDenied \<and> cfg_encryption (nco_config options) = Preferred \<and>
              sessionCanEncrypt negotiated (sst_session setup) \<and> \<not> prt_encrypted p
           then onSuccess (enableEncryption provider negotiated setup p) failureFrom (\<lambda>p.
             onSuccess (connectOver p (messageId + 1)) refused (\<lambda>t. giving (Success (t, messageId + 2, p))))
           else giving (refused e)))"

section \<open>NativeSmbConnector\<close>

record 'w NativeSmbConnectedState =
  ncs_transport :: "'w TransportStack"
  ncs_treeId :: u32
  ncs_sessionId :: u64
  ncs_firstMessageId :: u64
  ncs_negotiated :: NegotiatedConnection
  ncs_session :: SessionSetupResponse
  ncs_tree :: TreeConnectResult

text \<open>What the policy asks of the negotiated connection.\<close>

definition checkNegotiated :: "NativeSmbConnectorOptions \<Rightarrow> NegotiatedConnection \<Rightarrow> bool DecodeResult" where
  "checkNegotiated options negotiated =
    (if cfg_encryption (nco_config options) = Required then
       if \<not> ngc_encryptionSupported negotiated
       then unsupportedEncryption (''SMB encryption is required by policy, but the server did not ''
         @ ''advertise SMB3 encryption support.'')
       else if \<not> supportsAesCcmEncryption (ngc_dialect negotiated)
       then unsupportedEncryption (''SMB encryption is required by policy, but the negotiated dialect is ''
         @ ''not supported by the clean-room AES-CCM transform layer.'')
       else Success True
     else Success True)"

definition checkSession :: "NativeSmbConnectorOptions \<Rightarrow> NegotiatedConnection \<Rightarrow> SetupState \<Rightarrow> bool DecodeResult" where
  "checkSession options negotiated setup =
    (if sst_sessionId setup = 0
     then failure EcInternalError ''SMB SESSION_SETUP completed without a session id.''
     else if (ssr_encryptData (sst_session setup) \<or> cfg_encryption (nco_config options) = Required) \<and>
       \<not> sessionCanEncrypt negotiated (sst_session setup)
     then unsupportedEncryption (''SMB encryption is required, but the negotiated ''
       @ ''connection does not support the clean-room AES-CCM transform layer.'')
     else Success True)"

definition needsSessionKey :: "NativeSmbConnectorOptions \<Rightarrow> NegotiatedConnection \<Rightarrow> SessionSetupResponse \<Rightarrow> bool" where
  "needsSessionKey options negotiated session =
     (shouldSignConnection options negotiated session \<or> ssr_encryptData session \<or>
      cfg_encryption (nco_config options) = Required)"

text \<open>What follows authentication: keys, signing, encryption and the tree.\<close>

definition protectAndMount ::
  "'v Smb3State TokenProvider \<Rightarrow> NativeSmbConnectorOptions \<Rightarrow> 'v Smb3State OperationContext \<Rightarrow> NegotiatedConnection \<Rightarrow>
   SetupState \<Rightarrow> 'v Smb3State TransportStack \<Rightarrow>
   ('v Smb3State, 'z, 'v Smb3State NativeSmbConnectedState) prog" where
  "protectAndMount provider options context negotiated setup stack =
    (let session = sst_session setup in
     onSuccess (giving (checkSession options negotiated setup)) failureFrom (\<lambda>_.
     onSuccess (if needsSessionKey options negotiated session then keyed provider [] else giving (Success []))
       failureFrom (\<lambda>sessionKey.
     onSuccess (signConnection options negotiated setup sessionKey stack) failureFrom (\<lambda>stack.
     onSuccess (encryptWhen (ssr_encryptData session \<or> cfg_encryption (nco_config options) = Required)
         provider negotiated setup \<lparr>prt_stack = stack, prt_sessionKey = sessionKey, prt_encrypted = False\<rparr>)
       failureFrom (\<lambda>p.
     onSuccess (connectTree provider options context negotiated setup p) failureFrom (\<lambda>(tree, messageId, p).
     onSuccess (encryptWhen ((ssr_encryptData session \<or> tre_requiresEncryption tree \<or>
           cfg_encryption (nco_config options) = Required) \<and> \<not> prt_encrypted p) provider negotiated setup p)
       failureFrom (\<lambda>p.
     giving (Success
       \<lparr>ncs_transport = prt_stack p, ncs_treeId = tre_treeId tree, ncs_sessionId = sst_sessionId setup,
        ncs_firstMessageId = messageId, ncs_negotiated = negotiated, ncs_session = session, ncs_tree = tree\<rparr>))))))))"

definition connect ::
  "(bytes \<Rightarrow> bytes) \<Rightarrow> 'v Smb3State Transport option \<Rightarrow> 'v Smb3State TokenProvider \<Rightarrow> NativeSmbConnectorOptions \<Rightarrow>
   'v Smb3State OperationContext \<Rightarrow> ('v Smb3State, 'z, 'v Smb3State NativeSmbConnectedState) prog" where
  "connect crypto_hash_sha512 transport provider options context =
    (case transport of
       None \<Rightarrow> giving (failure EcInternalError ''Native SMB connector requires a transport.'')
     | Some wire \<Rightarrow>
         onSuccess (negotiate crypto_hash_sha512 wire (negotiateOptionsFrom options) context) failureFrom (\<lambda>negotiated.
         onSuccess (giving (checkNegotiated options negotiated)) failureFrom (\<lambda>_.
         onSuccess (asking (tp_initialToken provider negotiated (nco_config options))) failureFrom (\<lambda>token.
         onSuccess (setupLoop
             (if nco_maxSessionSetupRounds options = 0 then 1 else unat (nco_maxSessionSetupRounds options))
             crypto_hash_sha512 wire provider options context (ngc_dialect negotiated) token
             (if nco_firstSessionMessageId options = 0 then 1 else nco_firstSessionMessageId options) 0
             (ngc_preauthIntegrityHash negotiated)) failureFrom (\<lambda>setup.
         protectAndMount provider options context negotiated setup (Wire wire))))))"

section \<open>NativeSmbConnection\<close>

record 'w Connection = "'w Session" +
  m_disconnected :: bool

definition newConnection :: "'w NativeSmbConnectedState \<Rightarrow> 'w \<Rightarrow> 'w Connection" where
  "newConnection st w =
    (let session = newSession w (ncs_treeId st) (ncs_sessionId st) (ncs_firstMessageId st) in
     \<lparr>net_world = net_world session, net_sent = net_sent session, m_treeId = m_treeId session,
      m_sessionId = m_sessionId session, m_nextMessageId = m_nextMessageId session, m_disconnected = False\<rparr>)"

definition teardownStep ::
  "'w Transport \<Rightarrow> 'w OperationContext \<Rightarrow> (u64 \<Rightarrow> bytes) \<Rightarrow> (bytes \<Rightarrow> 'r DecodeResult option) \<Rightarrow>
   ('w, 'y, bool) sprog \<Rightarrow> ('w, 'y, bool) sprog" where
  "teardownStep transport context request decode continue s =
    (let (messageId, s) = allocateMessageIds 1 s in
     onSuccess (exchangePayload transport context (Inr (request messageId))) failureFrom (\<lambda>payload.
     onSuccess (checked (decode payload)) failureFrom (\<lambda>_. continue)) s)"

definition disconnect :: "'w Transport option \<Rightarrow> 'w OperationContext \<Rightarrow> 'w Connection \<Rightarrow> bool DecodeResult outcome \<times> 'w Connection" where
  "disconnect transport context s =
    (if m_disconnected s then (Value (Success True), s)
     else case transport of
       None \<Rightarrow> (Value (failure EcInternalError ''Native SMB connection has no transport.''), s)
     | Some transport \<Rightarrow>
         teardownStep transport context (\<lambda>mid. buildTreeDisconnectRequest mid (m_treeId s) (m_sessionId s))
           decodeTreeDisconnectResponse
         (teardownStep transport context (\<lambda>mid. buildLogoffRequest mid (m_sessionId s)) decodeLogoffResponse
         (\<lambda>s. (Value (Success True), s\<lparr>m_disconnected := True\<rparr>))) s)"

text \<open>The destructor.\<close>

definition destroy :: "'w Transport option \<Rightarrow> 'w Connection \<Rightarrow> 'w Connection" where
  "destroy transport s = snd (disconnect transport
     \<lparr>ctx_timeout = 1000, ctx_cancellationToken = None, ctx_cancellationCallback = None, ctx_progressCallback = None\<rparr> s)"

section \<open>What protects a connection\<close>

fun sealedStack :: "'w TransportStack \<Rightarrow> bool" where
  "sealedStack (SealedWith encryptionKey decryptionKey sessionId dialect inner) = True"
| "sealedStack (SignedWith key dialect inner) = False"
| "sealedStack (Wire transport) = False"

fun underSeal :: "'w TransportStack \<Rightarrow> 'w TransportStack" where
  "underSeal (SealedWith encryptionKey decryptionKey sessionId dialect inner) = inner"
| "underSeal (SignedWith key dialect inner) = SignedWith key dialect inner"
| "underSeal (Wire transport) = Wire transport"

text \<open>The keys of the two directions come from one session key.\<close>

definition sealsWith :: "NegotiatedConnection \<Rightarrow> u64 \<Rightarrow> 'w TransportStack \<Rightarrow> 'w TransportStack \<Rightarrow> bool" where
  "sealsWith negotiated sessionId inner stack \<longleftrightarrow> (\<exists>sessionKey encryptionKey decryptionKey.
     deriveSmb3EncryptionKey sessionKey (ngc_dialect negotiated) ClientToServer = Success encryptionKey \<and>
     deriveSmb3EncryptionKey sessionKey (ngc_dialect negotiated) ServerToClient = Success decryptionKey \<and>
     stack = SealedWith encryptionKey decryptionKey sessionId (ngc_dialect negotiated) inner)"

definition protects :: "NegotiatedConnection \<Rightarrow> SetupState \<Rightarrow> 'w TransportStack \<Rightarrow> 'w Protection \<Rightarrow> bool" where
  "protects negotiated setup inner p \<longleftrightarrow>
     (if prt_encrypted p then sessionCanEncrypt negotiated (sst_session setup) \<and>
        sealsWith negotiated (sst_sessionId setup) inner (prt_stack p)
      else prt_stack p = inner)"

text \<open>Successful runs of a sequence: each step succeeded.\<close>

lemma then_Success:
  assumes "onSuccess call failureFrom k s = (Value (Success v), s')"
  obtains x s1 where "call s = (Value (Success x), s1)" "k x s1 = (Value (Success v), s')"
  using onSuccess_Success [OF assms] by auto

lemma giving_Success: "giving r s = (Value (Success v), s') \<longleftrightarrow> r = Success v \<and> s' = s"
  by (auto simp: giving_def)

lemma failed_Success [simp]: "treeConnectFailureFrom e negotiated session \<noteq> Success v" "unsupportedEncryption m \<noteq> Success v"
  by (simp_all add: treeConnectFailureFrom_def unsupportedEncryption_def)

lemma enableEncryption_protects:
  assumes "enableEncryption provider negotiated setup p s = (Value (Success p'), s')" "protects negotiated setup inner p"
  shows "protects negotiated setup inner p' \<and> prt_encrypted p' \<and> (prt_encrypted p \<longrightarrow> p' = p)"
proof (cases "prt_encrypted p")
  case True
  with assms show ?thesis by (simp add: enableEncryption_def giving_Success)
next
  case False
  with assms(1) have can: "sessionCanEncrypt negotiated (sst_session setup)"
    by (auto simp: enableEncryption_def giving_Success split: if_split_asm)
  with assms(1) False obtain sessionKey encryptionKey decryptionKey where
    "deriveSmb3EncryptionKey sessionKey (ngc_dialect negotiated) ClientToServer = Success encryptionKey"
    "deriveSmb3EncryptionKey sessionKey (ngc_dialect negotiated) ServerToClient = Success decryptionKey"
    "p' = \<lparr>prt_stack = SealedWith encryptionKey decryptionKey (sst_sessionId setup) (ngc_dialect negotiated) (prt_stack p),
      prt_sessionKey = sessionKey, prt_encrypted = True\<rparr>"
    by (auto simp: enableEncryption_def giving_Success startNonces_def elim!: then_Success)
  with assms(2) can False show ?thesis by (auto simp: protects_def sealsWith_def)
qed

lemma encryptWhen_protects:
  assumes "encryptWhen c provider negotiated setup p s = (Value (Success p'), s')" "protects negotiated setup inner p"
  shows "protects negotiated setup inner p' \<and> (c \<longrightarrow> prt_encrypted p') \<and> (prt_encrypted p \<or> \<not> c \<longrightarrow> p' = p)"
  using assms enableEncryption_protects [of provider negotiated "setup" p s p' s' inner]
  by (auto simp: encryptWhen_def giving_Success split: if_split_asm)

lemma connectTree_protects:
  fixes s :: "('v Smb3State, 'z) Net_scheme"
  assumes "connectTree provider options context negotiated setup p s = (Value (Success (tree, mid, p')), s')"
    and "protects negotiated setup inner p"
  shows "protects negotiated setup inner p' \<and> (prt_encrypted p \<longrightarrow> p' = p) \<and>
    (\<exists>n (s1 :: ('v Smb3State, 'z) Net_scheme) s2. treeConnect (exchangeOver (prt_stack p')) (treeOptions options) n (sst_sessionId setup) context s1 =
       (Value (Success tree), s2))"
proof -
  let ?connect = "\<lambda>p n. treeConnect (exchangeOver (prt_stack p)) (treeOptions options) n (sst_sessionId setup) context"
  obtain r s1 where first: "?connect p (sst_messageId setup) s = (Value r, s1)"
    using assms(1) by (auto simp: connectTree_def attempting_def Let_def split: prod.split_asm outcome.split_asm)
  show ?thesis
  proof (cases r)
    case (Success t)
    with assms first show ?thesis
      by (intro conjI exI [of _ "sst_messageId setup"] exI [of _ s] exI [of _ s1])
        (auto simp: connectTree_def attempting_def Let_def giving_Success)
  next
    case (Failure e)
    with assms(1) first obtain s2 where p': "\<not> prt_encrypted p"
      "enableEncryption provider negotiated setup p s1 = (Value (Success p'), s2)"
      "?connect p' (sst_messageId setup + 1) s2 = (Value (Success tree), s')"
      by (auto simp: connectTree_def attempting_def Let_def giving_Success split: if_split_asm elim!: then_Success
          dest!: onSuccess_Success)
    then show ?thesis using enableEncryption_protects [OF p'(2) assms(2)] by blast
  qed
qed

lemma signConnection_stack:
  assumes "signConnection options negotiated setup sessionKey stack s = (Value (Success stack'), s')"
  shows "if shouldSignConnection options negotiated (sst_session setup)
    then \<exists>key. signingKeyFor (ngc_dialect negotiated) sessionKey (sst_preauthHash setup) = Success key \<and>
      stack' = SignedWith key (ngc_dialect negotiated) stack
    else stack' = stack"
  using assms by (auto simp: signConnection_def giving_Success split: if_split_asm elim!: then_Success)

lemma signConnection_underSeal:
  assumes "signConnection options negotiated setup sessionKey (Wire wire) s = (Value (Success inner), s')"
  shows "underSeal inner = inner \<and> \<not> sealedStack inner"
  using signConnection_stack [OF assms] by (auto split: if_split_asm)

lemma protects_stack:
  assumes "protects negotiated setup inner p" "underSeal inner = inner" "\<not> sealedStack inner"
  shows "underSeal (prt_stack p) = inner" "sealedStack (prt_stack p) = prt_encrypted p"
    "prt_encrypted p \<Longrightarrow> sealsWith negotiated (sst_sessionId setup) inner (prt_stack p) \<and>
       sessionCanEncrypt negotiated (sst_session setup)"
  using assms by (auto simp: protects_def sealsWith_def split: if_split_asm)

section \<open>The message ids of the set-up\<close>

lemma consumed_negotiate:
  assumes "buildNegotiateRequest options mid = Inr m" shows "consumed m = [mid]"
proof -
  from assms have "\<exists>offset count rest. m = negotiateFixedPart options mid offset count @ rest"
  proof (cases rule: buildNegotiateRequest_cases)
    case plain
    then show ?thesis by (metis append_Nil2)
  next
    case (contexts count pre)
    have extends: "\<exists>z. appendNegotiateContext d t p = d @ z" "\<exists>z. appendPadding d 8 = d @ z" for d t p
      using appendNegotiateContext_eq [of d t p] appendPadding_eq [of d 8] by blast+
    then obtain z where "pre = negotiateFixedPart options mid (word_of_nat (negotiateContextStart options)) count @ z"
      using contexts(2) by (metis append_assoc)
    with contexts(3,4) extends(1) show ?thesis by (metis append_assoc)
  qed
  then show ?thesis
    by (auto simp: consumed_def negotiateFixedPart_def Let_def decodeSmb2SyncHeader_encode wf_header_def defaultHeader_def)
qed

lemma issuing_negotiate: "issuing (negotiate crypto_hash_sha512 transport options context) (\<lambda>_ a. a = [0])"
  unfolding negotiate_def
  by (intro issuing_unlessCancelled issuing_first [OF issues_transmit] issuing_checked issuing_built
      issuing_first [OF issues_giving] issuing_giving failures_not_Success') (auto simp: consumed_negotiate)

definition spans :: "u64 \<Rightarrow> nat \<Rightarrow> u64 \<Rightarrow> u64 list \<Rightarrow> bool" where
  "spans mid n mid' a \<longleftrightarrow> (\<exists>k \<le> n. mid' = mid + word_of_nat k \<and>
     (unat mid + n < 2 ^ 64 \<longrightarrow> within (unat mid) (unat mid + k) a))"

lemma spans_append:
  assumes "spans mid n mid' a" "spans mid' m mid'' b" shows "spans mid (n + m) mid'' (a @ b)"
proof -
  from assms obtain k l where k: "k \<le> n" "mid' = mid + word_of_nat k" "unat mid + n < 2 ^ 64 \<longrightarrow> within (unat mid) (unat mid + k) a"
    and l: "l \<le> m" "mid'' = mid' + word_of_nat l" "unat mid' + m < 2 ^ 64 \<longrightarrow> within (unat mid') (unat mid' + l) b"
    by (auto simp: spans_def)
  have "within (unat mid) (unat mid + (k + l)) (a @ b)" if "unat mid + (n + m) < 2 ^ 64"
  proof -
    from that k(1) have "unat mid' = unat mid + k" by (simp add: k(2) unat_add_nat)
    with that k l show ?thesis by (intro within_append [where mi = "unat mid + k"]) (auto simp: add.assoc)
  qed
  with k l show ?thesis by (auto simp: spans_def intro!: exI [of _ "k + l"])
qed

lemma spans_one: "spans mid (Suc 0) (mid + 1) [mid]"
  by (auto simp: spans_def within_def intro!: exI [of _ 1])

lemma spans_skip: "spans mid (Suc 0) (mid + 1) []"
  by (auto simp: spans_def intro!: exI [of _ 1])

lemma spans_none: "spans mid 0 mid []"
  by (simp add: spans_def)

lemma issues_sessionSetup:
  "issues (sessionSetupExchange transport options mid sid context) [mid] {[], [mid]}"
  "issues (treeConnect transport tc mid sid context) [mid] {[], [mid]}"
  unfolding sessionSetupExchange_def treeConnect_def
  by (rule issues_exchangeMessage; auto intro: credit_1_consumed request_headers issues_giving
      intro!: issues_weaken [OF issues_onSuccess [OF issues_checked issues_giving]])+

lemma issues_asking: "issues (asking f) [] {[]}"
  by (rule issuesI) (auto simp: asking_def Let_def split: prod.split_asm)

lemma issuing_setupLoop:
  "issuing (setupLoop n crypto_hash_sha512 transport provider options context dialect token mid sid hash
       :: ('w, 'z, SetupState) prog) (\<lambda>st a. spans mid n (sst_messageId st) a)"
proof (induction n arbitrary: token mid sid hash)
  case 0
  show ?case by (simp add: issuing_def giving_def)
next
  case (Suc n)
  have more: "issuing (setupLoop n crypto_hash_sha512 transport provider options context dialect token (mid + 1) sid hash
      :: ('w, 'z, SetupState) prog) (\<lambda>st b. spans mid (Suc n) (sst_messageId st) (mid # b))" for token sid hash
    by (rule issuing_mono [OF Suc.IH]) (use spans_append [OF spans_one] in fastforce)
  have one: "spans mid (Suc n) (mid + 1) [mid]"
    using spans_one by (auto simp: spans_def intro!: exI [of _ 1] simp: within_def)
  show ?case
    unfolding setupLoop.simps setupRound_def
    by (intro issuing_first [OF issues_sessionSetup(1)] issuing_first [OF issues_giving] issuing_first [OF issues_asking]
        issuing_if issuing_giving failures_not_Success') (use more one in auto)
qed

lemma issuing_attempting:
  assumes m: "issues m c F" and ok: "\<And>v. issuing (k (Success v)) (\<lambda>x b. R x (c @ b))"
    and bad: "\<And>e a. a \<in> F \<Longrightarrow> issuing (k (Failure e)) (\<lambda>x b. R x (a @ b))"
  shows "issuing (attempting m k) R"
  unfolding issuing_def
proof (intro allI impI)
  fix s v s' assume "attempting m k s = (Value (Success v), s')"
  then obtain r s1 where run: "m s = (Value r, s1)" "k r s1 = (Value (Success v), s')"
    by (auto simp: attempting_def split: prod.split_asm outcome.split_asm)
  have more: "Net.more s1 = Net.more s" by (rule issues_more [OF m run(1)])
  show "Net.more s' = Net.more s \<and> (\<exists>a. idsSent s' = idsSent s @ a \<and> R v a)"
  proof (cases r)
    case (Success x)
    with run have "idsSent s1 = idsSent s @ c" using issues_ok [OF m] by blast
    with issuingD [OF ok run(2) [unfolded Success]] more show ?thesis by auto
  next
    case (Failure e)
    with run obtain a where "a \<in> F" "idsSent s1 = idsSent s @ a" using issues_bad [OF m run(1)] by auto
    with issuingD [OF bad [OF this(1)] run(2) [unfolded Failure]] more show ?thesis by auto
  qed
qed

lemma issues_startNonces: "issues p [] {[]} \<Longrightarrow> issues (startNonces p) [] {[]}"
  unfolding startNonces_def by (rule issuesI) (auto dest: issues_more issues_ok issues_bad)

lemma issues_keyed: "issues (keyed provider key :: ('w, 'z, bytes) prog) [] {[]}"
proof -
  let ?p = "onSuccess (\<lambda>s. (Value (tp_sessionBaseKey provider (net_world s)), s)) failureFrom (\<lambda>key. giving (Success key))
    :: ('w, 'z, bytes) prog"
  have "issues (\<lambda>s :: ('w, 'z) Net_scheme. (Value (tp_sessionBaseKey provider (net_world s)), s)) [] {[]}"
    by (rule issuesI) auto
  from issues_onSuccess [OF this issues_giving] have "issues ?p [] {[]}"
    by (rule issues_weaken [OF _ _]) auto
  moreover have "keyed provider key = (if key = [] then ?p else giving (Success key))"
    by (auto simp: keyed_def fun_eq_iff)
  ultimately show ?thesis by (simp add: issues_giving)
qed

text \<open>No step of the protection sends a message.\<close>

abbreviation (input) quiet :: "('w, 'z, 'a) prog \<Rightarrow> bool" where "quiet p \<equiv> issues p [] {[]}"

lemma quiet_onSuccess: "quiet m \<Longrightarrow> (\<And>v. quiet (k v)) \<Longrightarrow> quiet (onSuccess m failureFrom k)"
  by (rule issues_weaken [OF issues_onSuccess]) auto

lemma quiet_attempting:
  fixes m :: "('w, 'z, 'a) prog" and k :: "'a DecodeResult \<Rightarrow> ('w, 'z, 'b) prog"
  assumes "quiet m" "\<And>r. quiet (k r)" shows "quiet (attempting m k)"
proof -
  have same: "quiet p \<longleftrightarrow> (\<forall>s r s'. p s = (r, s') \<longrightarrow> Net.more s' = Net.more s \<and> idsSent s' = idsSent s)"
    for p :: "('w, 'z, 'c) prog" by (simp add: issues_def) metis
  show ?thesis using assms unfolding same
    by (auto simp: attempting_def split: prod.split_asm outcome.split_asm)
qed

lemma quiet_built: "(\<And>b. quiet (k b)) \<Longrightarrow> quiet (built r k)"
  by (rule issues_weaken [OF issues_built]) auto

lemmas quiet_rules = quiet_onSuccess quiet_attempting quiet_built issues_keyed issues_giving issues_checked
  issues_startNonces

lemma quiet_protection:
  "quiet (enableEncryption provider negotiated st p)"
  "quiet (encryptWhen c provider negotiated st p)"
  "quiet (verifyFinalSession negotiated session key)"
  "quiet (signConnection options negotiated st sessionKey stack)"
proof -
  show enable: "quiet (enableEncryption provider negotiated st p)" for p
    unfolding enableEncryption_def by (auto intro!: quiet_rules)
  then show "quiet (encryptWhen c provider negotiated st p)"
    by (auto simp: encryptWhen_def issues_giving)
  show verify: "quiet (verifyFinalSession negotiated session key)" for session key
    unfolding verifyFinalSession_def Let_def by (auto intro!: quiet_rules split: DecodeResult.split)
  show "quiet (signConnection options negotiated st sessionKey stack)"
    unfolding signConnection_def by (auto intro!: quiet_rules verify)
qed

lemma issuing_connectTree:
  "issuing (connectTree provider options context negotiated st p)
     (\<lambda>(tree, mid, p') a. spans (sst_messageId st) 2 mid a)"
proof -
  let ?n = "sst_messageId st"
  have two: "spans ?n 2 (?n + 2) [?n, ?n + 1]" "spans ?n 2 (?n + 2) [?n + 1]"
    using spans_append [OF spans_one spans_one, of ?n] spans_append [OF spans_skip spans_one, of ?n]
    by (simp_all add: add.assoc numeral_2_eq_2)
  have one: "spans ?n 2 (?n + 1) [?n]" by (auto simp: spans_def within_def intro!: exI [of _ 1])
  show ?thesis
    unfolding connectTree_def Let_def
    by (intro issuing_attempting [OF issues_sessionSetup(2)])
      (auto intro!: issuing_giving issuing_if issuing_first [OF quiet_protection(1)]
        issuing_first [OF issues_sessionSetup(2)] simp: two one)
qed

lemma issuing_protectAndMount:
  "issuing (protectAndMount provider options context negotiated st stack)
     (\<lambda>r a. spans (sst_messageId st) 2 (ncs_firstMessageId r) a)"
  unfolding protectAndMount_def Let_def
  by (intro issuing_first [OF issues_giving] issuing_first [OF issues_keyed] issuing_first [OF quiet_protection(4)]
      issuing_first [OF quiet_protection(2)] issuing_onSuccess [OF issuing_connectTree] failures_not_Success')
    (auto intro!: issuing_first [OF issues_giving] issuing_first [OF issues_keyed] issuing_first [OF quiet_protection(4)]
      issuing_first [OF quiet_protection(2)] issuing_onSuccess [OF issuing_connectTree] issuing_giving
      split: prod.split)

lemma issuing_connect:
  defines "first \<equiv> \<lambda>options. if nco_firstSessionMessageId options = 0 then 1 else nco_firstSessionMessageId options"
    and "rounds \<equiv> \<lambda>options. if nco_maxSessionSetupRounds options = 0 then 1 else unat (nco_maxSessionSetupRounds options)"
  shows "issuing (connect crypto_hash_sha512 (Some wire) provider options context)
     (\<lambda>st a. \<exists>b. a = 0 # b \<and> spans (first options) (rounds options + 2) (ncs_firstMessageId st) b)"
  unfolding connect_def option.case first_def rounds_def
  by (intro issuing_onSuccess [OF issuing_negotiate] issuing_first [OF issues_giving] issuing_first [OF issues_asking]
      issuing_onSuccess [OF issuing_setupLoop] failures_not_Success' issuing_mono [OF issuing_protectAndMount])
    (auto dest: spans_append)

section \<open>Teardown\<close>

lemma teardownStep_Success:
  assumes "teardownStep transport context request decode k s = (Value (Success v), s')"
  obtains s1 where "k s1 = (Value (Success v), s')" "m_treeId s1 = m_treeId s"
    "m_sessionId s1 = m_sessionId s" "m_nextMessageId s1 = m_nextMessageId s + 1"
    "net_sent s1 = net_sent s @ [request (m_nextMessageId s)]"
  using assms
  by (auto simp: teardownStep_def allocateMessageIds_def Let_def exchangePayload_def transmit_def built_def checked_def
      onSuccess_def split: prod.split_asm sum.split_asm outcome.split_asm DecodeResult.split_asm option.split_asm)

text \<open>What follows authentication when the whole of \<open>connect\<close> succeeds.\<close>

lemma connect_Success:
  fixes s :: "('v Smb3State, 'z) Net_scheme"
  assumes "connect crypto_hash_sha512 (Some wire) provider options ctx s = (Value (Success st), s')"
  obtains negotiated established sessionKey inner p tree messageId p1 p2
    and s0 s1 s2 s3 s4 :: "('v Smb3State, 'z) Net_scheme" where
    "sst_sessionId established \<noteq> 0"
    "(if needsSessionKey options negotiated (sst_session established) then keyed provider [] else giving (Success [])) s0 =
      (Value (Success sessionKey), s1)"
    "signConnection options negotiated established sessionKey (Wire wire) s1 = (Value (Success inner), s2)"
    "encryptWhen (ssr_encryptData (sst_session established) \<or> cfg_encryption (nco_config options) = Required)
      provider negotiated established \<lparr>prt_stack = inner, prt_sessionKey = sessionKey, prt_encrypted = False\<rparr> s2 =
      (Value (Success p), s3)"
    "connectTree provider options ctx negotiated established p s3 = (Value (Success (tree, messageId, p1)), s4)"
    "encryptWhen ((ssr_encryptData (sst_session established) \<or> tre_requiresEncryption tree \<or>
      cfg_encryption (nco_config options) = Required) \<and> \<not> prt_encrypted p1) provider negotiated established p1 s4 =
      (Value (Success p2), s')"
    "st = \<lparr>ncs_transport = prt_stack p2, ncs_treeId = tre_treeId tree, ncs_sessionId = sst_sessionId established,
      ncs_firstMessageId = messageId, ncs_negotiated = negotiated, ncs_session = sst_session established, ncs_tree = tree\<rparr>"
proof -
  from assms obtain negotiated established s0 where
    "protectAndMount provider options ctx negotiated established (Wire wire) s0 = (Value (Success st), s')"
    by (auto simp: connect_def elim!: then_Success)
  then show ?thesis
    unfolding protectAndMount_def Let_def
    by (elim then_Success) (auto simp: giving_Success checkSession_def split: if_split_asm elim!: then_Success intro: that)
qed

section \<open>Properties\<close>



text \<open>A connection is torn down once. A disconnect that succeeds has sent TREE_DISCONNECT for
  its tree and then LOGOFF for its session, under the next two ids, and marks the connection;
  after that a disconnect, and so the destructor, sends nothing.\<close>

lemma disconnect_once:
  assumes "disconnect transport ctx s = (Value (Success v), s')" "\<not> m_disconnected s"
  shows "net_sent s' = net_sent s @ [buildTreeDisconnectRequest (m_nextMessageId s) (m_treeId s) (m_sessionId s),
      buildLogoffRequest (m_nextMessageId s + 1) (m_sessionId s)] \<and>
    m_nextMessageId s' = m_nextMessageId s + 2 \<and>
    disconnect transport ctx' s' = (Value (Success True), s') \<and> destroy transport s' = s'"
proof -
  from assms obtain wire s1 where 1: "teardownStep wire ctx (\<lambda>mid. buildLogoffRequest mid (m_sessionId s)) decodeLogoffResponse
      (\<lambda>s. (Value (Success True), s\<lparr>m_disconnected := True\<rparr>)) s1 = (Value (Success v), s')"
    "m_nextMessageId s1 = m_nextMessageId s + 1"
    "net_sent s1 = net_sent s @ [buildTreeDisconnectRequest (m_nextMessageId s) (m_treeId s) (m_sessionId s)]"
    by (auto simp: disconnect_def split: option.split_asm elim: teardownStep_Success)
  from 1(1) obtain s2 where "s' = s2\<lparr>m_disconnected := True\<rparr>" "m_nextMessageId s2 = m_nextMessageId s1 + 1"
    "net_sent s2 = net_sent s1 @ [buildLogoffRequest (m_nextMessageId s1) (m_sessionId s)]"
    by (auto elim: teardownStep_Success)
  with 1 show ?thesis by (simp add: disconnect_def destroy_def)
qed

text \<open>A connection that is signed and sealed signs what is already sealed: every answer it delivers
  has passed, while still sealed, as a signed message, although the transform header has its
  own signature at the place of the flags and the session id and ciphertext at the place of the
  signature.\<close>

lemma sealed_answers_must_look_signed:
  assumes "exchangeOver (SealedWith encryptionKey decryptionKey sessionId dialect (SignedWith key dialect' (Wire wire)))
    frame ctx s = (Value (Success answer), s')"
  shows "\<exists>signed response s1 s2. wire signed ctx s1 = (Value (Success response), s2) \<and>
    verifySmb2DirectTcpFrameSignature response key dialect' = Some (Success True) \<and>
    decryptSmb3DirectTcpFrame response decryptionKey sessionId dialect = Value (Success answer)"
  using assms
  by (auto simp: encryptionExchange_def signingExchange_def Let_def split: prod.split_asm outcome.split_asm
      DecodeResult.split_asm option.split_asm bool.split_asm; blast)

lemma required_signing_skipped_for_guests:
  assumes "cfg_signing (nco_config options) = Required" "ssr_guestSession (sst_session st)"
  shows "signConnection options negotiated st sessionKey stack = giving (Success stack)"
  using assms(2) by (simp add: signConnection_def shouldSignConnection_def)

section \<open>A scripted server\<close>

text \<open>A transport that answers from a list kept somewhere in the outside world, and a server of
  dialect 2.0.2 that admits a guest.\<close>

definition scriptedIn :: "('w \<Rightarrow> bytes list) \<Rightarrow> (bytes list \<Rightarrow> 'w \<Rightarrow> 'w) \<Rightarrow> 'w Transport" where
  "scriptedIn script put f ctx w = (case script w of
     [] \<Rightarrow> (Value (failure EcTimeout ''SMB receive timed out.''), w)
   | r # rs \<Rightarrow> (Value (Success ([0, 0, 0, word_of_nat (length r)] @ r)), put rs w))"

abbreviation scripted :: "bytes list Smb3State Transport" where
  "scripted \<equiv> scriptedIn enc_outside (\<lambda>rs w. w\<lparr>enc_outside := rs\<rparr>)"

definition serverHeader :: "Command \<Rightarrow> Smb2SyncHeader" where
  "serverHeader command = defaultHeader\<lparr>hdr_command := command, hdr_flags := 1, hdr_sessionId := 5, hdr_treeId := 3\<rparr>"

definition guestServer :: "bytes list" where
  "guestServer =
    [encodeSmb2SyncHeader (serverHeader CmdNegotiate) @ le16 65 @ le16 0 @ le16 Smb202 @ le16 0 @ replicate 16 0 @
       le32 0 @ le32 65536 @ le32 65536 @ le32 65536 @ le64 0 @ le64 0 @ le16 128 @ le16 0 @ le32 0,
     encodeSmb2SyncHeader (serverHeader CmdSessionSetup) @ le16 9 @ le16 1 @ le16 72 @ le16 0,
     encodeSmb2SyncHeader (serverHeader CmdTreeConnect) @ le16 16 @ [1, 0] @ le32 0 @ le32 0 @ le32 0,
     encodeSmb2SyncHeader (serverHeader CmdTreeDisconnect) @ le16 4 @ le16 0,
     encodeSmb2SyncHeader (serverHeader CmdLogoff) @ le16 4 @ le16 0]"

definition tokenless :: "'w TokenProvider" where
  "tokenless = \<lparr>tp_initialToken = \<lambda>n c w. (Value (Success []), w), tp_nextToken = \<lambda>r c w. (Value (Success []), w),
     tp_sessionBaseKey = \<lambda>w. Success []\<rparr>"

definition guestOptions :: NativeSmbConnectorOptions where
  "guestOptions = \<lparr>nco_config = \<lparr>cfg_server = [104], cfg_share = [115], cfg_normalizedUri = [],
       cfg_domain = [], cfg_username = [], cfg_authMode = GuestMode, cfg_dialectFamily = Smb2AndSmb3,
       cfg_signing = Preferred, cfg_encryption = Preferred, cfg_timeout = 30000\<rparr>,
     nco_negotiateOptions = \<lparr>neg_dialects = [Smb202], neg_signing = Preferred, neg_capabilities = 0,
       neg_clientGuid = replicate 16 0\<rparr>,
     nco_firstSessionMessageId = 1, nco_maxSessionSetupRounds = 8\<rparr>"

definition guestNet :: "bytes list Smb3State Net" where
  "guestNet = \<lparr>net_world = \<lparr>enc_outside = guestServer, m_nonceCounter = 1, enc_sent = []\<rparr>, net_sent = []\<rparr>"

definition guestConnection :: "bytes list Smb3State Connection" where
  "guestConnection = \<lparr>net_world = \<lparr>enc_outside = drop 3 guestServer, m_nonceCounter = 1, enc_sent = []\<rparr>, net_sent = [],
     m_treeId = 3, m_sessionId = 5, m_nextMessageId = 3, m_disconnected = False\<rparr>"

lemma framed_payload: "length r < 256 \<Longrightarrow> decodeDirectTcpPayload ([0, 0, 0, word_of_nat (length r)] @ r) = Some (Success r)"
  using decodeDirectTcpPayload_encode [of r "[0, 0, 0, word_of_nat (length r)] @ r" "[]"]
  by (simp add: decodeDirectTcpPayload_def decodeDirectTcpPayloadLength_def byte_at_def slice_def
      unat_ucast_wider unsigned_of_nat take_bit_nat_eq_self)

lemma transmit_scripted:
  assumes "request = Inr m" "length m \<le> kMaxDirectTcpPayloadLength" "script (net_world s) = r # rs"
  shows "transmit (scriptedIn script put) ctx request s = (Value (Success ([0, 0, 0, word_of_nat (length r)] @ r)),
    s\<lparr>net_world := put rs (net_world s), net_sent := net_sent s @ [m]\<rparr>)"
  using assms by (simp add: transmit_def built_def encodeDirectTcpFrame_def Let_def scriptedIn_def)

lemma serverHeader_decodes: "decodeSmb2SyncHeader (encodeSmb2SyncHeader (serverHeader c) @ body) = Some (Success (serverHeader c))"
  by (simp add: decodeSmb2SyncHeader_encode wf_header_def serverHeader_def defaultHeader_def)

lemma guestServer_decodes:
  "\<exists>r. decodeNegotiateResponse (guestServer ! 0) [Smb202] = Some (Success r) \<and> ner_dialect r = Smb202 \<and>
     ner_securityMode r = 0 \<and> ner_capabilities r = 0"
  "\<exists>r. decodeSessionSetupResponse (guestServer ! 1) = Some (Success r) \<and> ssr_sessionId r = 5 \<and>
     \<not> ssr_moreProcessingRequired r \<and> ssr_guestSession r \<and> \<not> ssr_encryptData r"
  "\<exists>r. decodeTreeConnectResponse (guestServer ! 2) = Some (Success r) \<and> \<not> tcr_requiresEncryption r"
  "\<exists>r. decodeTreeDisconnectResponse (guestServer ! 3) = Some (Success r)"
  "\<exists>r. decodeLogoffResponse (guestServer ! 4) = Some (Success r)"
  by (simp_all add: guestServer_def decodeNegotiateResponse_def decodeSessionSetupResponse_def decodeTreeConnectResponse_def
      decodeTreeDisconnectResponse_def decodeLogoffResponse_def
      successResponse_def responseHeader_def responseBody_def decodeSmb2SyncHeader_encode wf_header_def serverHeader_def defaultHeader_def
      isOfferedDialect_def bufferInBounds_def assignBuffer_def wire Let_def Prelude.slice_def byte_at_def)

lemma plain_uncancelled [simp]: "isCancellationRequested plainContext w = (False, w)"
  by (simp add: isCancellationRequested_def plainContext_def)

lemma exchangeMessage_scripted:
  assumes "request = Inr m" "length m \<le> kMaxDirectTcpPayloadLength" "script (net_world s) = r # rs"
    and "length r < 256" "decode r = Some (Success v)"
  shows "exchangeMessage (scriptedIn script put) plainContext c request decode finish s =
    finish m r v (s\<lparr>net_world := put rs (net_world s), net_sent := net_sent s @ [m]\<rparr>)"
  using assms(4,5) framed_payload [OF assms(4)] transmit_scripted [where script = script, OF assms(1-3), of put plainContext]
  by (simp add: exchangeMessage_def unlessCancelled_def onSuccess_def checked_def assms(1) built_def)

lemma wf_serverHeader [simp]: "wf_header (serverHeader c)"
  by (simp add: wf_header_def serverHeader_def defaultHeader_def)

lemma guestServer_list:
  "length guestServer = 5" "guestServer = map ((!) guestServer) [0, 1, 2, 3, 4]" "i < 5 \<Longrightarrow> length (guestServer ! i) < 256"
proof -
  show l: "length guestServer = 5" "guestServer = map ((!) guestServer) [0, 1, 2, 3, 4]" by (simp_all add: guestServer_def)
  have "r \<in> set guestServer \<Longrightarrow> length r < 256" for r by (auto simp: guestServer_def)
  then show "i < 5 \<Longrightarrow> length (guestServer ! i) < 256" using l by simp
qed

lemma guest_connects:
  fixes put :: "bytes list \<Rightarrow> 'v Smb3State \<Rightarrow> 'v Smb3State" and start :: "('v Smb3State, 'z) Net_scheme"
  assumes "script (net_world start) = guestServer" and lens: "\<And>l w. script (put l w) = l"
    and provider: "\<And>ng w. \<exists>w'. tp_initialToken provider ng (nco_config guestOptions) w = (Value (Success token), w') \<and> script w' = script w"
    and token: "length token < 256"
  shows "\<exists>st s'. connect sha (Some (scriptedIn script put)) provider guestOptions plainContext start =
      (Value (Success st), s') \<and>
    ssr_guestSession (ncs_session st) \<and> ncs_transport st = Wire (scriptedIn script put) \<and>
    script (net_world s') = drop 3 guestServer"
proof -
  let ?no = "negotiateOptionsFrom guestOptions" and ?r = "(!) guestServer" and ?t = "scriptedIn script put"
  have small: "length (?r i) < 256" if "i < 5" for i using that by (rule guestServer_list)
  obtain n where n: "decodeNegotiateResponse (?r 0) [Smb202] = Some (Success n)" "ner_dialect n = Smb202"
    "ner_securityMode n = 0" "ner_capabilities n = 0" using guestServer_decodes(1) by blast
  obtain a where a: "decodeSessionSetupResponse (?r 1) = Some (Success a)" "ssr_sessionId a = 5"
    "\<not> ssr_moreProcessingRequired a" "ssr_guestSession a" "\<not> ssr_encryptData a" using guestServer_decodes(2) by blast
  obtain t where t: "decodeTreeConnectResponse (?r 2) = Some (Success t)" "\<not> tcr_requiresEncryption t"
    using guestServer_decodes(3) by blast
  have e: "effectiveDialects ?no = [Smb202]" by (simp add: effectiveDialects_def negotiateOptionsFrom_def guestOptions_def Let_def)
  have "buildNegotiateRequest ?no 0 = Inr (negotiateFixedPart ?no 0 0 0)"
    by (simp add: buildNegotiateRequest_def e Let_def)
  moreover have "length (negotiateFixedPart ?no 0 0 0) = 102"
    using negotiateFixedPart_fields(1) [of ?no 0 0 0] e by (simp add: negotiateOptionsFrom_def guestOptions_def Let_def)
  ultimately obtain m0 where m0: "buildNegotiateRequest ?no 0 = Inr m0" "length m0 \<le> kMaxDirectTcpPayloadLength" by auto
  obtain m1 where m1: "buildSessionSetupRequest (sessionSetupOptionsFrom guestOptions token) 1 0 = Inr m1"
    "length m1 \<le> kMaxDirectTcpPayloadLength"
    using token by (auto simp: buildSessionSetupRequest_def sessionSetupOptionsFrom_def Let_def)
  have unc: "encodeUtf16Le [92, 92, 104, 92, 115] = Inr [92, 0, 92, 0, 104, 0, 92, 0, 115, 0]" by code_simp
  obtain m2 where m2: "buildTreeConnectRequest (treeOptions guestOptions) 2 5 = Inr m2"
    "length m2 \<le> kMaxDirectTcpPayloadLength"
    by (auto simp: buildTreeConnectRequest_def treeOptions_def guestOptions_def Let_def uncPath_def unc)
  have list: "guestServer = [?r 0, ?r 1, ?r 2, ?r 3, ?r 4]" using guestServer_list(2) by simp
  have drops: "drop 3 guestServer = [?r 3, ?r 4]" by (simp add: guestServer_def)
  define ng where "ng = \<lparr>ngc_dialect = Smb202, ngc_signingRequired = False, ngc_encryptionSupported = False,
    ngc_capabilities = 0, ngc_maxReadSize = ner_maxReadSize n, ngc_maxWriteSize = ner_maxWriteSize n,
    ngc_securityBuffer = ner_securityBuffer n, ngc_preauthIntegrityHash = []\<rparr>"
  obtain s1 where neg: "negotiate sha ?t ?no plainContext start = (Value (Success ng), s1)"
    and s1: "script (net_world s1) = [?r 1, ?r 2, ?r 3, ?r 4]"
    using transmit_scripted [where script = script, OF m0 trans [OF assms(1) list], of put plainContext] framed_payload [OF small [of 0]] n
    by (simp add: negotiate_def unlessCancelled_def onSuccess_def checked_def built_def giving_def e m0
        negotiatedHash_def hasCapability_def ng_def lens)
       (simp add: negotiateOptionsFrom_def guestOptions_def Let_def lens)
  obtain s2 where asked: "asking (tp_initialToken provider ng (nco_config guestOptions)) s1 = (Value (Success token), s2)"
    and s2: "script (net_world s2) = [?r 1, ?r 2, ?r 3, ?r 4]"
    using provider [of ng "net_world s1"] s1 by (auto simp: asking_def)
  define a' where "a' = a\<lparr>ssr_requestPayload := m1, ssr_responsePayload := ?r 1\<rparr>"
  obtain s3 where auth: "sessionSetupExchange ?t (sessionSetupOptionsFrom guestOptions token) 1 0 plainContext s2 =
      (Value (Success a'), s3)" and s3: "script (net_world s3) = [?r 2, ?r 3, ?r 4]"
    unfolding sessionSetupExchange_def
      exchangeMessage_scripted [where decode = decodeSessionSetupResponse and r = "?r 1" and script = script, OF m1 s2 small a(1), simplified]
    by (simp add: giving_def a'_def lens)
  define tr where "tr = \<lparr>tre_treeId = 3, tre_shareType = tcr_shareType t, tre_isDfs = tcr_isDfs t,
    tre_isDfsRoot = tcr_isDfsRoot t, tre_requiresEncryption = False, tre_maximalAccess = tcr_maximalAccess t\<rparr>"
  have header: "decodeSmb2SyncHeader (?r 2) = Some (Success (serverHeader CmdTreeConnect))"
    by (simp add: guestServer_def decodeSmb2SyncHeader_encode)
  obtain s4 where tree: "treeConnect ?t (treeOptions guestOptions) 2 5 plainContext s3 = (Value (Success tr), s4)"
    and s4: "script (net_world s4) = [?r 3, ?r 4]"
    unfolding treeConnect_def
      exchangeMessage_scripted [where decode = decodeTreeConnectResponse and r = "?r 2" and script = script, OF m2 s3 small t(1), simplified]
    using header by (simp add: giving_def tr_def onSuccess_def checked_def t(2) lens) (simp add: serverHeader_def defaultHeader_def)
  have opt: "nco_maxSessionSetupRounds guestOptions = 8" "nco_firstSessionMessageId guestOptions = 1"
    "cfg_encryption (nco_config guestOptions) = Preferred" by (simp_all add: guestOptions_def)
  have loop: "setupLoop 8 sha ?t provider guestOptions plainContext Smb202 token 1 0 [] s2 =
    (Value (Success \<lparr>sst_session = a', sst_sessionId = 5, sst_messageId = 2, sst_preauthHash = []\<rparr>), s3)"
  proof -
    have "(8 :: nat) = Suc 7" by simp
    then show ?thesis
      using auth a by (simp only: setupLoop.simps) (simp add: setupRound_def onSuccess_def hashRound_def giving_def a'_def)
  qed
  show ?thesis
    using neg asked loop tree a s4
    by (simp add: connect_def onSuccess_def checkNegotiated_def opt giving_def ng_def
        protectAndMount_def checkSession_def Let_def a'_def sessionCanEncrypt_def needsSessionKey_def shouldSignConnection_def
        signConnection_def encryptWhen_def connectTree_def attempting_def tr_def drops)
qed

lemma tokenless_connects:
  "\<exists>st s'. connect crypto_hash_sha512 (Some scripted) tokenless guestOptions plainContext guestNet = (Value (Success st), s') \<and>
    ssr_guestSession (ncs_session st) \<and> ncs_transport st = Wire scripted"
  using guest_connects [where script = enc_outside and put = "\<lambda>rs w. w\<lparr>enc_outside := rs\<rparr>" and start = guestNet
      and provider = tokenless and token = "[]" and sha = crypto_hash_sha512]
  by (auto simp: guestNet_def tokenless_def)



lemma disconnect_once_witness:
  "\<exists>s'. disconnect (Some scripted) plainContext guestConnection = (Value (Success True), s') \<and>
     net_sent s' = [buildTreeDisconnectRequest 3 3 5, buildLogoffRequest 4 5] \<and> destroy (Some scripted) s' = s'"
proof -
  have list: "drop 3 guestServer = [guestServer ! 3, guestServer ! 4]" by (simp add: guestServer_def)
  note small = guestServer_list(3) [of 3] guestServer_list(3) [of 4]
  have fits: "length (buildTreeDisconnectRequest 3 3 5) \<le> 0xffffff" "length (buildLogoffRequest 4 5) \<le> 0xffffff"
    by (simp_all add: buildTreeDisconnectRequest_def buildLogoffRequest_def)
  have "\<exists>s'. disconnect (Some scripted) plainContext guestConnection = (Value (Success True), s')"
    using guestServer_decodes(4,5) framed_payload [OF small(1)] framed_payload [OF small(2)] fits
    by (auto simp: disconnect_def teardownStep_def allocateMessageIds_def guestConnection_def Let_def exchangePayload_def
        onSuccess_def checked_def transmit_scripted [where script = enc_outside] list)
  then obtain s' where "disconnect (Some scripted) plainContext guestConnection = (Value (Success True), s')" ..
  from disconnect_once [OF this] this show ?thesis by (simp add: guestConnection_def)
qed

end
