(* ===== verification/Spnego.thy ===== *)
theory Spnego
  imports Utf16
begin

text \<open>
  The SPNEGO envelope of the NTLM messages (\<open>SpnegoToken.cpp\<close>): the DER builder and the search
  for the octet string that holds an NTLM message. A \<open>size_t\<close> is a natural number, reduced
  modulo \<open>2 ^ 64\<close> where the sum of an offset and a length read from the token may wrap.
\<close>

section \<open>Building\<close>

abbreviation (input) kDerSequence :: u8 where "kDerSequence \<equiv> 0x30"
abbreviation (input) kDerOctetString :: u8 where "kDerOctetString \<equiv> 0x04"
abbreviation (input) kDerObjectIdentifier :: u8 where "kDerObjectIdentifier \<equiv> 0x06"
abbreviation (input) kDerApplication0 :: u8 where "kDerApplication0 \<equiv> 0x60"
abbreviation (input) kDerContext0 :: u8 where "kDerContext0 \<equiv> 0xA0"
abbreviation (input) kDerContext1 :: u8 where "kDerContext1 \<equiv> 0xA1"
abbreviation (input) kDerContext2 :: u8 where "kDerContext2 \<equiv> 0xA2"

definition kSpnegoOid :: bytes where
  "kSpnegoOid = [0x2B, 0x06, 0x01, 0x05, 0x05, 0x02]"

definition kNtlmOid :: bytes where
  "kNtlmOid = [0x2B, 0x06, 0x01, 0x04, 0x01, 0x82, 0x37, 0x02, 0x02, 0x0A]"

text \<open>The loop that shifts the length out byte by byte, lowest byte first.\<close>

fun shiftedOut :: "nat \<Rightarrow> bytes" where
  "shiftedOut n = (if n = 0 then [] else word_of_nat (n mod 256) # shiftedOut (n div 256))"

declare shiftedOut.simps [simp del]

definition derLength :: "nat \<Rightarrow> bytes" where
  "derLength n =
    (if n < 0x80 then [word_of_nat n]
     else let encoded = shiftedOut n in (0x80 OR word_of_nat (length encoded)) # rev encoded)"

definition derTlv :: "u8 \<Rightarrow> bytes \<Rightarrow> bytes" where
  "derTlv tag contents = tag # derLength (length contents) @ contents"

definition derOid :: "bytes \<Rightarrow> bytes" where "derOid oid = derTlv kDerObjectIdentifier oid"
definition derOctetString :: "bytes \<Rightarrow> bytes" where "derOctetString v = derTlv kDerOctetString v"
definition derSequence :: "bytes \<Rightarrow> bytes" where "derSequence v = derTlv kDerSequence v"
definition derContext :: "u8 \<Rightarrow> bytes \<Rightarrow> bytes" where "derContext tag v = derTlv tag v"

definition buildSpnegoNegTokenInit :: "bytes \<Rightarrow> bytes" where
  "buildSpnegoNegTokenInit ntlmToken =
    (let mechTypes = derContext kDerContext0 (derSequence (derOid kNtlmOid));
         mechToken = derContext kDerContext2 (derOctetString ntlmToken);
         negotiationToken = derContext kDerContext0 (derSequence (mechTypes @ mechToken))
     in derTlv kDerApplication0 (derOid kSpnegoOid @ negotiationToken))"

definition buildSpnegoNegTokenResp :: "bytes \<Rightarrow> bytes" where
  "buildSpnegoNegTokenResp ntlmToken =
     derContext kDerContext1 (derSequence (derContext kDerContext2 (derOctetString ntlmToken)))"

section \<open>Searching\<close>

definition ntlmSignature :: bytes where
  "ntlmSignature = [78, 84, 76, 77, 83, 83, 80, 0]"

definition startsWithNtlmSignature :: "bytes \<Rightarrow> bool" where
  "startsWithNtlmSignature d = (8 \<le> length d \<and> take 8 d = ntlmSignature)"

definition foldedLength :: "bytes \<Rightarrow> u64" where
  "foldedLength encoded = fold (\<lambda>b length. push_bit 8 length OR ucast b) encoded 0"

text \<open>The length and the offset behind it.\<close>

definition readDerLength :: "bytes \<Rightarrow> nat \<Rightarrow> (nat \<times> nat) DecodeResult option" where
  "readDerLength d offset =
    (if length d \<le> offset then Some (failure EcProtocolUnsupported ''SPNEGO DER length is truncated.'')
     else do {
       first \<leftarrow> byte_at d offset;
       let offset = offset + 1;
       if first AND 0x80 = 0 then Some (Success (unat first, offset))
       else let count = unat (first AND 0x7F) in
         if count = 0 \<or> 8 < count \<or> length d < offset + count
         then Some (failure EcProtocolUnsupported ''SPNEGO DER length is invalid.'')
         else do {
           encoded \<leftarrow> slice d offset (offset + count);
           Some (Success (unat (foldedLength encoded), offset + count)) } })"

definition nests :: "u8 \<Rightarrow> bool" where
  "nests tag = (tag AND 0x20 \<noteq> 0 \<or> tag = kDerSequence \<or> tag = kDerApplication0)"

lemma readDerLength_offset: "readDerLength d offset = Some (Success (n, offset')) \<Longrightarrow> offset < offset' \<and> offset' \<le> length d"
  by (auto simp: readDerLength_def Let_def slice_def split: if_split_asm)

text \<open>The recursive search and its loop over the elements of one value.\<close>

function findNtlmOctetString :: "bytes \<Rightarrow> nat \<Rightarrow> bytes DecodeResult option"
  and searchElements :: "bytes \<Rightarrow> nat \<Rightarrow> nat \<Rightarrow> bytes DecodeResult option"
where
  "findNtlmOctetString d depth =
    (if 16 < depth then Some (failure EcProtocolUnsupported ''SPNEGO DER nesting is too deep.'')
     else if startsWithNtlmSignature d then Some (Success d)
     else searchElements d depth 0)"
| "searchElements d depth offset =
    (if length d \<le> offset then Some (failure EcProtocolUnsupported ''SPNEGO token does not contain NTLMSSP.'')
     else case readDerLength d (offset + 1) of
       None \<Rightarrow> None
     | Some (Failure e) \<Rightarrow> Some (failureFrom e)
     | Some (Success (n, start)) \<Rightarrow>
         if length d < (start + n) mod 2 ^ 64
         then Some (failure EcProtocolUnsupported ''SPNEGO DER value is truncated.'')
         else if length d < start + n then None
         else let tag = d ! offset; content' = take n (drop start d) in
           if tag = kDerOctetString \<and> startsWithNtlmSignature content' then Some (Success content')
           else if nests tag then
             (case findNtlmOctetString content' (depth + 1) of
                None \<Rightarrow> None
              | Some (Success v) \<Rightarrow> Some (Success v)
              | Some (Failure e) \<Rightarrow>
                  if pe_code e \<noteq> EcProtocolUnsupported then Some (Failure e)
                  else searchElements d depth (start + n))
           else searchElements d depth (start + n))"
  by pat_completeness auto

termination
  by (relation "measures [\<lambda>x. case x of Inl (d, _) \<Rightarrow> length d | Inr (d, _, _) \<Rightarrow> length d,
        \<lambda>x. case x of Inl (d, _) \<Rightarrow> Suc (length d) | Inr (d, _, offset) \<Rightarrow> length d - offset]")
    (auto dest!: readDerLength_offset)

declare findNtlmOctetString.simps [simp del] searchElements.simps [simp del]

definition unwrapSpnegoNtlmToken :: "bytes \<Rightarrow> bytes DecodeResult option" where
  "unwrapSpnegoNtlmToken token = findNtlmOctetString token 0"

section \<open>Lengths\<close>

lemma length_shiftedOut: "n < 256 ^ k \<Longrightarrow> length (shiftedOut n) \<le> k"
proof (induction n arbitrary: k rule: shiftedOut.induct)
  case (1 n)
  show ?case
  proof (cases "n = 0")
    case False
    with "1.prems" obtain j where k: "k = Suc j" by (cases k) auto
    with "1.prems" have "n div 256 < 256 ^ j" by (simp add: div_less_iff_less_mult mult.commute)
    with 1 False k show ?thesis by (simp add: shiftedOut.simps [of n])
  qed (simp add: shiftedOut.simps)
qed

lemma foldedLength_shiftedOut: "foldedLength (rev (shiftedOut n)) = word_of_nat n"
proof (induction n rule: shiftedOut.induct)
  case (1 n)
  have or: "push_bit 8 v OR ucast b = 256 * v + ucast b" for v :: u64 and b :: u8
  proof -
    have "push_bit 8 v AND ucast b = (0 :: u64)"
      by (rule bit_word_eqI) (auto simp: bit_simps u8_no_high_bit)
    then show ?thesis by (simp add: disjunctive_add_eq_or [symmetric] push_bit_eq_mult)
  qed
  have low: "ucast (word_of_nat (n mod 256) :: u8) = (word_of_nat (n mod 256) :: u64)"
    by (rule word_unat_eq_iff [THEN iffD2]) (simp add: unat_ucast_wider unsigned_of_nat take_bit_nat_eq_self)
  show ?case
  proof (cases "n = 0")
    case False
    have "256 * word_of_nat (n div 256) + word_of_nat (n mod 256) = (word_of_nat (256 * (n div 256) + n mod 256) :: u64)"
      by (simp only: of_nat_add of_nat_mult of_nat_numeral)
    then have "256 * word_of_nat (n div 256) + word_of_nat (n mod 256) = (word_of_nat n :: u64)" by simp
    with 1 False show ?thesis
      by (simp add: shiftedOut.simps [of n] foldedLength_def or low)
  qed (simp add: shiftedOut.simps foldedLength_def)
qed

lemma shiftedOut_Nil: "shiftedOut n = [] \<longleftrightarrow> n = 0"
  by (auto simp: shiftedOut.simps [of n])

lemma readDerLength_derLength:
  assumes "n < 2 ^ 64"
  shows "readDerLength (xs @ derLength n @ ys) (length xs) = Some (Success (n, length xs + length (derLength n)))"
proof (cases "n < 0x80")
  case True
  then have "(word_of_nat n :: u8) AND 0x80 = 0"
    by (intro u8_eqI) (simp add: bit_simps; simp add: bit_iff_odd)
  with True show ?thesis
    by (simp add: readDerLength_def derLength_def wire unsigned_of_nat take_bit_nat_eq_self)
next
  case False
  let ?e = "shiftedOut n"
  have "length ?e \<le> 8" using length_shiftedOut [of n 8] assms by simp
  moreover have "0 < length ?e" using False by (simp add: shiftedOut_Nil)
  moreover have "0 < k \<Longrightarrow> k \<le> 8 \<Longrightarrow> k \<in> {1, 2, 3, 4, 5, 6, 7, 8}" for k :: nat by (simp; presburger)
  ultimately have k: "length ?e \<in> {1, 2, 3, 4, 5, 6, 7, 8}" by blast
  have "unat (foldedLength (rev ?e)) = n"
    using assms by (simp add: foldedLength_shiftedOut unsigned_of_nat take_bit_nat_eq_self)
  with False k show ?thesis
    by (auto simp: readDerLength_def derLength_def Let_def wire)
qed

section \<open>Searching what was built\<close>

lemma length_derTlv [simp]: "length (derTlv tag v) = Suc (length (derLength (length v)) + length v)"
  by (simp add: derTlv_def)

lemma searchElements_step:
  assumes "length d < 2 ^ 64" "d = xs @ derTlv tag v @ ys" "offset = length xs"
  shows "searchElements d depth offset =
    (if tag = kDerOctetString \<and> startsWithNtlmSignature v then Some (Success v)
     else if nests tag then
       (case findNtlmOctetString v (depth + 1) of
          None \<Rightarrow> None
        | Some (Success w) \<Rightarrow> Some (Success w)
        | Some (Failure e) \<Rightarrow>
            if pe_code e \<noteq> EcProtocolUnsupported then Some (Failure e)
            else searchElements d depth (offset + length (derTlv tag v)))
     else searchElements d depth (offset + length (derTlv tag v)))"
proof -
  let ?start = "length xs + 1 + length (derLength (length v))"
  have d: "d = (xs @ [tag]) @ derLength (length v) @ v @ ys" by (simp add: assms(2) derTlv_def)
  have len: "length d = ?start + length v + length ys" by (simp add: d)
  have "readDerLength d (length xs + 1) = Some (Success (length v, ?start))"
    using readDerLength_derLength [of "length v" "xs @ [tag]" "v @ ys"] assms(1) len by (simp add: d)
  moreover have "take (length v) (drop ?start d) = v" "d ! length xs = tag" by (simp_all add: d)
  moreover have "(?start + length v) mod 2 ^ 64 = ?start + length v" using assms(1) len by simp
  ultimately show ?thesis
    using len assms(3) by (subst searchElements.simps) (simp add: Let_def add.assoc split: option.split DecodeResult.split)
qed

lemma searchElements_end:
  "length d \<le> offset \<Longrightarrow> searchElements d depth offset = Some (failure EcProtocolUnsupported ''SPNEGO token does not contain NTLMSSP.'')"
  by (simp add: searchElements.simps)

lemma no_signature: "tag \<noteq> 78 \<Longrightarrow> \<not> startsWithNtlmSignature (derTlv tag v @ ys)"
  by (simp add: startsWithNtlmSignature_def ntlmSignature_def derTlv_def numeral_eq_Suc)

lemma length_derTlv_le: "length v < 2 ^ 64 \<Longrightarrow> length (derTlv tag v) \<le> length v + 10"
  using length_shiftedOut [of "length v" 8] by (simp add: derLength_def Let_def)

text \<open>An element that nests and is found in.\<close>

lemma find_nested:
  assumes "nests tag" "tag \<noteq> 4" "tag \<noteq> 78" "depth < 16" "length (derTlv tag v @ ys) < 2 ^ 64"
    and "findNtlmOctetString v (depth + 1) = Some (Success w)"
  shows "findNtlmOctetString (derTlv tag v @ ys) depth = Some (Success w)"
  using assms searchElements_step [OF assms(5), of "[]" tag v ys 0 depth]
  by (simp add: findNtlmOctetString.simps [of "derTlv tag v @ ys"] no_signature)

lemma find_octets:
  assumes "startsWithNtlmSignature v" "depth \<le> 16" "length (derOctetString v) < 2 ^ 64"
  shows "findNtlmOctetString (derOctetString v) depth = Some (Success v)"
  using assms searchElements_step [of "derTlv 4 v" "[]" 4 v "[]" 0 depth] no_signature [of 4 v "[]"]
  by (simp add: findNtlmOctetString.simps [of "derTlv 4 v"] derOctetString_def)

text \<open>An element in which nothing is found is passed over.\<close>

lemma find_second:
  assumes "tag \<noteq> 4" "tag \<noteq> 78" "depth \<le> 16" "length (derTlv tag v @ derTlv tag' v') < 2 ^ 64"
    and "nests tag \<Longrightarrow> \<exists>m. findNtlmOctetString v (depth + 1) = Some (failure EcProtocolUnsupported m)"
    and "nests tag'" "tag' \<noteq> 4" "findNtlmOctetString v' (depth + 1) = Some (Success w)"
  shows "findNtlmOctetString (derTlv tag v @ derTlv tag' v') depth = Some (Success w)"
proof -
  let ?d = "derTlv tag v @ derTlv tag' v'"
  have "searchElements ?d depth 0 = searchElements ?d depth (length (derTlv tag v))"
    using searchElements_step [OF assms(4), of "[]" tag v "derTlv tag' v'" 0 depth] assms(1,5)
    by (auto simp: failure_def failureUsing_def)
  moreover have "searchElements ?d depth (length (derTlv tag v)) = Some (Success w)"
    using searchElements_step [OF assms(4), of "derTlv tag v" tag' v' "[]" "length (derTlv tag v)" depth] assms(6-8) by simp
  ultimately show ?thesis using assms(2,3) by (simp add: findNtlmOctetString.simps [of ?d] no_signature)
qed

text \<open>The list of mechanisms holds no NTLM message.\<close>

lemma mechanisms_skipped:
  "\<exists>m. findNtlmOctetString (derSequence (derOid kNtlmOid)) 4 = Some (failure EcProtocolUnsupported m)"
  by (simp add: derSequence_def derOid_def derTlv_def derLength_def kNtlmOid_def findNtlmOctetString.simps
      searchElements.simps startsWithNtlmSignature_def ntlmSignature_def readDerLength_def nests_def failure_def failureUsing_def)

lemma oid_skipped: "\<not> nests kDerObjectIdentifier" by (simp add: nests_def)

lemma nesting_tags: "nests 0x30" "nests 0x60" "nests 0xA0" "nests 0xA1" "nests 0xA2" by (simp_all add: nests_def)

text \<open>An NTLM message is found inside both envelopes.\<close>

lemma unwrap_wrapped:
  assumes "startsWithNtlmSignature ntlmToken" "length ntlmToken < 2 ^ 63"
  shows "unwrapSpnegoNtlmToken (buildSpnegoNegTokenInit ntlmToken) = Some (Success ntlmToken)"
    and "unwrapSpnegoNtlmToken (buildSpnegoNegTokenResp ntlmToken) = Some (Success ntlmToken)"
proof -
  let ?octets = "derOctetString ntlmToken" and ?oid = "derOid kNtlmOid"
  let ?first = "derTlv 0xA0 (derSequence ?oid)" and ?token = "derTlv 0xA2 ?octets"
  note tlv = derContext_def derSequence_def
  have octets: "length ?octets \<le> length ntlmToken + 10"
    using length_derTlv_le assms(2) by (simp add: derOctetString_def del: length_derTlv)
  have token: "length ?token \<le> length ntlmToken + 20"
    using length_derTlv_le [of ?octets "0xA2"] octets assms(2) by simp
  have first: "length ?first = 16" "length (derOid kSpnegoOid) = 8"
    by (simp_all add: derSequence_def derOid_def kNtlmOid_def kSpnegoOid_def derTlv_def derLength_def)
  have inner: "findNtlmOctetString ?octets depth = Some (Success ntlmToken)" if "depth \<le> 16" for depth
    using find_octets [OF assms(1) that] octets assms(2) by simp
  have seq: "length (derTlv 0x30 (?first @ ?token)) \<le> length ntlmToken + 46"
    using length_derTlv_le [of "?first @ ?token" "0x30"] first(1) token assms(2) by simp
  have neg: "length (derTlv 0xA0 (derTlv 0x30 (?first @ ?token))) \<le> length ntlmToken + 56"
    using length_derTlv_le [of "derTlv 0x30 (?first @ ?token)" "0xA0"] seq assms(2) by simp
  show "unwrapSpnegoNtlmToken (buildSpnegoNegTokenInit ntlmToken) = Some (Success ntlmToken)"
  proof -
    have 3: "findNtlmOctetString (?first @ ?token) 3 = Some (Success ntlmToken)"
      using find_second [of "0xA0" 3 "derSequence ?oid" "0xA2" ?octets] mechanisms_skipped first token assms(2) inner [of 4]
      by (simp add: nesting_tags del: length_derTlv)
    have 2: "findNtlmOctetString (derTlv 0x30 (?first @ ?token)) 2 = Some (Success ntlmToken)"
      using find_nested [of "0x30" 2 "?first @ ?token" "[]"] 3 seq assms(2) by (simp add: nesting_tags del: length_derTlv)
    have 1: "findNtlmOctetString (derOid kSpnegoOid @ derTlv 0xA0 (derTlv 0x30 (?first @ ?token))) 1 = Some (Success ntlmToken)"
      using find_second [of 6 1 kSpnegoOid "0xA0" "derTlv 0x30 (?first @ ?token)"] 2 neg first assms(2)
      by (simp add: nesting_tags oid_skipped derOid_def del: length_derTlv flip: numeral_2_eq_2)
    show ?thesis
      using find_nested [of "0x60" 0 "derOid kSpnegoOid @ derTlv 0xA0 (derTlv 0x30 (?first @ ?token))" "[]"] 1 neg first assms(2)
        length_derTlv_le [of "derOid kSpnegoOid @ derTlv 0xA0 (derTlv 0x30 (?first @ ?token))" "0x60"]
      by (simp add: nesting_tags unwrapSpnegoNtlmToken_def buildSpnegoNegTokenInit_def Let_def derContext_def derSequence_def
          del: length_derTlv)
  qed
  show "unwrapSpnegoNtlmToken (buildSpnegoNegTokenResp ntlmToken) = Some (Success ntlmToken)"
  proof -
    have 1: "findNtlmOctetString ?token 2 = Some (Success ntlmToken)"
      using find_nested [of "0xA2" 2 ?octets "[]"] inner [of 3] token assms(2) by (simp add: nesting_tags del: length_derTlv)
    have "length (derTlv 0x30 ?token) \<le> length ntlmToken + 30"
      using length_derTlv_le [of ?token "0x30"] token assms(2) by simp
    with find_nested [of "0x30" 1 ?token "[]"] 1 assms(2)
    have 2: "findNtlmOctetString (derTlv 0x30 ?token) 1 = Some (Success ntlmToken)" and "length (derTlv 0x30 ?token) < 2 ^ 63 + 30"
      by (simp_all add: nesting_tags del: length_derTlv flip: numeral_2_eq_2)
    with find_nested [of "0xA1" 0 "derTlv 0x30 ?token" "[]"] length_derTlv_le [of "derTlv 0x30 ?token" "0xA1"]
    show ?thesis
      by (simp add: nesting_tags unwrapSpnegoNtlmToken_def buildSpnegoNegTokenResp_def derContext_def derSequence_def
          del: length_derTlv)
  qed
qed

text \<open>What the search returns is an NTLM message inside the searched bytes.\<close>

lemma found_part:
  "findNtlmOctetString d depth = Some (Success v) \<Longrightarrow> startsWithNtlmSignature v \<and> (\<exists>before after. d = before @ v @ after)"
  "searchElements d depth offset = Some (Success v) \<Longrightarrow> startsWithNtlmSignature v \<and> (\<exists>before after. d = before @ v @ after)"
proof -
  have part: "\<exists>before after. d = before @ take n (drop start d) @ after" for d :: bytes and n start
    using append_take_drop_id [of start d] append_take_drop_id [of n "drop start d"] by metis
  show "findNtlmOctetString d depth = Some (Success v) \<Longrightarrow> startsWithNtlmSignature v \<and> (\<exists>before after. d = before @ v @ after)"
    and "searchElements d depth offset = Some (Success v) \<Longrightarrow> startsWithNtlmSignature v \<and> (\<exists>before after. d = before @ v @ after)"
  proof (induction d depth and d depth offset rule: findNtlmOctetString_searchElements.induct)
    case (1 d depth)
    then show ?case by (auto simp: findNtlmOctetString.simps [of d] split: if_split_asm intro: exI [of _ "[]"])
  next
    case (2 d depth offset)
    show ?case
    proof (cases "readDerLength d (offset + 1)")
      case None
      with 2 show ?thesis by (auto simp: searchElements.simps [of d depth offset] split: if_split_asm)
    next
      case (Some r)
      show ?thesis
      proof (cases r)
        case (Failure e)
        with 2 Some show ?thesis by (auto simp: searchElements.simps [of d depth offset] split: if_split_asm)
      next
        case (Success p)
        then obtain n start where p: "r = Success (n, start)" by (cases p) auto
        let ?v = "take n (drop start d)"
        obtain before after where d: "d = before @ ?v @ after" using part by blast
        note IH = 2(1-3) [OF _ Some p refl]
        from 2(4) Some p have run: "\<not> length d \<le> offset" "\<not> length d < (start + n) mod 2 ^ 64" "\<not> length d < start + n"
          by (auto simp: searchElements.simps [of d depth offset] split: if_split_asm)
        note IH = IH [OF run refl refl]
        from 2(4) Some p run consider "v = ?v" "startsWithNtlmSignature v"
          | "\<not> (d ! offset = 4 \<and> startsWithNtlmSignature ?v)" "nests (d ! offset)" "findNtlmOctetString ?v (depth + 1) = Some (Success v)"
          | e where "\<not> (d ! offset = 4 \<and> startsWithNtlmSignature ?v)" "nests (d ! offset)"
              "findNtlmOctetString ?v (depth + 1) = Some (Failure e)" "\<not> pe_code e \<noteq> EcProtocolUnsupported"
              "searchElements d depth (start + n) = Some (Success v)"
          | "\<not> (d ! offset = 4 \<and> startsWithNtlmSignature ?v)" "\<not> nests (d ! offset)"
              "searchElements d depth (start + n) = Some (Success v)"
          by (auto simp: searchElements.simps [of d depth offset] Let_def split: if_split_asm option.split_asm DecodeResult.split_asm)
        then show ?thesis
        proof cases
          case 1 then show ?thesis using d by blast
        next
          case 2
          from IH(1) [OF this] d show ?thesis by (metis append_assoc)
        next
          case 3 with IH(2) [OF 3(1,2,3) refl 3(4)] show ?thesis by blast
        next
          case 4 with IH(3) show ?thesis by blast
        qed
      qed
    qed
  qed
qed

section \<open>Properties\<close>

text \<open>A token that was wrapped is unwrapped. An NTLM message inside the initial or the
  response token of SPNEGO is found again, whole.\<close>

lemma spnego_roundtrip:
  assumes "startsWithNtlmSignature ntlmToken" "length ntlmToken < 2 ^ 63"
  shows "unwrapSpnegoNtlmToken (buildSpnegoNegTokenInit ntlmToken) = Some (Success ntlmToken) \<and>
    unwrapSpnegoNtlmToken (buildSpnegoNegTokenResp ntlmToken) = Some (Success ntlmToken)"
  using unwrap_wrapped [OF assms] by blast

text \<open>Whatever is unwrapped is an NTLM message and stands as it is in the token.\<close>

lemma unwrapped_is_part_of_token:
  assumes "unwrapSpnegoNtlmToken token = Some (Success ntlmToken)"
  shows "startsWithNtlmSignature ntlmToken \<and> (\<exists>before after. token = before @ ntlmToken @ after)"
  using assms found_part(1) [of token 0 ntlmToken] by (simp add: unwrapSpnegoNtlmToken_def)

lemma ntlmSignature_starts [simp]: "startsWithNtlmSignature ntlmSignature"
  by (simp add: startsWithNtlmSignature_def ntlmSignature_def)

lemma spnego_roundtrip_witness:
  "unwrapSpnegoNtlmToken (buildSpnegoNegTokenInit ntlmSignature) = Some (Success ntlmSignature)"
  using spnego_roundtrip [of ntlmSignature] by (simp add: ntlmSignature_def [THEN arg_cong [where f = length]])

lemma unwrapped_is_part_of_token_witness:
  "startsWithNtlmSignature ntlmSignature \<and> (\<exists>before after. derOctetString ntlmSignature = before @ ntlmSignature @ after)"
proof (rule unwrapped_is_part_of_token)
  have "length (derOctetString ntlmSignature) < 2 ^ 64"
    by (simp add: derOctetString_def derLength_def) (simp add: ntlmSignature_def)
  then show "unwrapSpnegoNtlmToken (derOctetString ntlmSignature) = Some (Success ntlmSignature)"
    using find_octets [of ntlmSignature 0] by (simp add: unwrapSpnegoNtlmToken_def)
qed

text \<open>A length of eight bytes can wrap the bound, and the copy of the value then runs backwards.\<close>

lemma wrapped_length_faults: "unwrapSpnegoNtlmToken [0x04, 0x88, 0xFF, 0xFF, 0xFF, 0xFF, 0xFF, 0xFF, 0xFF, 0xF8] = None"
  by (simp add: unwrapSpnegoNtlmToken_def findNtlmOctetString.simps searchElements.simps startsWithNtlmSignature_def
      ntlmSignature_def readDerLength_def foldedLength_def Let_def slice_def)

end
