(* ===== verification/NtlmCrypto.thy ===== *)
theory NtlmCrypto
  imports Crypto Utf16
begin

text \<open>
  The primitives of NTLMv2 in \<open>NtlmCrypto.cpp\<close>: MD4, MD5 and HMAC-MD5, the hash of the password
  and the parts of the response. Text and secrets are byte lists; overwriting a secret with
  zeroes, which \<open>wipe\<close> does at the end of a scope, changes no value of the model. An exception of
  \<open>encodeUtf16Le\<close> is \<open>Inl\<close>. MD5 is compared with the order of operations in RFC 1321.
\<close>

section \<open>Padding and words\<close>

definition leftRotate :: "u32 \<Rightarrow> nat \<Rightarrow> u32" where
  "leftRotate v shift = push_bit shift v OR drop_bit (32 - shift) v"

definition paddedMessage :: "bytes \<Rightarrow> bytes" where
  "paddedMessage d = padTo56 (d @ [0x80]) @ le64 (word_of_nat (length d) * 8)"

definition wordOf :: "bytes \<Rightarrow> nat \<Rightarrow> u32" where
  "wordOf d i =
     ucast (d ! i) OR push_bit 8 (ucast (d ! (i + 1))) OR push_bit 16 (ucast (d ! (i + 2))) OR
     push_bit 24 (ucast (d ! (i + 3)))"

definition blockWords :: "bytes \<Rightarrow> nat \<Rightarrow> u32 list" where
  "blockWords d offset = map (\<lambda>i. wordOf d (offset + i * 4)) [0..<16]"

type_synonym mdState = "u32 \<times> u32 \<times> u32 \<times> u32"

definition mdStart :: mdState where
  "mdStart = (0x67452301, 0xEFCDAB89, 0x98BADCFE, 0x10325476)"

fun addMd :: "mdState \<Rightarrow> mdState \<Rightarrow> mdState" where
  "addMd (a, b, c, d) (aa, bb, cc, dd) = (a + aa, b + bb, c + cc, d + dd)"

fun mdDigest :: "mdState \<Rightarrow> bytes" where
  "mdDigest (a, b, c, d) = le32 a @ le32 b @ le32 c @ le32 d"

text \<open>The loop over the blocks of a padded message.\<close>

function mdLoop :: "(u32 list \<Rightarrow> mdState \<Rightarrow> mdState) \<Rightarrow> bytes \<Rightarrow> nat \<Rightarrow> mdState \<Rightarrow> mdState" where
  "mdLoop rounds d offset h =
    (if offset < length d then mdLoop rounds d (offset + 64) (addMd (rounds (blockWords d offset) h) h) else h)"
  by pat_completeness auto
termination by (relation "measure (\<lambda>(rounds, d, offset, h). length d - offset)") auto

declare mdLoop.simps [simp del]

section \<open>MD4\<close>

text \<open>Four calls of a round function, with the words and shifts they name.\<close>

fun md4Step ::
  "(u32 \<Rightarrow> u32 \<Rightarrow> u32 \<Rightarrow> u32) \<Rightarrow> u32 \<Rightarrow> u32 list \<Rightarrow> nat \<times> nat \<times> nat \<times> nat \<Rightarrow> nat \<times> nat \<times> nat \<times> nat \<Rightarrow>
   mdState \<Rightarrow> mdState"
where
  "md4Step f k x (i0, i1, i2, i3) (s0, s1, s2, s3) (a, b, c, d) =
    (let a = leftRotate (a + f b c d + x ! i0 + k) s0;
         d = leftRotate (d + f a b c + x ! i1 + k) s1;
         c = leftRotate (c + f d a b + x ! i2 + k) s2;
         b = leftRotate (b + f c d a + x ! i3 + k) s3
     in (a, b, c, d))"

definition md4Rounds :: "u32 list \<Rightarrow> mdState \<Rightarrow> mdState" where
  "md4Rounds x h =
    (let f = \<lambda>x y z. (x AND y) OR (NOT x AND z);
         g = \<lambda>x y z. (x AND y) OR (x AND z) OR (y AND z);
         e = \<lambda>x y z. x XOR y XOR z;
         h = fold (\<lambda>i. md4Step f 0 x (i, i + 1, i + 2, i + 3) (3, 7, 11, 19)) [0, 4, 8, 12] h;
         h = fold (\<lambda>i. md4Step g 0x5A827999 x (i, i + 4, i + 8, i + 12) (3, 5, 9, 13)) [0, 1, 2, 3] h
     in fold (\<lambda>i. md4Step e 0x6ED9EBA1 x (i, i + 8, i + 4, i + 12) (3, 9, 11, 15)) [0, 2, 1, 3] h)"

definition md4 :: "bytes \<Rightarrow> bytes" where
  "md4 d = mdDigest (mdLoop md4Rounds (paddedMessage d) 0 mdStart)"

section \<open>MD5\<close>

definition md5Shifts :: "nat list" where
  "md5Shifts = concat (map (\<lambda>row. concat (replicate 4 row)) [[7, 12, 17, 22], [5, 9, 14, 20], [4, 11, 16, 23], [6, 10, 15, 21]])"

definition md5K :: "u32 list" where
  "md5K = concat
    [[0xd76aa478, 0xe8c7b756, 0x242070db, 0xc1bdceee],
     [0xf57c0faf, 0x4787c62a, 0xa8304613, 0xfd469501],
     [0x698098d8, 0x8b44f7af, 0xffff5bb1, 0x895cd7be],
     [0x6b901122, 0xfd987193, 0xa679438e, 0x49b40821],
     [0xf61e2562, 0xc040b340, 0x265e5a51, 0xe9b6c7aa],
     [0xd62f105d, 0x02441453, 0xd8a1e681, 0xe7d3fbc8],
     [0x21e1cde6, 0xc33707d6, 0xf4d50d87, 0x455a14ed],
     [0xa9e3e905, 0xfcefa3f8, 0x676f02d9, 0x8d2a4c8a],
     [0xfffa3942, 0x8771f681, 0x6d9d6122, 0xfde5380c],
     [0xa4beea44, 0x4bdecfa9, 0xf6bb4b60, 0xbebfbc70],
     [0x289b7ec6, 0xeaa127fa, 0xd4ef3085, 0x04881d05],
     [0xd9d4d039, 0xe6db99e5, 0x1fa27cf8, 0xc4ac5665],
     [0xf4292244, 0x432aff97, 0xab9423a7, 0xfc93a039],
     [0x655b59c3, 0x8f0ccc92, 0xffeff47d, 0x85845dd1],
     [0x6fa87e4f, 0xfe2ce6e0, 0xa3014314, 0x4e0811a1],
     [0xf7537e82, 0xbd3af235, 0x2ad7d2bb, 0xeb86d391]]"

fun md5Step :: "u32 list \<Rightarrow> nat \<Rightarrow> mdState \<Rightarrow> mdState" where
  "md5Step m i (a, b, c, d) =
    (let (f, g) =
       (if i < 16 then ((b AND c) OR (NOT b AND d), i)
        else if i < 32 then ((d AND b) OR (NOT d AND c), (5 * i + 1) mod 16)
        else if i < 48 then (b XOR c XOR d, (3 * i + 5) mod 16)
        else (c XOR (b OR NOT d), (7 * i) mod 16))
     in (d, b + leftRotate (a + f + md5K ! i + m ! g) (md5Shifts ! i), b, c))"

definition md5Rounds :: "u32 list \<Rightarrow> mdState \<Rightarrow> mdState" where
  "md5Rounds m h = fold (md5Step m) [0..<64] h"

definition md5 :: "bytes \<Rightarrow> bytes" where
  "md5 d = mdDigest (mdLoop md5Rounds (paddedMessage d) 0 mdStart)"

definition hmacMd5 :: "bytes \<Rightarrow> bytes \<Rightarrow> bytes" where
  "hmacMd5 key d =
    (let normalizedKey = resize 64 (if 64 < length key then md5 key else key);
         innerPad = map (\<lambda>b. b XOR 0x36) normalizedKey;
         outerPad = map (\<lambda>b. b XOR 0x5C) normalizedKey
     in md5 (outerPad @ md5 (innerPad @ d)))"

section \<open>NTLMv2\<close>

definition ntHash :: "bytes \<Rightarrow> string + bytes" where
  "ntHash password = (case encodeUtf16Le password of Inl m \<Rightarrow> Inl m | Inr utf16Password \<Rightarrow> Inr (md4 utf16Password))"

text \<open>\<open>std::toupper\<close> in the C locale changes the 26 letters only.\<close>

definition uppercaseAscii :: "bytes \<Rightarrow> bytes" where
  "uppercaseAscii s = map (\<lambda>c. if 97 \<le> c \<and> c \<le> 122 then c - 32 else c) s"

definition ntowfv2 :: "bytes \<Rightarrow> bytes \<Rightarrow> bytes \<Rightarrow> string + bytes" where
  "ntowfv2 password user domain =
    (case ntHash password of
       Inl m \<Rightarrow> Inl m
     | Inr key \<Rightarrow>
         case encodeUtf16Le (uppercaseAscii user @ domain) of
           Inl m \<Rightarrow> Inl m
         | Inr identity \<Rightarrow> Inr (hmacMd5 key identity))"

record NtlmV2ResponseParts =
  nvp_ntChallengeResponse :: bytes
  nvp_lmChallengeResponse :: bytes
  nvp_ntProof :: bytes
  nvp_sessionBaseKey :: bytes

definition computeNtlmV2ResponseFromKey ::
  "bytes \<Rightarrow> bytes \<Rightarrow> bytes \<Rightarrow> u64 \<Rightarrow> bytes \<Rightarrow> NtlmV2ResponseParts DecodeResult"
where
  "computeNtlmV2ResponseFromKey key serverChallenge clientChallenge timestamp targetInfo =
    (let temp = [0x01, 0x01] @ le16 0 @ le32 0 @ le64 timestamp @ clientChallenge @ le32 0 @ targetInfo @ le32 0;
         ntProof = hmacMd5 key (serverChallenge @ temp);
         lmProof = hmacMd5 key (serverChallenge @ clientChallenge)
     in Success
       \<lparr>nvp_ntChallengeResponse = ntProof @ temp, nvp_lmChallengeResponse = lmProof @ clientChallenge,
        nvp_ntProof = ntProof, nvp_sessionBaseKey = hmacMd5 key ntProof\<rparr>)"

definition computeNtlmV2Response ::
  "bytes \<Rightarrow> bytes \<Rightarrow> bytes \<Rightarrow> bytes \<Rightarrow> bytes \<Rightarrow> u64 \<Rightarrow> bytes \<Rightarrow> string + NtlmV2ResponseParts DecodeResult"
where
  "computeNtlmV2Response password user domain serverChallenge clientChallenge timestamp targetInfo =
    (case ntowfv2 password user domain of
       Inl m \<Rightarrow> Inl m
     | Inr responseKey \<Rightarrow>
         Inr (computeNtlmV2ResponseFromKey responseKey serverChallenge clientChallenge timestamp targetInfo))"

lemma md5_empty: "md5 [] = [0xd4, 0x1d, 0x8c, 0xd9, 0x8f, 0x00, 0xb2, 0x04, 0xe9, 0x80, 0x09, 0x98, 0xec, 0xf8, 0x42, 0x7e]"
  by code_simp

lemma md4_empty: "md4 [] = [0x31, 0xd6, 0xcf, 0xe0, 0xd1, 0x6a, 0xe9, 0x31, 0xb7, 0x3c, 0x59, 0xd7, 0xe0, 0xc0, 0x89, 0xc0]"
  by code_simp

end
