(* ===== verification/Ntlm.thy ===== *)
theory Ntlm
  imports Spnego NtlmCrypto Requests
begin

text \<open>
  The NTLM messages of \<open>NtlmMessages.cpp\<close>: the NEGOTIATE and AUTHENTICATE builders and the
  decoder of the CHALLENGE. A builder is undefined (\<open>Inl\<close>) exactly when the C++ throws.
\<close>

section \<open>Fields\<close>

abbreviation (input) kNtlmNegotiateUnicode :: u32 where "kNtlmNegotiateUnicode \<equiv> 0x00000001"
abbreviation (input) kNtlmNegotiateNtlm :: u32 where "kNtlmNegotiateNtlm \<equiv> 0x00000200"
abbreviation (input) kNtlmNegotiateExtendedSessionSecurity :: u32 where
  "kNtlmNegotiateExtendedSessionSecurity \<equiv> 0x00080000"
abbreviation (input) kNtlmNegotiateVersion :: u32 where "kNtlmNegotiateVersion \<equiv> 0x02000000"
abbreviation (input) kNtlmNegotiateKeyExchange :: u32 where "kNtlmNegotiateKeyExchange \<equiv> 0x40000000"

record NtlmNegotiateOptions =
  nno_domain :: bytes
  nno_workstation :: bytes
  nno_flags :: u32
  nno_version :: bytes

record NtlmChallengeMessage =
  ncm_targetName :: bytes
  ncm_flags :: u32
  ncm_serverChallenge :: bytes
  ncm_targetInfo :: bytes
  ncm_hasTargetInfo :: bool

record NtlmAuthenticateOptions =
  nao_domain :: bytes
  nao_username :: bytes
  nao_workstation :: bytes
  nao_lmChallengeResponse :: bytes
  nao_ntChallengeResponse :: bytes
  nao_encryptedRandomSessionKey :: bytes
  nao_flags :: u32
  nao_version :: bytes
  nao_includeVersion :: bool
  nao_includeMic :: bool
  nao_mic :: bytes

definition hasSignature :: "bytes \<Rightarrow> bool" where
  "hasSignature d = (8 \<le> length d \<and> take 8 d = ntlmSignature)"

definition encodeUnicodeUpper :: "bytes \<Rightarrow> string + bytes" where
  "encodeUnicodeUpper s = encodeUtf16Le (uppercaseAscii s)"

definition appendSecurityBuffer :: "u16 \<Rightarrow> u32 \<Rightarrow> bytes" where
  "appendSecurityBuffer n offset = le16 n @ le16 n @ le32 (if n = 0 then 0 else offset)"

definition checkedFieldSize :: "nat \<Rightarrow> string \<Rightarrow> string + u16" where
  "checkedFieldSize n fieldName =
    (if 0xFFFF < n then Inl (''NTLM '' @ fieldName @ '' field is too large.'') else Inr (word_of_nat n))"

definition readSecurityBuffer :: "bytes \<Rightarrow> nat \<Rightarrow> bytes DecodeResult option" where
  "readSecurityBuffer d descriptorOffset =
    (if length d < descriptorOffset + 8
     then Some (failure EcIoError ''NTLM security buffer descriptor is truncated.'')
     else do {
       n \<leftarrow> readU16Le d descriptorOffset;
       maxLength \<leftarrow> readU16Le d (descriptorOffset + 2);
       offset \<leftarrow> readU32Le d (descriptorOffset + 4);
       if maxLength < n then Some (failure EcIoError ''NTLM security buffer length exceeds max length.'')
       else if n = 0 then Some (Success [])
       else let e = unat offset + unat n in
         if offset < 32 \<or> length d < e \<or> e < unat offset
         then Some (failure EcIoError ''NTLM security buffer is out of bounds.'')
         else do { field \<leftarrow> slice d (unat offset) e; Some (Success field) } })"

section \<open>Builders\<close>

text \<open>A call that may throw, then the rest of the function.\<close>

definition unlessThrown :: "string + 'a \<Rightarrow> ('a \<Rightarrow> string + 'b) \<Rightarrow> string + 'b" where
  "unlessThrown r k = (case r of Inl m \<Rightarrow> Inl m | Inr v \<Rightarrow> k v)"

definition buildNtlmNegotiateMessage :: "NtlmNegotiateOptions \<Rightarrow> string + bytes" where
  "buildNtlmNegotiateMessage options =
     unlessThrown (encodeUnicodeUpper (nno_domain options)) (\<lambda>domain.
     unlessThrown (encodeUnicodeUpper (nno_workstation options)) (\<lambda>workstation.
     if 0xFFFF < length domain \<or> 0xFFFF < length workstation
     then Inl ''NTLM negotiate identity field is too large.''
     else Inr (ntlmSignature @ le32 1 @ le32 (nno_flags options)
       @ appendSecurityBuffer (word_of_nat (length domain)) 40
       @ appendSecurityBuffer (word_of_nat (length workstation)) (word_of_nat (40 + length domain))
       @ nno_version options @ domain @ workstation)))"

text \<open>Where the payload starts and the six fields in the order of their bytes.\<close>

definition payloadOffset :: "NtlmAuthenticateOptions \<Rightarrow> u32" where
  "payloadOffset options = 64 + (if nao_includeVersion options then 8 else 0) + (if nao_includeMic options then 16 else 0)"

definition authenticateMessage :: "NtlmAuthenticateOptions \<Rightarrow> bytes \<Rightarrow> bytes \<Rightarrow> bytes \<Rightarrow> bytes" where
  "authenticateMessage options domain username workstation =
    (let lm = nao_lmChallengeResponse options; nt = nao_ntChallengeResponse options;
         sessionKey = nao_encryptedRandomSessionKey options;
         sizeOf = \<lambda>field :: bytes. (word_of_nat (length field) :: u16);
         domainOffset = payloadOffset options;
         usernameOffset = domainOffset + ucast (sizeOf domain);
         workstationOffset = usernameOffset + ucast (sizeOf username);
         lmOffset = workstationOffset + ucast (sizeOf workstation);
         ntOffset = lmOffset + ucast (sizeOf lm);
         sessionKeyOffset = ntOffset + ucast (sizeOf nt)
     in ntlmSignature @ le32 3
       @ appendSecurityBuffer (sizeOf lm) lmOffset
       @ appendSecurityBuffer (sizeOf nt) ntOffset
       @ appendSecurityBuffer (sizeOf domain) domainOffset
       @ appendSecurityBuffer (sizeOf username) usernameOffset
       @ appendSecurityBuffer (sizeOf workstation) workstationOffset
       @ appendSecurityBuffer (sizeOf sessionKey) sessionKeyOffset
       @ le32 (nao_flags options)
       @ (if nao_includeVersion options then nao_version options else [])
       @ (if nao_includeMic options then nao_mic options else [])
       @ domain @ username @ workstation @ lm @ nt @ sessionKey)"

definition buildNtlmAuthenticateMessage :: "NtlmAuthenticateOptions \<Rightarrow> string + bytes" where
  "buildNtlmAuthenticateMessage options =
     unlessThrown (encodeUtf16Le (nao_domain options)) (\<lambda>domain.
     unlessThrown (encodeUtf16Le (nao_username options)) (\<lambda>username.
     unlessThrown (encodeUtf16Le (nao_workstation options)) (\<lambda>workstation.
     unlessThrown (checkedFieldSize (length (nao_lmChallengeResponse options)) ''LM response'') (\<lambda>_.
     unlessThrown (checkedFieldSize (length (nao_ntChallengeResponse options)) ''NT response'') (\<lambda>_.
     unlessThrown (checkedFieldSize (length domain) ''domain'') (\<lambda>_.
     unlessThrown (checkedFieldSize (length username) ''username'') (\<lambda>_.
     unlessThrown (checkedFieldSize (length workstation) ''workstation'') (\<lambda>_.
     unlessThrown (checkedFieldSize (length (nao_encryptedRandomSessionKey options)) ''encrypted session key'') (\<lambda>_.
     Inr (authenticateMessage options domain username workstation))))))))))"

section \<open>The challenge\<close>

definition decodeNtlmChallengeMessage :: "bytes \<Rightarrow> NtlmChallengeMessage DecodeResult option" where
  "decodeNtlmChallengeMessage d =
    (if length d < 48 then Some (failure EcIoError ''NTLM CHALLENGE_MESSAGE is shorter than 48 bytes.'')
     else if \<not> hasSignature d then Some (failure EcProtocolUnsupported ''Invalid NTLMSSP signature.'')
     else do {
       messageType \<leftarrow> readU32Le d 8;
       if messageType \<noteq> 2 then Some (failure EcProtocolUnsupported ''NTLM message is not a CHALLENGE_MESSAGE.'')
       else do {
         targetName \<leftarrow> readSecurityBuffer d 12;
         case targetName of Failure e \<Rightarrow> Some (failureFrom e) | Success targetName \<Rightarrow> do {
         flags \<leftarrow> readU32Le d 20;
         targetInfo \<leftarrow> readSecurityBuffer d 40;
         case targetInfo of Failure e \<Rightarrow> Some (failureFrom e) | Success targetInfo \<Rightarrow> do {
         serverChallenge \<leftarrow> slice d 24 32;
         decodedTargetName \<leftarrow> decodeUtf16Le targetName;
         case decodedTargetName of Failure e \<Rightarrow> Some (failureFrom e) | Success decoded \<Rightarrow>
           Some (Success \<lparr>ncm_targetName = decoded, ncm_flags = flags, ncm_serverChallenge = serverChallenge,
             ncm_targetInfo = targetInfo, ncm_hasTargetInfo = (targetInfo \<noteq> [])\<rparr>) } } } })"

lemma readSecurityBuffer_total: "readSecurityBuffer d i \<noteq> None"
  by (auto simp: readSecurityBuffer_def Let_def in_bounds simp del: not_None_eq)

lemma decodeNtlmChallengeMessage_total: "decodeNtlmChallengeMessage d \<noteq> None"
  by (auto simp: decodeNtlmChallengeMessage_def in_bounds readSecurityBuffer_total decodeUtf16Le_total
      simp del: not_None_eq split: DecodeResult.split_asm)

section \<open>Reading fields back\<close>

lemma length_appendSecurityBuffer [simp]: "length (appendSecurityBuffer n offset) = 8"
  by (simp add: appendSecurityBuffer_def)


text \<open>A descriptor that names the place of a field.\<close>

lemma readSecurityBuffer_field:
  assumes "slice d i (i + 8) = Some (appendSecurityBuffer (word_of_nat (length field)) offset)"
    and "length field < 2 ^ 16" "32 \<le> unat offset"
    and "field \<noteq> [] \<Longrightarrow> slice d (unat offset) (unat offset + length field) = Some field"
  shows "readSecurityBuffer d i = Some (Success field)"
proof -
  let ?n = "word_of_nat (length field) :: u16"
  have n: "unat ?n = length field" using assms(2) by (simp add: unat_of_nat16)
  then have empty: "?n = 0 \<longleftrightarrow> field = []" by (metis length_0_conv unat_0 unat_eq_zero)
  from assms(1) have i: "i + 8 \<le> length d" by (simp add: slice_def split: if_split_asm)
  with assms(1) have "take 8 (drop i d) = appendSecurityBuffer ?n offset" by (simp add: slice_in)
  then have d: "d = take i d @ appendSecurityBuffer ?n offset @ drop (i + 8) d"
    by (metis append_take_drop_id drop_drop add.commute)
  have "readU16Le d i = Some ?n" "readU16Le d (i + 2) = Some ?n" "readU32Le d (i + 4) = Some (if ?n = 0 then 0 else offset)"
    by (subst d, use i in \<open>simp add: appendSecurityBuffer_def wire\<close>)+
  moreover have "unat offset + length field \<le> length d" if "field \<noteq> []"
    using assms(4) [OF that] by (simp add: slice_def split: if_split_asm)
  moreover have "\<not> offset < 32" using assms(3) by (simp add: word_less_nat_alt)
  ultimately show ?thesis using n empty assms(4) i
    by (auto simp: readSecurityBuffer_def Let_def)
qed

lemma unat_next_offset:
  assumes "length field < 2 ^ 16" "unat (offset :: u32) + 2 ^ 16 < 2 ^ 32"
  shows "unat (offset + ucast (word_of_nat (length field) :: u16)) = unat offset + length field"
proof -
  have "unat (ucast (word_of_nat (length field) :: u16) :: u32) = length field"
    using assms(1) by (simp add: unat_ucast_wider unat_of_nat16)
  then show ?thesis using assms by (simp add: unat_word_ariths)
qed

lemma length_ntlmSignature [simp]: "length ntlmSignature = 8"
  by (simp add: ntlmSignature_def)

lemma unlessThrown_Inr: "unlessThrown r k = Inr v \<longleftrightarrow> (\<exists>x. r = Inr x \<and> k x = Inr v)"
  by (cases r) (auto simp: unlessThrown_def)

lemma checkedFieldSize_Inr: "checkedFieldSize n name = Inr v \<longleftrightarrow> n < 2 ^ 16 \<and> v = word_of_nat n"
  by (auto simp: checkedFieldSize_def)

lemma buildNtlmAuthenticateMessage_Inr:
  assumes "buildNtlmAuthenticateMessage options = Inr m"
  obtains domain username workstation where
    "encodeUtf16Le (nao_domain options) = Inr domain" "encodeUtf16Le (nao_username options) = Inr username"
    "encodeUtf16Le (nao_workstation options) = Inr workstation"
    "m = authenticateMessage options domain username workstation"
    "list_all (\<lambda>field. length field < 2 ^ 16) [nao_lmChallengeResponse options, nao_ntChallengeResponse options,
       domain, username, workstation, nao_encryptedRandomSessionKey options]"
  using assms by (auto simp: buildNtlmAuthenticateMessage_def unlessThrown_Inr checkedFieldSize_Inr)

text \<open>The fixed part takes 64 bytes and the payload follows the version and the code.\<close>

lemma authenticateMessage_parts:
  assumes "length (nao_version options) = 8" "length (nao_mic options) = 16"
    and "list_all (\<lambda>field. length field < 2 ^ 16) [nao_lmChallengeResponse options, nao_ntChallengeResponse options,
      domain, username, workstation, nao_encryptedRandomSessionKey options]"
  defines "m \<equiv> authenticateMessage options domain username workstation"
  shows "hasSignature m" "readU32Le m 8 = Some 3" "readU32Le m 60 = Some (nao_flags options)"
    "readSecurityBuffer m 12 = Some (Success (nao_lmChallengeResponse options))"
    "readSecurityBuffer m 20 = Some (Success (nao_ntChallengeResponse options))"
    "readSecurityBuffer m 28 = Some (Success domain)" "readSecurityBuffer m 36 = Some (Success username)"
    "readSecurityBuffer m 44 = Some (Success workstation)"
    "readSecurityBuffer m 52 = Some (Success (nao_encryptedRandomSessionKey options))"
proof -
  let ?lm = "nao_lmChallengeResponse options" and ?nt = "nao_ntChallengeResponse options"
  let ?key = "nao_encryptedRandomSessionKey options" and ?size = "\<lambda>field :: bytes. (word_of_nat (length field) :: u16)"
  define extra where "extra = (if nao_includeVersion options then nao_version options else []) @
    (if nao_includeMic options then nao_mic options else [])"
  define o0 where "o0 = payloadOffset options"
  define o1 where "o1 = o0 + ucast (?size domain)"
  define o2 where "o2 = o1 + ucast (?size username)"
  define o3 where "o3 = o2 + ucast (?size workstation)"
  define o4 where "o4 = o3 + ucast (?size ?lm)"
  define o5 where "o5 = o4 + ucast (?size ?nt)"
  have u0: "unat o0 = 64 + length extra" using assms(1,2) by (simp add: o0_def payloadOffset_def extra_def)
  have small: "length extra \<le> 24" using assms(1,2) by (simp add: extra_def)
  note fits = assms(3) [simplified]
  have u1: "unat o1 = unat o0 + length domain" unfolding o1_def by (rule unat_next_offset) (use fits u0 small in simp_all)
  have u2: "unat o2 = unat o1 + length username" unfolding o2_def by (rule unat_next_offset) (use fits u0 u1 small in simp_all)
  have u3: "unat o3 = unat o2 + length workstation" unfolding o3_def by (rule unat_next_offset) (use fits u0 u1 u2 small in simp_all)
  have u4: "unat o4 = unat o3 + length ?lm" unfolding o4_def by (rule unat_next_offset) (use fits u0 u1 u2 u3 small in simp_all)
  have u5: "unat o5 = unat o4 + length ?nt" unfolding o5_def by (rule unat_next_offset) (use fits u0 u1 u2 u3 u4 small in simp_all)
  note u = u0 u1 u2 u3 u4 u5
  have m: "m = ntlmSignature @ le32 3 @ appendSecurityBuffer (?size ?lm) o3 @ appendSecurityBuffer (?size ?nt) o4
      @ appendSecurityBuffer (?size domain) o0 @ appendSecurityBuffer (?size username) o1
      @ appendSecurityBuffer (?size workstation) o2 @ appendSecurityBuffer (?size ?key) o5 @ le32 (nao_flags options)
      @ extra @ domain @ username @ workstation @ ?lm @ ?nt @ ?key"
    by (simp add: m_def authenticateMessage_def Let_def o0_def o1_def o2_def o3_def o4_def o5_def extra_def)
  show "hasSignature m" "readU32Le m 8 = Some 3" "readU32Le m 60 = Some (nao_flags options)"
    by (simp_all add: m hasSignature_def wire)
  have at: "slice m 12 (12 + 8) = Some (appendSecurityBuffer (?size ?lm) o3)"
    "slice m 20 (20 + 8) = Some (appendSecurityBuffer (?size ?nt) o4)"
    "slice m 28 (28 + 8) = Some (appendSecurityBuffer (?size domain) o0)"
    "slice m 36 (36 + 8) = Some (appendSecurityBuffer (?size username) o1)"
    "slice m 44 (44 + 8) = Some (appendSecurityBuffer (?size workstation) o2)"
    "slice m 52 (52 + 8) = Some (appendSecurityBuffer (?size ?key) o5)"
    by (simp_all add: m wire)
  have payload: "slice m (unat o0) (unat o0 + length domain) = Some domain"
    "slice m (unat o1) (unat o1 + length username) = Some username"
    "slice m (unat o2) (unat o2 + length workstation) = Some workstation"
    "slice m (unat o3) (unat o3 + length ?lm) = Some ?lm"
    "slice m (unat o4) (unat o4 + length ?nt) = Some ?nt"
    "slice m (unat o5) (unat o5 + length ?key) = Some ?key"
    unfolding u by (simp_all add: m slice_def)
  note field = readSecurityBuffer_field [OF _ _ _ payload(1)] readSecurityBuffer_field [OF _ _ _ payload(2)]
    readSecurityBuffer_field [OF _ _ _ payload(3)] readSecurityBuffer_field [OF _ _ _ payload(4)]
    readSecurityBuffer_field [OF _ _ _ payload(5)] readSecurityBuffer_field [OF _ _ _ payload(6)]
  show "readSecurityBuffer m 12 = Some (Success ?lm)" by (rule field(4) [OF at(1)]) (use fits u in simp_all)
  show "readSecurityBuffer m 20 = Some (Success ?nt)" by (rule field(5) [OF at(2)]) (use fits u in simp_all)
  show "readSecurityBuffer m 28 = Some (Success domain)" by (rule field(1) [OF at(3)]) (use fits u in simp_all)
  show "readSecurityBuffer m 36 = Some (Success username)" by (rule field(2) [OF at(4)]) (use fits u in simp_all)
  show "readSecurityBuffer m 44 = Some (Success workstation)" by (rule field(3) [OF at(5)]) (use fits u in simp_all)
  show "readSecurityBuffer m 52 = Some (Success ?key)" by (rule field(6) [OF at(6)]) (use fits u in simp_all)
qed

section \<open>Properties\<close>

text \<open>The fields of an AUTHENTICATE message are where its descriptors say. When the builder
  returns, the decoder of security buffers reads the LM and NT responses, the domain, the user,
  the workstation and the session key back from the message it built.\<close>

lemma authenticate_fields_read_back:
  assumes "buildNtlmAuthenticateMessage options = Inr m" "length (nao_version options) = 8" "length (nao_mic options) = 16"
  shows "hasSignature m \<and> readU32Le m 8 = Some 3 \<and> readU32Le m 60 = Some (nao_flags options) \<and>
    readSecurityBuffer m 12 = Some (Success (nao_lmChallengeResponse options)) \<and>
    readSecurityBuffer m 20 = Some (Success (nao_ntChallengeResponse options)) \<and>
    (\<exists>domain username workstation.
       encodeUtf16Le (nao_domain options) = Inr domain \<and> readSecurityBuffer m 28 = Some (Success domain) \<and>
       encodeUtf16Le (nao_username options) = Inr username \<and> readSecurityBuffer m 36 = Some (Success username) \<and>
       encodeUtf16Le (nao_workstation options) = Inr workstation \<and> readSecurityBuffer m 44 = Some (Success workstation)) \<and>
    readSecurityBuffer m 52 = Some (Success (nao_encryptedRandomSessionKey options))"
proof -
  obtain domain username workstation where parts:
    "encodeUtf16Le (nao_domain options) = Inr domain" "encodeUtf16Le (nao_username options) = Inr username"
    "encodeUtf16Le (nao_workstation options) = Inr workstation"
    "m = authenticateMessage options domain username workstation"
    "list_all (\<lambda>field. length field < 2 ^ 16) [nao_lmChallengeResponse options, nao_ntChallengeResponse options,
       domain, username, workstation, nao_encryptedRandomSessionKey options]"
    by (rule buildNtlmAuthenticateMessage_Inr [OF assms(1)])
  from authenticateMessage_parts [OF assms(2,3) parts(5)] parts(1-3) show ?thesis unfolding parts(4) by blast
qed

definition sampleAuthenticate :: NtlmAuthenticateOptions where
  "sampleAuthenticate = \<lparr>nao_domain = [], nao_username = [97], nao_workstation = [], nao_lmChallengeResponse = [0],
     nao_ntChallengeResponse = [1, 2, 3], nao_encryptedRandomSessionKey = [], nao_flags = 0, nao_version = replicate 8 0,
     nao_includeVersion = True, nao_includeMic = False, nao_mic = replicate 16 0\<rparr>"

lemma authenticate_fields_read_back_witness:
  "\<exists>m. buildNtlmAuthenticateMessage sampleAuthenticate = Inr m \<and> readSecurityBuffer m 20 = Some (Success [1, 2, 3])"
proof -
  have "encodeUtf16Le [] = Inr []" "encodeUtf16Le [97] = Inr [97, 0]" by code_simp+
  then obtain m where m: "buildNtlmAuthenticateMessage sampleAuthenticate = Inr m"
    by (simp add: buildNtlmAuthenticateMessage_def sampleAuthenticate_def unlessThrown_def checkedFieldSize_def)
  from authenticate_fields_read_back [OF this] m show ?thesis by (simp add: sampleAuthenticate_def)
qed

end
