(* ===== verification/NtlmProvider.thy ===== *)
theory NtlmProvider
  imports Ntlm Connection
begin

text \<open>
  The token provider of NTLMv2 (\<open>NtlmV2TokenProvider.cpp\<close>). Its members are the state
  \<open>NtlmV2State\<close>; the random device, the clock and the functions the options may hold are
  functions of the outside world. An array of 16 bytes is a function of a 4-bit index, so that
  its length is part of its type. The interface the connector relies on is the locale
  \<open>session_key_provider\<close>, interpreted on this provider.
\<close>

section \<open>Options and state\<close>

record 'r NtlmV2TokenProviderOptions =
  npo_workstation :: bytes
  npo_negotiateFlags :: u32
  npo_useServerTimestamp :: bool
  npo_omitLmResponse :: bool
  npo_useSpnego :: bool
  npo_fixedClientChallenge :: "bytes option"
  npo_fixedTimestamp :: "u64 option"
  npo_clientChallengeGenerator :: "('r \<Rightarrow> bytes \<times> 'r) option"
  npo_timestampProvider :: "('r \<Rightarrow> u64 \<times> 'r) option"

type_synonym Digest16 = "4 word \<Rightarrow> u8"

definition bytesFromDigest :: "Digest16 \<Rightarrow> bytes" where
  "bytesFromDigest digest = map (\<lambda>i. digest (word_of_nat i)) [0..<16]"

definition digestFromBytes :: "bytes \<Rightarrow> Digest16" where
  "digestFromBytes b i = b ! unat i"

record 'r NtlmV2State =
  m_lastNegotiateMessage :: bytes
  m_sessionBaseKey :: Digest16
  ntlm_outside :: 'r

text \<open>\<open>std::random_device\<close> and \<open>std::chrono::system_clock\<close>, the second in nanoseconds.\<close>

record 'r Entropy =
  sys_random_device :: "'r \<Rightarrow> u32 \<times> 'r"
  sys_clock :: "'r \<Rightarrow> int \<times> 'r"

section \<open>What goes into a response\<close>

definition currentFiletime :: "'r Entropy \<Rightarrow> 'r \<Rightarrow> u64 \<times> 'r" where
  "currentFiletime entropy w =
    (let (now, w) = sys_clock entropy w;
         ticks = (if now < 0 then - (- now div 100) else now div 100)
     in (116444736000000000 + word_of_int ticks, w))"

fun randomBytes :: "'r Entropy \<Rightarrow> nat \<Rightarrow> 'r \<Rightarrow> bytes \<times> 'r" where
  "randomBytes entropy 0 w = ([], w)"
| "randomBytes entropy (Suc n) w =
    (let (r, w) = sys_random_device entropy w; (bytes, w) = randomBytes entropy n w in (ucast r # bytes, w))"

definition randomClientChallenge :: "'r Entropy \<Rightarrow> 'r \<Rightarrow> bytes \<times> 'r" where
  "randomClientChallenge entropy = randomBytes entropy 8"

definition clientChallengeFromOptions :: "'r Entropy \<Rightarrow> 'r NtlmV2TokenProviderOptions \<Rightarrow> 'r \<Rightarrow> bytes \<times> 'r" where
  "clientChallengeFromOptions entropy options w =
    (case npo_fixedClientChallenge options of
       Some challenge \<Rightarrow> (challenge, w)
     | None \<Rightarrow>
         case npo_clientChallengeGenerator options of
           Some generator \<Rightarrow> generator w
         | None \<Rightarrow> randomClientChallenge entropy w)"

definition timestampFromOptions :: "'r Entropy \<Rightarrow> 'r NtlmV2TokenProviderOptions \<Rightarrow> 'r \<Rightarrow> u64 \<times> 'r" where
  "timestampFromOptions entropy options w =
    (case npo_fixedTimestamp options of
       Some timestamp \<Rightarrow> (timestamp, w)
     | None \<Rightarrow>
         case npo_timestampProvider options of
           Some now \<Rightarrow> now w
         | None \<Rightarrow> currentFiletime entropy w)"

text \<open>The loop over the attribute pairs of the target information.\<close>

function findTimestamp :: "bytes \<Rightarrow> nat \<Rightarrow> u64 option DecodeResult option" where
  "findTimestamp targetInfo offset =
    (if offset + 4 \<le> length targetInfo then do {
       avId \<leftarrow> readU16Le targetInfo offset;
       avLength \<leftarrow> readU16Le targetInfo (offset + 2);
       let offset = offset + 4;
       if length targetInfo < offset + unat avLength
       then Some (failure EcProtocolUnsupported ''NTLM target info AV_PAIR is truncated.'')
       else if avId = 0 then Some (Success None)
       else if avId = 7 then
         if avLength \<noteq> 8 then Some (failure EcProtocolUnsupported ''NTLM timestamp AV_PAIR has invalid length.'')
         else do { timestamp \<leftarrow> readU64Le targetInfo offset; Some (Success (Some timestamp)) }
       else findTimestamp targetInfo (offset + unat avLength) }
     else if targetInfo = [] then Some (Success None)
     else Some (failure EcProtocolUnsupported ''NTLM target info is not terminated.''))"
  by pat_completeness auto

termination by (relation "measure (\<lambda>(d, offset). length d - offset)") auto

declare findTimestamp.simps [simp del]

definition timestampFromTargetInfo :: "bytes \<Rightarrow> u64 option DecodeResult option" where
  "timestampFromTargetInfo targetInfo = findTimestamp targetInfo 0"

definition authFlagsForChallenge :: "u32 \<Rightarrow> u32 \<Rightarrow> u32" where
  "authFlagsForChallenge challengeFlags requestedFlags =
    (let flags = challengeFlags AND requestedFlags
     in (flags OR kNtlmNegotiateUnicode OR kNtlmNegotiateNtlm OR kNtlmNegotiateExtendedSessionSecurity)
        AND NOT kNtlmNegotiateKeyExchange)"

record AuthIdentity =
  idn_domain :: bytes
  idn_username :: bytes
  idn_anonymous :: bool

text \<open>The name of the guest account is the text "Guest".\<close>

definition authIdentityFromConfig :: "ConnectionConfig \<Rightarrow> AuthIdentity DecodeResult" where
  "authIdentityFromConfig config =
    (case cfg_authMode config of
       PasswordMode \<Rightarrow> Success \<lparr>idn_domain = cfg_domain config, idn_username = cfg_username config, idn_anonymous = False\<rparr>
     | GuestMode \<Rightarrow> Success \<lparr>idn_domain = cfg_domain config,
         idn_username = (if cfg_username config = [] then [71, 117, 101, 115, 116] else cfg_username config),
         idn_anonymous = False\<rparr>
     | AnonymousMode \<Rightarrow> Success \<lparr>idn_domain = [], idn_username = [], idn_anonymous = True\<rparr>
     | CurrentUserMode \<Rightarrow> failure EcUnsupportedCapability
         (''Current-user/Kerberos authentication is not implemented by the ''
          @ ''clean-room native SMB engine yet.''))"

section \<open>NtlmV2TokenProvider\<close>

type_synonym ('r, 'a) step = "'r NtlmV2State \<Rightarrow> 'a DecodeResult outcome \<times> 'r NtlmV2State"

text \<open>A checked result, then the rest; an exception leaves the provider as it is.\<close>

definition settled :: "'b DecodeResult option \<Rightarrow> ('b \<Rightarrow> ('r, 'a) step) \<Rightarrow> ('r, 'a) step" where
  "settled r k s =
    (case r of None \<Rightarrow> (Fault, s) | Some (Failure e) \<Rightarrow> (Value (failureFrom e), s) | Some (Success v) \<Rightarrow> k v s)"

definition unlessThrowing :: "string + 'b \<Rightarrow> ('b \<Rightarrow> ('r, 'a) step) \<Rightarrow> ('r, 'a) step" where
  "unlessThrowing r k s = (case r of Inl m \<Rightarrow> (Thrown m, s) | Inr v \<Rightarrow> k v s)"

definition drawn :: "('r \<Rightarrow> 'b \<times> 'r) \<Rightarrow> ('b \<Rightarrow> ('r, 'a) step) \<Rightarrow> ('r, 'a) step" where
  "drawn f k s = (let (v, w) = f (ntlm_outside s) in k v (s\<lparr>ntlm_outside := w\<rparr>))"

definition ntlmVersion :: bytes where
  "ntlmVersion = [0x0A, 0x00, 0x00, 0x00, 0x00, 0x00, 0x00, 0x0F]"

definition initialToken ::
  "'r NtlmV2TokenProviderOptions \<Rightarrow> NegotiatedConnection \<Rightarrow> ConnectionConfig \<Rightarrow> ('r, bytes) step" where
  "initialToken options negotiated config =
     settled (Some (authIdentityFromConfig config)) (\<lambda>identity.
     unlessThrowing (buildNtlmNegotiateMessage
         \<lparr>nno_domain = idn_domain identity, nno_workstation = npo_workstation options,
          nno_flags = npo_negotiateFlags options, nno_version = ntlmVersion\<rparr>) (\<lambda>message s.
       (Value (Success (if npo_useSpnego options then buildSpnegoNegTokenInit message else message)),
        s\<lparr>m_lastNegotiateMessage := message\<rparr>)))"

definition authenticateOptions ::
  "'r NtlmV2TokenProviderOptions \<Rightarrow> AuthIdentity \<Rightarrow> NtlmChallengeMessage \<Rightarrow> bytes \<Rightarrow> bytes \<Rightarrow> NtlmAuthenticateOptions" where
  "authenticateOptions options identity challenge lm nt =
    (let flags = authFlagsForChallenge (ncm_flags challenge) (npo_negotiateFlags options) in
     \<lparr>nao_domain = idn_domain identity, nao_username = idn_username identity, nao_workstation = npo_workstation options,
      nao_lmChallengeResponse = lm, nao_ntChallengeResponse = nt, nao_encryptedRandomSessionKey = [],
      nao_flags = flags, nao_version = ntlmVersion, nao_includeVersion = (flags AND kNtlmNegotiateVersion \<noteq> 0),
      nao_includeMic = False, nao_mic = replicate 16 0\<rparr>)"

definition sendAuthenticate :: "'r NtlmV2TokenProviderOptions \<Rightarrow> NtlmAuthenticateOptions \<Rightarrow> ('r, bytes) step" where
  "sendAuthenticate options auth =
     unlessThrowing (buildNtlmAuthenticateMessage auth) (\<lambda>token s.
       (Value (Success (if npo_useSpnego options then buildSpnegoNegTokenResp token else token)), s))"

definition challengeTimestamp ::
  "'r Entropy \<Rightarrow> 'r NtlmV2TokenProviderOptions \<Rightarrow> u64 option \<Rightarrow> 'r \<Rightarrow> u64 \<times> 'r" where
  "challengeTimestamp entropy options targetTimestamp w =
    (case targetTimestamp of
       Some timestamp \<Rightarrow>
         if npo_useServerTimestamp options then (timestamp, w) else timestampFromOptions entropy options w
     | None \<Rightarrow> timestampFromOptions entropy options w)"

definition answerChallenge ::
  "'r Entropy \<Rightarrow> bytes \<Rightarrow> 'r NtlmV2TokenProviderOptions \<Rightarrow> AuthIdentity \<Rightarrow> NtlmChallengeMessage \<Rightarrow> u64 \<Rightarrow> ('r, bytes) step" where
  "answerChallenge entropy password options identity challenge timestamp =
    (if idn_anonymous identity then sendAuthenticate options (authenticateOptions options identity challenge [0] [])
     else drawn (clientChallengeFromOptions entropy options) (\<lambda>clientChallenge.
       unlessThrowing (computeNtlmV2Response password (idn_username identity) (idn_domain identity)
           (ncm_serverChallenge challenge) clientChallenge timestamp (ncm_targetInfo challenge)) (\<lambda>response.
       settled (Some response) (\<lambda>response s.
       sendAuthenticate options (authenticateOptions options identity challenge
           (if npo_omitLmResponse options then [] else nvp_lmChallengeResponse response)
           (nvp_ntChallengeResponse response))
         (s\<lparr>m_sessionBaseKey := digestFromBytes (nvp_sessionBaseKey response)\<rparr>)))))"

definition nextToken ::
  "'r Entropy \<Rightarrow> bytes \<Rightarrow> 'r NtlmV2TokenProviderOptions \<Rightarrow> SessionSetupResponse \<Rightarrow> ConnectionConfig \<Rightarrow> ('r, bytes) step" where
  "nextToken entropy password options answer config =
     settled (if npo_useSpnego options then unwrapSpnegoNtlmToken (ssr_securityBuffer answer)
              else Some (Success (ssr_securityBuffer answer))) (\<lambda>challengeToken.
     if \<not> startsWithNtlmSignature challengeToken
     then (\<lambda>s. (Value (failure EcProtocolUnsupported
       ''NTLMv2 token provider received a non-NTLMSSP challenge token.''), s))
     else settled (decodeNtlmChallengeMessage challengeToken) (\<lambda>challenge.
       settled (timestampFromTargetInfo (ncm_targetInfo challenge)) (\<lambda>targetTimestamp.
       drawn (challengeTimestamp entropy options targetTimestamp) (\<lambda>timestamp.
       settled (Some (authIdentityFromConfig config)) (\<lambda>identity.
       answerChallenge entropy password options identity challenge timestamp)))))"

definition sessionBaseKey :: "'r NtlmV2State \<Rightarrow> bytes DecodeResult" where
  "sessionBaseKey s =
    (let key = bytesFromDigest (m_sessionBaseKey s) in
     if list_all (\<lambda>b. b = 0) key
     then failure EcAuthenticationFailed ''NTLMv2 session base key is not available before authentication.''
     else Success key)"

text \<open>The provider as the connector sees it: its state is what lies outside the transports.\<close>

definition onProvider :: "('r, 'a) step \<Rightarrow> 'r NtlmV2State Smb3State \<Rightarrow> 'a DecodeResult outcome \<times> 'r NtlmV2State Smb3State" where
  "onProvider f w = (let (r, s) = f (enc_outside w) in (r, w\<lparr>enc_outside := s\<rparr>))"

definition ntlmTokenProvider ::
  "'r Entropy \<Rightarrow> bytes \<Rightarrow> 'r NtlmV2TokenProviderOptions \<Rightarrow> 'r NtlmV2State Smb3State TokenProvider" where
  "ntlmTokenProvider entropy password options =
     \<lparr>tp_initialToken = (\<lambda>negotiated config. onProvider (initialToken options negotiated config)),
      tp_nextToken = (\<lambda>answer config. onProvider (nextToken entropy password options answer config)),
      tp_sessionBaseKey = (\<lambda>w. sessionBaseKey (enc_outside w))\<rparr>"

section \<open>The contract of a token provider\<close>

text \<open>Every key of a stack of transports has the 16 bytes of the algorithms that use it.\<close>

fun wellKeyed :: "'w TransportStack \<Rightarrow> bool" where
  "wellKeyed (Wire transport) = True"
| "wellKeyed (SignedWith key dialect inner) = (length key = 16 \<and> wellKeyed inner)"
| "wellKeyed (SealedWith encryptionKey decryptionKey sessionId dialect inner) =
     (length encryptionKey = 16 \<and> length decryptionKey = 16 \<and> wellKeyed inner)"

fun wireOf :: "'w TransportStack \<Rightarrow> 'w Transport" where
  "wireOf (Wire transport) = transport"
| "wireOf (SignedWith key dialect inner) = wireOf inner"
| "wireOf (SealedWith encryptionKey decryptionKey sessionId dialect inner) = wireOf inner"

lemma wellKeyed_faultless:
  "wellKeyed stack \<Longrightarrow> faultlessTransport (wireOf stack) \<Longrightarrow> faultlessTransport (exchangeOver stack)"
  by (induction stack rule: wellKeyed.induct)
    (auto intro!: faultless_signingExchange faultless_encryptionExchange)

lemma derived_keys:
  "deriveSmb3EncryptionKey k d dir = Success key \<Longrightarrow> length key = 16"
  "signingKeyFor d k hash = Success key \<Longrightarrow> length k = 16 \<Longrightarrow> length key = 16"
  by (auto simp: deriveSmb3EncryptionKey_def deriveKey_def unsupportedDialect_def signingKeyFor_def deriveSmb3SigningKey_def
      unsupportedSigning_def deriveSmb311SigningKey_def deriveSmb311Key_def length_hmacSha256 split: if_split_asm)

text \<open>What the connector relies on: a session key that is handed out has 16 bytes.\<close>

locale session_key_provider =
  fixes provider :: "'v Smb3State TokenProvider"
  assumes session_key_length: "tp_sessionBaseKey provider w = Success key \<Longrightarrow> length key = 16"
begin

lemma keyed_length:
  "keyed provider [] s = (Value (Success key), s') \<Longrightarrow> length key = 16"
  by (auto simp: keyed_def giving_Success elim!: then_Success dest: session_key_length)

lemma connected_well_keyed:
  assumes "connect crypto_hash_sha512 (Some wire) provider options ctx s = (Value (Success st), s')"
  shows "wellKeyed (ncs_transport st) \<and> wireOf (ncs_transport st) = wire"
proof (rule connect_Success [OF assms])
  fix negotiated established sessionKey inner p tree messageId p1 p2 s0 s1 s2 s3 s4
  assume key: "(if needsSessionKey options negotiated (sst_session established) then keyed provider [] else giving (Success [])) s0 =
      (Value (Success sessionKey), s1)"
    and signed: "signConnection options negotiated established sessionKey (Wire wire) s1 = (Value (Success inner), s2)"
    and sealed: "encryptWhen (ssr_encryptData (sst_session established) \<or> cfg_encryption (nco_config options) = Required)
      provider negotiated established \<lparr>prt_stack = inner, prt_sessionKey = sessionKey, prt_encrypted = False\<rparr> s2 =
      (Value (Success p), s3)"
    and mounted: "connectTree provider options ctx negotiated established p s3 = (Value (Success (tree, messageId, p1)), s4)"
    and again: "encryptWhen ((ssr_encryptData (sst_session established) \<or> tre_requiresEncryption tree \<or>
      cfg_encryption (nco_config options) = Required) \<and> \<not> prt_encrypted p1) provider negotiated established p1 s4 =
      (Value (Success p2), s')"
    and st: "st = \<lparr>ncs_transport = prt_stack p2, ncs_treeId = tre_treeId tree, ncs_sessionId = sst_sessionId established,
      ncs_firstMessageId = messageId, ncs_negotiated = negotiated, ncs_session = sst_session established, ncs_tree = tree\<rparr>"
  have "shouldSignConnection options negotiated (sst_session established) \<Longrightarrow> length sessionKey = 16"
    using key by (auto simp: needsSessionKey_def dest: keyed_length)
  with signConnection_stack [OF signed] have inner: "wellKeyed inner \<and> wireOf inner = wire"
    by (auto dest: derived_keys(2) split: if_split_asm)
  have "protects negotiated established inner \<lparr>prt_stack = inner, prt_sessionKey = sessionKey, prt_encrypted = False\<rparr>"
    by (simp add: protects_def)
  note 1 = encryptWhen_protects [OF sealed this, THEN conjunct1]
  note 2 = connectTree_protects [OF mounted 1, THEN conjunct1]
  note 3 = encryptWhen_protects [OF again 2, THEN conjunct1]
  with inner show ?thesis unfolding st
    by (auto simp: protects_def sealsWith_def dest: derived_keys(1) split: if_split_asm)
qed

end

lemma length_bytesFromDigest [simp]: "length (bytesFromDigest digest) = 16"
  by (simp add: bytesFromDigest_def)

interpretation ntlm: session_key_provider "ntlmTokenProvider entropy password options"
  for entropy :: "'r Entropy" and password options
  by unfold_locales (auto simp: ntlmTokenProvider_def sessionBaseKey_def Let_def split: if_split_asm)

section \<open>What a server checks\<close>

text \<open>A server that holds the response key of the user accepts a response whose proof is the
  code of its challenge and the rest of the response; both sides then have the same key.\<close>

definition serverAccepts :: "bytes \<Rightarrow> bytes \<Rightarrow> bytes \<Rightarrow> bool" where
  "serverAccepts responseKey serverChallenge nt =
     (16 \<le> length nt \<and> take 16 nt = hmacMd5 responseKey (serverChallenge @ drop 16 nt))"

definition serverSessionKey :: "bytes \<Rightarrow> bytes \<Rightarrow> bytes" where
  "serverSessionKey responseKey nt = hmacMd5 responseKey (take 16 nt)"

lemma length_mdDigest [simp]: "length (mdDigest h) = 16"
  by (cases h) simp

lemma length_hmacMd5 [simp]: "length (hmacMd5 key d) = 16"
  by (simp add: hmacMd5_def md5_def Let_def)

lemma bytesFromDigest_fromBytes: "length b = 16 \<Longrightarrow> bytesFromDigest (digestFromBytes b) = b"
  by (rule nth_equalityI)
    (simp_all add: bytesFromDigest_def digestFromBytes_def unsigned_of_nat take_bit_nat_eq_self)

lemma response_accepted:
  assumes "computeNtlmV2Response password user domain serverChallenge clientChallenge timestamp targetInfo = Inr (Success r)"
  obtains key where "ntowfv2 password user domain = Inr key"
    "serverAccepts key serverChallenge (nvp_ntChallengeResponse r)"
    "nvp_sessionBaseKey r = serverSessionKey key (nvp_ntChallengeResponse r)"
    "drop 16 (nvp_ntChallengeResponse r) =
       [1, 1] @ le16 0 @ le32 0 @ le64 timestamp @ clientChallenge @ le32 0 @ targetInfo @ le32 0"
  using assms
  by (auto simp: computeNtlmV2Response_def computeNtlmV2ResponseFromKey_def Let_def serverAccepts_def serverSessionKey_def
      split: sum.split_asm intro: that)

text \<open>Successful runs of a step.\<close>

lemma settled_Success:
  "settled r k s = (Value (Success v), s') \<longleftrightarrow> (\<exists>x. r = Some (Success x) \<and> k x s = (Value (Success v), s'))"
  by (auto simp: settled_def split: option.split DecodeResult.split)

lemma unlessThrowing_Success:
  "unlessThrowing r k s = (Value (Success v), s') \<longleftrightarrow> (\<exists>x. r = Inr x \<and> k x s = (Value (Success v), s'))"
  by (auto simp: unlessThrowing_def split: sum.split)

lemma drawn_Success:
  "drawn f k s = (Value (Success v), s') \<longleftrightarrow>
     (\<exists>x w. f (ntlm_outside s) = (x, w) \<and> k x (s\<lparr>ntlm_outside := w\<rparr>) = (Value (Success v), s'))"
  by (auto simp: drawn_def split: prod.split)

lemmas step_Success = settled_Success unlessThrowing_Success drawn_Success

text \<open>The NTLM message inside a token of the provider.\<close>

definition messageIn :: "'r NtlmV2TokenProviderOptions \<Rightarrow> bytes \<Rightarrow> bytes \<Rightarrow> bool" where
  "messageIn options token m \<longleftrightarrow>
     (if npo_useSpnego options then unwrapSpnegoNtlmToken token = Some (Success m) else token = m)"

lemma length_authenticateMessage:
  assumes "list_all (\<lambda>field. length field < 2 ^ 16) [nao_lmChallengeResponse options, nao_ntChallengeResponse options,
      domain, username, workstation, nao_encryptedRandomSessionKey options]"
    and "length (nao_version options) = 8" "length (nao_mic options) = 16"
  shows "length (authenticateMessage options domain username workstation) < 2 ^ 63"
  using assms by (simp add: authenticateMessage_def Let_def)

lemma sendAuthenticate_Success:
  assumes "sendAuthenticate options (authenticateOptions options identity challenge lm nt) s = (Value (Success token), s')"
  obtains m domain username where "s' = s" "messageIn options token m"
    "encodeUtf16Le (idn_domain identity) = Inr domain" "readSecurityBuffer m 28 = Some (Success domain)"
    "encodeUtf16Le (idn_username identity) = Inr username" "readSecurityBuffer m 36 = Some (Success username)"
    "readSecurityBuffer m 12 = Some (Success lm)" "readSecurityBuffer m 20 = Some (Success nt)"
proof -
  let ?auth = "authenticateOptions options identity challenge lm nt"
  have fixed: "length (nao_version ?auth) = 8" "length (nao_mic ?auth) = 16"
    by (simp_all add: authenticateOptions_def Let_def ntlmVersion_def)
  from assms obtain m where m: "buildNtlmAuthenticateMessage ?auth = Inr m" "s' = s"
    "token = (if npo_useSpnego options then buildSpnegoNegTokenResp m else m)"
    by (auto simp: sendAuthenticate_def step_Success)
  from buildNtlmAuthenticateMessage_Inr [OF m(1)] obtain domain username workstation where parts:
    "encodeUtf16Le (nao_domain ?auth) = Inr domain" "encodeUtf16Le (nao_username ?auth) = Inr username"
    "m = authenticateMessage ?auth domain username workstation"
    "list_all (\<lambda>field. length field < 2 ^ 16) [nao_lmChallengeResponse ?auth, nao_ntChallengeResponse ?auth,
       domain, username, workstation, nao_encryptedRandomSessionKey ?auth]"
    by metis
  note fields = authenticateMessage_parts [OF fixed parts(4), folded parts(3)]
  have "length m < 2 ^ 63" unfolding parts(3) by (rule length_authenticateMessage [OF parts(4) fixed])
  moreover have "startsWithNtlmSignature m" using fields(1) by (simp add: hasSignature_def startsWithNtlmSignature_def)
  ultimately have "messageIn options token m" using unwrap_wrapped(2) [of m] m(3) by (simp add: messageIn_def)
  with fields parts(1,2) m(2) that show ?thesis by (simp add: authenticateOptions_def Let_def)
qed

lemma nextToken_Success:
  assumes "nextToken entropy password options answer config s = (Value (Success token), s')"
    and "cfg_authMode config \<noteq> AnonymousMode"
  obtains challengeMessage challenge targetTimestamp timestamp w identity clientChallenge r s1 where
    "messageIn options (ssr_securityBuffer answer) challengeMessage"
    "decodeNtlmChallengeMessage challengeMessage = Some (Success challenge)"
    "timestampFromTargetInfo (ncm_targetInfo challenge) = Some (Success targetTimestamp)"
    "challengeTimestamp entropy options targetTimestamp (ntlm_outside s) = (timestamp, w)"
    "authIdentityFromConfig config = Success identity"
    "computeNtlmV2Response password (idn_username identity) (idn_domain identity) (ncm_serverChallenge challenge)
      clientChallenge timestamp (ncm_targetInfo challenge) = Inr (Success r)"
    "sendAuthenticate options (authenticateOptions options identity challenge
       (if npo_omitLmResponse options then [] else nvp_lmChallengeResponse r) (nvp_ntChallengeResponse r))
       (s1\<lparr>m_sessionBaseKey := digestFromBytes (nvp_sessionBaseKey r)\<rparr>) = (Value (Success token), s')"
proof -
  from assms(1) obtain challengeMessage challenge targetTimestamp timestamp w identity where
    start: "messageIn options (ssr_securityBuffer answer) challengeMessage"
      "decodeNtlmChallengeMessage challengeMessage = Some (Success challenge)"
      "timestampFromTargetInfo (ncm_targetInfo challenge) = Some (Success targetTimestamp)"
      "challengeTimestamp entropy options targetTimestamp (ntlm_outside s) = (timestamp, w)"
      "authIdentityFromConfig config = Success identity"
    and answered: "answerChallenge entropy password options identity challenge timestamp (s\<lparr>ntlm_outside := w\<rparr>) =
      (Value (Success token), s')"
    by (auto simp: nextToken_def step_Success messageIn_def split: if_split_asm)
  have "\<not> idn_anonymous identity" using start(5) assms(2)
    by (auto simp: authIdentityFromConfig_def split: AuthMode.split_asm)
  with answered show ?thesis
    by (auto simp: answerChallenge_def step_Success intro: that [OF start])
qed

lemma response_timestamp:
  assumes "drop 16 nt = [1, 1] @ le16 0 @ le32 0 @ le64 timestamp @ rest" "16 \<le> length nt"
  shows "readU64Le nt 24 = Some timestamp"
proof -
  have "nt = take 16 nt @ drop 16 nt" "length (take 16 nt) = 16" using assms(2) by simp_all
  then show ?thesis
    using readU64Le_append [of "take 16 nt" 24 "drop 16 nt"] assms(1) by (simp add: wire del: append_take_drop_id)
qed

section \<open>Properties\<close>

text \<open>C4: the answer to a challenge is one the server accepts, and both sides then share a key.
  When the provider answers, and the mode is not anonymous, its token holds an NTLM message whose
  NT response, domain and user are read from it; a server with the user's response key accepts
  the response for the challenge it sent, with the time stamp the server asked for, and derives
  the session key that the provider hands to the connector.\<close>

theorem ntlm_response_accepted:
  assumes "nextToken entropy password options answer config s = (Value (Success token), s')"
    and "cfg_authMode config \<noteq> AnonymousMode"
  shows "\<exists>m nt domain username challengeMessage challenge identity key.
    messageIn options (ssr_securityBuffer answer) challengeMessage \<and>
    decodeNtlmChallengeMessage challengeMessage = Some (Success challenge) \<and>
    authIdentityFromConfig config = Success identity \<and>
    ntowfv2 password (idn_username identity) (idn_domain identity) = Inr key \<and>
    messageIn options token m \<and> readSecurityBuffer m 20 = Some (Success nt) \<and>
    encodeUtf16Le (idn_domain identity) = Inr domain \<and> readSecurityBuffer m 28 = Some (Success domain) \<and>
    encodeUtf16Le (idn_username identity) = Inr username \<and> readSecurityBuffer m 36 = Some (Success username) \<and>
    serverAccepts key (ncm_serverChallenge challenge) nt \<and>
    (\<forall>t. timestampFromTargetInfo (ncm_targetInfo challenge) = Some (Success (Some t)) \<and> npo_useServerTimestamp options \<longrightarrow>
       readU64Le nt 24 = Some t) \<and>
    bytesFromDigest (m_sessionBaseKey s') = serverSessionKey key nt"
proof (rule nextToken_Success [OF assms])
  fix challengeMessage challenge targetTimestamp timestamp w identity clientChallenge r s1
  assume start: "messageIn options (ssr_securityBuffer answer) challengeMessage"
      "decodeNtlmChallengeMessage challengeMessage = Some (Success challenge)"
      "authIdentityFromConfig config = Success identity"
    and stamp: "timestampFromTargetInfo (ncm_targetInfo challenge) = Some (Success targetTimestamp)"
      "challengeTimestamp entropy options targetTimestamp (ntlm_outside s) = (timestamp, w)"
    and r: "computeNtlmV2Response password (idn_username identity) (idn_domain identity) (ncm_serverChallenge challenge)
      clientChallenge timestamp (ncm_targetInfo challenge) = Inr (Success r)"
    and sent: "sendAuthenticate options (authenticateOptions options identity challenge
       (if npo_omitLmResponse options then [] else nvp_lmChallengeResponse r) (nvp_ntChallengeResponse r))
       (s1\<lparr>m_sessionBaseKey := digestFromBytes (nvp_sessionBaseKey r)\<rparr>) = (Value (Success token), s')"
  let ?nt = "nvp_ntChallengeResponse r"
  obtain key where key: "ntowfv2 password (idn_username identity) (idn_domain identity) = Inr key"
    "serverAccepts key (ncm_serverChallenge challenge) ?nt" "nvp_sessionBaseKey r = serverSessionKey key ?nt"
    "drop 16 ?nt = [1, 1] @ le16 0 @ le32 0 @ le64 timestamp @ clientChallenge @ le32 0 @ ncm_targetInfo challenge @ le32 0"
    by (rule response_accepted [OF r])
  have stamped: "\<forall>t. timestampFromTargetInfo (ncm_targetInfo challenge) = Some (Success (Some t)) \<and> npo_useServerTimestamp options \<longrightarrow>
      readU64Le ?nt 24 = Some t"
    using response_timestamp [OF key(4)] key(2) stamp by (auto simp: challengeTimestamp_def serverAccepts_def)
  obtain m domain username where m: "s' = s1\<lparr>m_sessionBaseKey := digestFromBytes (nvp_sessionBaseKey r)\<rparr>" "messageIn options token m"
    "encodeUtf16Le (idn_domain identity) = Inr domain" "readSecurityBuffer m 28 = Some (Success domain)"
    "encodeUtf16Le (idn_username identity) = Inr username" "readSecurityBuffer m 36 = Some (Success username)"
    "readSecurityBuffer m 20 = Some (Success ?nt)"
    using sendAuthenticate_Success [OF sent] by metis
  have "bytesFromDigest (m_sessionBaseKey s') = serverSessionKey key ?nt"
    using m(1) key(3) by (simp add: bytesFromDigest_fromBytes serverSessionKey_def)
  with start key(1,2) stamped m(2-7) show ?thesis by blast
qed

text \<open>C5: a connection authenticated by this provider can neither be signed nor sealed with a key of
  the wrong length, so over a transport that stays inside its buffers it stays inside them too.\<close>

theorem ntlm_connection_well_keyed:
  assumes "connect crypto_hash_sha512 (Some wire) (ntlmTokenProvider entropy password providerOptions) options ctx s =
      (Value (Success st), s')"
    and "faultlessTransport wire"
  shows "wellKeyed (ncs_transport st) \<and> wireOf (ncs_transport st) = wire \<and>
    fst (exchangeOver (ncs_transport st) requestFrame ctx' w) \<noteq> Fault"
  using ntlm.connected_well_keyed [OF assms(1)] wellKeyed_faultless [of "ncs_transport st"] assms(2)
  by (simp add: faultlessTransport_def)

text \<open>A server that challenges the guest, and one that admits him at once.\<close>

definition plainNtlm :: "bytes list NtlmV2TokenProviderOptions" where
  "plainNtlm = \<lparr>npo_workstation = [], npo_negotiateFlags = 0x200, npo_useServerTimestamp = True, npo_omitLmResponse = False,
     npo_useSpnego = False, npo_fixedClientChallenge = Some (replicate 8 7), npo_fixedTimestamp = Some 9,
     npo_clientChallengeGenerator = None, npo_timestampProvider = None\<rparr>"

definition idleEntropy :: "'r Entropy" where
  "idleEntropy = \<lparr>sys_random_device = (\<lambda>r. (4, r)), sys_clock = (\<lambda>r. (0, r))\<rparr>"

definition freshProvider :: "'r \<Rightarrow> 'r NtlmV2State" where
  "freshProvider r = \<lparr>m_lastNegotiateMessage = [], m_sessionBaseKey = (\<lambda>i. 0), ntlm_outside = r\<rparr>"

definition bareChallenge :: bytes where
  "bareChallenge = ntlmSignature @ le32 2 @ replicate 8 0 @ le32 0x201 @ replicate 8 1 @ replicate 16 0"

definition sessionAnswer :: "bytes \<Rightarrow> SessionSetupResponse" where
  "sessionAnswer token = \<lparr>ssr_status = 0xC0000016, ssr_sessionId = 5, ssr_sessionFlags = 0, ssr_securityBuffer = token,
     ssr_requestPayload = [], ssr_responsePayload = [], ssr_moreProcessingRequired = True, ssr_guestSession = False,
     ssr_nullSession = False, ssr_encryptData = False\<rparr>"

lemma bareChallenge_decoded:
  "decodeNtlmChallengeMessage bareChallenge = Some (Success \<lparr>ncm_targetName = [], ncm_flags = 0x201,
     ncm_serverChallenge = replicate 8 1, ncm_targetInfo = [], ncm_hasTargetInfo = False\<rparr>)"
  "startsWithNtlmSignature bareChallenge"
proof -
  have zeros: "replicate 8 0 = le16 0 @ le16 0 @ le32 0" "replicate 16 0 = replicate 8 0 @ le16 0 @ le16 0 @ le32 0"
    by (simp_all add: le16_def le32_def numeral_eq_Suc)
  have "readSecurityBuffer bareChallenge 12 = Some (Success [])" "readSecurityBuffer bareChallenge 40 = Some (Success [])"
    by (simp_all add: readSecurityBuffer_def bareChallenge_def zeros wire del: replicate.simps)
  moreover have "decodeUtf16Le [] = Some (Success [])" using decodeUtf16Le_utf16 [of "[]"] by simp
  ultimately show "decodeNtlmChallengeMessage bareChallenge = Some (Success \<lparr>ncm_targetName = [], ncm_flags = 0x201,
     ncm_serverChallenge = replicate 8 1, ncm_targetInfo = [], ncm_hasTargetInfo = False\<rparr>)"
    by (simp add: decodeNtlmChallengeMessage_def) (simp add: bareChallenge_def hasSignature_def wire)
  show "startsWithNtlmSignature bareChallenge"
    by (simp add: bareChallenge_def startsWithNtlmSignature_def)
qed

lemma guest_encodings:
  "encodeUtf16Le [] = Inr []" "encodeUtf16Le [71, 117, 101, 115, 116] = Inr [71, 0, 117, 0, 101, 0, 115, 0, 116, 0]"
  "encodeUtf16Le (uppercaseAscii [71, 117, 101, 115, 116]) = Inr [71, 0, 85, 0, 69, 0, 83, 0, 84, 0]"
  by code_simp+

lemma guest_identity:
  "authIdentityFromConfig (nco_config guestOptions) =
    Success \<lparr>idn_domain = [], idn_username = [71, 117, 101, 115, 116], idn_anonymous = False\<rparr>"
  by (simp add: authIdentityFromConfig_def guestOptions_def)

theorem ntlm_response_accepted_witness:
  "\<exists>token s' m nt key. nextToken idleEntropy [] plainNtlm (sessionAnswer bareChallenge) (nco_config guestOptions) (freshProvider []) =
      (Value (Success token), s') \<and>
    ntowfv2 [] [71, 117, 101, 115, 116] [] = Inr key \<and>
    messageIn plainNtlm token m \<and> readSecurityBuffer m 20 = Some (Success nt) \<and> serverAccepts key (replicate 8 1) nt"
proof -
  have "timestampFromTargetInfo [] = Some (Success None)"
    by (simp add: timestampFromTargetInfo_def findTimestamp.simps)
  then obtain token s' where run:
    "nextToken idleEntropy [] plainNtlm (sessionAnswer bareChallenge) (nco_config guestOptions) (freshProvider []) =
      (Value (Success token), s')"
    using bareChallenge_decoded
    by (simp add: nextToken_def settled_def drawn_def plainNtlm_def sessionAnswer_def challengeTimestamp_def timestampFromOptions_def
        guest_identity answerChallenge_def clientChallengeFromOptions_def unlessThrowing_def computeNtlmV2Response_def
        ntowfv2_def ntHash_def guest_encodings computeNtlmV2ResponseFromKey_def Let_def sendAuthenticate_def
        authenticateOptions_def buildNtlmAuthenticateMessage_def unlessThrown_def checkedFieldSize_def)
  have "cfg_authMode (nco_config guestOptions) \<noteq> AnonymousMode" by (simp add: guestOptions_def)
  from ntlm_response_accepted [OF run this] run bareChallenge_decoded(1) guest_identity show ?thesis
    by (auto simp: messageIn_def plainNtlm_def sessionAnswer_def)
qed

theorem ntlm_connection_well_keyed_witness:
  "\<exists>wire st s'. connect id (Some wire) (ntlmTokenProvider idleEntropy [] plainNtlm) guestOptions plainContext
      \<lparr>net_world = \<lparr>enc_outside = freshProvider guestServer, m_nonceCounter = 1, enc_sent = []\<rparr>, net_sent = []\<rparr> =
      (Value (Success st), s') \<and>
    wellKeyed (ncs_transport st) \<and>
    fst (exchangeOver (ncs_transport st) [0, 0, 0, 0] plainContext (net_world s')) \<noteq> Fault"
proof -
  let ?script = "\<lambda>w. ntlm_outside (enc_outside w)" and ?put = "\<lambda>rs w. w\<lparr>enc_outside := (enc_outside w)\<lparr>ntlm_outside := rs\<rparr>\<rparr>"
  let ?provider = "ntlmTokenProvider idleEntropy [] plainNtlm" and ?wire = "scriptedIn ?script ?put"
  let ?start = "\<lparr>net_world = \<lparr>enc_outside = freshProvider guestServer, m_nonceCounter = 1, enc_sent = []\<rparr>, net_sent = []\<rparr>"
  let ?token = "ntlmSignature @ le32 1 @ le32 512 @ appendSecurityBuffer 0 40 @ appendSecurityBuffer 0 40 @ ntlmVersion"
  have "length ?token < 256" by (simp add: ntlmVersion_def)
  moreover have
    "buildNtlmNegotiateMessage \<lparr>nno_domain = [], nno_workstation = [], nno_flags = 0x200, nno_version = ntlmVersion\<rparr> = Inr ?token"
    by (simp add: buildNtlmNegotiateMessage_def encodeUnicodeUpper_def uppercaseAscii_def guest_encodings unlessThrown_def)
  ultimately obtain st s' where st: "connect id (Some ?wire) ?provider guestOptions plainContext ?start = (Value (Success st), s')"
    using guest_connects [where script = ?script and put = ?put and start = ?start and provider = ?provider and token = ?token and sha = id]
    by (auto simp: freshProvider_def ntlmTokenProvider_def onProvider_def initialToken_def settled_def unlessThrowing_def
        guest_identity plainNtlm_def Let_def split: prod.split)
  have "faultlessTransport ?wire"
    by (simp add: faultlessTransport_def scriptedIn_def split: list.split)
  from ntlm_connection_well_keyed [OF st this] st show ?thesis by blast
qed

end
