(* ===== verification/Core.thy ===== *)
theory Core
  imports NativeTypes
begin

text \<open>
  The values shared by the application (\<open>src/src/core\<close>): error codes, categories and messages,
  results, connection states, settings, remote entries and connections, and the mapping of the
  native error codes to them (\<open>NativeSmbErrorMapper.cpp\<close>). A \<open>QString\<close> is its list of UTF-16
  units; what Qt knows about Unicode (spaces, case folding) is a parameter, the record \<open>QtText\<close>.
\<close>

section \<open>Text\<close>

type_synonym QString = "u16 list"

definition latin1 :: "string \<Rightarrow> QString" where
  "latin1 s = map of_char s"

record QtText =
  qt_isSpace :: "u16 \<Rightarrow> bool"
  qt_toLower :: "QString \<Rightarrow> QString"
  qt_foldCase :: "QString \<Rightarrow> QString"

text \<open>ASCII text without case, the concrete instance of the examples.\<close>

definition asciiText :: QtText where
  "asciiText = \<lparr>qt_isSpace = (\<lambda>c. c = 32), qt_toLower = (\<lambda>s. s), qt_foldCase = (\<lambda>s. s)\<rparr>"

text \<open>\<open>QString::trimmed\<close>, \<open>compare(..., Qt::CaseInsensitive) == 0\<close> and the two \<open>contains\<close>.\<close>

definition trimmed :: "QtText \<Rightarrow> QString \<Rightarrow> QString" where
  "trimmed qt s = rev (dropWhile (qt_isSpace qt) (rev (dropWhile (qt_isSpace qt) s)))"

definition sameText :: "QtText \<Rightarrow> QString \<Rightarrow> QString \<Rightarrow> bool" where
  "sameText qt a b = (qt_foldCase qt a = qt_foldCase qt b)"

definition startsWith :: "QString \<Rightarrow> QString \<Rightarrow> bool" where
  "startsWith s p = (take (length p) s = p)"

fun containsText :: "QString \<Rightarrow> QString \<Rightarrow> bool" where
  "containsText [] p = (p = [])"
| "containsText (c # s) p = (startsWith (c # s) p \<or> containsText s p)"

abbreviation (input) slash :: u16 where "slash \<equiv> 47"
abbreviation (input) backslash :: u16 where "backslash \<equiv> 92"

definition forwardSlashes :: "QString \<Rightarrow> QString" where
  "forwardSlashes s = map (\<lambda>c. if c = backslash then slash else c) s"

text \<open>\<open>split(c, Qt::SkipEmptyParts)\<close>, \<open>join\<close> and \<open>indexOf\<close>.\<close>

fun splitParts :: "u16 \<Rightarrow> QString \<Rightarrow> QString \<Rightarrow> QString list" where
  "splitParts c [] part = (if part = [] then [] else [part])"
| "splitParts c (x # s) part =
    (if x = c then (if part = [] then splitParts c s [] else part # splitParts c s [])
     else splitParts c s (part @ [x]))"

fun joinParts :: "u16 \<Rightarrow> QString list \<Rightarrow> QString" where
  "joinParts c [] = []"
| "joinParts c [p] = p"
| "joinParts c (p # q # ps) = p @ [c] @ joinParts c (q # ps)"

fun indexOf :: "u16 \<Rightarrow> QString \<Rightarrow> nat option" where
  "indexOf c [] = None"
| "indexOf c (x # s) = (if x = c then Some 0 else map_option Suc (indexOf c s))"

section \<open>Errors\<close>

datatype ErrorCategory = CatGeneral | CatValidation | CatStorage | CatCredentials | CatSmb | CatTransfer

datatype AppErrorCode = AeNone | AeInvalidPath | AeDnsError | AeServerUnavailable | AeShareUnavailable
  | AeAuthenticationFailed | AePermissionDenied | AeTimeout | AeProtocolUnsupported | AeNetworkError | AeFileNotFound
  | AeAlreadyExists | AeDirectoryNotEmpty | AeOperationCancelled | AeLocalIoError | AeStorageError
  | AeCredentialStoreUnavailable | AeCredentialNotFound | AeUnknown

record AppError =
  ae_code :: AppErrorCode
  ae_category :: ErrorCategory
  ae_userMessage :: QString
  ae_sanitizedTechnicalDetails :: QString
  ae_retryable :: bool

fun categoryToString :: "ErrorCategory \<Rightarrow> QString" where
  "categoryToString CatGeneral = latin1 ''general''"
| "categoryToString CatValidation = latin1 ''validation''"
| "categoryToString CatStorage = latin1 ''storage''"
| "categoryToString CatCredentials = latin1 ''credentials''"
| "categoryToString CatSmb = latin1 ''smb''"
| "categoryToString CatTransfer = latin1 ''transfer''"

fun errorCodeToString :: "AppErrorCode \<Rightarrow> QString" where
  "errorCodeToString AeNone = latin1 ''none''"
| "errorCodeToString AeInvalidPath = latin1 ''invalid_path''"
| "errorCodeToString AeDnsError = latin1 ''dns_error''"
| "errorCodeToString AeServerUnavailable = latin1 ''server_unavailable''"
| "errorCodeToString AeShareUnavailable = latin1 ''share_unavailable''"
| "errorCodeToString AeAuthenticationFailed = latin1 ''authentication_failed''"
| "errorCodeToString AePermissionDenied = latin1 ''permission_denied''"
| "errorCodeToString AeTimeout = latin1 ''timeout''"
| "errorCodeToString AeProtocolUnsupported = latin1 ''protocol_unsupported''"
| "errorCodeToString AeNetworkError = latin1 ''network_error''"
| "errorCodeToString AeFileNotFound = latin1 ''file_not_found''"
| "errorCodeToString AeAlreadyExists = latin1 ''already_exists''"
| "errorCodeToString AeDirectoryNotEmpty = latin1 ''directory_not_empty''"
| "errorCodeToString AeOperationCancelled = latin1 ''operation_cancelled''"
| "errorCodeToString AeLocalIoError = latin1 ''local_io_error''"
| "errorCodeToString AeStorageError = latin1 ''storage_error''"
| "errorCodeToString AeCredentialStoreUnavailable = latin1 ''credential_store_unavailable''"
| "errorCodeToString AeCredentialNotFound = latin1 ''credential_not_found''"
| "errorCodeToString AeUnknown = latin1 ''unknown''"

fun defaultUserMessage :: "AppErrorCode \<Rightarrow> QString" where
  "defaultUserMessage AeNone = []"
| "defaultUserMessage AeInvalidPath = latin1 ''The path is not valid.''"
| "defaultUserMessage AeDnsError = latin1 ''The server name could not be resolved.''"
| "defaultUserMessage AeServerUnavailable = latin1 ''The server is unavailable.''"
| "defaultUserMessage AeShareUnavailable = latin1 ''The shared folder is unavailable.''"
| "defaultUserMessage AeAuthenticationFailed = latin1 ''The username or password is incorrect.''"
| "defaultUserMessage AePermissionDenied = latin1 ''You do not have permission to perform this operation.''"
| "defaultUserMessage AeTimeout = latin1 ''The operation timed out.''"
| "defaultUserMessage AeProtocolUnsupported = latin1 ''The SMB protocol version is not supported.''"
| "defaultUserMessage AeNetworkError = latin1 ''A network error occurred.''"
| "defaultUserMessage AeFileNotFound = latin1 ''The file or folder was not found.''"
| "defaultUserMessage AeAlreadyExists = latin1 ''A file or folder with this name already exists.''"
| "defaultUserMessage AeDirectoryNotEmpty = latin1 ''The folder is not empty.''"
| "defaultUserMessage AeOperationCancelled = latin1 ''The operation was cancelled.''"
| "defaultUserMessage AeLocalIoError = latin1 ''A local file system error occurred.''"
| "defaultUserMessage AeStorageError = latin1 ''The local database operation failed.''"
| "defaultUserMessage AeCredentialStoreUnavailable = latin1 ''The credential store is unavailable.''"
| "defaultUserMessage AeCredentialNotFound = latin1 ''The saved credential was not found.''"
| "defaultUserMessage AeUnknown = latin1 ''An unknown error occurred.''"

definition noError :: AppError where
  "noError = \<lparr>ae_code = AeNone, ae_category = CatGeneral, ae_userMessage = [], ae_sanitizedTechnicalDetails = [],
     ae_retryable = False\<rparr>"

definition fromCode :: "AppErrorCode \<Rightarrow> ErrorCategory \<Rightarrow> QString \<Rightarrow> bool \<Rightarrow> AppError" where
  "fromCode code category details retryable =
     \<lparr>ae_code = code, ae_category = category, ae_userMessage = defaultUserMessage code,
      ae_sanitizedTechnicalDetails = details, ae_retryable = retryable\<rparr>"

definition hasError :: "AppError \<Rightarrow> bool" where
  "hasError e = (ae_code e \<noteq> AeNone)"

text \<open>A result holds a value and an error; a failure holds the default value of its type. It is
  \<open>ok\<close> when its error has no code.\<close>

record 'a Result =
  res_value :: 'a
  res_error :: AppError

definition succeeded :: "'a \<Rightarrow> 'a Result" where
  "succeeded v = \<lparr>res_value = v, res_error = noError\<rparr>"

definition failedWith :: "'a \<Rightarrow> AppError \<Rightarrow> 'a Result" where
  "failedWith blank e = \<lparr>res_value = blank, res_error = e\<rparr>"

definition ok :: "'a Result \<Rightarrow> bool" where
  "ok r = (\<not> hasError (res_error r))"

lemma result_simps [simp]:
  "res_value (succeeded v) = v" "res_error (succeeded v) = noError" "ok (succeeded v)"
  "res_error (failedWith d e) = e" "ok (failedWith d e) \<longleftrightarrow> ae_code e = AeNone"
  "ae_code (fromCode c cat s r) = c" "res_value (failedWith d e) = d"
  by (simp_all add: succeeded_def failedWith_def ok_def hasError_def noError_def fromCode_def)

lemma code_none_iff_ok [simp]: "ae_code (res_error r) = AeNone \<longleftrightarrow> ok r"
  by (simp add: ok_def hasError_def)

section \<open>Native errors\<close>

fun nativeToCoreError :: "ErrorCode \<Rightarrow> AppErrorCode" where
  "nativeToCoreError EcNone = AeNone"
| "nativeToCoreError EcCancelled = AeOperationCancelled"
| "nativeToCoreError EcTimeout = AeTimeout"
| "nativeToCoreError EcDnsError = AeDnsError"
| "nativeToCoreError EcServerUnavailable = AeServerUnavailable"
| "nativeToCoreError EcShareUnavailable = AeShareUnavailable"
| "nativeToCoreError EcAuthenticationFailed = AeAuthenticationFailed"
| "nativeToCoreError EcPermissionDenied = AePermissionDenied"
| "nativeToCoreError EcProtocolUnsupported = AeProtocolUnsupported"
| "nativeToCoreError EcFileNotFound = AeFileNotFound"
| "nativeToCoreError EcAlreadyExists = AeAlreadyExists"
| "nativeToCoreError EcDirectoryNotEmpty = AeDirectoryNotEmpty"
| "nativeToCoreError EcInvalidPath = AeInvalidPath"
| "nativeToCoreError EcNetworkError = AeNetworkError"
| "nativeToCoreError EcIoError = AeLocalIoError"
| "nativeToCoreError EcUnsupportedCapability = AeProtocolUnsupported"
| "nativeToCoreError EcInternalError = AeUnknown"

definition isNativeErrorRetryable :: "ErrorCode \<Rightarrow> bool" where
  "isNativeErrorRetryable code = (code = EcTimeout \<or> code = EcNetworkError \<or> code = EcServerUnavailable)"

text \<open>The sanitizer of the log, regular expressions of Qt, is an argument.\<close>

definition makeNativeSmbError :: "(QString \<Rightarrow> QString) \<Rightarrow> ProtocolError \<Rightarrow> AppError" where
  "makeNativeSmbError sanitize e =
     fromCode (nativeToCoreError (pe_code e)) CatSmb (sanitize (latin1 (pe_message e))) (isNativeErrorRetryable (pe_code e))"

section \<open>The state shown for a connection\<close>

datatype ConnectionStatus = StUnknown | StNotChecked | StChecking | StAvailable | StServerUnavailable | StShareUnavailable
  | StAuthenticationFailed | StPermissionDenied | StTimeout | StDnsError | StProtocolUnsupported | StError

fun connectionStatusForSmbError :: "AppErrorCode \<Rightarrow> ConnectionStatus" where
  "connectionStatusForSmbError AeNone = StAvailable"
| "connectionStatusForSmbError AeInvalidPath = StError"
| "connectionStatusForSmbError AeDnsError = StDnsError"
| "connectionStatusForSmbError AeServerUnavailable = StServerUnavailable"
| "connectionStatusForSmbError AeNetworkError = StServerUnavailable"
| "connectionStatusForSmbError AeShareUnavailable = StShareUnavailable"
| "connectionStatusForSmbError AeFileNotFound = StShareUnavailable"
| "connectionStatusForSmbError AeAuthenticationFailed = StAuthenticationFailed"
| "connectionStatusForSmbError AePermissionDenied = StPermissionDenied"
| "connectionStatusForSmbError AeTimeout = StTimeout"
| "connectionStatusForSmbError AeProtocolUnsupported = StProtocolUnsupported"
| "connectionStatusForSmbError AeAlreadyExists = StError"
| "connectionStatusForSmbError AeDirectoryNotEmpty = StError"
| "connectionStatusForSmbError AeOperationCancelled = StError"
| "connectionStatusForSmbError AeLocalIoError = StError"
| "connectionStatusForSmbError AeStorageError = StError"
| "connectionStatusForSmbError AeCredentialStoreUnavailable = StError"
| "connectionStatusForSmbError AeCredentialNotFound = StError"
| "connectionStatusForSmbError AeUnknown = StError"

fun statusToString :: "ConnectionStatus \<Rightarrow> QString" where
  "statusToString StUnknown = latin1 ''unknown''"
| "statusToString StNotChecked = latin1 ''not_checked''"
| "statusToString StChecking = latin1 ''checking''"
| "statusToString StAvailable = latin1 ''available''"
| "statusToString StServerUnavailable = latin1 ''server_unavailable''"
| "statusToString StShareUnavailable = latin1 ''share_unavailable''"
| "statusToString StAuthenticationFailed = latin1 ''authentication_failed''"
| "statusToString StPermissionDenied = latin1 ''permission_denied''"
| "statusToString StTimeout = latin1 ''timeout''"
| "statusToString StDnsError = latin1 ''dns_error''"
| "statusToString StProtocolUnsupported = latin1 ''protocol_unsupported''"
| "statusToString StError = latin1 ''error''"

section \<open>Settings\<close>

datatype ThemeMode = ThemeSystem | ThemeLight | ThemeDark
datatype LanguageMode = LanguageSystem | LanguageEnglish | LanguageRussian
datatype CredentialStoreMode = SystemKeychainWithVaultFallback | SystemKeychainOnly | EncryptedVault

record ApplicationSettings =
  aps_themeMode :: ThemeMode
  aps_languageMode :: LanguageMode
  aps_credentialStoreMode :: CredentialStoreMode
  aps_logLevel :: QString
  aps_operationTimeoutMs :: int
  aps_cacheRetentionDays :: int
  aps_cacheMaxSizeMb :: int

fun themeToString :: "ThemeMode \<Rightarrow> QString" where
  "themeToString ThemeSystem = latin1 ''system''"
| "themeToString ThemeLight = latin1 ''light''"
| "themeToString ThemeDark = latin1 ''dark''"

fun languageToString :: "LanguageMode \<Rightarrow> QString" where
  "languageToString LanguageSystem = latin1 ''system''"
| "languageToString LanguageEnglish = latin1 ''english''"
| "languageToString LanguageRussian = latin1 ''russian''"

fun credentialStoreToString :: "CredentialStoreMode \<Rightarrow> QString" where
  "credentialStoreToString SystemKeychainWithVaultFallback = latin1 ''system_keychain_with_vault_fallback''"
| "credentialStoreToString SystemKeychainOnly = latin1 ''system_keychain_only''"
| "credentialStoreToString EncryptedVault = latin1 ''encrypted_vault''"

definition defaultSettings :: ApplicationSettings where
  "defaultSettings = \<lparr>aps_themeMode = ThemeSystem, aps_languageMode = LanguageEnglish,
     aps_credentialStoreMode = SystemKeychainWithVaultFallback, aps_logLevel = latin1 ''info'',
     aps_operationTimeoutMs = 30000, aps_cacheRetentionDays = 7, aps_cacheMaxSizeMb = 512\<rparr>"

section \<open>Entries and connections\<close>

datatype RemoteFileType = TypeFile | TypeDirectory | TypeSymlink | TypeUnknown

text \<open>A time of Qt is a number of milliseconds, \<open>None\<close> when it is not valid.\<close>

type_synonym QDateTime = "int option"

record RemoteFileEntry =
  rfe_name :: QString
  rfe_remotePath :: QString
  rfe_type :: RemoteFileType
  rfe_size :: int
  rfe_modifiedAt :: QDateTime
  rfe_attributes :: QString
  rfe_permissions :: QString
  rfe_isHidden :: bool

fun fileTypeToString :: "RemoteFileType \<Rightarrow> QString" where
  "fileTypeToString TypeFile = latin1 ''file''"
| "fileTypeToString TypeDirectory = latin1 ''directory''"
| "fileTypeToString TypeSymlink = latin1 ''symlink''"
| "fileTypeToString TypeUnknown = latin1 ''unknown''"

definition isDirectory :: "RemoteFileEntry \<Rightarrow> bool" where "isDirectory e = (rfe_type e = TypeDirectory)"
definition isFile :: "RemoteFileEntry \<Rightarrow> bool" where "isFile e = (rfe_type e = TypeFile)"

datatype AuthType = AuthPassword | AuthGuest | AuthAnonymous | AuthCurrentUser

fun authTypeToString :: "AuthType \<Rightarrow> QString" where
  "authTypeToString AuthPassword = latin1 ''password''"
| "authTypeToString AuthGuest = latin1 ''guest''"
| "authTypeToString AuthAnonymous = latin1 ''anonymous''"
| "authTypeToString AuthCurrentUser = latin1 ''current_user''"

record SavedConnection =
  con_id :: QString
  con_name :: QString
  con_inputPath :: QString
  con_normalizedUri :: QString
  con_server :: QString
  con_share :: QString
  con_initialRemotePath :: QString
  con_domain :: QString
  con_username :: QString
  con_authType :: AuthType
  con_credentialRef :: QString
  con_comment :: QString
  con_groupId :: QString
  con_isFavorite :: bool
  con_lastOpenedAt :: QDateTime
  con_createdAt :: QDateTime
  con_updatedAt :: QDateTime
  con_lastErrorCode :: AppErrorCode
  con_lastErrorMessage :: QString
  con_lastSuccessfulCheckAt :: QDateTime

definition createEmpty :: SavedConnection where
  "createEmpty = \<lparr>con_id = [], con_name = [], con_inputPath = [], con_normalizedUri = [], con_server = [], con_share = [],
     con_initialRemotePath = [], con_domain = [], con_username = [], con_authType = AuthPassword, con_credentialRef = [],
     con_comment = [], con_groupId = [], con_isFavorite = False, con_lastOpenedAt = None, con_createdAt = None,
     con_updatedAt = None, con_lastErrorCode = AeNone, con_lastErrorMessage = [], con_lastSuccessfulCheckAt = None\<rparr>"

definition usesStoredCredential :: "SavedConnection \<Rightarrow> bool" where
  "usesStoredCredential c = (con_authType c = AuthPassword \<and> con_credentialRef c \<noteq> [])"

section \<open>Contexts\<close>

record TransferProgress =
  tpr_bytesTransferred :: int
  tpr_totalBytes :: int

text \<open>The token and the callback of an operation, as functions of the outside world.\<close>

record 'w AppContext =
  apc_cancelled :: "('w \<Rightarrow> bool \<times> 'w) option"
  apc_progress :: "(TransferProgress \<Rightarrow> 'w \<Rightarrow> 'w) option"

text \<open>An error without a code passes as a success.\<close>

lemma codeless_failure_is_ok: "ok (failedWith v (makeNativeSmbError sanitize \<lparr>pe_code = EcNone, pe_message = m, pe_messagesUsed = n\<rparr>))"
  by (simp add: makeNativeSmbError_def)

section \<open>Splitting and trimming\<close>

lemma splitParts_parts: "p \<in> set (splitParts c s part) \<Longrightarrow> c \<notin> set part \<Longrightarrow> p \<noteq> [] \<and> c \<notin> set p"
  by (induction c s part rule: splitParts.induct) (auto split: if_split_asm)

lemma splitParts_chars: "x \<in> set p \<Longrightarrow> p \<in> set (splitParts c s part) \<Longrightarrow> x \<in> set s \<or> x \<in> set part"
  by (induction c s part rule: splitParts.induct) (auto split: if_split_asm)

lemma set_trimmed: "set (trimmed qt s) \<subseteq> set s"
  by (auto simp: trimmed_def dest!: set_dropWhileD)

lemma dropWhile_id: "s = [] \<or> \<not> P (hd s) \<Longrightarrow> dropWhile P s = s"
  by (cases s) auto

lemma trimmed_id: "s = [] \<or> \<not> qt_isSpace qt (hd s) \<and> \<not> qt_isSpace qt (last s) \<Longrightarrow> trimmed qt s = s"
  by (auto simp: trimmed_def dropWhile_id hd_rev)

lemma forwardSlashes_clean: "backslash \<notin> set (forwardSlashes s)"
  by (auto simp: forwardSlashes_def)

lemma forwardSlashes_id: "backslash \<notin> set s \<Longrightarrow> forwardSlashes s = s"
  by (auto simp: forwardSlashes_def intro!: map_idI)

lemma forwardSlashes_append [simp]:
  "forwardSlashes [] = []" "forwardSlashes (s @ t) = forwardSlashes s @ forwardSlashes t"
  by (simp_all add: forwardSlashes_def)

end
