(* ===== verification/PathNormalizer.thy ===== *)
theory PathNormalizer
  imports Core
begin

text \<open>
  The form in which a connection is kept (\<open>src/src/core/PathNormalizer.cpp\<close>): server, share and
  path of an SMB URI or of a UNC path, and user and domain of the two ways to write a login. URIs
  are taken apart by \<open>QUrl\<close>, whose functions are the parameter \<open>QUrlText\<close>.
\<close>

section \<open>Paths\<close>

record QUrlText =
  url_isValid :: "QString \<Rightarrow> bool"
  url_scheme :: "QString \<Rightarrow> QString"
  url_userName :: "QString \<Rightarrow> QString"
  url_password :: "QString \<Rightarrow> QString"
  url_host :: "QString \<Rightarrow> QString"
  url_path :: "QString \<Rightarrow> QString"

record NormalizedSmbPath =
  nsp_inputPath :: QString
  nsp_normalizedUri :: QString
  nsp_server :: QString
  nsp_share :: QString
  nsp_initialRemotePath :: QString

definition emptyPath :: NormalizedSmbPath where
  "emptyPath = \<lparr>nsp_inputPath = [], nsp_normalizedUri = [], nsp_server = [], nsp_share = [], nsp_initialRemotePath = []\<rparr>"

definition startsWithInsensitive :: "QtText \<Rightarrow> QString \<Rightarrow> QString \<Rightarrow> bool" where
  "startsWithInsensitive qt s p = (length p \<le> length s \<and> sameText qt (take (length p) s) p)"

definition cleanedPathInput :: "QtText \<Rightarrow> QString \<Rightarrow> QString" where
  "cleanedPathInput qt input = forwardSlashes (trimmed qt input)"

definition invalidPath :: "QString \<Rightarrow> NormalizedSmbPath Result" where
  "invalidPath details = failedWith emptyPath (fromCode AeInvalidPath CatValidation details False)"

definition joinInitialPath :: "QString list \<Rightarrow> nat \<Rightarrow> QString" where
  "joinInitialPath parts firstIndex =
     (if length parts \<le> firstIndex then [] else joinParts slash (drop firstIndex parts))"

text \<open>The common end of the two branches: both parts are needed.\<close>

definition normalizedPath :: "QString \<Rightarrow> QString \<times> QString \<times> QString \<Rightarrow> NormalizedSmbPath Result" where
  "normalizedPath inputPath = (\<lambda>(server, share, initialRemotePath).
     if server = [] then invalidPath (latin1 ''SMB server is missing.'')
     else if share = [] then invalidPath (latin1 ''SMB share is missing.'')
     else succeeded \<lparr>nsp_inputPath = inputPath, nsp_normalizedUri = latin1 ''smb://'' @ server @ [slash] @ share,
            nsp_server = server, nsp_share = share, nsp_initialRemotePath = initialRemotePath\<rparr>)"

definition uriParts :: "QtText \<Rightarrow> QUrlText \<Rightarrow> QString \<Rightarrow> QString \<times> QString \<times> QString" where
  "uriParts qt url input =
     (let server = trimmed qt (url_host url input); pathParts = splitParts slash (url_path url input) [] in
      if pathParts \<noteq> [] then (server, trimmed qt (pathParts ! 0), joinInitialPath pathParts 1)
      else (server, [], []))"

definition uncParts :: "QtText \<Rightarrow> QString \<Rightarrow> QString \<times> QString \<times> QString" where
  "uncParts qt input =
     (let path = dropWhile (\<lambda>c. c = slash) (cleanedPathInput qt input); pathParts = splitParts slash path [] in
      if 2 \<le> length pathParts
      then (trimmed qt (pathParts ! 0), trimmed qt (pathParts ! 1), joinInitialPath pathParts 2)
      else ([], [], []))"

definition normalizeSmbPath :: "QtText \<Rightarrow> QUrlText \<Rightarrow> QString \<Rightarrow> NormalizedSmbPath Result" where
  "normalizeSmbPath qt url inputPath =
     (let input = trimmed qt inputPath in
      if input = [] then invalidPath (latin1 ''SMB path is empty.'')
      else if startsWithInsensitive qt input (latin1 ''smb://'') then
        (if \<not> url_isValid url input \<or> \<not> sameText qt (url_scheme url input) (latin1 ''smb'')
         then invalidPath (latin1 ''SMB URI is invalid.'')
         else if url_userName url input \<noteq> [] \<or> url_password url input \<noteq> []
         then invalidPath (latin1 ''SMB URI must not contain credentials.'')
         else normalizedPath inputPath (uriParts qt url input))
      else normalizedPath inputPath (uncParts qt input))"

section \<open>Identities\<close>

record ParsedIdentity =
  pid_authType :: AuthType
  pid_domain :: QString
  pid_username :: QString

definition invalidIdentity :: "QString \<Rightarrow> ParsedIdentity Result" where
  "invalidIdentity details =
     failedWith \<lparr>pid_authType = AuthPassword, pid_domain = [], pid_username = []\<rparr>
       (fromCode AeInvalidPath CatValidation details False)"

definition domainConflicts :: "QtText \<Rightarrow> QString \<Rightarrow> QString \<Rightarrow> bool" where
  "domainConflicts qt domain parsedDomain = (domain \<noteq> [] \<and> \<not> sameText qt domain parsedDomain)"

definition identity :: "AuthType \<Rightarrow> QString \<Rightarrow> QString \<Rightarrow> ParsedIdentity Result" where
  "identity authType domain username =
     succeeded \<lparr>pid_authType = authType, pid_domain = domain, pid_username = username\<rparr>"

abbreviation positive :: "nat option \<Rightarrow> bool" where
  "positive i \<equiv> (case i of Some n \<Rightarrow> 0 < n | None \<Rightarrow> False)"

definition normalizeIdentity :: "QtText \<Rightarrow> AuthType \<Rightarrow> QString \<Rightarrow> QString \<Rightarrow> ParsedIdentity Result" where
  "normalizeIdentity qt authType usernameInput domainInput =
     (if authType \<in> {AuthGuest, AuthAnonymous, AuthCurrentUser}
      then identity authType (trimmed qt domainInput) (trimmed qt usernameInput)
      else
        let username = trimmed qt usernameInput; domain = trimmed qt domainInput in
        if username = [] then invalidIdentity (latin1 ''Username is required for password authentication.'')
        else let slashIndex = indexOf backslash username; atIndex = indexOf 64 username in
        if positive slashIndex then
          (let parsedDomain = trimmed qt (take (the slashIndex) username);
               parsedUsername = trimmed qt (drop (the slashIndex + 1) username) in
           if parsedUsername = [] then invalidIdentity (latin1 ''Username part is empty.'')
           else if domainConflicts qt domain parsedDomain
           then invalidIdentity (latin1 ''Explicit domain conflicts with username domain.'')
           else identity authType parsedDomain parsedUsername)
        else if positive atIndex then
          (let parsedUsername = trimmed qt (take (the atIndex) username);
               parsedDomain = trimmed qt (drop (the atIndex + 1) username) in
           if parsedUsername = [] \<or> parsedDomain = [] then invalidIdentity (latin1 ''User principal name is incomplete.'')
           else if domainConflicts qt domain parsedDomain
           then invalidIdentity (latin1 ''Explicit domain conflicts with username domain.'')
           else identity authType parsedDomain parsedUsername)
        else identity authType domain username)"

section \<open>Parts of a path\<close>

text \<open>A part is clean when it is not empty and holds no separator.\<close>

definition cleanPart :: "QString \<Rightarrow> bool" where
  "cleanPart p \<longleftrightarrow> p \<noteq> [] \<and> slash \<notin> set p \<and> backslash \<notin> set p"

lemma splitParts_append: "c \<notin> set p \<Longrightarrow> splitParts c (p @ s) part = splitParts c s (part @ p)"
  by (induction p arbitrary: part) auto

lemma splitParts_joinParts:
  "\<forall>p\<in>set ps. p \<noteq> [] \<and> c \<notin> set p \<Longrightarrow> splitParts c (joinParts c ps) [] = ps"
proof (induction c ps rule: joinParts.induct)
  case (2 c p)
  then show ?case using splitParts_append [of c p "[]" "[]"] by simp
qed (simp_all add: splitParts_append)

lemma splitParts_dropWhile: "splitParts c (dropWhile (\<lambda>x. x = c) s) [] = splitParts c s []"
  by (induction s) auto

lemma forwardSlashes_joinParts:
  "\<forall>p\<in>set ps. cleanPart p \<Longrightarrow> forwardSlashes (joinParts backslash ps) = joinParts slash ps"
proof (induction "backslash" ps rule: joinParts.induct)
  case (3 p q ps)
  then show ?case by (simp add: cleanPart_def forwardSlashes_id) (simp add: forwardSlashes_def)
qed (simp_all add: cleanPart_def forwardSlashes_id)

lemma split_clean: "backslash \<notin> set s \<Longrightarrow> \<forall>p\<in>set (splitParts slash s []). cleanPart p"
  using splitParts_parts [of _ slash s "[]"] splitParts_chars [of backslash _ slash s "[]"]
  by (fastforce simp: cleanPart_def)

lemma trimmed_clean: "cleanPart p \<Longrightarrow> trimmed qt p \<noteq> [] \<Longrightarrow> cleanPart (trimmed qt p)"
  using set_trimmed [of qt p] by (auto simp: cleanPart_def)

lemma normalizedPath_ok:
  "ok (normalizedPath input ps) \<longleftrightarrow> fst ps \<noteq> [] \<and> fst (snd ps) \<noteq> []"
  by (auto simp: normalizedPath_def invalidPath_def split: prod.splits)

lemma res_value_normalizedPath:
  "ok (normalizedPath input (server, share, path)) \<Longrightarrow>
   res_value (normalizedPath input (server, share, path)) =
     \<lparr>nsp_inputPath = input, nsp_normalizedUri = latin1 ''smb://'' @ server @ [slash] @ share,
      nsp_server = server, nsp_share = share, nsp_initialRemotePath = path\<rparr>"
  by (auto simp: normalizedPath_def invalidPath_def split: if_split_asm)

lemma ok_invalidPath [simp]: "\<not> ok (invalidPath d)"
  by (simp add: invalidPath_def)

lemma trimmed_trimmed [simp]: "trimmed qt (trimmed qt s) = trimmed qt s"
proof (rule trimmed_id, cases "trimmed qt s = []")
  case False
  define t where "t = rev (dropWhile (qt_isSpace qt) s)"
  have eq: "trimmed qt s = rev (dropWhile (qt_isSpace qt) t)" by (simp add: trimmed_def t_def)
  then have ne: "dropWhile (qt_isSpace qt) t \<noteq> []" using False by auto
  then have "\<not> qt_isSpace qt (last (trimmed qt s))" using eq hd_dropWhile [of "qt_isSpace qt" t] by (simp add: last_rev)
  moreover have "t \<noteq> []" using ne by auto
  then have "\<not> qt_isSpace qt (last t)"
    using hd_dropWhile [of "qt_isSpace qt" s] unfolding t_def by (metis last_rev rev.simps(1))
  moreover have "last (dropWhile (qt_isSpace qt) t) = last t"
    using ne last_append [of "takeWhile (qt_isSpace qt) t" "dropWhile (qt_isSpace qt) t"]
    by (metis takeWhile_dropWhile_id)
  ultimately show "trimmed qt s = [] \<or> \<not> qt_isSpace qt (hd (trimmed qt s)) \<and> \<not> qt_isSpace qt (last (trimmed qt s))"
    unfolding eq using ne by (simp add: hd_rev)
qed simp

section \<open>What normalizing gives\<close>

lemma initial_path_canonical:
  "\<forall>p\<in>set parts. p \<noteq> [] \<and> slash \<notin> set p \<Longrightarrow>
   joinParts slash (splitParts slash (joinInitialPath parts k) []) = joinInitialPath parts k"
  by (auto simp: joinInitialPath_def intro!: arg_cong [where f = "joinParts slash"] splitParts_joinParts dest: in_set_dropD)

lemma uriParts_wellformed:
  assumes "uriParts qt url input = (server, share, path)" "share \<noteq> []"
  shows "slash \<notin> set share \<and> joinParts slash (splitParts slash path []) = path"
  using assms splitParts_parts [of _ slash "url_path url input" "[]"] set_trimmed [of qt "splitParts slash (url_path url input) [] ! 0"]
    initial_path_canonical [of "splitParts slash (url_path url input) []" 1]
  by (fastforce simp: uriParts_def Let_def split: if_split_asm)

lemma uncParts_wellformed:
  assumes "uncParts qt input = (server, share, path)" "server \<noteq> []" "share \<noteq> []"
  shows "cleanPart server \<and> cleanPart share \<and> joinParts slash (splitParts slash path []) = path"
proof -
  let ?parts = "splitParts slash (dropWhile (\<lambda>c. c = slash) (cleanedPathInput qt input)) []"
  have clean: "\<forall>p\<in>set ?parts. cleanPart p"
    by (rule split_clean) (auto simp: cleanedPathInput_def dest: set_dropWhileD intro: forwardSlashes_clean [THEN notE])
  have parts: "2 \<le> length ?parts" "server = trimmed qt (?parts ! 0)" "share = trimmed qt (?parts ! 1)"
    "path = joinInitialPath ?parts 2"
    using assms by (auto simp: uncParts_def Let_def split: if_split_asm)
  have "cleanPart (?parts ! 0)" "cleanPart (?parts ! 1)"
    using clean parts(1) nth_mem [of 0 ?parts] nth_mem [of 1 ?parts] by fastforce+
  moreover have "\<forall>p\<in>set ?parts. p \<noteq> [] \<and> slash \<notin> set p" using clean by (simp add: cleanPart_def)
  ultimately show ?thesis
    using parts assms(2,3) trimmed_clean initial_path_canonical [of ?parts 2] by metis
qed


text \<open>A URI whose host and path are \<open>s\<close> and \<open>/p/\<close>.\<close>

definition smallUrl :: QUrlText where
  "smallUrl = \<lparr>url_isValid = (\<lambda>_. True), url_scheme = take 3, url_userName = (\<lambda>_. []), url_password = (\<lambda>_. []),
     url_host = (\<lambda>_. [115]), url_path = (\<lambda>_. [47, 112, 47])\<rparr>"

lemma small_uri_ok: "ok (normalizeSmbPath asciiText smallUrl (latin1 '' smb://s/p/''))"
  by code_simp


text \<open>A UNC path written from a server, a share and parts without separators is read back as
  exactly these, whatever the number of parts, unless its beginning is that of a URI.\<close>

lemma unc_path_read_back:
  assumes "\<forall>p\<in>set (server # share # parts). cleanPart p"
    and "trimmed qt server = server" "trimmed qt share = share"
    and "input = [backslash, backslash] @ joinParts backslash (server # share # parts)" "trimmed qt input = input"
    and "\<not> startsWithInsensitive qt input (latin1 ''smb://'')"
  shows "normalizeSmbPath qt url input = succeeded \<lparr>nsp_inputPath = input,
    nsp_normalizedUri = latin1 ''smb://'' @ server @ [slash] @ share, nsp_server = server, nsp_share = share,
    nsp_initialRemotePath = joinParts slash parts\<rparr>"
proof -
  have "cleanedPathInput qt input = [slash, slash] @ joinParts slash (server # share # parts)"
    using assms(1,4,5) forwardSlashes_joinParts [of "server # share # parts"]
    by (simp add: cleanedPathInput_def) (simp add: forwardSlashes_def)
  moreover have "splitParts slash (joinParts slash (server # share # parts)) [] = server # share # parts"
    using assms(1) by (intro splitParts_joinParts) (auto simp: cleanPart_def)
  ultimately have "splitParts slash (dropWhile (\<lambda>c. c = slash) (cleanedPathInput qt input)) [] = server # share # parts"
    by (simp add: splitParts_dropWhile)
  moreover have "server \<noteq> []" "share \<noteq> []" "input \<noteq> []" using assms(1,4) by (auto simp: cleanPart_def)
  ultimately show ?thesis
    using assms by (simp add: normalizeSmbPath_def Let_def uncParts_def normalizedPath_def joinInitialPath_def)
qed

definition smallUnc :: QString where "smallUnc = [92, 92, 115, 92, 112, 92, 100, 92, 102]"

lemma small_unc:
  "\<forall>p\<in>set ([115] # [112] # [[100], [102]]). cleanPart p"
  "trimmed asciiText [115] = [115]" "trimmed asciiText [112] = [112]"
  "smallUnc = [92, 92] @ joinParts 92 ([115] # [112] # [[100], [102]])"
  "trimmed asciiText smallUnc = smallUnc" "\<not> startsWithInsensitive asciiText smallUnc (latin1 ''smb://'')"
  by code_simp+

lemma unc_path_read_back_witness:
  "nsp_initialRemotePath (res_value (normalizeSmbPath asciiText smallUrl smallUnc)) = [100, 47, 102]"
  by (simp add: unc_path_read_back [OF small_unc])

section \<open>Logins\<close>

text \<open>An accepted password login has a user name, and a domain given apart is the domain.\<close>

definition resolved :: "QtText \<Rightarrow> QString \<Rightarrow> ParsedIdentity Result \<Rightarrow> bool" where
  "resolved qt d r \<longleftrightarrow> (ok r \<longrightarrow> pid_username (res_value r) \<noteq> []
     \<and> (trimmed qt d \<noteq> [] \<longrightarrow> sameText qt (trimmed qt d) (pid_domain (res_value r))))"

lemma resolved_cases:
  "resolved qt d (invalidIdentity e)"
  "u \<noteq> [] \<Longrightarrow> \<not> domainConflicts qt (trimmed qt d) realm \<Longrightarrow> resolved qt d (identity a realm u)"
  "\<lbrakk>c \<Longrightarrow> resolved qt d r; \<not> c \<Longrightarrow> resolved qt d s\<rbrakk> \<Longrightarrow> resolved qt d (if c then r else s)"
  by (auto simp: resolved_def invalidIdentity_def identity_def domainConflicts_def)

lemma identity_resolved: "resolved qt d (normalizeIdentity qt AuthPassword u d)"
  unfolding normalizeIdentity_def Let_def
  by (intro resolved_cases) (auto simp: domainConflicts_def sameText_def)

lemma indexOf_here: "c \<notin> set s \<Longrightarrow> indexOf c (s @ c # t) = Some (length s)"
  by (induction s) auto

lemma indexOf_absent: "c \<notin> set s \<Longrightarrow> indexOf c s = None"
  by (induction s) auto

text \<open>The two ways to write a login in a domain mean the same.\<close>

lemma login_forms_agree:
  assumes "u \<noteq> []" "realm \<noteq> []" "backslash \<notin> set (u @ realm)" "64 \<notin> set (u @ realm)"
    and "trimmed qt u = u" "trimmed qt realm = realm"
    and "trimmed qt (realm @ [backslash] @ u) = realm @ [backslash] @ u" "trimmed qt (u @ [64] @ realm) = u @ [64] @ realm"
  shows "normalizeIdentity qt AuthPassword (realm @ [backslash] @ u) d = normalizeIdentity qt AuthPassword (u @ [64] @ realm) d"
  using assms by (simp add: normalizeIdentity_def indexOf_here indexOf_absent Let_def)

end
