(* ===== verification/SmbClients.thy ===== *)
theory SmbClients
  imports Core
begin

text \<open>
  The interfaces between the application and its SMB backends (\<open>src/src/core/SmbClient.h\<close>,
  \<open>DfsReferralResolver.h\<close>, \<open>CredentialStore.h\<close>). An abstract class is a record of functions of the
  outside world \<open>'w\<close>; a virtual method with a body in the header is a definition, the one a
  subclass has when it does not override it.
\<close>

type_synonym ('a, 'w) Call = "'w \<Rightarrow> 'a Result \<times> 'w"

record CredentialSecret =
  sec_bytes :: "u8 list"

record 'w CredentialStore =
  cst_save :: "QString \<Rightarrow> CredentialSecret \<Rightarrow> (QString, 'w) Call"
  cst_load :: "QString \<Rightarrow> (CredentialSecret, 'w) Call"
  cst_update :: "QString \<Rightarrow> CredentialSecret \<Rightarrow> (bool, 'w) Call"
  cst_remove :: "QString \<Rightarrow> (bool, 'w) Call"
  cst_isAvailable :: "(bool, 'w) Call"

text \<open>Asking a token, and calling a callback, that may be missing.\<close>

definition cancellationRequested :: "'w AppContext \<Rightarrow> 'w \<Rightarrow> bool \<times> 'w" where
  "cancellationRequested ctx w = (case apc_cancelled ctx of None \<Rightarrow> (False, w) | Some f \<Rightarrow> f w)"

definition reportProgress :: "'w AppContext \<Rightarrow> TransferProgress \<Rightarrow> 'w \<Rightarrow> 'w" where
  "reportProgress ctx p w = (case apc_progress ctx of None \<Rightarrow> w | Some f \<Rightarrow> f p w)"

section \<open>Clients\<close>

record SmbClientCapabilities =
  cap_canListDirectory :: bool
  cap_canCreateDirectory :: bool
  cap_canRemove :: bool
  cap_canRename :: bool
  cap_canDownload :: bool
  cap_canUpload :: bool
  cap_canCopy :: bool
  cap_canMove :: bool
  cap_canSetBasicMetadata :: bool
  cap_canReadExtendedAttributes :: bool
  cap_canWriteExtendedAttributes :: bool
  cap_canReadSecurityDescriptor :: bool
  cap_canWriteSecurityDescriptor :: bool
  cap_canWatchDirectory :: bool
  cap_canUsePosixMode :: bool
  cap_canUsePosixOwner :: bool
  cap_canBrowseShares :: bool
  cap_unsupportedAdvancedOperationsReason :: QString

definition defaultCapabilities :: SmbClientCapabilities where
  "defaultCapabilities = \<lparr>cap_canListDirectory = True, cap_canCreateDirectory = True, cap_canRemove = True,
     cap_canRename = True, cap_canDownload = True, cap_canUpload = True, cap_canCopy = True, cap_canMove = True,
     cap_canSetBasicMetadata = False, cap_canReadExtendedAttributes = False, cap_canWriteExtendedAttributes = False,
     cap_canReadSecurityDescriptor = False, cap_canWriteSecurityDescriptor = False, cap_canWatchDirectory = False,
     cap_canUsePosixMode = False, cap_canUsePosixOwner = False, cap_canBrowseShares = False,
     cap_unsupportedAdvancedOperationsReason = []\<rparr>"

record SmbCapabilityReport =
  crp_serverAvailable :: bool
  crp_shareAvailable :: bool
  crp_dialect :: QString
  crp_signingRequired :: bool
  crp_encryptionSupported :: bool
  crp_encryptionRequired :: bool
  crp_dfsSupported :: bool
  crp_shareDfs :: bool
  crp_shareDfsRoot :: bool
  crp_capabilities :: SmbClientCapabilities

definition emptyReport :: SmbCapabilityReport where
  "emptyReport = \<lparr>crp_serverAvailable = False, crp_shareAvailable = False, crp_dialect = [], crp_signingRequired = False,
     crp_encryptionSupported = False, crp_encryptionRequired = False, crp_dfsSupported = False, crp_shareDfs = False,
     crp_shareDfsRoot = False, crp_capabilities = defaultCapabilities\<rparr>"

record SmbShareInfo =
  shi_name :: QString
  shi_type :: QString
  shi_comment :: QString
  shi_hidden :: bool
  shi_dfs :: bool

type_synonym Secret = "CredentialSecret option"

record 'w SmbClient =
  smc_capabilities :: "SavedConnection \<Rightarrow> SmbClientCapabilities"
  smc_probeCapabilities :: "SavedConnection \<Rightarrow> Secret \<Rightarrow> 'w AppContext \<Rightarrow> (SmbCapabilityReport, 'w) Call"
  smc_listShares :: "SavedConnection \<Rightarrow> Secret \<Rightarrow> 'w AppContext \<Rightarrow> (SmbShareInfo list, 'w) Call"
  smc_checkConnection :: "SavedConnection \<Rightarrow> Secret \<Rightarrow> 'w AppContext \<Rightarrow> (bool, 'w) Call"
  smc_listDirectory :: "SavedConnection \<Rightarrow> Secret \<Rightarrow> QString \<Rightarrow> 'w AppContext \<Rightarrow> (RemoteFileEntry list, 'w) Call"
  smc_createDirectory :: "SavedConnection \<Rightarrow> Secret \<Rightarrow> QString \<Rightarrow> 'w AppContext \<Rightarrow> (bool, 'w) Call"
  smc_remove :: "SavedConnection \<Rightarrow> Secret \<Rightarrow> QString \<Rightarrow> 'w AppContext \<Rightarrow> (bool, 'w) Call"
  smc_rename :: "SavedConnection \<Rightarrow> Secret \<Rightarrow> QString \<Rightarrow> QString \<Rightarrow> 'w AppContext \<Rightarrow> (bool, 'w) Call"
  smc_downloadFile :: "SavedConnection \<Rightarrow> Secret \<Rightarrow> QString \<Rightarrow> QString \<Rightarrow> 'w AppContext \<Rightarrow> (bool, 'w) Call"
  smc_uploadFile :: "SavedConnection \<Rightarrow> Secret \<Rightarrow> QString \<Rightarrow> QString \<Rightarrow> 'w AppContext \<Rightarrow> (bool, 'w) Call"
  smc_copy :: "SavedConnection \<Rightarrow> Secret \<Rightarrow> QString \<Rightarrow> SavedConnection \<Rightarrow> Secret \<Rightarrow> QString \<Rightarrow> 'w AppContext \<Rightarrow> (bool, 'w) Call"
  smc_move :: "SavedConnection \<Rightarrow> Secret \<Rightarrow> QString \<Rightarrow> SavedConnection \<Rightarrow> Secret \<Rightarrow> QString \<Rightarrow> 'w AppContext \<Rightarrow> (bool, 'w) Call"

definition defaultProbeCapabilities ::
  "(SavedConnection \<Rightarrow> SmbClientCapabilities) \<Rightarrow> SavedConnection \<Rightarrow> Secret \<Rightarrow> 'w AppContext \<Rightarrow> (SmbCapabilityReport, 'w) Call" where
  "defaultProbeCapabilities capabilities connection secret ctx w =
     (succeeded (emptyReport\<lparr>crp_capabilities := capabilities connection\<rparr>), w)"

definition defaultListShares :: "SavedConnection \<Rightarrow> Secret \<Rightarrow> 'w AppContext \<Rightarrow> (SmbShareInfo list, 'w) Call" where
  "defaultListShares connection secret ctx w =
     (failedWith [] (fromCode AeProtocolUnsupported CatSmb
        (latin1 ''Share browsing is not supported by this SMB backend.'') False), w)"

section \<open>Referral resolvers\<close>

record DfsResolvedConnection =
  drc_connection :: SavedConnection
  drc_ttlSeconds :: int

record DfsResolvedPath =
  drp_connection :: SavedConnection
  drp_remotePath :: QString
  drp_originalPathPrefix :: QString
  drp_targetPathPrefix :: QString
  drp_ttlSeconds :: int

record 'w DfsReferralResolver =
  dfr_resolve :: "SavedConnection \<Rightarrow> Secret \<Rightarrow> 'w AppContext \<Rightarrow> (SavedConnection option, 'w) Call"
  dfr_resolveTargets :: "SavedConnection \<Rightarrow> Secret \<Rightarrow> 'w AppContext \<Rightarrow> (DfsResolvedConnection list, 'w) Call"
  dfr_resolvePath :: "SavedConnection \<Rightarrow> Secret \<Rightarrow> QString \<Rightarrow> 'w AppContext \<Rightarrow> (DfsResolvedPath option, 'w) Call"
  dfr_resolvePathTargets :: "SavedConnection \<Rightarrow> Secret \<Rightarrow> QString \<Rightarrow> 'w AppContext \<Rightarrow> (DfsResolvedPath list, 'w) Call"

definition defaultResolveTargets ::
  "'w DfsReferralResolver \<Rightarrow> SavedConnection \<Rightarrow> Secret \<Rightarrow> 'w AppContext \<Rightarrow> (DfsResolvedConnection list, 'w) Call" where
  "defaultResolveTargets r connection secret ctx w =
     (let (resolved, w) = dfr_resolve r connection secret ctx w in
      if \<not> ok resolved then (failedWith [] (res_error resolved), w)
      else case res_value resolved of
        None \<Rightarrow> (succeeded [], w)
      | Some c \<Rightarrow> (succeeded [\<lparr>drc_connection = c, drc_ttlSeconds = 300\<rparr>], w))"

definition defaultResolvePath ::
  "'w DfsReferralResolver \<Rightarrow> SavedConnection \<Rightarrow> Secret \<Rightarrow> QString \<Rightarrow> 'w AppContext \<Rightarrow> (DfsResolvedPath option, 'w) Call" where
  "defaultResolvePath r connection secret remotePath ctx w =
     (let (resolved, w) = dfr_resolve r connection secret ctx w in
      if \<not> ok resolved then (failedWith None (res_error resolved), w)
      else case res_value resolved of
        None \<Rightarrow> (succeeded None, w)
      | Some c \<Rightarrow> (succeeded (Some \<lparr>drp_connection = c, drp_remotePath = remotePath, drp_originalPathPrefix = [slash],
                       drp_targetPathPrefix = [slash], drp_ttlSeconds = 300\<rparr>), w))"

definition defaultResolvePathTargets ::
  "'w DfsReferralResolver \<Rightarrow> SavedConnection \<Rightarrow> Secret \<Rightarrow> QString \<Rightarrow> 'w AppContext \<Rightarrow> (DfsResolvedPath list, 'w) Call" where
  "defaultResolvePathTargets r connection secret remotePath ctx w =
     (let (resolved, w) = dfr_resolvePath r connection secret remotePath ctx w in
      if \<not> ok resolved then (failedWith [] (res_error resolved), w)
      else case res_value resolved of
        None \<Rightarrow> (succeeded [], w)
      | Some p \<Rightarrow> (succeeded [p], w))"

end
