(* ===== verification/ConnectionServices.thy ===== *)
theory ConnectionServices
  imports SmbClients
begin

text \<open>
  The services on saved connections (\<open>src/src/application\<close>): \<open>ConnectionOpenService.cpp\<close> opens a
  connection and runs one operation of the backend on it, \<open>ConnectivityCheckService.cpp\<close> tests it and
  \<open>ConnectionService.cpp\<close> creates, changes and removes connections together with their credentials.
  The repository (SQL), the credential store, the backend and the clock are records of functions of
  the outside world \<open>'w\<close>, so the models fix which of them is called, in which order and with what.
\<close>

section \<open>What a service is built from\<close>

record 'w ConnectionRepository =
  rep_add :: "SavedConnection \<Rightarrow> (SavedConnection, 'w) Call"
  rep_getById :: "QString \<Rightarrow> (SavedConnection, 'w) Call"
  rep_list :: "(SavedConnection list, 'w) Call"
  rep_update :: "SavedConnection \<Rightarrow> (SavedConnection, 'w) Call"
  rep_remove :: "QString \<Rightarrow> (bool, 'w) Call"
  rep_updateLastOpened :: "QString \<Rightarrow> QDateTime \<Rightarrow> (bool, 'w) Call"
  rep_updateLastError :: "QString \<Rightarrow> AppErrorCode \<Rightarrow> QString \<Rightarrow> (bool, 'w) Call"
  rep_updateLastSuccessfulCheck :: "QString \<Rightarrow> QDateTime \<Rightarrow> (bool, 'w) Call"

record 'w Services =
  srv_repository :: "'w ConnectionRepository"
  srv_credentials :: "'w CredentialStore"
  srv_client :: "'w SmbClient"
  srv_now :: "'w \<Rightarrow> QDateTime \<times> 'w"
  srv_newId :: "'w \<Rightarrow> QString \<times> 'w"

text \<open>A call whose failure ends the caller: with the handler \<open>h\<close>, or with the error alone.\<close>

definition handled :: "('a, 'w) Call \<Rightarrow> (AppError \<Rightarrow> ('b, 'w) Call) \<Rightarrow> ('a \<Rightarrow> ('b, 'w) Call) \<Rightarrow> ('b, 'w) Call" where
  "handled call h f w = (let (r, w) = call w in if ok r then f (res_value r) w else h (res_error r) w)"

definition onSuccess :: "'b \<Rightarrow> ('a, 'w) Call \<Rightarrow> ('a \<Rightarrow> ('b, 'w) Call) \<Rightarrow> ('b, 'w) Call" where
  "onSuccess blank call f = handled call (\<lambda>e w. (failedWith blank e, w)) f"

definition errorMessageForStorage :: "AppError \<Rightarrow> QString" where
  "errorMessageForStorage e =
     (if ae_sanitizedTechnicalDetails e \<noteq> [] then ae_sanitizedTechnicalDetails e else ae_userMessage e)"

definition rememberError :: "'w Services \<Rightarrow> QString \<Rightarrow> AppError \<Rightarrow> 'w \<Rightarrow> 'w" where
  "rememberError s connectionId e w =
     snd (rep_updateLastError (srv_repository s) connectionId (ae_code e) (errorMessageForStorage e) w)"

definition remembering :: "'w Services \<Rightarrow> QString \<Rightarrow> 'b \<Rightarrow> AppError \<Rightarrow> ('b, 'w) Call" where
  "remembering s connectionId blank e w = (failedWith blank e, rememberError s connectionId e w)"

definition loadSecret :: "'w Services \<Rightarrow> SavedConnection \<Rightarrow> (Secret, 'w) Call" where
  "loadSecret s connection w =
     (if \<not> usesStoredCredential connection then (succeeded None, w)
      else onSuccess None (cst_load (srv_credentials s) (con_credentialRef connection))
             (\<lambda>secret w. (succeeded (Some secret), w)) w)"

section \<open>Opening connections\<close>

record OpenConnectionResult =
  ocr_connection :: SavedConnection
  ocr_capabilities :: SmbClientCapabilities
  ocr_currentRemotePath :: QString
  ocr_entries :: "RemoteFileEntry list"

definition emptyOpenResult :: OpenConnectionResult where
  "emptyOpenResult = \<lparr>ocr_connection = createEmpty, ocr_capabilities = defaultCapabilities, ocr_currentRemotePath = [],
     ocr_entries = []\<rparr>"

definition normalizedStartPath :: "QtText \<Rightarrow> QString \<Rightarrow> QString" where
  "normalizedStartPath qt path =
     (let value = dropWhile (\<lambda>c. c = slash) (forwardSlashes (trimmed qt path));
          value = rev (dropWhile (\<lambda>c. c = slash) (rev value)) in
      if value = [] then [slash] else slash # value)"

definition openAtPath ::
  "QtText \<Rightarrow> 'w Services \<Rightarrow> QString \<Rightarrow> QString \<Rightarrow> bool \<Rightarrow> 'w AppContext \<Rightarrow> (OpenConnectionResult, 'w) Call" where
  "openAtPath qt s connectionId remotePath updateLastOpened ctx =
     onSuccess emptyOpenResult (rep_getById (srv_repository s) connectionId) (\<lambda>connection.
     handled (loadSecret s connection) (remembering s (con_id connection) emptyOpenResult) (\<lambda>secret.
     let currentPath = normalizedStartPath qt remotePath in
     handled (smc_listDirectory (srv_client s) connection secret currentPath ctx)
       (remembering s (con_id connection) emptyOpenResult) (\<lambda>entries.
     onSuccess emptyOpenResult
       (if updateLastOpened
        then (\<lambda>w. let (openedAt, w) = srv_now s w in rep_updateLastOpened (srv_repository s) (con_id connection) openedAt w)
        else (\<lambda>w. (succeeded True, w))) (\<lambda>_.
     onSuccess emptyOpenResult (rep_getById (srv_repository s) (con_id connection)) (\<lambda>refreshed w.
       (succeeded \<lparr>ocr_connection = refreshed, ocr_capabilities = smc_capabilities (srv_client s) refreshed,
          ocr_currentRemotePath = currentPath, ocr_entries = entries\<rparr>, w))))))"

definition openConnection :: "QtText \<Rightarrow> 'w Services \<Rightarrow> QString \<Rightarrow> 'w AppContext \<Rightarrow> (OpenConnectionResult, 'w) Call" where
  "openConnection qt s connectionId ctx =
     onSuccess emptyOpenResult (rep_getById (srv_repository s) connectionId) (\<lambda>connection.
       openAtPath qt s connectionId (con_initialRemotePath connection) True ctx)"

definition listDirectoryOf ::
  "QtText \<Rightarrow> 'w Services \<Rightarrow> QString \<Rightarrow> QString \<Rightarrow> 'w AppContext \<Rightarrow> (OpenConnectionResult, 'w) Call" where
  "listDirectoryOf qt s connectionId remotePath ctx = openAtPath qt s connectionId remotePath False ctx"

definition runFileOperation ::
  "'w Services \<Rightarrow> QString \<Rightarrow> (SavedConnection \<Rightarrow> Secret \<Rightarrow> 'w AppContext \<Rightarrow> (bool, 'w) Call) \<Rightarrow> 'w AppContext \<Rightarrow> (bool, 'w) Call" where
  "runFileOperation s connectionId operation ctx =
     onSuccess False (rep_getById (srv_repository s) connectionId) (\<lambda>connection.
     handled (loadSecret s connection) (remembering s (con_id connection) False) (\<lambda>secret w.
       let (result, w) = operation connection secret ctx w in
       (result, if ok result then w else rememberError s (con_id connection) (res_error result) w)))"

definition createDirectoryOf :: "QtText \<Rightarrow> 'w Services \<Rightarrow> QString \<Rightarrow> QString \<Rightarrow> 'w AppContext \<Rightarrow> (bool, 'w) Call" where
  "createDirectoryOf qt s connectionId remotePath =
     runFileOperation s connectionId (\<lambda>connection secret.
       smc_createDirectory (srv_client s) connection secret (normalizedStartPath qt remotePath))"

definition removeOf :: "QtText \<Rightarrow> 'w Services \<Rightarrow> QString \<Rightarrow> QString \<Rightarrow> 'w AppContext \<Rightarrow> (bool, 'w) Call" where
  "removeOf qt s connectionId remotePath =
     runFileOperation s connectionId (\<lambda>connection secret.
       smc_remove (srv_client s) connection secret (normalizedStartPath qt remotePath))"

definition renameOf ::
  "QtText \<Rightarrow> 'w Services \<Rightarrow> QString \<Rightarrow> QString \<Rightarrow> QString \<Rightarrow> 'w AppContext \<Rightarrow> (bool, 'w) Call" where
  "renameOf qt s connectionId sourceRemotePath targetRemotePath =
     runFileOperation s connectionId (\<lambda>connection secret.
       smc_rename (srv_client s) connection secret (normalizedStartPath qt sourceRemotePath)
         (normalizedStartPath qt targetRemotePath))"

definition downloadFileOf ::
  "QtText \<Rightarrow> 'w Services \<Rightarrow> QString \<Rightarrow> QString \<Rightarrow> QString \<Rightarrow> 'w AppContext \<Rightarrow> (bool, 'w) Call" where
  "downloadFileOf qt s connectionId remotePath localPath =
     runFileOperation s connectionId (\<lambda>connection secret.
       smc_downloadFile (srv_client s) connection secret (normalizedStartPath qt remotePath) localPath)"

definition uploadFileOf ::
  "QtText \<Rightarrow> 'w Services \<Rightarrow> QString \<Rightarrow> QString \<Rightarrow> QString \<Rightarrow> 'w AppContext \<Rightarrow> (bool, 'w) Call" where
  "uploadFileOf qt s connectionId localPath remotePath =
     runFileOperation s connectionId (\<lambda>connection secret.
       smc_uploadFile (srv_client s) connection secret localPath (normalizedStartPath qt remotePath))"

text \<open>A copy and a move name two connections; what fails is noted at both. The two methods differ in
  the call of the backend only.\<close>

definition loadConnectionWithSecret :: "'w Services \<Rightarrow> QString \<Rightarrow> (SavedConnection \<times> Secret, 'w) Call" where
  "loadConnectionWithSecret s connectionId =
     onSuccess (createEmpty, None) (rep_getById (srv_repository s) connectionId) (\<lambda>connection.
     onSuccess (createEmpty, None) (loadSecret s connection) (\<lambda>secret w. (succeeded (connection, secret), w)))"

definition onTwoConnections ::
  "(SavedConnection \<Rightarrow> Secret \<Rightarrow> SavedConnection \<Rightarrow> Secret \<Rightarrow> (bool, 'w) Call) \<Rightarrow> 'w Services \<Rightarrow> QString \<Rightarrow> QString \<Rightarrow> (bool, 'w) Call" where
  "onTwoConnections operation s sourceConnectionId targetConnectionId =
     handled (loadConnectionWithSecret s sourceConnectionId) (remembering s sourceConnectionId False) (\<lambda>(source, sourceSecret).
     handled (loadConnectionWithSecret s targetConnectionId) (remembering s (con_id source) False) (\<lambda>(target, targetSecret) w.
       let (result, w) = operation source sourceSecret target targetSecret w in
       if ok result then (result, w)
       else let w = rememberError s (con_id source) (res_error result) w in
            (result, if con_id source \<noteq> con_id target then rememberError s (con_id target) (res_error result) w else w)))"

definition copyOf ::
  "QtText \<Rightarrow> 'w Services \<Rightarrow> QString \<Rightarrow> QString \<Rightarrow> QString \<Rightarrow> QString \<Rightarrow> 'w AppContext \<Rightarrow> (bool, 'w) Call" where
  "copyOf qt s sourceConnectionId sourceRemotePath targetConnectionId targetRemotePath ctx =
     onTwoConnections (\<lambda>source sourceSecret target targetSecret.
       smc_copy (srv_client s) source sourceSecret (normalizedStartPath qt sourceRemotePath)
         target targetSecret (normalizedStartPath qt targetRemotePath) ctx) s sourceConnectionId targetConnectionId"

definition moveOf ::
  "QtText \<Rightarrow> 'w Services \<Rightarrow> QString \<Rightarrow> QString \<Rightarrow> QString \<Rightarrow> QString \<Rightarrow> 'w AppContext \<Rightarrow> (bool, 'w) Call" where
  "moveOf qt s sourceConnectionId sourceRemotePath targetConnectionId targetRemotePath ctx =
     onTwoConnections (\<lambda>source sourceSecret target targetSecret.
       smc_move (srv_client s) source sourceSecret (normalizedStartPath qt sourceRemotePath)
         target targetSecret (normalizedStartPath qt targetRemotePath) ctx) s sourceConnectionId targetConnectionId"

section \<open>Testing connections\<close>

record ConnectivityCheckResult =
  ccr_available :: bool
  ccr_status :: ConnectionStatus
  ccr_error :: AppError
  ccr_checkedAtUtc :: QDateTime

definition emptyCheckResult :: ConnectivityCheckResult where
  "emptyCheckResult = \<lparr>ccr_available = False, ccr_status = StNotChecked, ccr_error = noError, ccr_checkedAtUtc = None\<rparr>"

definition checkConnectivity :: "'w Services \<Rightarrow> QString \<Rightarrow> 'w AppContext \<Rightarrow> (ConnectivityCheckResult, 'w) Call" where
  "checkConnectivity s connectionId ctx =
     onSuccess emptyCheckResult (rep_getById (srv_repository s) connectionId) (\<lambda>connection.
     handled (loadSecret s connection) (remembering s (con_id connection) emptyCheckResult) (\<lambda>secret w.
       let (checked, w) = smc_checkConnection (srv_client s) connection secret ctx w;
           (checkedAt, w) = srv_now s w in
       if ok checked \<and> res_value checked then
         onSuccess emptyCheckResult (rep_updateLastSuccessfulCheck (srv_repository s) (con_id connection) checkedAt)
           (\<lambda>_ w. (succeeded (emptyCheckResult\<lparr>ccr_checkedAtUtc := checkedAt, ccr_available := True,
                      ccr_status := StAvailable\<rparr>), w)) w
       else (succeeded (emptyCheckResult\<lparr>ccr_checkedAtUtc := checkedAt, ccr_available := False, ccr_error := res_error checked,
               ccr_status := connectionStatusForSmbError (ae_code (res_error checked))\<rparr>),
             rememberError s (con_id connection) (res_error checked) w)))"

section \<open>Changing connections\<close>

definition missingCredentialError :: AppError where
  "missingCredentialError =
     fromCode AeCredentialNotFound CatCredentials (latin1 ''Password authentication requires a credential secret.'') False"

definition createConnection :: "'w Services \<Rightarrow> SavedConnection \<Rightarrow> Secret \<Rightarrow> (SavedConnection, 'w) Call" where
  "createConnection s connection secret w =
     (let (connection, w) =
        (if con_id connection = [] then let (i, w) = srv_newId s w in (connection\<lparr>con_id := i\<rparr>, w) else (connection, w)) in
      onSuccess createEmpty
        (\<lambda>w. if con_authType connection = AuthPassword then
               (case secret of
                  None \<Rightarrow> (failedWith [] missingCredentialError, w)
                | Some secret \<Rightarrow> cst_save (srv_credentials s) (con_id connection) secret w)
             else (succeeded [], w))
        (\<lambda>credentialRef w.
           let (added, w) = rep_add (srv_repository s) (connection\<lparr>con_credentialRef := credentialRef\<rparr>) w in
           (added, if \<not> ok added \<and> con_authType connection = AuthPassword \<and> credentialRef \<noteq> []
                   then snd (cst_remove (srv_credentials s) credentialRef w) else w)) w)"

definition credentialIsShared :: "'w Services \<Rightarrow> QString \<Rightarrow> QString \<Rightarrow> 'w \<Rightarrow> bool \<times> 'w" where
  "credentialIsShared s credentialRef excludingConnectionId w =
     (let (connections, w) = rep_list (srv_repository s) w in
      (\<not> ok connections \<or>
       (\<exists>c\<in>set (res_value connections). con_id c \<noteq> excludingConnectionId \<and> con_credentialRef c = credentialRef), w))"

definition updateConnection :: "'w Services \<Rightarrow> SavedConnection \<Rightarrow> Secret \<Rightarrow> (SavedConnection, 'w) Call" where
  "updateConnection s connection secret =
     onSuccess createEmpty (rep_getById (srv_repository s) (con_id connection)) (\<lambda>existing.
     onSuccess createEmpty
       (\<lambda>w. if con_authType connection = AuthPassword then
              (case secret of
                 Some secret \<Rightarrow>
                   if con_credentialRef connection = []
                   then cst_save (srv_credentials s) (con_id connection) secret w
                   else onSuccess [] (cst_update (srv_credentials s) (con_credentialRef connection) secret)
                          (\<lambda>_ w. (succeeded (con_credentialRef connection), w)) w
               | None \<Rightarrow>
                   if con_credentialRef connection = [] then (failedWith [] missingCredentialError, w)
                   else (succeeded (con_credentialRef connection), w))
            else if con_credentialRef existing \<noteq> [] then
              (let (shared, w) = credentialIsShared s (con_credentialRef existing) (con_id connection) w in
               if shared then (succeeded [], w)
               else onSuccess [] (cst_remove (srv_credentials s) (con_credentialRef existing)) (\<lambda>_ w. (succeeded [], w)) w)
            else (succeeded [], w))
       (\<lambda>credentialRef. rep_update (srv_repository s) (connection\<lparr>con_credentialRef := credentialRef\<rparr>)))"

definition removeConnection :: "'w Services \<Rightarrow> QString \<Rightarrow> (bool, 'w) Call" where
  "removeConnection s connectionId =
     onSuccess False (rep_getById (srv_repository s) connectionId) (\<lambda>existing w.
       let credentialRef = con_credentialRef existing;
           (shared, w) = (if credentialRef \<noteq> [] then credentialIsShared s credentialRef connectionId w else (True, w));
           (removed, w) = rep_remove (srv_repository s) connectionId w in
       if \<not> ok removed then (removed, w)
       else if \<not> res_value removed then (succeeded False, w)
       else if \<not> shared then
         onSuccess False (cst_remove (srv_credentials s) credentialRef) (\<lambda>_ w. (succeeded True, w)) w
       else (succeeded True, w))"

end
