(* ===== verification/RecursiveSearch.thy ===== *)
theory RecursiveSearch
  imports ConnectionServices "HOL-Library.Multiset"
begin

text \<open>
  The search below a directory (\<open>src/src/application/RecursiveSearchService.cpp\<close>): a queue of
  directories with their depths, each listed through the directory use case, a function of the
  outside world. The tree may be infinite, hold cycles or change while it is searched; the loop is
  a function whose termination rests on the bound on the depth alone.
\<close>

section \<open>The search\<close>

record RecursiveSearchOptions =
  rso_connectionId :: QString
  rso_startRemotePath :: QString
  rso_query :: QString
  rso_maxDepth :: int
  rso_maxResults :: int
  rso_includeDirectories :: bool

record RecursiveSearchResult =
  rsr_entries :: "RemoteFileEntry list"
  rsr_scannedDirectories :: int
  rsr_limitReached :: bool

record PendingDirectory =
  pdr_remotePath :: QString
  pdr_depth :: int

definition emptySearchResult :: RecursiveSearchResult where
  "emptySearchResult = \<lparr>rsr_entries = [], rsr_scannedDirectories = 0, rsr_limitReached = False\<rparr>"

definition normalizeSearchPath :: "QtText \<Rightarrow> QString \<Rightarrow> QString" where
  "normalizeSearchPath qt remotePath =
     (let remotePath = forwardSlashes (trimmed qt remotePath) in
      if remotePath = [] then [slash]
      else let remotePath = (if startsWith remotePath [slash] then remotePath else slash # remotePath);
               stripped = rev (dropWhile (\<lambda>c. c = slash) (rev remotePath)) in
           if stripped = [] then [slash] else stripped)"

text \<open>\<open>contains(query, Qt::CaseInsensitive)\<close> compares parts of the folded text.\<close>

definition matchesQuery :: "QtText \<Rightarrow> RemoteFileEntry \<Rightarrow> QString \<Rightarrow> bool" where
  "matchesQuery qt entry query =
     (query = [] \<or> containsText (qt_foldCase qt (rfe_name entry)) (qt_foldCase qt query)
      \<or> containsText (qt_foldCase qt (rfe_remotePath entry)) (qt_foldCase qt query))"

definition searchCancelled :: AppError where
  "searchCancelled = fromCode AeOperationCancelled CatGeneral (latin1 ''Recursive search cancelled.'') False"

definition invalidOptionsError :: "QString \<Rightarrow> AppError" where
  "invalidOptionsError details = fromCode AeInvalidPath CatValidation details False"

definition shouldInclude :: "QtText \<Rightarrow> RecursiveSearchOptions \<Rightarrow> QString \<Rightarrow> RemoteFileEntry \<Rightarrow> bool" where
  "shouldInclude qt opts query entry =
     ((rso_includeDirectories opts \<or> isFile entry) \<and> matchesQuery qt entry query)"

text \<open>The inner loop, over the entries of one directory: it stops the search with a result, or gives
  the result so far and the queue.\<close>

fun scanEntries ::
  "QtText \<Rightarrow> RecursiveSearchOptions \<Rightarrow> 'w AppContext \<Rightarrow> QString \<Rightarrow> int \<Rightarrow> RemoteFileEntry list \<Rightarrow>
   RecursiveSearchResult \<Rightarrow> PendingDirectory list \<Rightarrow> 'w \<Rightarrow>
   (RecursiveSearchResult Result + RecursiveSearchResult \<times> PendingDirectory list) \<times> 'w" where
  "scanEntries qt opts ctx query depth [] result pending w = (Inr (result, pending), w)"
| "scanEntries qt opts ctx query depth (entry # entries) result pending w =
     (let (cancelled, w) = cancellationRequested ctx w in
      if cancelled then (Inl (failedWith emptySearchResult searchCancelled), w)
      else
        let result = (if shouldInclude qt opts query entry
                      then result\<lparr>rsr_entries := rsr_entries result @ [entry]\<rparr> else result) in
        if shouldInclude qt opts query entry \<and> rso_maxResults opts \<le> int (length (rsr_entries result))
        then (Inl (succeeded (result\<lparr>rsr_limitReached := True\<rparr>)), w)
        else scanEntries qt opts ctx query depth entries result
               (if isDirectory entry \<and> depth < rso_maxDepth opts
                then pending @ [\<lparr>pdr_remotePath = normalizeSearchPath qt (rfe_remotePath entry), pdr_depth = depth + 1\<rparr>]
                else pending) w)"

text \<open>What a directory adds to the queue lies one level deeper and not below the bound.\<close>

definition subdirectories :: "QtText \<Rightarrow> RecursiveSearchOptions \<Rightarrow> int \<Rightarrow> RemoteFileEntry list \<Rightarrow> PendingDirectory list" where
  "subdirectories qt opts depth entries =
     map (\<lambda>e. \<lparr>pdr_remotePath = normalizeSearchPath qt (rfe_remotePath e), pdr_depth = depth + 1\<rparr>)
       (filter (\<lambda>e. isDirectory e \<and> depth < rso_maxDepth opts) entries)"

lemma subdirectories_simps [simp]:
  "subdirectories qt opts depth [] = []"
  "subdirectories qt opts depth (e # es) =
     (if isDirectory e \<and> depth < rso_maxDepth opts
      then [\<lparr>pdr_remotePath = normalizeSearchPath qt (rfe_remotePath e), pdr_depth = depth + 1\<rparr>] else [])
     @ subdirectories qt opts depth es"
  "length (subdirectories qt opts depth es) \<le> length es"
  by (auto simp: subdirectories_def)

lemma subdirectories_depth:
  "\<forall>p\<in>set (subdirectories qt opts depth es). pdr_depth p = depth + 1 \<and> depth < rso_maxDepth opts"
  by (auto simp: subdirectories_def)

lemma scanEntries_goes_on:
  "scanEntries qt opts ctx query depth entries result pending w = (Inr (result', pending'), w') \<Longrightarrow>
   pending' = pending @ subdirectories qt opts depth entries"
proof (induction entries arbitrary: result pending w)
  case (Cons entry entries)
  from Cons.prems show ?case
    by (auto simp: Let_def split: prod.splits if_split_asm dest!: Cons.IH)
qed simp

definition levelsBelow :: "int \<Rightarrow> PendingDirectory list \<Rightarrow> nat multiset" where
  "levelsBelow maxDepth pending = {#nat (maxDepth - pdr_depth p). p \<in># mset pending#}"

lemma levelsBelow_decreases:
  assumes "\<forall>p\<in>set new. pdr_depth p = pdr_depth current + 1 \<and> pdr_depth current < maxDepth"
  shows "(levelsBelow maxDepth (rest @ new), levelsBelow maxDepth (current # rest)) \<in> mult less_than"
proof -
  have "\<forall>k \<in># image_mset (\<lambda>p. nat (maxDepth - pdr_depth p)) (mset new). \<exists>j \<in># {#nat (maxDepth - pdr_depth current)#}. (k, j) \<in> less_than"
    using assms by auto
  then show ?thesis
    unfolding levelsBelow_def
    using one_step_implies_mult [of "{#nat (maxDepth - pdr_depth current)#}" _ less_than
        "image_mset (\<lambda>p. nat (maxDepth - pdr_depth p)) (mset rest)"] by simp
qed

function searchLoop ::
  "QtText \<Rightarrow> (QString \<Rightarrow> QString \<Rightarrow> 'w AppContext \<Rightarrow> (OpenConnectionResult, 'w) Call) \<Rightarrow> RecursiveSearchOptions \<Rightarrow>
   'w AppContext \<Rightarrow> QString \<Rightarrow> PendingDirectory list \<Rightarrow> RecursiveSearchResult \<Rightarrow> 'w \<Rightarrow> RecursiveSearchResult Result \<times> 'w" where
  "searchLoop qt listDirectory opts ctx query [] result w = (succeeded result, w)"
| "searchLoop qt listDirectory opts ctx query (current # rest) result w =
     (let (cancelled, w) = cancellationRequested ctx w in
      if cancelled then (failedWith emptySearchResult searchCancelled, w)
      else
        let (listed, w) = listDirectory (rso_connectionId opts) (pdr_remotePath current) ctx w in
        if \<not> ok listed then (failedWith emptySearchResult (res_error listed), w)
        else
          let result = result\<lparr>rsr_scannedDirectories := rsr_scannedDirectories result + 1\<rparr>;
              w = reportProgress ctx \<lparr>tpr_bytesTransferred = rsr_scannedDirectories result,
                                      tpr_totalBytes = rso_maxResults opts\<rparr> w in
          case scanEntries qt opts ctx query (pdr_depth current) (ocr_entries (res_value listed)) result rest w of
            (Inl r, w) \<Rightarrow> (r, w)
          | (Inr (result, pending), w) \<Rightarrow> searchLoop qt listDirectory opts ctx query pending result w)"
  by pat_completeness auto

termination
  by (relation "inv_image (mult less_than) (\<lambda>(qt, listDirectory, opts, ctx, query, pending, result, w).
        levelsBelow (rso_maxDepth opts) pending)")
    (auto simp: wf_mult dest!: scanEntries_goes_on [OF sym] intro!: levelsBelow_decreases subdirectories_depth)

definition search ::
  "QtText \<Rightarrow> (QString \<Rightarrow> QString \<Rightarrow> 'w AppContext \<Rightarrow> (OpenConnectionResult, 'w) Call) \<Rightarrow> RecursiveSearchOptions \<Rightarrow>
   'w AppContext \<Rightarrow> (RecursiveSearchResult, 'w) Call" where
  "search qt listDirectory opts ctx w =
     (if trimmed qt (rso_connectionId opts) = []
      then (failedWith emptySearchResult (invalidOptionsError (latin1 ''Connection ID is required.'')), w)
      else if rso_maxDepth opts < 0 \<or> rso_maxResults opts \<le> 0
      then (failedWith emptySearchResult (invalidOptionsError (latin1 ''Depth and result limits must be positive.'')), w)
      else searchLoop qt listDirectory opts ctx (trimmed qt (rso_query opts))
             [\<lparr>pdr_remotePath = normalizeSearchPath qt (rso_startRemotePath opts), pdr_depth = 0\<rparr>] emptySearchResult w)"

text \<open>Induction over the rounds of the loop, with one case for each way a round ends.\<close>

abbreviation counted :: "RecursiveSearchResult \<Rightarrow> RecursiveSearchResult" where
  "counted result \<equiv> result\<lparr>rsr_scannedDirectories := rsr_scannedDirectories result + 1\<rparr>"

abbreviation searchProgress :: "RecursiveSearchOptions \<Rightarrow> RecursiveSearchResult \<Rightarrow> TransferProgress" where
  "searchProgress opts result \<equiv>
     \<lparr>tpr_bytesTransferred = rsr_scannedDirectories (counted result), tpr_totalBytes = rso_maxResults opts\<rparr>"

lemma searchLoop_induct [consumes 1, case_names finished cancelled failed stopped goes_on]:
  assumes "searchLoop qt listDirectory opts ctx query pending result w = out"
    and "\<And>result w. P [] result w (succeeded result, w)"
    and "\<And>current rest result w w1. cancellationRequested ctx w = (True, w1) \<Longrightarrow>
      P (current # rest) result w (failedWith emptySearchResult searchCancelled, w1)"
    and "\<And>current rest result w w1 listed w2. cancellationRequested ctx w = (False, w1) \<Longrightarrow>
      listDirectory (rso_connectionId opts) (pdr_remotePath current) ctx w1 = (listed, w2) \<Longrightarrow> \<not> ok listed \<Longrightarrow>
      P (current # rest) result w (failedWith emptySearchResult (res_error listed), w2)"
    and "\<And>current rest result w w1 listed w2 r w3. cancellationRequested ctx w = (False, w1) \<Longrightarrow>
      listDirectory (rso_connectionId opts) (pdr_remotePath current) ctx w1 = (listed, w2) \<Longrightarrow> ok listed \<Longrightarrow>
      scanEntries qt opts ctx query (pdr_depth current) (ocr_entries (res_value listed)) (counted result) rest
        (reportProgress ctx (searchProgress opts result) w2) = (Inl r, w3) \<Longrightarrow>
      P (current # rest) result w (r, w3)"
    and "\<And>current rest result w w1 listed w2 result' pending' w3. cancellationRequested ctx w = (False, w1) \<Longrightarrow>
      listDirectory (rso_connectionId opts) (pdr_remotePath current) ctx w1 = (listed, w2) \<Longrightarrow> ok listed \<Longrightarrow>
      scanEntries qt opts ctx query (pdr_depth current) (ocr_entries (res_value listed)) (counted result) rest
        (reportProgress ctx (searchProgress opts result) w2) = (Inr (result', pending'), w3) \<Longrightarrow>
      P pending' result' w3 out \<Longrightarrow> P (current # rest) result w out"
  shows "P pending result w out"
  using assms
proof (induction qt listDirectory opts ctx query pending result w rule: searchLoop.induct)
  case (1 qt listDirectory opts ctx query result w)
  then have "out = (succeeded result, w)" by simp
  then show ?case using 1(2) by simp
next
  case (2 qt listDirectory opts ctx query current rest result w)
  note run = 2(2) and ways = 2(3-7)
  obtain c w1 where c: "cancellationRequested ctx w = (c, w1)" by force
  obtain listed w2 where l: "listDirectory (rso_connectionId opts) (pdr_remotePath current) ctx w1 = (listed, w2)" by force
  obtain r w3 where r: "scanEntries qt opts ctx query (pdr_depth current) (ocr_entries (res_value listed)) (counted result) rest
      (reportProgress ctx (searchProgress opts result) w2) = (r, w3)" by force
  show ?case
  proof (cases "c \<or> \<not> ok listed")
    case True
    then show ?thesis using run c l ways(2,3) by (cases c) (auto simp: Let_def)
  next
    case False
    show ?thesis
    proof (cases r)
      case (Inl a)
      then show ?thesis using run False c l r ways(4) by (auto simp: Let_def)
    next
      case (Inr p)
      then obtain result' pending' where p: "r = Inr (result', pending')" by (cases p) simp
      have "P pending' result' w3 out"
        by (rule 2(1)) (use run False c l r p ways in \<open>auto simp: Let_def\<close>)
      then show ?thesis using False c l r p ways(5) by auto
    qed
  qed
qed

section \<open>Bounds\<close>

definition withinLimits :: "QtText \<Rightarrow> RecursiveSearchOptions \<Rightarrow> QString \<Rightarrow> RecursiveSearchResult \<Rightarrow> bool" where
  "withinLimits qt opts query r \<longleftrightarrow> (\<forall>e\<in>set (rsr_entries r). shouldInclude qt opts query e)
     \<and> \<not> rsr_limitReached r \<and> int (length (rsr_entries r)) < rso_maxResults opts"

definition searchOutcome :: "QtText \<Rightarrow> RecursiveSearchOptions \<Rightarrow> QString \<Rightarrow> RecursiveSearchResult \<Rightarrow> bool" where
  "searchOutcome qt opts query r \<longleftrightarrow> (\<forall>e\<in>set (rsr_entries r). shouldInclude qt opts query e)
     \<and> int (length (rsr_entries r)) \<le> rso_maxResults opts
     \<and> (rsr_limitReached r \<longleftrightarrow> int (length (rsr_entries r)) = rso_maxResults opts)"

lemma withinLimits_outcome: "withinLimits qt opts query r \<Longrightarrow> searchOutcome qt opts query r"
  by (auto simp: withinLimits_def searchOutcome_def)

lemma scanEntries_limits:
  "scanEntries qt opts ctx query depth entries result pending w = (Inr (result', pending'), w') \<Longrightarrow>
   withinLimits qt opts query result \<Longrightarrow> withinLimits qt opts query result'"
  "scanEntries qt opts ctx query depth entries result pending w = (Inl r, w') \<Longrightarrow>
   withinLimits qt opts query result \<Longrightarrow> ok r \<Longrightarrow> searchOutcome qt opts query (res_value r)"
proof (induction entries arbitrary: result pending w)
  case (Cons entry entries)
  {
    case 1
    then show ?case
      by (auto simp: Let_def split: prod.splits if_split_asm elim!: Cons.IH(1)) (auto simp: withinLimits_def)
  next
    case 2
    then show ?case
      by (auto simp: Let_def searchCancelled_def split: prod.splits if_split_asm elim!: Cons.IH(2))
        (auto simp: withinLimits_def searchOutcome_def)
  }
qed simp_all

lemma searchLoop_outcome:
  "searchLoop qt listDirectory opts ctx query pending result w = out \<Longrightarrow> withinLimits qt opts query result \<Longrightarrow>
   ok (fst out) \<Longrightarrow> searchOutcome qt opts query (res_value (fst out))"
proof (induction rule: searchLoop_induct)
  case (stopped current rest result w w1 listed w2 r w3)
  then have "withinLimits qt opts query (counted result)" by (simp add: withinLimits_def)
  then show ?case using stopped scanEntries_limits(2) [OF stopped(4)] by simp
next
  case (goes_on current rest result w w1 listed w2 result' pending' w3)
  then have "withinLimits qt opts query (counted result)" by (simp add: withinLimits_def)
  then show ?case using goes_on scanEntries_limits(1) [OF goes_on(4)] by simp
qed (auto simp: withinLimits_outcome searchCancelled_def)

text \<open>C30: whatever the server lists, a search that succeeds returns entries that match the query and the
  kind asked for, never more than the limit, and says that the limit was reached precisely when it
  returns as many as that.\<close>

theorem search_outcome:
  assumes "ok (fst (search qt listDirectory opts ctx w))"
  shows "searchOutcome qt opts (trimmed qt (rso_query opts)) (res_value (fst (search qt listDirectory opts ctx w)))"
proof -
  have "withinLimits qt opts query emptySearchResult" if "\<not> rso_maxResults opts \<le> 0" for query
    using that by (simp add: withinLimits_def emptySearchResult_def)
  then show ?thesis
    using assms by (auto simp: search_def invalidOptionsError_def simp del: searchLoop.simps intro: searchLoop_outcome [OF refl]
        split: if_split_asm)
qed

text \<open>The number of directories in a tree with \<open>b\<close> of them in each and \<open>n\<close> levels below the first.\<close>

fun treeSize :: "nat \<Rightarrow> nat \<Rightarrow> nat" where
  "treeSize b 0 = 1"
| "treeSize b (Suc n) = 1 + b * treeSize b n"

lemma treeSize_is_sum: "treeSize b n = (\<Sum>i\<le>n. b ^ i)"
  by (induction n) (simp_all only: treeSize.simps sum.atMost_Suc_shift sum_distrib_left power.simps, simp)

definition workBelow :: "nat \<Rightarrow> int \<Rightarrow> PendingDirectory list \<Rightarrow> nat" where
  "workBelow b maxDepth pending = (\<Sum>p\<leftarrow>pending. treeSize b (nat (maxDepth - pdr_depth p)))"

lemma workBelow_new:
  assumes "\<forall>p\<in>set new. pdr_depth p = pdr_depth current + 1 \<and> pdr_depth current < maxDepth" "length new \<le> b"
  shows "1 + workBelow b maxDepth (rest @ new) \<le> workBelow b maxDepth (current # rest)"
proof (cases "new = []")
  case True
  then show ?thesis by (cases "nat (maxDepth - pdr_depth current)") (auto simp: workBelow_def)
next
  case False
  then have deeper: "pdr_depth current < maxDepth" using assms(1) by (cases new) auto
  then obtain n where n: "nat (maxDepth - pdr_depth current) = Suc n" "nat (maxDepth - (pdr_depth current + 1)) = n"
    by (cases "nat (maxDepth - pdr_depth current)") auto
  have "workBelow b maxDepth new = (\<Sum>p\<leftarrow>new. treeSize b n)"
    unfolding workBelow_def using assms(1) n by (intro arg_cong [where f = sum_list] map_cong) auto
  also have "\<dots> \<le> b * treeSize b n" using assms(2) by (simp add: sum_list_triv)
  finally show ?thesis using n by (simp add: workBelow_def)
qed

text \<open>A quantity of the outside world that only listing a directory can raise, by one.\<close>

definition countsListings ::
  "('w \<Rightarrow> nat) \<Rightarrow> nat \<Rightarrow> 'w AppContext \<Rightarrow> (QString \<Rightarrow> QString \<Rightarrow> 'w AppContext \<Rightarrow> (OpenConnectionResult, 'w) Call) \<Rightarrow> bool" where
  "countsListings calls b ctx listDirectory \<longleftrightarrow>
     (\<forall>w. calls (snd (cancellationRequested ctx w)) \<le> calls w) \<and> (\<forall>p w. calls (reportProgress ctx p w) \<le> calls w)
     \<and> (\<forall>i p w. calls (snd (listDirectory i p ctx w)) \<le> calls w + 1
          \<and> length (ocr_entries (res_value (fst (listDirectory i p ctx w)))) \<le> b)"

lemma scanEntries_calls:
  assumes "\<And>w. calls (snd (cancellationRequested ctx w)) \<le> (calls w :: nat)"
  shows "calls (snd (scanEntries qt opts ctx query depth entries result pending w)) \<le> calls w"
proof (induction entries arbitrary: result pending w)
  case (Cons entry entries)
  obtain c w1 where c: "cancellationRequested ctx w = (c, w1)" by force
  then have "calls w1 \<le> calls w" using assms [of w] by simp
  then show ?case using c Cons.IH [of _ _ w1] by (auto simp: Let_def intro: order_trans)
qed simp

lemma countsListings_dests:
  assumes "countsListings calls b ctx listDirectory"
  shows "cancellationRequested ctx w = (c, w1) \<Longrightarrow> calls w1 \<le> calls w" "calls (reportProgress ctx p w) \<le> calls w"
    "listDirectory i path ctx w = (listed, w1) \<Longrightarrow> calls w1 \<le> calls w + 1 \<and> length (ocr_entries (res_value listed)) \<le> b"
  using assms by (metis countsListings_def fst_conv snd_conv)+

lemma round_calls:
  assumes count: "countsListings calls b ctx listDirectory" and "cancellationRequested ctx w = (c, w1)"
    "listDirectory i path ctx w1 = (listed, w2)"
    "scanEntries qt opts ctx query depth entries result pending (reportProgress ctx p w2) = (r, w3)"
  shows "calls w3 \<le> calls w + 1"
proof -
  have "calls w3 \<le> calls (reportProgress ctx p w2)"
    using scanEntries_calls [of calls ctx qt opts query depth entries result pending "reportProgress ctx p w2"] assms(4) count
    by (simp add: countsListings_def)
  then show ?thesis
    using countsListings_dests(1) [OF count assms(2)] countsListings_dests(3) [OF count assms(3)]
      countsListings_dests(2) [OF count, of p w2] by simp
qed

lemma workBelow_Cons: "1 \<le> workBelow b maxDepth (p # ps)"
  by (cases "nat (maxDepth - pdr_depth p)") (simp_all add: workBelow_def)

lemma searchLoop_calls:
  assumes count: "countsListings calls b ctx listDirectory"
  shows "searchLoop qt listDirectory opts ctx query pending result w = out \<Longrightarrow>
    calls (snd out) \<le> calls w + workBelow b (rso_maxDepth opts) pending"
proof (induction rule: searchLoop_induct)
  case (cancelled current rest result w w1)
  then show ?case using countsListings_dests(1) [OF count] by (fastforce intro: trans_le_add1)
next
  case (failed current rest result w w1 listed w2)
  then show ?case
    using countsListings_dests(1) [OF count failed(1)] countsListings_dests(3) [OF count failed(2)]
      workBelow_Cons [of b "rso_maxDepth opts" current rest] by simp
next
  case (stopped current rest result w w1 listed w2 r w3)
  have "calls w3 \<le> calls w + 1" by (rule round_calls [OF count stopped(1,2,4)])
  then show ?case using workBelow_Cons [of b "rso_maxDepth opts" current rest] by simp
next
  case (goes_on current rest result w w1 listed w2 result' pending' w3)
  have "calls w3 \<le> calls w + 1" by (rule round_calls [OF count goes_on(1,2,4)])
  moreover have "length (subdirectories qt opts (pdr_depth current) (ocr_entries (res_value listed))) \<le> b"
    using countsListings_dests(3) [OF count goes_on(2)] subdirectories_simps(3) order_trans by blast
  ultimately show ?case
    using goes_on(5) workBelow_new [of "subdirectories qt opts (pdr_depth current) (ocr_entries (res_value listed))" current
        "rso_maxDepth opts" b rest] scanEntries_goes_on [OF goes_on(4)] subdirectories_depth
    by simp
qed simp

text \<open>C29: a search ends, with a result, in every tree, also in one without end: when no directory lists
  more than \<open>b\<close> entries, it lists at most as many directories as a tree of that width and of the depth
  of the options has.\<close>

theorem search_terminates:
  assumes "countsListings calls b ctx listDirectory"
  shows "calls (snd (search qt listDirectory opts ctx w)) \<le> calls w + (\<Sum>i\<le>nat (rso_maxDepth opts). b ^ i)"
proof -
  have "workBelow b (rso_maxDepth opts) [\<lparr>pdr_remotePath = p, pdr_depth = 0\<rparr>] = (\<Sum>i\<le>nat (rso_maxDepth opts). b ^ i)" for p
    by (simp add: workBelow_def treeSize_is_sum)
  then show ?thesis
    using searchLoop_calls [OF assms refl, of qt opts] by (simp add: search_def del: searchLoop.simps) (metis)
qed

text \<open>A tree without end: every directory lists itself. The world counts the listings.\<close>

definition endlessOptions :: RecursiveSearchOptions where
  "endlessOptions = \<lparr>rso_connectionId = [99], rso_startRemotePath = [slash], rso_query = [], rso_maxDepth = 3,
     rso_maxResults = 1000, rso_includeDirectories = True\<rparr>"

definition endlessEntry :: RemoteFileEntry where
  "endlessEntry = \<lparr>rfe_name = [100], rfe_remotePath = [slash, 100], rfe_type = TypeDirectory, rfe_size = 0,
     rfe_modifiedAt = None, rfe_attributes = [], rfe_permissions = [], rfe_isHidden = False\<rparr>"

definition endlessTree :: "QString \<Rightarrow> QString \<Rightarrow> nat AppContext \<Rightarrow> (OpenConnectionResult, nat) Call" where
  "endlessTree i path ctx w = (succeeded (emptyOpenResult\<lparr>ocr_entries := [endlessEntry, endlessEntry]\<rparr>), w + 1)"

definition quietContext :: "'w AppContext" where
  "quietContext = \<lparr>apc_cancelled = None, apc_progress = None\<rparr>"

theorem search_terminates_witness:
  "snd (search asciiText endlessTree endlessOptions quietContext 0) \<le> (15 :: nat)"
  using search_terminates [of "\<lambda>w. w" 2 quietContext endlessTree asciiText endlessOptions 0]
  by (simp add: countsListings_def endlessTree_def quietContext_def cancellationRequested_def reportProgress_def endlessOptions_def
      eval_nat_numeral)

lemma endless_search_ok: "ok (fst (search asciiText endlessTree endlessOptions quietContext 0))"
  by code_simp

theorem search_outcome_witness:
  "searchOutcome asciiText endlessOptions [] (res_value (fst (search asciiText endlessTree endlessOptions quietContext 0)))"
  using search_outcome [OF endless_search_ok] by (simp add: endlessOptions_def asciiText_def trimmed_def)

section \<open>The order of the results\<close>

text \<open>The entries below some directories, level by level.\<close>

fun levelOrder :: "QtText \<Rightarrow> (QString \<Rightarrow> RemoteFileEntry list) \<Rightarrow> nat \<Rightarrow> QString list \<Rightarrow> RemoteFileEntry list" where
  "levelOrder qt tree 0 paths = concat (map tree paths)"
| "levelOrder qt tree (Suc n) paths = concat (map tree paths) @
     levelOrder qt tree n (map (\<lambda>e. normalizeSearchPath qt (rfe_remotePath e)) (filter isDirectory (concat (map tree paths))))"

function queueOrder :: "QtText \<Rightarrow> RecursiveSearchOptions \<Rightarrow> (QString \<Rightarrow> RemoteFileEntry list) \<Rightarrow> PendingDirectory list \<Rightarrow> RemoteFileEntry list" where
  "queueOrder qt opts tree [] = []"
| "queueOrder qt opts tree (current # rest) = tree (pdr_remotePath current) @
     queueOrder qt opts tree (rest @ subdirectories qt opts (pdr_depth current) (tree (pdr_remotePath current)))"
  by pat_completeness auto

termination
  by (relation "inv_image (mult less_than) (\<lambda>(qt, opts, tree, pending). levelsBelow (rso_maxDepth opts) pending)")
    (auto simp: wf_mult intro!: levelsBelow_decreases subdirectories_depth)

definition answers ::
  "(QString \<Rightarrow> RemoteFileEntry list) \<Rightarrow> RecursiveSearchOptions \<Rightarrow> 'w AppContext \<Rightarrow>
   (QString \<Rightarrow> QString \<Rightarrow> 'w AppContext \<Rightarrow> (OpenConnectionResult, 'w) Call) \<Rightarrow> bool" where
  "answers tree opts ctx listDirectory \<longleftrightarrow> (\<forall>w. \<not> fst (cancellationRequested ctx w))
     \<and> (\<forall>path w. ok (fst (listDirectory (rso_connectionId opts) path ctx w))
          \<and> ocr_entries (res_value (fst (listDirectory (rso_connectionId opts) path ctx w))) = tree path)"

text \<open>The end of the inner loop, when \<open>found\<close> is everything the directory could add to.\<close>

definition scanned ::
  "int \<Rightarrow> RemoteFileEntry list \<Rightarrow> RecursiveSearchResult Result + RecursiveSearchResult \<times> PendingDirectory list \<Rightarrow> bool" where
  "scanned limit found out = (case out of
     Inl r \<Rightarrow> limit \<le> int (length found) \<and> ok r \<and> rsr_entries (res_value r) = take (nat limit) found
   | Inr (result, pending) \<Rightarrow> int (length found) < limit \<and> rsr_entries result = found)"

lemma scanEntries_uncancelled:
  assumes "\<And>w. \<not> fst (cancellationRequested ctx w)"
  shows "int (length (rsr_entries result)) < rso_maxResults opts \<Longrightarrow>
    scanned (rso_maxResults opts) (rsr_entries result @ filter (shouldInclude qt opts query) entries)
      (fst (scanEntries qt opts ctx query depth entries result pending w))"
proof (induction entries arbitrary: result pending w)
  case (Cons entry entries)
  obtain w1 where c: "cancellationRequested ctx w = (False, w1)" using assms [of w] by (metis surjective_pairing)
  show ?case
  proof (cases "shouldInclude qt opts query entry")
    case False
    then show ?thesis using Cons by (simp add: c Let_def)
  next
    case True
    define result1 where "result1 = result\<lparr>rsr_entries := rsr_entries result @ [entry]\<rparr>"
    have entries1: "rsr_entries result1 = rsr_entries result @ [entry]" by (simp add: result1_def)
    show ?thesis
    proof (cases "rso_maxResults opts \<le> int (length (rsr_entries result1))")
      case full: True
      then have "nat (rso_maxResults opts) = length (rsr_entries result1)" using Cons.prems entries1 by simp
      then have "take (nat (rso_maxResults opts)) (rsr_entries result1 @ filter (shouldInclude qt opts query) entries) = rsr_entries result1"
        by simp
      then show ?thesis using True full by (simp add: c Let_def scanned_def entries1 flip: result1_def)
    next
      case False
      then show ?thesis
        using True Cons.IH [of result1] by (simp add: c Let_def entries1 flip: result1_def)
    qed
  qed
qed (simp add: scanned_def)

lemma searchLoop_order:
  assumes "answers tree opts ctx listDirectory"
  shows "searchLoop qt listDirectory opts ctx query pending result w = out \<Longrightarrow>
    int (length (rsr_entries result)) < rso_maxResults opts \<Longrightarrow> ok (fst out) \<and> rsr_entries (res_value (fst out)) =
      take (nat (rso_maxResults opts)) (rsr_entries result @ filter (shouldInclude qt opts query) (queueOrder qt opts tree pending))"
proof (induction rule: searchLoop_induct)
  case (cancelled current rest result w w1)
  then show ?case using assms by (metis answers_def fst_conv)
next
  case (failed current rest result w w1 listed w2)
  then show ?case using assms by (metis answers_def fst_conv)
next
  case (stopped current rest result w w1 listed w2 r w3)
  have tree: "ocr_entries (res_value listed) = tree (pdr_remotePath current)"
    using assms stopped(2) by (metis answers_def fst_conv)
  have "scanned (rso_maxResults opts) (rsr_entries result @ filter (shouldInclude qt opts query) (tree (pdr_remotePath current))) (Inl r)"
    using scanEntries_uncancelled [of ctx "counted result" opts qt query "tree (pdr_remotePath current)" "pdr_depth current" rest]
      stopped assms tree by (simp add: answers_def) (metis fst_conv)
  then show ?case by (simp add: scanned_def nat_le_iff)
next
  case (goes_on current rest result w w1 listed w2 result' pending' w3)
  have tree: "ocr_entries (res_value listed) = tree (pdr_remotePath current)"
    using assms goes_on(2) by (metis answers_def fst_conv)
  have "scanned (rso_maxResults opts) (rsr_entries result @ filter (shouldInclude qt opts query) (tree (pdr_remotePath current)))
      (Inr (result', pending'))"
    using scanEntries_uncancelled [of ctx "counted result" opts qt query "tree (pdr_remotePath current)" "pdr_depth current" rest]
      goes_on assms tree by (simp add: answers_def) (metis fst_conv)
  then show ?case using goes_on(5) scanEntries_goes_on [OF goes_on(4)] tree by (simp add: scanned_def)
qed simp

abbreviation atDepth :: "int \<Rightarrow> QString \<Rightarrow> PendingDirectory" where
  "atDepth d path \<equiv> \<lparr>pdr_remotePath = path, pdr_depth = d\<rparr>"

lemma queueOrder_last:
  "\<not> d < rso_maxDepth opts \<Longrightarrow> queueOrder qt opts tree (map (atDepth d) paths) = concat (map tree paths)"
  by (induction paths) (simp_all add: subdirectories_def)

lemma queueOrder_level:
  "d < rso_maxDepth opts \<Longrightarrow> queueOrder qt opts tree (map (atDepth d) paths @ map (atDepth (d + 1)) deeper) =
     concat (map tree paths) @ queueOrder qt opts tree (map (atDepth (d + 1))
       (deeper @ map (\<lambda>e. normalizeSearchPath qt (rfe_remotePath e)) (filter isDirectory (concat (map tree paths)))))"
proof (induction paths arbitrary: deeper)
  case (Cons path paths)
  then show ?case
    using Cons.IH [of "deeper @ map (\<lambda>e. normalizeSearchPath qt (rfe_remotePath e)) (filter isDirectory (tree path))"]
    by (simp add: subdirectories_def comp_def)
qed simp

lemma queueOrder_levelOrder:
  "nat (rso_maxDepth opts - d) = n \<Longrightarrow> d \<le> rso_maxDepth opts \<Longrightarrow>
   queueOrder qt opts tree (map (atDepth d) paths) = levelOrder qt tree n paths"
proof (induction n arbitrary: d paths)
  case 0
  then show ?case by (simp add: queueOrder_last)
next
  case (Suc n)
  then have "d < rso_maxDepth opts" by simp
  then show ?case using queueOrder_level [of d opts qt tree paths "[]"] Suc by (simp del: map_map)
qed

text \<open>C28: when the tree stands still and no one cancels, the result is the beginning, as long as the limit
  allows, of the matching entries in the order of the levels of the tree: first those of the start
  directory, then those of its subdirectories, down to the depth asked for.\<close>

theorem search_is_level_order:
  assumes "answers tree opts ctx listDirectory" "trimmed qt (rso_connectionId opts) \<noteq> []"
    and "0 \<le> rso_maxDepth opts" "0 < rso_maxResults opts"
  shows "ok (fst (search qt listDirectory opts ctx w)) \<and> rsr_entries (res_value (fst (search qt listDirectory opts ctx w))) =
    take (nat (rso_maxResults opts)) (filter (shouldInclude qt opts (trimmed qt (rso_query opts)))
      (levelOrder qt tree (nat (rso_maxDepth opts)) [normalizeSearchPath qt (rso_startRemotePath opts)]))"
  using searchLoop_order [OF assms(1) refl, of emptySearchResult qt "trimmed qt (rso_query opts)"
      "[atDepth 0 (normalizeSearchPath qt (rso_startRemotePath opts))]" w]
    queueOrder_levelOrder [of opts 0 "nat (rso_maxDepth opts)" qt tree "[normalizeSearchPath qt (rso_startRemotePath opts)]"] assms
  by (simp add: search_def emptySearchResult_def del: searchLoop.simps queueOrder.simps)

lemma endless_answers: "answers (\<lambda>_. [endlessEntry, endlessEntry]) endlessOptions quietContext endlessTree"
  by (simp add: answers_def endlessTree_def quietContext_def cancellationRequested_def)

lemma endless_options:
  "trimmed asciiText (rso_connectionId endlessOptions) \<noteq> []" "0 \<le> rso_maxDepth endlessOptions" "0 < rso_maxResults endlessOptions"
  "length (take (nat (rso_maxResults endlessOptions)) (filter (shouldInclude asciiText endlessOptions (trimmed asciiText (rso_query endlessOptions)))
     (levelOrder asciiText (\<lambda>_. [endlessEntry, endlessEntry]) (nat (rso_maxDepth endlessOptions))
       [normalizeSearchPath asciiText (rso_startRemotePath endlessOptions)]))) = 30"
  by code_simp+

theorem search_is_level_order_witness:
  "length (rsr_entries (res_value (fst (search asciiText endlessTree endlessOptions quietContext 0)))) = 30"
  using search_is_level_order [OF endless_answers endless_options(1-3), of 0] endless_options(4) by metis

end
