(* ===== verification/OperationQueue.thy ===== *)
theory OperationQueue
  imports SmbClients
begin

text \<open>
  The queue of background operations (\<open>src/src/application/OperationQueue.cpp\<close>). Its methods run in
  several threads: a caller enqueues and cancels, and the pool runs one runnable per operation. The
  model has a step for every section under the mutex and for every read of an atomic token, so its
  runs are the interleavings of these; \<open>Phase\<close> is the program counter of an operation, first in
  \<open>enqueue\<close> and then in its runnable. The pool of Qt is a queue of waiting runnables and the list of
  those that have a thread; what an operation does is the choice of the environment.
\<close>

section \<open>Data\<close>

datatype OperationState = OpQueued | OpRunning | OpCompleted | OpFailed | OpCancelled

fun operationStateToString :: "OperationState \<Rightarrow> QString" where
  "operationStateToString OpQueued = latin1 ''queued''"
| "operationStateToString OpRunning = latin1 ''running''"
| "operationStateToString OpCompleted = latin1 ''completed''"
| "operationStateToString OpFailed = latin1 ''failed''"
| "operationStateToString OpCancelled = latin1 ''cancelled''"

record OperationData =
  opd_id :: QString
  opd_name :: QString
  opd_state :: OperationState
  opd_progress :: TransferProgress
  opd_error :: AppError
  opd_cancelled :: bool

record OperationSnapshot =
  ops_id :: QString
  ops_name :: QString
  ops_state :: OperationState
  ops_progress :: TransferProgress
  ops_error :: AppError

definition noProgress :: TransferProgress where
  "noProgress = \<lparr>tpr_bytesTransferred = 0, tpr_totalBytes = 0\<rparr>"

definition cancelledError :: AppError where
  "cancelledError = fromCode AeOperationCancelled CatGeneral (latin1 ''Operation cancelled.'') False"

definition emptyCallbackError :: AppError where
  "emptyCallbackError = fromCode AeUnknown CatGeneral (latin1 ''Operation callback is empty.'') False"

text \<open>Where an operation is. \<open>Posting p\<close> is in \<open>postChanged\<close> and goes on with \<open>p\<close>; \<open>Ending s e\<close> is about to
  write the last state.\<close>

datatype Phase = Inserted | Announced | Waiting | Started | Ready | Posting Phase | Calling
  | Returned "bool Result" | Ending OperationState AppError | Finished

record Run =
  run_phase :: Phase
  run_empty :: bool

record OperationQueue =
  oq_operations :: "QString \<Rightarrow> OperationData option"
  oq_runs :: "QString \<Rightarrow> Run option"
  oq_waiting :: "QString list"
  oq_active :: "QString list"
  oq_maxThreads :: int
  oq_posted :: "OperationSnapshot list"

definition newQueue :: "int \<Rightarrow> OperationQueue" where
  "newQueue maxConcurrentOperations = \<lparr>oq_operations = (\<lambda>_. None), oq_runs = (\<lambda>_. None), oq_waiting = [], oq_active = [],
     oq_maxThreads = max 1 maxConcurrentOperations, oq_posted = []\<rparr>"

section \<open>Sections under the mutex\<close>

definition snapshotOf :: "OperationData \<Rightarrow> OperationSnapshot" where
  "snapshotOf d = \<lparr>ops_id = opd_id d, ops_name = opd_name d, ops_state = opd_state d, ops_progress = opd_progress d,
     ops_error = opd_error d\<rparr>"

definition snapshot :: "QString \<Rightarrow> OperationQueue \<Rightarrow> OperationSnapshot" where
  "snapshot i q = (case oq_operations q i of
     None \<Rightarrow> \<lparr>ops_id = [], ops_name = [], ops_state = OpQueued, ops_progress = noProgress, ops_error = noError\<rparr>
   | Some d \<Rightarrow> snapshotOf d)"

definition postChanged :: "QString \<Rightarrow> OperationQueue \<Rightarrow> OperationQueue" where
  "postChanged i q = q\<lparr>oq_posted := oq_posted q @ [snapshot i q]\<rparr>"

definition enter :: "QString \<Rightarrow> Phase \<Rightarrow> OperationQueue \<Rightarrow> OperationQueue" where
  "enter i phase q = q\<lparr>oq_runs := (oq_runs q)(i := map_option (run_phase_update (\<lambda>_. phase)) (oq_runs q i))\<rparr>"

text \<open>\<open>setState\<close> and \<open>setProgress\<close> up to the end of the locked section; \<open>next\<close> follows \<open>postChanged\<close>.\<close>

definition setState :: "QString \<Rightarrow> OperationState \<Rightarrow> AppError \<Rightarrow> Phase \<Rightarrow> OperationQueue \<Rightarrow> OperationQueue" where
  "setState i state error following q = (case oq_operations q i of
     None \<Rightarrow> enter i following q
   | Some d \<Rightarrow> enter i (Posting following)
       (q\<lparr>oq_operations := (oq_operations q)(i \<mapsto> d\<lparr>opd_state := state, opd_error := error\<rparr>)\<rparr>))"

definition setProgress :: "QString \<Rightarrow> TransferProgress \<Rightarrow> Phase \<Rightarrow> OperationQueue \<Rightarrow> OperationQueue" where
  "setProgress i progress following q = (case oq_operations q i of
     None \<Rightarrow> enter i following q
   | Some d \<Rightarrow> enter i (Posting following)
       (q\<lparr>oq_operations := (oq_operations q)(i \<mapsto> d\<lparr>opd_progress := progress\<rparr>)\<rparr>))"

definition insertOperation :: "QString \<Rightarrow> QString \<Rightarrow> bool \<Rightarrow> OperationQueue \<Rightarrow> OperationQueue" where
  "insertOperation i name emptyCallback q =
     q\<lparr>oq_operations := (oq_operations q)(i \<mapsto> \<lparr>opd_id = i, opd_name = name, opd_state = OpQueued, opd_progress = noProgress,
         opd_error = noError, opd_cancelled = False\<rparr>),
       oq_runs := (oq_runs q)(i \<mapsto> \<lparr>run_phase = Inserted, run_empty = emptyCallback\<rparr>)\<rparr>"

definition cancelOperation :: "QString \<Rightarrow> OperationQueue \<Rightarrow> bool \<times> OperationQueue" where
  "cancelOperation i q = (case oq_operations q i of
     None \<Rightarrow> (False, q)
   | Some d \<Rightarrow> (True, q\<lparr>oq_operations := (oq_operations q)(i \<mapsto> d\<lparr>opd_cancelled := True\<rparr>)\<rparr>))"

text \<open>The destructor cancels all and then waits for the pool.\<close>

definition cancelAll :: "OperationQueue \<Rightarrow> OperationQueue" where
  "cancelAll q = q\<lparr>oq_operations := (\<lambda>i. map_option (opd_cancelled_update (\<lambda>_. True)) (oq_operations q i))\<rparr>"

definition tokenCancelled :: "QString \<Rightarrow> OperationQueue \<Rightarrow> bool" where
  "tokenCancelled i q = (case oq_operations q i of None \<Rightarrow> False | Some d \<Rightarrow> opd_cancelled d)"

section \<open>The runnable\<close>

definition firstChecks :: "bool \<Rightarrow> bool \<Rightarrow> Phase" where
  "firstChecks emptyCallback cancelled =
     (if emptyCallback then Ending OpFailed emptyCallbackError
      else if cancelled then Ending OpCancelled cancelledError
      else Ready)"

definition verdict :: "bool \<Rightarrow> bool Result \<Rightarrow> Phase" where
  "verdict cancelled result =
     (if cancelled \<or> \<not> ok result \<and> ae_code (res_error result) = AeOperationCancelled
      then Ending OpCancelled (if ok result then cancelledError else res_error result)
      else if ok result then Ending OpCompleted noError
      else Ending OpFailed (res_error result))"

text \<open>What the environment chooses while an operation runs: to go on, to report progress, or to return.\<close>

datatype Choice = Proceed | Report TransferProgress | Return "bool Result"

definition takeThread :: "QString \<Rightarrow> OperationQueue \<Rightarrow> OperationQueue option" where
  "takeThread i q = (case oq_waiting q of
     [] \<Rightarrow> None
   | first # rest \<Rightarrow>
       if first = i \<and> int (length (oq_active q)) < oq_maxThreads q
       then Some (enter i Started (q\<lparr>oq_waiting := rest, oq_active := i # oq_active q\<rparr>)) else None)"

definition advance :: "Choice \<Rightarrow> QString \<Rightarrow> OperationQueue \<Rightarrow> OperationQueue option" where
  "advance choice i q = (case oq_runs q i of
     None \<Rightarrow> None
   | Some run \<Rightarrow> (case run_phase run of
       Inserted \<Rightarrow> Some (enter i Announced (postChanged i q))
     | Announced \<Rightarrow> Some (enter i Waiting (q\<lparr>oq_waiting := oq_waiting q @ [i]\<rparr>))
     | Waiting \<Rightarrow> takeThread i q
     | Started \<Rightarrow> Some (enter i (firstChecks (run_empty run) (tokenCancelled i q)) q)
     | Ready \<Rightarrow> Some (setState i OpRunning noError Calling q)
     | Posting following \<Rightarrow> Some (enter i following (postChanged i q))
     | Calling \<Rightarrow> (case choice of
         Proceed \<Rightarrow> None
       | Report p \<Rightarrow> Some (setProgress i p Calling q)
       | Return r \<Rightarrow> Some (enter i (Returned r) q))
     | Returned r \<Rightarrow> Some (enter i (verdict (tokenCancelled i q) r) q)
     | Ending state error \<Rightarrow> Some (setState i state error Finished q)
     | Finished \<Rightarrow> if i \<in> set (oq_active q) then Some (q\<lparr>oq_active := remove1 i (oq_active q)\<rparr>) else None))"

inductive queueStep :: "OperationQueue \<Rightarrow> OperationQueue \<Rightarrow> bool" where
  enqueued: "oq_operations q i = None \<Longrightarrow> queueStep q (insertOperation i name emptyCallback q)"
| advanced: "advance choice i q = Some q' \<Longrightarrow> queueStep q q'"
| cancelled: "queueStep q (snd (cancelOperation i q))"
| destroyed: "queueStep q (cancelAll q)"

inductive reachable :: "OperationQueue \<Rightarrow> bool" where
  created: "reachable (newQueue n)"
| stepped: "reachable q \<Longrightarrow> queueStep q q' \<Longrightarrow> reachable q'"

text \<open>A run of the queue, as a list of whose turn it is and what the environment chooses.\<close>

fun drive :: "(Choice \<times> QString) list \<Rightarrow> OperationQueue \<Rightarrow> OperationQueue option" where
  "drive [] q = Some q"
| "drive ((choice, i) # turns) q = (case advance choice i q of None \<Rightarrow> None | Some q' \<Rightarrow> drive turns q')"

lemma drive_steps: "drive turns q = Some q' \<Longrightarrow> queueStep\<^sup>*\<^sup>* q q'"
proof (induction turns arbitrary: q)
  case (Cons turn turns)
  then obtain choice i q1 where "advance choice i q = Some q1" "drive turns q1 = Some q'"
    by (cases turn) (auto split: option.splits)
  then show ?case using Cons.IH advanced by (meson converse_rtranclp_into_rtranclp)
qed simp

text \<open>One operation, from its insertion to the end of its runnable.\<close>

definition oneQueued :: OperationQueue where
  "oneQueued = insertOperation [97] [] False (newQueue 1)"

definition wholeRun :: "(Choice \<times> QString) list" where
  "wholeRun = map (\<lambda>c. (c, [97])) (replicate 6 Proceed @ [Return (succeeded True)] @ replicate 3 Proceed)"

definition oneCompleted :: OperationQueue where
  "oneCompleted = the (drive wholeRun oneQueued)"

lemma oneQueued_reachable: "reachable oneQueued"
  unfolding oneQueued_def by (rule stepped [OF created enqueued]) (simp add: newQueue_def)

lemma oneCompleted_run: "oq_runs oneCompleted [97] = Some \<lparr>run_phase = Finished, run_empty = False\<rparr>"
  by code_simp

lemma wholeRun_runs: "drive wholeRun oneQueued \<noteq> None" by code_simp

lemma oneCompleted_reachable: "reachable oneCompleted"
proof -
  have "queueStep\<^sup>*\<^sup>* oneQueued oneCompleted"
    using wholeRun_runs by (auto simp: oneCompleted_def intro: drive_steps)
  then show ?thesis using oneQueued_reachable by (induction rule: rtranclp_induct) (auto intro: stepped)
qed

section \<open>One operation\<close>

text \<open>What a step is to one operation: its phase, whether its callback is empty, its data, and what is
  posted of it.\<close>

type_synonym View = "(Phase \<times> bool \<times> OperationData) option"

definition view :: "OperationQueue \<Rightarrow> QString \<Rightarrow> View" where
  "view q i = (case (oq_operations q i, oq_runs q i) of
     (Some d, Some run) \<Rightarrow> Some (run_phase run, run_empty run, d)
   | _ \<Rightarrow> None)"

definition postedFor :: "QString \<Rightarrow> OperationQueue \<Rightarrow> OperationSnapshot list" where
  "postedFor i q = filter (\<lambda>s. ops_id s = i) (oq_posted q)"

inductive viewStep :: "QString \<Rightarrow> View \<Rightarrow> OperationSnapshot list \<Rightarrow> View \<Rightarrow> bool" for i where
  unchanged: "viewStep i v [] v"
| inserted: "opd_id d = i \<Longrightarrow> opd_state d = OpQueued \<Longrightarrow> \<not> opd_cancelled d \<Longrightarrow> viewStep i None [] (Some (Inserted, e, d))"
| tokenSet: "viewStep i (Some (p, e, d)) [] (Some (p, e, d\<lparr>opd_cancelled := True\<rparr>))"
| announced: "viewStep i (Some (Inserted, e, d)) [snapshotOf d] (Some (Announced, e, d))"
| submitted: "viewStep i (Some (Announced, e, d)) [] (Some (Waiting, e, d))"
| taken: "viewStep i (Some (Waiting, e, d)) [] (Some (Started, e, d))"
| checked: "viewStep i (Some (Started, e, d)) [] (Some (firstChecks e (opd_cancelled d), e, d))"
| readied: "viewStep i (Some (Ready, e, d)) [] (Some (Posting Calling, e, d\<lparr>opd_state := OpRunning, opd_error := noError\<rparr>))"
| posted: "viewStep i (Some (Posting p, e, d)) [snapshotOf d] (Some (p, e, d))"
| reported: "viewStep i (Some (Calling, e, d)) [] (Some (Posting Calling, e, d\<lparr>opd_progress := progress\<rparr>))"
| returned: "viewStep i (Some (Calling, e, d)) [] (Some (Returned r, e, d))"
| judged: "viewStep i (Some (Returned r, e, d)) [] (Some (verdict (opd_cancelled d) r, e, d))"
| ended: "viewStep i (Some (Ending st er, e, d)) [] (Some (Posting Finished, e, d\<lparr>opd_state := st, opd_error := er\<rparr>))"

inductive_cases viewStepE: "viewStep i (Some v) posts v'"

text \<open>The parts of the queue after each section.\<close>

lemma enter_simps [simp]:
  "oq_operations (enter i p q) = oq_operations q" "oq_waiting (enter i p q) = oq_waiting q"
  "oq_active (enter i p q) = oq_active q" "oq_maxThreads (enter i p q) = oq_maxThreads q"
  "oq_posted (enter i p q) = oq_posted q"
  "oq_runs (enter i p q) j = (if j = i then map_option (run_phase_update (\<lambda>_. p)) (oq_runs q i) else oq_runs q j)"
  by (simp_all add: enter_def)

lemma postChanged_simps [simp]:
  "oq_operations (postChanged i q) = oq_operations q" "oq_runs (postChanged i q) = oq_runs q"
  "oq_waiting (postChanged i q) = oq_waiting q" "oq_active (postChanged i q) = oq_active q"
  "oq_maxThreads (postChanged i q) = oq_maxThreads q" "oq_posted (postChanged i q) = oq_posted q @ [snapshot i q]"
  by (simp_all add: postChanged_def)

lemma written_simps [simp]:
  "oq_waiting (setState i s e p q) = oq_waiting q" "oq_active (setState i s e p q) = oq_active q"
  "oq_maxThreads (setState i s e p q) = oq_maxThreads q" "oq_posted (setState i s e p q) = oq_posted q"
  "oq_waiting (setProgress i pr p q) = oq_waiting q" "oq_active (setProgress i pr p q) = oq_active q"
  "oq_maxThreads (setProgress i pr p q) = oq_maxThreads q" "oq_posted (setProgress i pr p q) = oq_posted q"
  by (simp_all add: setState_def setProgress_def split: option.split)

lemma written_present:
  assumes "oq_operations q i = Some d"
  shows "setState i s e p q = enter i (Posting p) (q\<lparr>oq_operations := (oq_operations q)(i \<mapsto> d\<lparr>opd_state := s, opd_error := e\<rparr>)\<rparr>)"
    "setProgress i pr p q = enter i (Posting p) (q\<lparr>oq_operations := (oq_operations q)(i \<mapsto> d\<lparr>opd_progress := pr\<rparr>)\<rparr>)"
    "snapshot i q = snapshotOf d" "tokenCancelled i q = opd_cancelled d"
  using assms by (simp_all add: setState_def setProgress_def snapshot_def tokenCancelled_def)

definition paired :: "OperationQueue \<Rightarrow> bool" where
  "paired q \<longleftrightarrow> (\<forall>i. oq_operations q i = None \<longleftrightarrow> oq_runs q i = None) \<and> (\<forall>i d. oq_operations q i = Some d \<longrightarrow> opd_id d = i)"

lemma paired_operation:
  assumes "paired q" "oq_runs q i = Some run"
  obtains d where "oq_operations q i = Some d"
  using assms by (cases "oq_operations q i") (simp_all add: paired_def)

lemma view_Some: "view q i = Some (p, e, d) \<longleftrightarrow>
    oq_operations q i = Some d \<and> (\<exists>run. oq_runs q i = Some run \<and> run_phase run = p \<and> run_empty run = e)"
  by (auto simp: view_def split: option.splits)

lemma view_None: "paired q \<Longrightarrow> view q i = None \<longleftrightarrow> oq_operations q i = None"
  by (auto simp: view_def paired_def split: option.splits)

lemma view_cong: "oq_operations q' j = oq_operations q j \<Longrightarrow> oq_runs q' j = oq_runs q j \<Longrightarrow> view q' j = view q j"
  by (simp add: view_def)

lemma advance_data:
  assumes "advance choice i q = Some q'" "paired q"
  obtains run d where "oq_runs q i = Some run" "oq_operations q i = Some d" "opd_id d = i"
proof -
  obtain run where run: "oq_runs q i = Some run" using assms(1) by (auto simp: advance_def split: option.splits)
  then show ?thesis using assms(2) that by (auto simp: paired_def) (metis not_None_eq)
qed

lemma advance_others:
  assumes "advance choice i q = Some q'" "j \<noteq> i" "paired q"
  shows "oq_operations q' j = oq_operations q j" "oq_runs q' j = oq_runs q j" "postedFor j q' = postedFor j q"
proof -
  obtain run d where d: "oq_runs q i = Some run" "oq_operations q i = Some d" "opd_id d = i"
    by (rule advance_data [OF assms(1,3)])
  show "oq_operations q' j = oq_operations q j" "oq_runs q' j = oq_runs q j" "postedFor j q' = postedFor j q"
    using assms(1,2)
    by (cases "run_phase run"; auto simp: advance_def takeThread_def postedFor_def written_present [OF d(2)]
        snapshotOf_def d split: Choice.splits list.splits if_split_asm)+
qed

lemma advance_self:
  assumes "advance choice i q = Some q'" "paired q"
  shows "\<exists>posts. postedFor i q' = postedFor i q @ posts \<and> viewStep i (view q i) posts (view q' i)"
proof -
  obtain run d where d: "oq_runs q i = Some run" "oq_operations q i = Some d" "opd_id d = i"
    by (rule advance_data [OF assms])
  show ?thesis
    using assms(1)
    by (cases "run_phase run") (auto simp: advance_def takeThread_def view_def postedFor_def written_present [OF d(2)]
        snapshotOf_def d viewStep.simps split: Choice.splits list.splits if_split_asm)
qed

lemma view_step:
  assumes "queueStep q q'" "paired q"
  shows "\<exists>posts. postedFor i q' = postedFor i q @ posts \<and> viewStep i (view q i) posts (view q' i)"
  using assms
proof (cases rule: queueStep.cases)
  case (enqueued j name e)
  then show ?thesis
    using assms(2) by (cases "j = i") (auto simp: insertOperation_def view_def postedFor_def paired_def viewStep.simps
        split: option.splits)
next
  case (advanced choice j)
  then show ?thesis
    using assms(2) advance_self advance_others view_cong unchanged by (cases "j = i") (blast, metis append_Nil2)
next
  case (cancelled j)
  then show ?thesis
    by (cases "j = i") (auto simp: cancelOperation_def view_def postedFor_def viewStep.simps split: option.splits)
next
  case destroyed
  then show ?thesis by (auto simp: cancelAll_def view_def postedFor_def viewStep.simps split: option.splits)
qed

lemma view_Some_id: "paired q \<Longrightarrow> view q i = Some (p, e, d) \<Longrightarrow> opd_id d = i"
  by (auto simp: view_Some paired_def)

lemma advance_paired:
  assumes "advance choice i q = Some q'" "paired q"
  shows "(oq_operations q' i = None \<longleftrightarrow> oq_runs q' i = None) \<and> (\<forall>d. oq_operations q' i = Some d \<longrightarrow> opd_id d = i)"
proof -
  obtain run d where d: "oq_runs q i = Some run" "oq_operations q i = Some d" "opd_id d = i"
    by (rule advance_data [OF assms])
  show ?thesis
    using assms(1)
    by (cases "run_phase run") (auto simp: advance_def takeThread_def written_present [OF d(2)] d
        split: Choice.splits list.splits if_split_asm)
qed

lemma paired_step:
  assumes "queueStep q q'" "paired q"
  shows "paired q'"
  using assms
proof (cases rule: queueStep.cases)
  case (advanced choice i)
  have "(oq_operations q' j = None \<longleftrightarrow> oq_runs q' j = None) \<and> (\<forall>d. oq_operations q' j = Some d \<longrightarrow> opd_id d = j)" for j
  proof (cases "j = i")
    case True
    then show ?thesis using advance_paired [OF advanced assms(2)] by simp
  next
    case False
    then show ?thesis using advance_others [OF advanced False assms(2)] assms(2) by (simp add: paired_def)
  qed
  then show ?thesis by (simp add: paired_def)
next
  case (cancelled i)
  then show ?thesis
    using assms(2) by (cases "oq_operations q i") (auto simp: paired_def cancelOperation_def, metis not_None_eq)
qed (auto simp: paired_def insertOperation_def cancelAll_def)

lemma reachable_paired: "reachable q \<Longrightarrow> paired q"
proof (induction rule: reachable.induct)
  case (created n)
  show ?case by (simp add: newQueue_def paired_def)
qed (rule paired_step)

section \<open>The life of an operation\<close>

text \<open>What the queue promises of a state: queued, then running, then one of the final states; an
  operation that is not run fails or is cancelled.\<close>

inductive lifecycle :: "OperationState \<Rightarrow> OperationState \<Rightarrow> bool" where
  runs: "lifecycle OpQueued OpRunning"
| completes: "lifecycle OpRunning OpCompleted"
| fails: "lifecycle OpRunning OpFailed"
| stops: "lifecycle OpRunning OpCancelled"
| refused: "lifecycle OpQueued OpFailed"
| dropped: "lifecycle OpQueued OpCancelled"

definition follows :: "OperationState \<Rightarrow> OperationState \<Rightarrow> bool" where
  "follows a b \<longleftrightarrow> a = b \<or> lifecycle a b"

definition final :: "OperationState \<Rightarrow> bool" where
  "final s \<longleftrightarrow> s \<in> {OpCompleted, OpFailed, OpCancelled}"

text \<open>The state an operation has in each phase.\<close>

fun fits :: "Phase \<Rightarrow> bool \<Rightarrow> OperationState \<Rightarrow> bool" where
  "fits Ready e s \<longleftrightarrow> \<not> e \<and> s = OpQueued"
| "fits (Posting p) e s \<longleftrightarrow> p \<in> {Calling, Finished} \<and> fits p e s"
| "fits Calling e s \<longleftrightarrow> \<not> e \<and> s = OpRunning"
| "fits (Returned r) e s \<longleftrightarrow> \<not> e \<and> s = OpRunning"
| "fits (Ending t er) e s \<longleftrightarrow> final t \<and> lifecycle s t"
| "fits Finished e s \<longleftrightarrow> final s"
| "fits Inserted e s \<longleftrightarrow> s = OpQueued"
| "fits Announced e s \<longleftrightarrow> s = OpQueued"
| "fits Waiting e s \<longleftrightarrow> s = OpQueued"
| "fits Started e s \<longleftrightarrow> s = OpQueued"

text \<open>What observers were told, against what the operation is.\<close>

definition told :: "Phase \<Rightarrow> OperationData \<Rightarrow> OperationSnapshot list \<Rightarrow> bool" where
  "told p d posts \<longleftrightarrow> successively follows (map ops_state posts) \<and>
     (case p of
        Inserted \<Rightarrow> posts = []
      | Posting _ \<Rightarrow> posts \<noteq> [] \<and> follows (ops_state (last posts)) (opd_state d)
      | _ \<Rightarrow> posts \<noteq> [] \<and> last posts = snapshotOf d)"

definition sound :: "QString \<Rightarrow> View \<Rightarrow> OperationSnapshot list \<Rightarrow> bool" where
  "sound i v posts = (case v of None \<Rightarrow> posts = [] | Some (p, e, d) \<Rightarrow> fits p e (opd_state d) \<and> told p d posts)"

lemma firstChecks_fits: "fits (firstChecks e c) e OpQueued"
  by (auto simp: firstChecks_def final_def lifecycle.simps)

lemma verdict_fits: "fits (verdict c r) e OpRunning"
  by (auto simp: verdict_def final_def lifecycle.simps)

lemma told_simps:
  "told (firstChecks e c) d posts \<longleftrightarrow> successively follows (map ops_state posts) \<and> posts \<noteq> [] \<and> last posts = snapshotOf d"
  "told (verdict c r) d posts \<longleftrightarrow> successively follows (map ops_state posts) \<and> posts \<noteq> [] \<and> last posts = snapshotOf d"
  by (auto simp: told_def firstChecks_def verdict_def)

lemma told_posted:
  assumes "told (Posting p) d seen" "p = Calling \<or> p = Finished"
  shows "told p d (seen @ [snapshotOf d])"
proof -
  have "successively follows (map ops_state (seen @ [snapshotOf d]))"
    using assms(1) by (auto simp: told_def successively_append_iff last_map snapshotOf_def)
  then show ?thesis using assms(2) by (auto simp: told_def)
qed

lemma sound_step:
  assumes "viewStep i v posts v'" "sound i v seen"
  shows "sound i v' (seen @ posts)"
  using assms
proof cases
  case (posted p e d)
  then show ?thesis using assms(2) told_posted by (auto simp: sound_def)
next
  case (checked e d)
  then show ?thesis using assms(2) by (simp add: sound_def told_simps firstChecks_fits) (simp add: told_def)
next
  case (judged r e d)
  then show ?thesis using assms(2) by (simp add: sound_def told_simps verdict_fits) (simp add: told_def)
next
  case (tokenSet p e d)
  then show ?thesis using assms(2) by (cases p) (simp_all add: sound_def told_def snapshotOf_def)
next
  case (readied e d)
  then show ?thesis using assms(2) by (simp add: sound_def told_def snapshotOf_def follows_def lifecycle.simps)
next
  case (ended st er e d)
  then show ?thesis using assms(2) by (simp add: sound_def told_def snapshotOf_def follows_def)
next
  case (reported e d progress)
  then show ?thesis using assms(2) by (simp add: sound_def told_def snapshotOf_def follows_def)
qed (simp_all add: sound_def told_def snapshotOf_def)

lemma reachable_sound: "reachable q \<Longrightarrow> sound i (view q i) (postedFor i q)"
proof (induction rule: reachable.induct)
  case (created n)
  show ?case by (simp add: newQueue_def view_def postedFor_def sound_def)
next
  case (stepped q q')
  then show ?case using view_step [OF stepped(2) reachable_paired] sound_step by metis
qed

text \<open>The state an operation shows, \<open>None\<close> before it is in the queue.\<close>

definition shownState :: "OperationQueue \<Rightarrow> QString \<Rightarrow> OperationState option" where
  "shownState q i = map_option opd_state (oq_operations q i)"

inductive lifecycleStep :: "OperationState option \<Rightarrow> OperationState option \<Rightarrow> bool" where
  stays: "lifecycleStep s s"
| appears: "lifecycleStep None (Some OpQueued)"
| changes: "lifecycle s t \<Longrightarrow> lifecycleStep (Some s) (Some t)"

lemma shownState_view: "paired q \<Longrightarrow> shownState q i = map_option (\<lambda>(p, e, d). opd_state d) (view q i)"
  by (cases "view q i") (auto simp: shownState_def view_Some view_None)

lemma viewStep_lifecycle:
  assumes "viewStep i v posts v'" "sound i v seen"
  shows "lifecycleStep (map_option (\<lambda>(p, e, d). opd_state d) v) (map_option (\<lambda>(p, e, d). opd_state d) v')"
  using assms by cases (auto simp: sound_def intro: lifecycleStep.intros lifecycle.intros)

text \<open>C20: in every interleaving of callers and workers, each operation goes through the life cycle: a
  section of any thread leaves the state an operation shows as it is, or takes one step of the life
  cycle; a final state is never left.\<close>

theorem queue_refines_lifecycle:
  assumes "reachable q" "queueStep q q'"
  shows "lifecycleStep (shownState q i) (shownState q' i)"
proof -
  note paired = reachable_paired [OF assms(1)]
  obtain posts where "viewStep i (view q i) posts (view q' i)" using view_step [OF assms(2) paired] by blast
  then show ?thesis
    using viewStep_lifecycle reachable_sound [OF assms(1)] shownState_view paired paired_step [OF assms(2) paired] by metis
qed

theorem queue_refines_lifecycle_witness:
  "lifecycleStep (shownState oneQueued [97]) (shownState (cancelAll oneQueued) [97])"
  by (rule queue_refines_lifecycle [OF oneQueued_reachable destroyed])

text \<open>C23: what observers are told of an operation is its life cycle in order, step by step, and when its
  runnable has finished the last thing they were told is its final state with its final error.\<close>

theorem notifications_follow_lifecycle:
  assumes "reachable q" "oq_runs q i = Some run"
  shows "successively follows (map ops_state (postedFor i q)) \<and>
    (run_phase run = Finished \<longrightarrow> postedFor i q \<noteq> [] \<and> last (postedFor i q) = snapshot i q \<and> final (ops_state (snapshot i q)))"
proof -
  obtain d where d: "oq_operations q i = Some d"
    using reachable_paired [OF assms(1)] assms(2) by (auto simp: paired_def) (metis not_None_eq)
  then show ?thesis
    using reachable_sound [OF assms(1), of i] assms(2)
    by (auto simp: view_def sound_def told_def snapshot_def snapshotOf_def split: Phase.splits)
qed

theorem notifications_follow_lifecycle_witness: "ops_state (last (postedFor [97] oneCompleted)) \<in> {OpCompleted, OpFailed, OpCancelled}"
  using notifications_follow_lifecycle [OF oneCompleted_reachable oneCompleted_run] by (simp add: final_def)

section \<open>Cancelling\<close>

text \<open>The phases before the token is asked for the first and for the last time.\<close>

definition beforeStart :: "Phase \<Rightarrow> bool" where
  "beforeStart p \<longleftrightarrow> p \<in> {Inserted, Announced, Waiting, Started}"

definition undecided :: "Phase \<Rightarrow> bool" where
  "undecided p \<longleftrightarrow> beforeStart p \<or> p \<in> {Ready, Calling, Posting Calling} \<or> (\<exists>r. p = Returned r)"

text \<open>An operation whose token is set and that has not been judged yet, from then on.\<close>

definition doomedState :: "bool \<Rightarrow> OperationState" where
  "doomedState e = (if e then OpFailed else OpCancelled)"

definition doomed :: "bool \<Rightarrow> View \<Rightarrow> bool" where
  "doomed early v = (case v of None \<Rightarrow> False | Some (p, e, d) \<Rightarrow> opd_cancelled d
     \<and> (beforeStart p \<or> \<not> early \<and> \<not> e \<and> undecided p \<or> (\<exists>er. p = Ending (doomedState e) er)
        \<or> p \<in> {Posting Finished, Finished} \<and> opd_state d = doomedState e))"

lemma doomed_step: "viewStep i v posts v' \<Longrightarrow> doomed early v \<Longrightarrow> doomed early v'"
  by (cases rule: viewStep.cases)
    (auto simp: doomed_def beforeStart_def undecided_def doomedState_def firstChecks_def verdict_def)

lemma emptiness_kept:
  "viewStep i (Some (p, e, d)) posts v' \<Longrightarrow> \<exists>p' d'. v' = Some (p', e, d')"
  by (cases rule: viewStep.cases) auto

lemma reachable_steps: "queueStep\<^sup>*\<^sup>* q q' \<Longrightarrow> reachable q \<Longrightarrow> reachable q'"
  by (induction rule: rtranclp_induct) (auto intro: stepped)

lemma doomed_steps:
  assumes "queueStep\<^sup>*\<^sup>* q q'" "reachable q" "doomed early (view q i)" "view q i = Some (p, e, d)"
  shows "doomed early (view q' i) \<and> (\<exists>p' d'. view q' i = Some (p', e, d'))"
  using assms
proof (induction rule: rtranclp_induct)
  case (step q1 q2)
  obtain posts where "viewStep i (view q1 i) posts (view q2 i)"
    using view_step [OF step(2) reachable_paired [OF reachable_steps]] step by blast
  then show ?case using step doomed_step emptiness_kept by metis
qed auto

text \<open>C21: a cancellation is never lost. When the token is set before the result of an operation is judged,
  the operation ends cancelled (failed, when it has no callback), whatever it returns; when it is set
  before the runnable asked for the token, the operation is never called.\<close>

theorem cancellation_wins:
  assumes "reachable q" "oq_runs q i = Some run" "tokenCancelled i q" "undecided (run_phase run)"
    and "queueStep\<^sup>*\<^sup>* q q'" "oq_runs q' i = Some run'"
  shows "(run_phase run' = Finished \<longrightarrow> shownState q' i = Some (if run_empty run then OpFailed else OpCancelled))
    \<and> (beforeStart (run_phase run) \<longrightarrow> run_phase run' \<notin> {Ready, Calling} \<and> (\<forall>r. run_phase run' \<noteq> Returned r))"
proof -
  obtain d where d: "oq_operations q i = Some d" "opd_cancelled d"
    using assms(3) by (auto simp: tokenCancelled_def split: option.splits)
  then have v: "view q i = Some (run_phase run, run_empty run, d)" using assms(2) by (simp add: view_def)
  have fits: "fits (run_phase run) (run_empty run) (opd_state d)"
    using reachable_sound [OF assms(1), of i] v by (simp add: sound_def)
  have "doomed (beforeStart (run_phase run)) (view q i)"
    using v d assms(4) fits by (auto simp: doomed_def undecided_def)
  from doomed_steps [OF assms(5,1) this v] obtain p' d' where
    v': "view q' i = Some (p', run_empty run, d')" "doomed (beforeStart (run_phase run)) (view q' i)" by blast
  then have "p' = run_phase run'" "oq_operations q' i = Some d'" using assms(6) by (auto simp: view_Some)
  then show ?thesis using v' by (auto simp: doomed_def shownState_def doomedState_def beforeStart_def undecided_def)
qed

text \<open>The same operation, cancelled while it waits.\<close>

definition oneCancelled :: OperationQueue where
  "oneCancelled = snd (cancelOperation [97] oneQueued)"

definition cancelledRun :: "(Choice \<times> QString) list" where
  "cancelledRun = map (\<lambda>c. (c, [97])) (replicate 6 Proceed)"

lemma cancelled_run:
  "oq_runs oneCancelled [97] = Some \<lparr>run_phase = Inserted, run_empty = False\<rparr>" "tokenCancelled [97] oneCancelled"
  "drive cancelledRun oneCancelled \<noteq> None"
  "oq_runs (the (drive cancelledRun oneCancelled)) [97] = Some \<lparr>run_phase = Finished, run_empty = False\<rparr>"
  by code_simp+

theorem cancellation_wins_witness:
  "shownState (the (drive cancelledRun oneCancelled)) [97] = Some OpCancelled"
proof -
  have "reachable oneCancelled" unfolding oneCancelled_def by (rule stepped [OF oneQueued_reachable cancelled])
  moreover have "queueStep\<^sup>*\<^sup>* oneCancelled (the (drive cancelledRun oneCancelled))"
    using cancelled_run(3) by (auto intro: drive_steps)
  ultimately show ?thesis
    using cancellation_wins [OF _ cancelled_run(1,2) _ _ cancelled_run(4)] by (simp add: undecided_def beforeStart_def)
qed

section \<open>The pool drains\<close>

definition phaseOf :: "OperationQueue \<Rightarrow> QString \<Rightarrow> Phase option" where
  "phaseOf q i = map_option run_phase (oq_runs q i)"

definition hasThread :: "Phase \<Rightarrow> bool" where
  "hasThread p \<longleftrightarrow> p \<notin> {Inserted, Announced, Waiting}"

text \<open>The pool: the waiting and the active runnables, never more active than threads.\<close>

definition pooled :: "OperationQueue \<Rightarrow> bool" where
  "pooled q \<longleftrightarrow> (\<forall>i. i \<in> set (oq_waiting q) \<longleftrightarrow> phaseOf q i = Some Waiting) \<and> distinct (oq_waiting q)
     \<and> (\<forall>i\<in>set (oq_active q). \<exists>p. phaseOf q i = Some p \<and> hasThread p) \<and> distinct (oq_active q)
     \<and> (\<forall>i p. phaseOf q i = Some p \<longrightarrow> hasThread p \<longrightarrow> p = Finished \<or> i \<in> set (oq_active q))
     \<and> int (length (oq_active q)) \<le> oq_maxThreads q \<and> 1 \<le> oq_maxThreads q \<and> finite {i. oq_runs q i \<noteq> None}"

lemma phaseOf_enter [simp]:
  "phaseOf (enter i p q) j = (if j = i then map_option (\<lambda>_. p) (oq_runs q i) else phaseOf q j)"
  by (auto simp: phaseOf_def option.map_comp comp_def)

lemma phaseOf_setters [simp]:
  "phaseOf (q\<lparr>oq_waiting := xs\<rparr>) i = phaseOf q i" "phaseOf (q\<lparr>oq_active := ys\<rparr>) i = phaseOf q i"
  "phaseOf (q\<lparr>oq_operations := m\<rparr>) i = phaseOf q i" "phaseOf (postChanged j q) i = phaseOf q i"
  by (simp_all add: phaseOf_def)

lemma pooled_dests:
  assumes "pooled q"
  shows "i \<in> set (oq_waiting q) \<longleftrightarrow> phaseOf q i = Some Waiting" "distinct (oq_waiting q)"
    "i \<in> set (oq_active q) \<Longrightarrow> \<exists>p. phaseOf q i = Some p \<and> hasThread p" "distinct (oq_active q)"
    "phaseOf q i = Some p \<Longrightarrow> hasThread p \<Longrightarrow> p = Finished \<or> i \<in> set (oq_active q)"
    "int (length (oq_active q)) \<le> oq_maxThreads q" "1 \<le> oq_maxThreads q" "finite {i. oq_runs q i \<noteq> None}"
  using assms unfolding pooled_def by blast+

text \<open>A section of a runnable that has a thread and keeps it.\<close>

lemma pooled_keeps:
  assumes "pooled q" "oq_runs q i = Some run" "hasThread (run_phase run)" "hasThread p" "run_phase run \<noteq> Finished \<or> p = Finished"
    and "oq_runs q' = (oq_runs q)(i \<mapsto> run\<lparr>run_phase := p\<rparr>)" "oq_waiting q' = oq_waiting q" "oq_active q' = oq_active q"
    and "oq_maxThreads q' = oq_maxThreads q"
  shows "pooled q'"
proof -
  have phase: "phaseOf q' j = (if j = i then Some p else phaseOf q j)" for j
    using assms(6) by (simp add: phaseOf_def)
  have own: "phaseOf q i = Some (run_phase run)" using assms(2) by (simp add: phaseOf_def)
  have "{j. oq_runs q' j \<noteq> None} = {j. oq_runs q j \<noteq> None}" using assms(2,6) by auto
  then have "finite {j. oq_runs q' j \<noteq> None}" using pooled_dests(8) [OF assms(1)] by simp
  moreover have "\<forall>j. j \<in> set (oq_waiting q) \<longleftrightarrow> (if j = i then Some p else phaseOf q j) = Some Waiting"
    using pooled_dests(1) [OF assms(1)] own assms(3,4) by (auto simp: hasThread_def)
  ultimately show ?thesis
    using assms own unfolding pooled_def phase by auto
qed

lemma advance_keeps:
  assumes "advance choice i q = Some q'" "oq_runs q i = Some run" "oq_operations q i = Some d"
    and "hasThread (run_phase run)" "run_phase run \<noteq> Finished" "\<And>p. run_phase run = Posting p \<Longrightarrow> hasThread p"
  obtains p where "hasThread p" "oq_runs q' = (oq_runs q)(i \<mapsto> run\<lparr>run_phase := p\<rparr>)"
    "oq_waiting q' = oq_waiting q" "oq_active q' = oq_active q" "oq_maxThreads q' = oq_maxThreads q"
proof -
  have thread: "hasThread (firstChecks e c)" "hasThread (verdict c r)" for e c r
    by (auto simp: firstChecks_def verdict_def hasThread_def)
  have enter: "oq_runs (enter i p q1) = (oq_runs q1)(i \<mapsto> run\<lparr>run_phase := p\<rparr>)" if "oq_runs q1 = oq_runs q" for p q1
    using that assms(2) by (auto simp: enter_def)
  have "\<exists>p. hasThread p \<and> oq_runs q' = (oq_runs q)(i \<mapsto> run\<lparr>run_phase := p\<rparr>)
    \<and> oq_waiting q' = oq_waiting q \<and> oq_active q' = oq_active q \<and> oq_maxThreads q' = oq_maxThreads q"
  proof (cases "run_phase run")
    case Started
    then show ?thesis using assms(1,2) thread enter by (fastforce simp: advance_def)
  next
    case Ready
    then show ?thesis
      using assms(1,2) enter by (auto simp: advance_def written_present [OF assms(3)] hasThread_def intro!: exI [of _ "Posting Calling"])
  next
    case (Posting p)
    then show ?thesis using assms(1,2,6) enter by (auto simp: advance_def intro!: exI [of _ p])
  next
    case Calling
    then show ?thesis
      using assms(1,2) enter by (cases choice) (auto simp: advance_def written_present [OF assms(3)] hasThread_def)
  next
    case (Returned r)
    then show ?thesis using assms(1,2) thread enter by (fastforce simp: advance_def)
  next
    case (Ending s e)
    then show ?thesis
      using assms(1,2) enter by (auto simp: advance_def written_present [OF assms(3)] hasThread_def intro!: exI [of _ "Posting Finished"])
  qed (use assms(4,5) in \<open>auto simp: hasThread_def\<close>)
  then show ?thesis using that by blast
qed

lemma pooled_advance:
  assumes "advance choice i q = Some q'" "pooled q" "paired q" "\<And>run p. oq_runs q i = Some run \<Longrightarrow> run_phase run = Posting p \<Longrightarrow> hasThread p"
  shows "pooled q'"
proof -
  obtain run d where d: "oq_runs q i = Some run" "oq_operations q i = Some d" "opd_id d = i"
    by (rule advance_data [OF assms(1,3)])
  have own: "phaseOf q i = Some (run_phase run)" using d by (simp add: phaseOf_def)
  consider "run_phase run = Inserted" | "run_phase run = Announced" | "run_phase run = Waiting" | "run_phase run = Finished"
    | "hasThread (run_phase run)" "run_phase run \<noteq> Finished" by (auto simp: hasThread_def)
  then show ?thesis
  proof cases
    case 1
    then have q': "q' = enter i Announced (postChanged i q)" using assms(1) d by (simp add: advance_def)
    have "{j. oq_runs q' j \<noteq> None} = {j. oq_runs q j \<noteq> None}" using d q' by auto
    then show ?thesis
      using assms(2) own 1 d unfolding q' pooled_def by (auto simp: hasThread_def)
  next
    case 2
    then have q': "q' = enter i Waiting (q\<lparr>oq_waiting := oq_waiting q @ [i]\<rparr>)" using assms(1) d by (simp add: advance_def)
    have "{j. oq_runs q' j \<noteq> None} = {j. oq_runs q j \<noteq> None}" using d q' by auto
    then show ?thesis
      using assms(2) own 2 d unfolding q' pooled_def by (auto simp: hasThread_def)
  next
    case 3
    then obtain rest where w: "oq_waiting q = i # rest" "int (length (oq_active q)) < oq_maxThreads q"
      and q': "q' = enter i Started (q\<lparr>oq_waiting := rest, oq_active := i # oq_active q\<rparr>)"
      using assms(1) d by (auto simp: advance_def takeThread_def split: list.splits if_split_asm)
    have "{j. oq_runs q' j \<noteq> None} = {j. oq_runs q j \<noteq> None}" using d q' by auto
    then show ?thesis
      using assms(2) own 3 d w unfolding q' pooled_def by (auto simp: hasThread_def)
  next
    case 4
    then have q': "q' = q\<lparr>oq_active := remove1 i (oq_active q)\<rparr>" using assms(1) d by (simp add: advance_def split: if_split_asm)
    then show ?thesis
      using assms(2) own 4 unfolding q' pooled_def by (auto simp: length_remove1 dest: set_remove1_subset [THEN subsetD])
  next
    case 5
    obtain p where "hasThread p" "oq_runs q' = (oq_runs q)(i \<mapsto> run\<lparr>run_phase := p\<rparr>)"
      "oq_waiting q' = oq_waiting q" "oq_active q' = oq_active q" "oq_maxThreads q' = oq_maxThreads q"
      by (rule advance_keeps [OF assms(1) d(1,2) 5]) (use assms(4) d in auto)
    then show ?thesis using pooled_keeps [OF assms(2) d(1) 5(1)] 5(2) by metis
  qed
qed

lemma pooled_step:
  assumes "queueStep q q'" "pooled q" "reachable q"
  shows "pooled q'"
  using assms(1)
proof (cases rule: queueStep.cases)
  case (enqueued i name e)
  have "oq_runs q i = None" using enqueued reachable_paired [OF assms(3)] by (simp add: paired_def)
  then have old: "phaseOf q i = None" by (simp add: phaseOf_def)
  have phase: "phaseOf q' j = (if j = i then Some Inserted else phaseOf q j)" for j
    by (simp add: enqueued(1) insertOperation_def phaseOf_def)
  have "{j. oq_runs q' j \<noteq> None} = insert i {j. oq_runs q j \<noteq> None}" by (auto simp: enqueued(1) insertOperation_def)
  then have "finite {j. oq_runs q' j \<noteq> None}" using pooled_dests(8) [OF assms(2)] by simp
  moreover have same: "oq_waiting q' = oq_waiting q" "oq_active q' = oq_active q" "oq_maxThreads q' = oq_maxThreads q"
    by (simp_all add: enqueued(1) insertOperation_def)
  moreover have "\<forall>j p. phaseOf q' j = Some p \<longrightarrow> hasThread p \<longrightarrow> p = Finished \<or> j \<in> set (oq_active q)"
    using pooled_dests(5) [OF assms(2)] by (simp add: phase hasThread_def)
  moreover have "\<forall>j. j \<in> set (oq_waiting q) \<longleftrightarrow> phaseOf q' j = Some Waiting"
    using pooled_dests(1) [OF assms(2)] old by (simp add: phase)
  moreover have "\<exists>p. phaseOf q' j = Some p \<and> hasThread p" if j: "j \<in> set (oq_active q)" for j
  proof -
    obtain p where p: "phaseOf q j = Some p" "hasThread p" using pooled_dests(3) [OF assms(2) j] by blast
    then have "j \<noteq> i" using old by auto
    then show ?thesis using p by (simp add: phase)
  qed
  ultimately show ?thesis
    unfolding pooled_def same using pooled_dests(2,4,6,7) [OF assms(2)] by (intro conjI ballI) assumption+
next
  case (advanced choice i)
  have "hasThread p" if run: "oq_runs q i = Some run" "run_phase run = Posting p" for run p
  proof -
    obtain d where "oq_operations q i = Some d" by (rule paired_operation [OF reachable_paired [OF assms(3)] run(1)])
    then show ?thesis
      using reachable_sound [OF assms(3), of i] run by (auto simp: sound_def view_def hasThread_def)
  qed
  then show ?thesis using pooled_advance [OF advanced assms(2) reachable_paired [OF assms(3)]] by blast
next
  case (cancelled i)
  have "oq_runs q' = oq_runs q" "oq_waiting q' = oq_waiting q" "oq_active q' = oq_active q" "oq_maxThreads q' = oq_maxThreads q"
    by (auto simp: cancelled cancelOperation_def split: option.split)
  then show ?thesis using assms(2) by (simp add: pooled_def phaseOf_def)
next
  case destroyed
  then show ?thesis using assms(2) by (simp add: pooled_def phaseOf_def cancelAll_def)
qed

lemma reachable_pooled: "reachable q \<Longrightarrow> pooled q"
proof (induction rule: reachable.induct)
  case (created n)
  show ?case by (simp add: newQueue_def pooled_def phaseOf_def)
qed (rule pooled_step)

text \<open>The sections a runnable still has to run, once its operation returns without more reports.\<close>

fun sectionsLeft :: "Phase \<Rightarrow> nat" where
  "sectionsLeft Inserted = 11"
| "sectionsLeft Announced = 10"
| "sectionsLeft Waiting = 9"
| "sectionsLeft Started = 7"
| "sectionsLeft Ready = 6"
| "sectionsLeft (Posting p) = Suc (sectionsLeft p)"
| "sectionsLeft Calling = 4"
| "sectionsLeft (Returned r) = 3"
| "sectionsLeft (Ending s e) = 2"
| "sectionsLeft Finished = 0"

definition workLeft :: "OperationQueue \<Rightarrow> nat" where
  "workLeft q = (\<Sum>i | oq_runs q i \<noteq> None. sectionsLeft (the (phaseOf q i))) + length (oq_active q)"

definition drainStep :: "OperationQueue \<Rightarrow> OperationQueue \<Rightarrow> bool" where
  "drainStep q q' \<longleftrightarrow> (\<exists>choice i. (\<forall>p. choice \<noteq> Report p) \<and> advance choice i q = Some q')"

definition drained :: "OperationQueue \<Rightarrow> bool" where
  "drained q \<longleftrightarrow> oq_waiting q = [] \<and> oq_active q = [] \<and> (\<forall>i p. phaseOf q i = Some p \<longrightarrow> p = Finished)"

lemma drainStep_queueStep: "drainStep q q' \<Longrightarrow> queueStep q q'"
  by (auto simp: drainStep_def intro: queueStep.intros)

lemma sections_decrease:
  "sectionsLeft (firstChecks e c) < 7" "sectionsLeft (verdict c r) < 3"
  by (auto simp: firstChecks_def verdict_def)

lemma length_remove1_less: "i \<in> set xs \<Longrightarrow> length (remove1 i xs) < length xs"
  by (induction xs) auto

lemma advance_decreases:
  assumes "advance choice i q = Some q'" "\<forall>p. choice \<noteq> Report p" "paired q" "phaseOf q i = Some p"
  shows "\<exists>p'. phaseOf q' i = Some p' \<and> sectionsLeft p' + length (oq_active q') < sectionsLeft p + length (oq_active q)"
proof -
  obtain run d where d: "oq_runs q i = Some run" "oq_operations q i = Some d" "opd_id d = i"
    by (rule advance_data [OF assms(1,3)])
  show ?thesis
    using assms(1,2,4) sections_decrease
    by (cases "run_phase run") (auto simp: advance_def takeThread_def phaseOf_def written_present [OF d(2)] d
        length_remove1_less split: Choice.splits list.splits if_split_asm)
qed

lemma drainStep_decreases:
  assumes "drainStep q q'" "pooled q" "paired q"
  shows "workLeft q' < workLeft q"
proof -
  obtain choice i where a: "\<forall>p. choice \<noteq> Report p" "advance choice i q = Some q'" using assms(1) by (auto simp: drainStep_def)
  obtain run d where d: "oq_runs q i = Some run" "oq_operations q i = Some d" "opd_id d = i"
    by (rule advance_data [OF a(2) assms(3)])
  then obtain p' where p': "phaseOf q' i = Some p'"
    "sectionsLeft p' + length (oq_active q') < sectionsLeft (run_phase run) + length (oq_active q)"
    using advance_decreases [OF a(2,1) assms(3)] by (fastforce simp: phaseOf_def)
  have own: "phaseOf q i = Some (run_phase run)" using d by (simp add: phaseOf_def)
  let ?D = "{j. oq_runs q j \<noteq> None}"
  have others: "oq_runs q' j = oq_runs q j" if "j \<noteq> i" for j using advance_others(2) [OF a(2) that assms(3)] .
  then have dom: "{j. oq_runs q' j \<noteq> None} = ?D" using d p' by (auto simp: phaseOf_def) (metis option.distinct(1))+
  have sum: "(\<Sum>j\<in>?D. f j) = f i + (\<Sum>j\<in>?D - {i}. f j)" for f :: "QString \<Rightarrow> nat"
    using pooled_dests(8) [OF assms(2)] d by (simp add: sum.remove)
  have "(\<Sum>j\<in>?D - {i}. sectionsLeft (the (phaseOf q' j))) = (\<Sum>j\<in>?D - {i}. sectionsLeft (the (phaseOf q j)))"
    using others by (intro sum.cong) (auto simp: phaseOf_def)
  then show ?thesis
    using p' own unfolding workLeft_def dom sum by simp
qed

lemma threads_advance:
  assumes "oq_runs q i = Some run" "hasThread (run_phase run)" "run_phase run = Finished \<Longrightarrow> i \<in> set (oq_active q)"
  shows "\<exists>q'. drainStep q q'"
proof -
  have "\<exists>q'. advance (Return (succeeded True)) i q = Some q'"
    using assms by (cases "run_phase run") (auto simp: advance_def hasThread_def)
  then show ?thesis by (auto simp: drainStep_def)
qed

lemma stuck_drained:
  assumes "pooled q" "\<nexists>q'. drainStep q q'"
  shows "drained q"
proof -
  have active: "oq_active q = []"
  proof (rule ccontr)
    assume "oq_active q \<noteq> []"
    then obtain i where i: "i \<in> set (oq_active q)" by (cases "oq_active q") auto
    then obtain run where "oq_runs q i = Some run" "hasThread (run_phase run)"
      using pooled_dests(3) [OF assms(1) i] by (auto simp: phaseOf_def)
    then show False using threads_advance i assms(2) by blast
  qed
  have waiting: "oq_waiting q = []"
  proof (cases "oq_waiting q")
    case (Cons i rest)
    then obtain run where run: "oq_runs q i = Some run" "run_phase run = Waiting"
      using pooled_dests(1) [OF assms(1), of i] by (auto simp: phaseOf_def)
    then have "advance Proceed i q = Some (enter i Started (q\<lparr>oq_waiting := rest, oq_active := i # oq_active q\<rparr>))"
      using Cons active pooled_dests(7) [OF assms(1)] by (simp add: advance_def takeThread_def)
    then show ?thesis using assms(2) by (auto simp: drainStep_def)
  qed simp
  moreover have "p = Finished" if "phaseOf q i = Some p" for i p
  proof (rule ccontr)
    assume p: "p \<noteq> Finished"
    have "\<not> hasThread p" using pooled_dests(5) [OF assms(1) that] p active by auto
    moreover have "p \<noteq> Waiting" using pooled_dests(1) [OF assms(1), of i] that waiting by auto
    ultimately have "p = Inserted \<or> p = Announced" by (auto simp: hasThread_def)
    then have "\<exists>q'. advance Proceed i q = Some q'" using that by (auto simp: phaseOf_def advance_def)
    then show False using assms(2) by (auto simp: drainStep_def)
  qed
  ultimately show ?thesis using active by (simp add: drained_def)
qed

lemma drain_run:
  assumes "reachable q" "(drainStep ^^ n) q q'"
  shows "reachable q' \<and> n + workLeft q' \<le> workLeft q"
  using assms(2)
proof (induction n arbitrary: q')
  case (Suc n)
  then obtain q1 where q1: "(drainStep ^^ n) q q1" "drainStep q1 q'" by auto
  then have "reachable q1" "n + workLeft q1 \<le> workLeft q" using Suc.IH by auto
  then show ?case
    using drainStep_decreases [OF q1(2) reachable_pooled reachable_paired] stepped drainStep_queueStep [OF q1(2)] by fastforce
qed (simp add: assms(1))

text \<open>C22: once every operation called returns and no one enqueues, the pool drains, whatever the number of
  threads and the order in which they run: no run of sections is longer than the work that is left,
  and a run that cannot go on has finished every operation, has no one waiting and all threads free;
  so \<open>waitForDone\<close> and the destructor return.\<close>

theorem queue_drains:
  assumes "reachable q" "(drainStep ^^ n) q q'"
  shows "n \<le> workLeft q \<and> ((\<exists>q''. drainStep q' q'') \<or> drained q')"
  using drain_run [OF assms] stuck_drained [OF reachable_pooled] by auto

theorem queue_drains_witness: "1 \<le> workLeft oneQueued"
proof -
  have "advance Proceed [97] oneQueued = Some (enter [97] Announced (postChanged [97] oneQueued))"
    by (simp add: advance_def oneQueued_def insertOperation_def)
  then have "(drainStep ^^ 1) oneQueued (enter [97] Announced (postChanged [97] oneQueued))"
    unfolding relpowp_1 drainStep_def by blast
  then show ?thesis using queue_drains [OF oneQueued_reachable] by blast
qed

end
