(* ===== verification/DfsClient.thy ===== *)
theory DfsClient
  imports SmbClients "HOL-Library.AList"
begin

text \<open>
  The client that follows DFS referrals (\<open>src/src/infrastructure/smb/DfsResolvingSmbClient.cpp\<close>). It
  wraps a delegate and a resolver, both functions of the outside world \<open>'w\<close>, and keeps two caches:
  the targets of a connection and the mappings of the paths below it. A call runs on the caches and
  the world together. A \<open>QHash\<close> is an association list whose order stands for the order in which Qt
  iterates; the clock is an observation of the world, read once for a section under the mutex.
  Calls of several threads on the same client are not interleaved in this model.
\<close>

section \<open>Paths\<close>

text \<open>One pass of \<open>replace("//", "/")\<close>, and the loop around it.\<close>

fun replaceDoubleSlashes :: "QString \<Rightarrow> QString" where
  "replaceDoubleSlashes (a # b # s) =
     (if a = slash \<and> b = slash then slash # replaceDoubleSlashes s else a # replaceDoubleSlashes (b # s))"
| "replaceDoubleSlashes s = s"

abbreviation doubleSlash :: QString where "doubleSlash \<equiv> [slash, slash]"

lemma startsWith_doubleSlash [simp]:
  "startsWith [] doubleSlash = False" "startsWith [a] doubleSlash = False"
  "startsWith (a # b # s) doubleSlash \<longleftrightarrow> a = slash \<and> b = slash"
  by (auto simp: startsWith_def)

lemma length_replaceDoubleSlashes: "length (replaceDoubleSlashes s) \<le> length s"
  by (induction s rule: replaceDoubleSlashes.induct) auto

lemma replaceDoubleSlashes_shorter:
  "containsText s doubleSlash \<Longrightarrow> length (replaceDoubleSlashes s) < length s"
proof (induction s rule: replaceDoubleSlashes.induct)
  case (1 a b s)
  then show ?case using length_replaceDoubleSlashes [of s] by (auto simp: less_Suc_eq_le)
qed auto

function collapseSlashes :: "QString \<Rightarrow> QString" where
  "collapseSlashes s = (if containsText s doubleSlash then collapseSlashes (replaceDoubleSlashes s) else s)"
  by pat_completeness auto

termination
  by (relation "measure length") (auto intro: replaceDoubleSlashes_shorter)

declare collapseSlashes.simps [simp del]

text \<open>\<open>while (size() > 1 && endsWith('/')) chop(1)\<close>.\<close>

definition chopSlashes :: "QString \<Rightarrow> QString" where
  "chopSlashes s = (let t = rev (dropWhile (\<lambda>c. c = slash) (rev s)) in if t = [] then take 1 s else t)"

definition withLeadingSlash :: "QString \<Rightarrow> QString" where
  "withLeadingSlash s = (if startsWith s [slash] then s else slash # s)"

definition normalizeRemotePath :: "QtText \<Rightarrow> QString \<Rightarrow> QString" where
  "normalizeRemotePath qt remotePath =
     (let remotePath = collapseSlashes (forwardSlashes (trimmed qt remotePath));
          remotePath = (if remotePath = [] then [slash] else remotePath) in
      chopSlashes (withLeadingSlash remotePath))"

definition isPathPrefix :: "QtText \<Rightarrow> QString \<Rightarrow> QString \<Rightarrow> bool" where
  "isPathPrefix qt prefix remotePath =
     (let normalizedPrefix = normalizeRemotePath qt prefix; normalizedPath = normalizeRemotePath qt remotePath in
      normalizedPrefix = [slash] \<or> normalizedPath = normalizedPrefix \<or> startsWith normalizedPath (normalizedPrefix @ [slash]))"

definition suffixAfterPrefix :: "QtText \<Rightarrow> QString \<Rightarrow> QString \<Rightarrow> QString" where
  "suffixAfterPrefix qt remotePath prefix =
     (let normalizedPath = normalizeRemotePath qt remotePath; normalizedPrefix = normalizeRemotePath qt prefix in
      if normalizedPrefix = [slash] then (if normalizedPath = [slash] then [] else normalizedPath)
      else if normalizedPath = normalizedPrefix then []
      else if \<not> startsWith normalizedPath (normalizedPrefix @ [slash]) then []
      else drop (length normalizedPrefix) normalizedPath)"

definition joinRemotePath :: "QtText \<Rightarrow> QString \<Rightarrow> QString \<Rightarrow> QString" where
  "joinRemotePath qt prefix suffix =
     (let normalizedPrefix = normalizeRemotePath qt prefix in
      if suffix = [] then normalizedPrefix
      else let normalizedSuffix = chopSlashes (withLeadingSlash (forwardSlashes suffix)) in
           if normalizedPrefix = [slash] then normalizedSuffix else normalizedPrefix @ normalizedSuffix)"

text \<open>\<open>left(lastIndexOf('/'))\<close> of an absolute path.\<close>

definition parentRemotePath :: "QtText \<Rightarrow> QString \<Rightarrow> QString" where
  "parentRemotePath qt remotePath =
     (let normalized = normalizeRemotePath qt remotePath;
          parent = rev (drop 1 (dropWhile (\<lambda>c. c \<noteq> slash) (rev normalized))) in
      if parent = [] then [slash] else parent)"

section \<open>Mappings and caches\<close>

record DfsConnectionCacheEntry =
  dce_targets :: "SavedConnection list"
  dce_expiresAtUtc :: QDateTime

record DfsPathMapping =
  dpm_connectionKey :: QString
  dpm_originalPrefix :: QString
  dpm_targetConnection :: SavedConnection
  dpm_targetPrefix :: QString
  dpm_expiresAtUtc :: QDateTime

record DfsPathMappingCacheEntry =
  dpe_mappings :: "DfsPathMapping list"
  dpe_expiresAtUtc :: QDateTime

record DfsCache =
  m_resolvedConnections :: "(QString \<times> DfsConnectionCacheEntry) list"
  m_resolvedPathMappings :: "(QString \<times> DfsPathMappingCacheEntry) list"

definition emptyCache :: DfsCache where
  "emptyCache = \<lparr>m_resolvedConnections = [], m_resolvedPathMappings = []\<rparr>"

definition cacheKey :: "QtText \<Rightarrow> SavedConnection \<Rightarrow> QString" where
  "cacheKey qt c = joinParts 10 [qt_toLower qt (con_server c), qt_toLower qt (con_share c), qt_toLower qt (con_domain c),
     qt_toLower qt (con_username c), authTypeToString (con_authType c)]"

definition pathCacheKey :: "QtText \<Rightarrow> SavedConnection \<Rightarrow> QString \<Rightarrow> QString" where
  "pathCacheKey qt c originalPrefix = cacheKey qt c @ [10] @ normalizeRemotePath qt originalPrefix"

definition targetPathForMapping :: "QtText \<Rightarrow> DfsPathMapping \<Rightarrow> QString \<Rightarrow> QString" where
  "targetPathForMapping qt m remotePath =
     joinRemotePath qt (dpm_targetPrefix m) (suffixAfterPrefix qt remotePath (dpm_originalPrefix m))"

definition originalPathForMapping :: "QtText \<Rightarrow> DfsPathMapping \<Rightarrow> QString \<Rightarrow> QString" where
  "originalPathForMapping qt m targetPath =
     joinRemotePath qt (dpm_originalPrefix m) (suffixAfterPrefix qt targetPath (dpm_targetPrefix m))"

definition rebaseEntriesToOriginalNamespace :: "QtText \<Rightarrow> RemoteFileEntry list \<Rightarrow> DfsPathMapping \<Rightarrow> RemoteFileEntry list" where
  "rebaseEntriesToOriginalNamespace qt entries m =
     map (\<lambda>e. e\<lparr>rfe_remotePath := originalPathForMapping qt m (rfe_remotePath e)\<rparr>) entries"

definition sameResolvedTarget :: "QtText \<Rightarrow> DfsPathMapping \<Rightarrow> DfsPathMapping \<Rightarrow> bool" where
  "sameResolvedTarget qt l r =
     (let a = dpm_targetConnection l; b = dpm_targetConnection r in
      sameText qt (con_server a) (con_server b) \<and> sameText qt (con_share a) (con_share b)
      \<and> sameText qt (con_domain a) (con_domain b) \<and> sameText qt (con_username a) (con_username b)
      \<and> con_authType a = con_authType b)"

section \<open>Errors that ask for a referral\<close>

definition looksLikeShareDfsReferralFailure :: "QtText \<Rightarrow> AppError \<Rightarrow> bool" where
  "looksLikeShareDfsReferralFailure qt e =
     (ae_code e = AeShareUnavailable \<and>
      (let details = qt_toLower qt (ae_sanitizedTechnicalDetails e) in
       containsText details (latin1 ''bad network name'') \<or> containsText details (latin1 ''bad_network_name'')
       \<or> containsText details (latin1 ''status_bad_network_name'') \<or> containsText details (latin1 ''tree connect'')))"

definition looksLikePathDfsReferralFailure :: "QtText \<Rightarrow> AppError \<Rightarrow> bool" where
  "looksLikePathDfsReferralFailure qt e =
     ((ae_code e = AeShareUnavailable \<or> ae_code e = AeNetworkError) \<and>
      (let details = qt_toLower qt (ae_sanitizedTechnicalDetails e) in
       containsText details (latin1 ''path not covered'') \<or> containsText details (latin1 ''path_not_covered'')
       \<or> containsText details (latin1 ''status_path_not_covered'') \<or> containsText details (latin1 ''0xc0000257'')))"

definition looksLikeDfsReferralFailure :: "QtText \<Rightarrow> AppError \<Rightarrow> bool" where
  "looksLikeDfsReferralFailure qt e = (looksLikeShareDfsReferralFailure qt e \<or> looksLikePathDfsReferralFailure qt e)"

definition mayHavePathDfsReferral :: "QtText \<Rightarrow> AppError \<Rightarrow> bool" where
  "mayHavePathDfsReferral qt e =
     (looksLikeDfsReferralFailure qt e \<or> ae_code e = AeShareUnavailable \<or> ae_code e = AePermissionDenied)"

definition isTargetFailoverError :: "AppError \<Rightarrow> bool" where
  "isTargetFailoverError e = (ae_code e \<in> {AeServerUnavailable, AeShareUnavailable, AeTimeout, AeNetworkError})"

section \<open>The caches\<close>

record 'w DfsEnv =
  env_qt :: QtText
  env_delegate :: "'w SmbClient"
  env_resolver :: "'w DfsReferralResolver"
  env_now :: "'w \<Rightarrow> int"

type_synonym ('a, 'w) DfsCall = "('a, DfsCache \<times> 'w) Call"

text \<open>Times are milliseconds.\<close>

definition expiresAtForTtl :: "'w DfsEnv \<Rightarrow> int \<Rightarrow> 'w \<Rightarrow> QDateTime" where
  "expiresAtForTtl env ttlSeconds w = Some (env_now env w + 1000 * max 1 ttlSeconds)"

definition isCacheFresh :: "'w DfsEnv \<Rightarrow> QDateTime \<Rightarrow> 'w \<Rightarrow> bool" where
  "isCacheFresh env expiresAtUtc w = (case expiresAtUtc of None \<Rightarrow> True | Some t \<Rightarrow> env_now env w < t)"

text \<open>\<open>if (!expires.isValid() || candidate < expires) expires = candidate\<close>.\<close>

definition earlier :: "QDateTime \<Rightarrow> QDateTime \<Rightarrow> QDateTime" where
  "earlier expires candidate = (case (expires, candidate) of
     (Some e, Some c) \<Rightarrow> Some (min e c) | (None, c) \<Rightarrow> c | (Some e, None) \<Rightarrow> None)"

definition cachedResolvedConnections :: "'w DfsEnv \<Rightarrow> SavedConnection \<Rightarrow> DfsCache \<times> 'w \<Rightarrow> SavedConnection list" where
  "cachedResolvedConnections env c st =
     (case map_of (m_resolvedConnections (fst st)) (cacheKey (env_qt env) c) of
        None \<Rightarrow> []
      | Some entry \<Rightarrow> if isCacheFresh env (dce_expiresAtUtc entry) (snd st) then dce_targets entry else [])"

definition cachedResolvedConnection :: "'w DfsEnv \<Rightarrow> SavedConnection \<Rightarrow> DfsCache \<times> 'w \<Rightarrow> SavedConnection option" where
  "cachedResolvedConnection env c st = (case cachedResolvedConnections env c st of [] \<Rightarrow> None | t # _ \<Rightarrow> Some t)"

definition forgetCachedConnection :: "'w DfsEnv \<Rightarrow> SavedConnection \<Rightarrow> DfsCache \<times> 'w \<Rightarrow> DfsCache \<times> 'w" where
  "forgetCachedConnection env c =
     apfst (m_resolvedConnections_update (AList.delete (cacheKey (env_qt env) c)))"

definition resolveAndCache ::
  "'w DfsEnv \<Rightarrow> SavedConnection \<Rightarrow> Secret \<Rightarrow> 'w AppContext \<Rightarrow> DfsCache \<times> 'w \<Rightarrow> SavedConnection list \<times> DfsCache \<times> 'w" where
  "resolveAndCache env c secret ctx st =
     (let (resolved, w) = dfr_resolveTargets (env_resolver env) c secret ctx (snd st); cache = fst st in
      if \<not> ok resolved \<or> res_value resolved = [] then ([], cache, w)
      else
        let targets = map drc_connection (res_value resolved);
            expires = foldl (\<lambda>e t. earlier e (expiresAtForTtl env (drc_ttlSeconds t) w)) None (res_value resolved) in
        (targets, cache\<lparr>m_resolvedConnections := AList.update (cacheKey (env_qt env) c)
            \<lparr>dce_targets = targets, dce_expiresAtUtc = expires\<rparr> (m_resolvedConnections cache)\<rparr>, w))"

text \<open>The loop that looks for the longest fresh mapping of a path.\<close>

definition matchingEntry :: "'w DfsEnv \<Rightarrow> QString \<Rightarrow> QString \<Rightarrow> 'w \<Rightarrow> DfsPathMappingCacheEntry \<Rightarrow> bool" where
  "matchingEntry env sourceKey normalizedPath w entry =
     (isCacheFresh env (dpe_expiresAtUtc entry) w \<and> dpe_mappings entry \<noteq> []
      \<and> dpm_connectionKey (hd (dpe_mappings entry)) = sourceKey
      \<and> isPathPrefix (env_qt env) (dpm_originalPrefix (hd (dpe_mappings entry))) normalizedPath)"

definition prefixLength :: "DfsPathMappingCacheEntry \<Rightarrow> nat" where
  "prefixLength entry = length (dpm_originalPrefix (hd (dpe_mappings entry)))"

fun bestEntry ::
  "(DfsPathMappingCacheEntry \<Rightarrow> bool) \<Rightarrow> DfsPathMappingCacheEntry option \<Rightarrow> DfsPathMappingCacheEntry list \<Rightarrow>
   DfsPathMappingCacheEntry option" where
  "bestEntry good best [] = best"
| "bestEntry good best (entry # entries) =
     bestEntry good
       (if \<not> good entry then best
        else case best of
            None \<Rightarrow> Some entry
          | Some b \<Rightarrow> if prefixLength b < prefixLength entry then Some entry else Some b) entries"

definition cachedResolvedPathMappings ::
  "'w DfsEnv \<Rightarrow> SavedConnection \<Rightarrow> QString \<Rightarrow> DfsCache \<times> 'w \<Rightarrow> DfsPathMapping list" where
  "cachedResolvedPathMappings env c remotePath st =
     (case bestEntry (matchingEntry env (cacheKey (env_qt env) c) (normalizeRemotePath (env_qt env) remotePath) (snd st)) None
             (map snd (m_resolvedPathMappings (fst st))) of
        None \<Rightarrow> [] | Some entry \<Rightarrow> dpe_mappings entry)"

definition cachedResolvedPathMapping ::
  "'w DfsEnv \<Rightarrow> SavedConnection \<Rightarrow> QString \<Rightarrow> DfsCache \<times> 'w \<Rightarrow> DfsPathMapping option" where
  "cachedResolvedPathMapping env c remotePath st =
     (case cachedResolvedPathMappings env c remotePath st of [] \<Rightarrow> None | m # _ \<Rightarrow> Some m)"

definition forgetCachedPathMapping :: "'w DfsEnv \<Rightarrow> SavedConnection \<Rightarrow> QString \<Rightarrow> DfsCache \<times> 'w \<Rightarrow> DfsCache \<times> 'w" where
  "forgetCachedPathMapping env c originalPrefix =
     apfst (m_resolvedPathMappings_update (AList.delete (pathCacheKey (env_qt env) c originalPrefix)))"

definition mappingOf :: "'w DfsEnv \<Rightarrow> SavedConnection \<Rightarrow> QString \<Rightarrow> 'w \<Rightarrow> DfsResolvedPath \<Rightarrow> DfsPathMapping" where
  "mappingOf env c remotePath w p =
     \<lparr>dpm_connectionKey = cacheKey (env_qt env) c,
      dpm_originalPrefix = normalizeRemotePath (env_qt env)
        (if drp_originalPathPrefix p = [] then remotePath else drp_originalPathPrefix p),
      dpm_targetConnection = drp_connection p,
      dpm_targetPrefix = normalizeRemotePath (env_qt env)
        (if drp_targetPathPrefix p = [] then [slash] else drp_targetPathPrefix p),
      dpm_expiresAtUtc = expiresAtForTtl env (drp_ttlSeconds p) w\<rparr>"

definition resolvePathAndCache ::
  "'w DfsEnv \<Rightarrow> SavedConnection \<Rightarrow> Secret \<Rightarrow> QString \<Rightarrow> 'w AppContext \<Rightarrow> DfsCache \<times> 'w \<Rightarrow> DfsPathMapping list \<times> DfsCache \<times> 'w" where
  "resolvePathAndCache env c secret remotePath ctx st =
     (let (resolved, w) = dfr_resolvePathTargets (env_resolver env) c secret remotePath ctx (snd st); cache = fst st in
      if \<not> ok resolved \<or> res_value resolved = [] then ([], cache, w)
      else
        let mappings = map (mappingOf env c remotePath w) (res_value resolved);
            expires = foldl (\<lambda>e m. earlier e (dpm_expiresAtUtc m)) None mappings in
        (mappings, cache\<lparr>m_resolvedPathMappings := AList.update (pathCacheKey (env_qt env) c (dpm_originalPrefix (hd mappings)))
            \<lparr>dpe_mappings = mappings, dpe_expiresAtUtc = expires\<rparr> (m_resolvedPathMappings cache)\<rparr>, w))"

section \<open>Falling back to the targets of a share\<close>

text \<open>A call of the delegate, which does not see the caches.\<close>

definition onDelegate :: "('a, 'w) Call \<Rightarrow> ('a, 'w) DfsCall" where
  "onDelegate call st = (let (r, w) = call (snd st) in (r, fst st, w))"

text \<open>The loops over targets end with a result, or with the last error that asks for the next target.
  A cached target whose share is gone ends its loop with \<open>None\<close> and is forgotten.\<close>

fun tryCachedTargets ::
  "'w DfsEnv \<Rightarrow> 'a \<Rightarrow> SavedConnection \<Rightarrow> (SavedConnection \<Rightarrow> ('a, 'w) DfsCall) \<Rightarrow> SavedConnection list \<Rightarrow> AppError option \<Rightarrow>
   DfsCache \<times> 'w \<Rightarrow> 'a Result option \<times> DfsCache \<times> 'w" where
  "tryCachedTargets env blank c operation [] lastError st = (map_option (failedWith blank) lastError, st)"
| "tryCachedTargets env blank c operation (t # ts) lastError st =
     (let (r, st) = operation t st in
      if ok r then (Some r, st)
      else if looksLikeShareDfsReferralFailure (env_qt env) (res_error r) then (None, forgetCachedConnection env c st)
      else if \<not> isTargetFailoverError (res_error r) then (Some r, st)
      else tryCachedTargets env blank c operation ts (Some (res_error r)) st)"

fun tryTargets ::
  "'a \<Rightarrow> (SavedConnection \<Rightarrow> ('a, 'w) DfsCall) \<Rightarrow> SavedConnection list \<Rightarrow> AppError option \<Rightarrow>
   DfsCache \<times> 'w \<Rightarrow> 'a Result option \<times> DfsCache \<times> 'w" where
  "tryTargets blank operation [] lastError st = (map_option (failedWith blank) lastError, st)"
| "tryTargets blank operation (t # ts) lastError st =
     (let (r, st) = operation t st in
      if ok r then (Some r, st)
      else if \<not> isTargetFailoverError (res_error r) then (Some r, st)
      else tryTargets blank operation ts (Some (res_error r)) st)"

definition runWithDfsFallback ::
  "'w DfsEnv \<Rightarrow> 'a \<Rightarrow> SavedConnection \<Rightarrow> Secret \<Rightarrow> 'w AppContext \<Rightarrow> (SavedConnection \<Rightarrow> ('a, 'w) DfsCall) \<Rightarrow> ('a, 'w) DfsCall" where
  "runWithDfsFallback env blank c secret ctx operation st =
     (let (early, st) = tryCachedTargets env blank c operation (cachedResolvedConnections env c st) None st in
      case early of
        Some r \<Rightarrow> (r, st)
      | None \<Rightarrow>
          let (result, st) = operation c st in
          if ok result \<or> \<not> looksLikeShareDfsReferralFailure (env_qt env) (res_error result) then (result, st)
          else
            let (targets, st) = resolveAndCache env c secret ctx st;
                (late, st) = tryTargets blank operation targets None st in
            (case late of Some r \<Rightarrow> r | None \<Rightarrow> result, st))"

section \<open>Falling back to the mappings of a path\<close>

definition someWith :: "('r \<Rightarrow> bool) \<Rightarrow> 'r option \<Rightarrow> bool" where
  "someWith P x = (case x of None \<Rightarrow> False | Some r \<Rightarrow> P r)"

text \<open>Mappings below the target of a mapping. \<open>deeper\<close> is the same search one level further down.\<close>

fun tryNestedMappings ::
  "'w DfsEnv \<Rightarrow> 'a \<Rightarrow> (SavedConnection \<Rightarrow> QString \<Rightarrow> ('a, 'w) DfsCall) \<Rightarrow> ('a \<Rightarrow> DfsPathMapping \<Rightarrow> 'a) \<Rightarrow>
   (DfsPathMapping \<Rightarrow> QString \<Rightarrow> AppError \<Rightarrow> DfsCache \<times> 'w \<Rightarrow> 'a Result option \<times> DfsCache \<times> 'w) \<Rightarrow>
   DfsPathMapping \<Rightarrow> QString \<Rightarrow> DfsPathMapping list \<Rightarrow> AppError option \<Rightarrow> DfsCache \<times> 'w \<Rightarrow>
   'a Result option \<times> DfsCache \<times> 'w" where
  "tryNestedMappings env blank operation rebase deeper outer mappedPath [] lastError st =
     (map_option (failedWith blank) lastError, st)"
| "tryNestedMappings env blank operation rebase deeper outer mappedPath (m # ms) lastError st =
     (if sameResolvedTarget (env_qt env) m outer \<or> \<not> isPathPrefix (env_qt env) (dpm_originalPrefix m) mappedPath
      then tryNestedMappings env blank operation rebase deeper outer mappedPath ms lastError st
      else
        let nestedPath = targetPathForMapping (env_qt env) m mappedPath;
            (nestedResult, st) = operation (dpm_targetConnection m) nestedPath st in
        if ok nestedResult then
          (Some (succeeded (rebase (res_value nestedResult)
             (m\<lparr>dpm_connectionKey := dpm_connectionKey outer,
                dpm_originalPrefix := originalPathForMapping (env_qt env) outer (dpm_originalPrefix m)\<rparr>))), st)
        else
          let (deeperResult, st) = deeper m nestedPath (res_error nestedResult) st in
          if someWith ok deeperResult then
            (Some (succeeded (rebase (res_value (the deeperResult)) outer)), st)
          else if someWith (\<lambda>r. \<not> isTargetFailoverError (res_error r)) deeperResult then (deeperResult, st)
          else if \<not> isTargetFailoverError (res_error nestedResult) then (Some (failedWith blank (res_error nestedResult)), st)
          else tryNestedMappings env blank operation rebase deeper outer mappedPath ms (Some (res_error nestedResult)) st)"

text \<open>The argument counts the levels left, \<open>kMaxNestedDfsDepth - depth\<close>.\<close>

primrec tryNestedPathMappings ::
  "nat \<Rightarrow> 'w DfsEnv \<Rightarrow> 'a \<Rightarrow> Secret \<Rightarrow> 'w AppContext \<Rightarrow> (SavedConnection \<Rightarrow> QString \<Rightarrow> ('a, 'w) DfsCall) \<Rightarrow>
   ('a \<Rightarrow> DfsPathMapping \<Rightarrow> 'a) \<Rightarrow> DfsPathMapping \<Rightarrow> QString \<Rightarrow> AppError \<Rightarrow> DfsCache \<times> 'w \<Rightarrow>
   'a Result option \<times> DfsCache \<times> 'w" where
  "tryNestedPathMappings 0 env blank secret ctx operation rebase outer mappedPath trigger st = (None, st)"
| "tryNestedPathMappings (Suc levels) env blank secret ctx operation rebase outer mappedPath trigger st =
     (if \<not> mayHavePathDfsReferral (env_qt env) trigger then (None, st)
      else
        let cached = cachedResolvedPathMappings env (dpm_targetConnection outer) mappedPath st;
            (mappings, st) = (if cached = [] then resolvePathAndCache env (dpm_targetConnection outer) secret mappedPath ctx st
                              else (cached, st)) in
        tryNestedMappings env blank operation rebase
          (tryNestedPathMappings levels env blank secret ctx operation rebase) outer mappedPath mappings None st)"

definition kMaxNestedDfsDepth :: nat where "kMaxNestedDfsDepth = 4"

text \<open>The two loops over the mappings of the path itself; the first, over cached ones, forgets a mapping
  that fails like a referral and gives up the cache.\<close>

fun tryCachedMappings ::
  "'w DfsEnv \<Rightarrow> 'a \<Rightarrow> SavedConnection \<Rightarrow> (SavedConnection \<Rightarrow> QString \<Rightarrow> ('a, 'w) DfsCall) \<Rightarrow> ('a \<Rightarrow> DfsPathMapping \<Rightarrow> 'a) \<Rightarrow>
   (DfsPathMapping \<Rightarrow> QString \<Rightarrow> AppError \<Rightarrow> DfsCache \<times> 'w \<Rightarrow> 'a Result option \<times> DfsCache \<times> 'w) \<Rightarrow>
   QString \<Rightarrow> DfsPathMapping list \<Rightarrow> AppError option \<Rightarrow> DfsCache \<times> 'w \<Rightarrow> 'a Result option \<times> DfsCache \<times> 'w" where
  "tryCachedMappings env blank c operation rebase nested path [] lastError st = (map_option (failedWith blank) lastError, st)"
| "tryCachedMappings env blank c operation rebase nested path (m # ms) lastError st =
     (let mappedPath = targetPathForMapping (env_qt env) m path;
          (r, st) = operation (dpm_targetConnection m) mappedPath st in
      if ok r then (Some (succeeded (rebase (res_value r) m)), st)
      else
        let (nestedResult, st) = nested m mappedPath (res_error r) st in
        if someWith (\<lambda>n. ok n \<or> \<not> isTargetFailoverError (res_error n)) nestedResult then (nestedResult, st)
        else if looksLikeDfsReferralFailure (env_qt env) (res_error r)
        then (None, forgetCachedPathMapping env c (dpm_originalPrefix m) st)
        else if \<not> isTargetFailoverError (res_error r) then (Some r, st)
        else tryCachedMappings env blank c operation rebase nested path ms (Some (res_error r)) st)"

fun tryMappings ::
  "'w DfsEnv \<Rightarrow> 'a \<Rightarrow> (SavedConnection \<Rightarrow> QString \<Rightarrow> ('a, 'w) DfsCall) \<Rightarrow> ('a \<Rightarrow> DfsPathMapping \<Rightarrow> 'a) \<Rightarrow>
   (DfsPathMapping \<Rightarrow> QString \<Rightarrow> AppError \<Rightarrow> DfsCache \<times> 'w \<Rightarrow> 'a Result option \<times> DfsCache \<times> 'w) \<Rightarrow>
   QString \<Rightarrow> DfsPathMapping list \<Rightarrow> AppError option \<Rightarrow> DfsCache \<times> 'w \<Rightarrow> 'a Result option \<times> DfsCache \<times> 'w" where
  "tryMappings env blank operation rebase nested path [] lastError st = (map_option (failedWith blank) lastError, st)"
| "tryMappings env blank operation rebase nested path (m # ms) lastError st =
     (let mappedPath = targetPathForMapping (env_qt env) m path;
          (r, st) = operation (dpm_targetConnection m) mappedPath st in
      if ok r then (Some (succeeded (rebase (res_value r) m)), st)
      else
        let (nestedResult, st) = nested m mappedPath (res_error r) st in
        if someWith (\<lambda>n. ok n \<or> \<not> isTargetFailoverError (res_error n)) nestedResult then (nestedResult, st)
        else if \<not> isTargetFailoverError (res_error r) then (Some r, st)
        else tryMappings env blank operation rebase nested path ms (Some (res_error r)) st)"

definition runWithPathDfsFallback ::
  "'w DfsEnv \<Rightarrow> 'a \<Rightarrow> SavedConnection \<Rightarrow> Secret \<Rightarrow> QString \<Rightarrow> 'w AppContext \<Rightarrow>
   (SavedConnection \<Rightarrow> QString \<Rightarrow> ('a, 'w) DfsCall) \<Rightarrow> ('a \<Rightarrow> DfsPathMapping \<Rightarrow> 'a) \<Rightarrow> ('a, 'w) DfsCall" where
  "runWithPathDfsFallback env blank c secret remotePath ctx operation rebase st =
     (let path = normalizeRemotePath (env_qt env) remotePath;
          nested = tryNestedPathMappings kMaxNestedDfsDepth env blank secret ctx operation rebase;
          (early, st) = tryCachedMappings env blank c operation rebase nested path (cachedResolvedPathMappings env c path st) None st in
      case early of
        Some r \<Rightarrow> (r, st)
      | None \<Rightarrow>
          let (result, st) = runWithDfsFallback env blank c secret ctx (\<lambda>candidate. operation candidate path) st in
          if ok result \<or> \<not> mayHavePathDfsReferral (env_qt env) (res_error result) then (result, st)
          else
            let (mappings, st) = resolvePathAndCache env c secret path ctx st;
                (late, st) = tryMappings env blank operation rebase nested path mappings None st in
            (case late of Some r \<Rightarrow> r | None \<Rightarrow> result, st))"

section \<open>The operations\<close>

definition keepValue :: "bool \<Rightarrow> DfsPathMapping \<Rightarrow> bool" where "keepValue v m = v"

definition dfsCapabilities :: "'w DfsEnv \<Rightarrow> SavedConnection \<Rightarrow> SmbClientCapabilities" where
  "dfsCapabilities env c = smc_capabilities (env_delegate env) c"

definition dfsProbeCapabilities :: "'w DfsEnv \<Rightarrow> SavedConnection \<Rightarrow> Secret \<Rightarrow> 'w AppContext \<Rightarrow> (SmbCapabilityReport, 'w) DfsCall" where
  "dfsProbeCapabilities env c secret ctx = onDelegate (smc_probeCapabilities (env_delegate env) c secret ctx)"

definition dfsListShares :: "'w DfsEnv \<Rightarrow> SavedConnection \<Rightarrow> Secret \<Rightarrow> 'w AppContext \<Rightarrow> (SmbShareInfo list, 'w) DfsCall" where
  "dfsListShares env c secret ctx = onDelegate (smc_listShares (env_delegate env) c secret ctx)"

definition dfsCheckConnection :: "'w DfsEnv \<Rightarrow> SavedConnection \<Rightarrow> Secret \<Rightarrow> 'w AppContext \<Rightarrow> (bool, 'w) DfsCall" where
  "dfsCheckConnection env c secret ctx =
     runWithDfsFallback env False c secret ctx (\<lambda>candidate. onDelegate (smc_checkConnection (env_delegate env) candidate secret ctx))"

definition dfsListDirectory ::
  "'w DfsEnv \<Rightarrow> SavedConnection \<Rightarrow> Secret \<Rightarrow> QString \<Rightarrow> 'w AppContext \<Rightarrow> (RemoteFileEntry list, 'w) DfsCall" where
  "dfsListDirectory env c secret remotePath ctx =
     runWithPathDfsFallback env [] c secret remotePath ctx
       (\<lambda>candidate path. onDelegate (smc_listDirectory (env_delegate env) candidate secret path ctx))
       (rebaseEntriesToOriginalNamespace (env_qt env))"

definition dfsCreateDirectory :: "'w DfsEnv \<Rightarrow> SavedConnection \<Rightarrow> Secret \<Rightarrow> QString \<Rightarrow> 'w AppContext \<Rightarrow> (bool, 'w) DfsCall" where
  "dfsCreateDirectory env c secret remotePath ctx =
     runWithPathDfsFallback env False c secret remotePath ctx
       (\<lambda>candidate path. onDelegate (smc_createDirectory (env_delegate env) candidate secret path ctx)) keepValue"

definition dfsRemove :: "'w DfsEnv \<Rightarrow> SavedConnection \<Rightarrow> Secret \<Rightarrow> QString \<Rightarrow> 'w AppContext \<Rightarrow> (bool, 'w) DfsCall" where
  "dfsRemove env c secret remotePath ctx =
     runWithPathDfsFallback env False c secret remotePath ctx
       (\<lambda>candidate path. onDelegate (smc_remove (env_delegate env) candidate secret path ctx)) keepValue"

definition dfsDownloadFile ::
  "'w DfsEnv \<Rightarrow> SavedConnection \<Rightarrow> Secret \<Rightarrow> QString \<Rightarrow> QString \<Rightarrow> 'w AppContext \<Rightarrow> (bool, 'w) DfsCall" where
  "dfsDownloadFile env c secret remotePath localPath ctx =
     runWithPathDfsFallback env False c secret remotePath ctx
       (\<lambda>candidate path. onDelegate (smc_downloadFile (env_delegate env) candidate secret path localPath ctx)) keepValue"

definition dfsUploadFile ::
  "'w DfsEnv \<Rightarrow> SavedConnection \<Rightarrow> Secret \<Rightarrow> QString \<Rightarrow> QString \<Rightarrow> 'w AppContext \<Rightarrow> (bool, 'w) DfsCall" where
  "dfsUploadFile env c secret localPath remotePath ctx =
     runWithPathDfsFallback env False c secret remotePath ctx
       (\<lambda>candidate path. onDelegate (smc_uploadFile (env_delegate env) candidate secret localPath path ctx)) keepValue"

definition renameWithReferrals ::
  "'w DfsEnv \<Rightarrow> SavedConnection \<Rightarrow> Secret \<Rightarrow> QString \<Rightarrow> QString \<Rightarrow> 'w AppContext \<Rightarrow> (bool, 'w) DfsCall" where
  "renameWithReferrals env c secret sourcePath targetPath ctx st =
     (let (result, st) = runWithDfsFallback env False c secret ctx
            (\<lambda>candidate. onDelegate (smc_rename (env_delegate env) candidate secret sourcePath targetPath ctx)) st in
      if ok result \<or> \<not> looksLikePathDfsReferralFailure (env_qt env) (res_error result) then (result, st)
      else
        let (mappings, st) = resolvePathAndCache env c secret sourcePath ctx st in
        case mappings of
          [] \<Rightarrow> (result, st)
        | m # _ \<Rightarrow>
            let mappedTarget = (if isPathPrefix (env_qt env) (dpm_originalPrefix m) targetPath
                                then targetPathForMapping (env_qt env) m targetPath else targetPath) in
            onDelegate (smc_rename (env_delegate env) (dpm_targetConnection m) secret
              (targetPathForMapping (env_qt env) m sourcePath) mappedTarget ctx) st)"

definition dfsRename ::
  "'w DfsEnv \<Rightarrow> SavedConnection \<Rightarrow> Secret \<Rightarrow> QString \<Rightarrow> QString \<Rightarrow> 'w AppContext \<Rightarrow> (bool, 'w) DfsCall" where
  "dfsRename env c secret sourceRemotePath targetRemotePath ctx st =
     (let sourcePath = normalizeRemotePath (env_qt env) sourceRemotePath;
          targetPath = normalizeRemotePath (env_qt env) targetRemotePath in
      case (cachedResolvedPathMapping env c sourcePath st, cachedResolvedPathMapping env c targetPath st) of
        (Some source, Some target) \<Rightarrow>
          if sameResolvedTarget (env_qt env) source target then
            let (r, st) = onDelegate (smc_rename (env_delegate env) (dpm_targetConnection source) secret
                  (targetPathForMapping (env_qt env) source sourcePath) (targetPathForMapping (env_qt env) target targetPath) ctx) st in
            if ok r \<or> \<not> looksLikeDfsReferralFailure (env_qt env) (res_error r) then (r, st)
            else renameWithReferrals env c secret sourcePath targetPath ctx
                   (forgetCachedPathMapping env c (dpm_originalPrefix target)
                     (forgetCachedPathMapping env c (dpm_originalPrefix source) st))
          else renameWithReferrals env c secret sourcePath targetPath ctx st
      | _ \<Rightarrow> renameWithReferrals env c secret sourcePath targetPath ctx st)"

text \<open>Where one end of a copy or a move goes: the cached mapping of its path, else the cached target of
  its share, else the connection itself.\<close>

definition cachedEnd :: "'w DfsEnv \<Rightarrow> SavedConnection \<Rightarrow> QString \<Rightarrow> DfsCache \<times> 'w \<Rightarrow> SavedConnection \<times> QString" where
  "cachedEnd env c path st = (case cachedResolvedPathMapping env c path st of
     Some m \<Rightarrow> (dpm_targetConnection m, targetPathForMapping (env_qt env) m path)
   | None \<Rightarrow> (case cachedResolvedConnection env c st of Some t \<Rightarrow> t | None \<Rightarrow> c, path))"

definition resolvedEnd :: "'w DfsEnv \<Rightarrow> DfsPathMapping list \<Rightarrow> QString \<Rightarrow> SavedConnection \<times> QString \<Rightarrow> SavedConnection \<times> QString" where
  "resolvedEnd env mappings path before = (case mappings of
     [] \<Rightarrow> before | m # _ \<Rightarrow> (dpm_targetConnection m, targetPathForMapping (env_qt env) m path))"

text \<open>The bodies of \<open>copy\<close> and \<open>move\<close> differ in the call of the delegate only.\<close>

definition transferBetween ::
  "(SavedConnection \<Rightarrow> Secret \<Rightarrow> QString \<Rightarrow> SavedConnection \<Rightarrow> Secret \<Rightarrow> QString \<Rightarrow> 'w AppContext \<Rightarrow> (bool, 'w) Call) \<Rightarrow>
   'w DfsEnv \<Rightarrow> SavedConnection \<Rightarrow> Secret \<Rightarrow> QString \<Rightarrow> SavedConnection \<Rightarrow> Secret \<Rightarrow> QString \<Rightarrow> 'w AppContext \<Rightarrow> (bool, 'w) DfsCall" where
  "transferBetween operation env sourceC sourceSecret sourceRemotePath targetC targetSecret targetRemotePath ctx st =
     (let originalSource = normalizeRemotePath (env_qt env) sourceRemotePath;
          originalTarget = normalizeRemotePath (env_qt env) targetRemotePath;
          (source, sourcePath) = cachedEnd env sourceC originalSource st;
          (target, targetPath) = cachedEnd env targetC originalTarget st;
          (result, st) = onDelegate (operation source sourceSecret sourcePath target targetSecret targetPath ctx) st in
      if ok result then (result, st)
      else if looksLikePathDfsReferralFailure (env_qt env) (res_error result) then
        let (sourceMappings, st) = resolvePathAndCache env sourceC sourceSecret originalSource ctx st;
            (targetMappings, st) = resolvePathAndCache env targetC targetSecret
               (parentRemotePath (env_qt env) originalTarget) ctx st;
            (source, sourcePath) = resolvedEnd env sourceMappings originalSource (source, sourcePath);
            (target, targetPath) = resolvedEnd env targetMappings originalTarget (target, targetPath) in
        onDelegate (operation source sourceSecret sourcePath target targetSecret targetPath ctx) st
      else if \<not> looksLikeShareDfsReferralFailure (env_qt env) (res_error result) then (result, st)
      else
        let (sources, st) = resolveAndCache env sourceC sourceSecret ctx st;
            (targets, st) = resolveAndCache env targetC targetSecret ctx st in
        onDelegate (operation (case sources of [] \<Rightarrow> sourceC | s # _ \<Rightarrow> s) sourceSecret originalSource
          (case targets of [] \<Rightarrow> targetC | t # _ \<Rightarrow> t) targetSecret originalTarget ctx) st)"

definition dfsCopy ::
  "'w DfsEnv \<Rightarrow> SavedConnection \<Rightarrow> Secret \<Rightarrow> QString \<Rightarrow> SavedConnection \<Rightarrow> Secret \<Rightarrow> QString \<Rightarrow> 'w AppContext \<Rightarrow> (bool, 'w) DfsCall" where
  "dfsCopy env = transferBetween (smc_copy (env_delegate env)) env"

definition dfsMove ::
  "'w DfsEnv \<Rightarrow> SavedConnection \<Rightarrow> Secret \<Rightarrow> QString \<Rightarrow> SavedConnection \<Rightarrow> Secret \<Rightarrow> QString \<Rightarrow> 'w AppContext \<Rightarrow> (bool, 'w) DfsCall" where
  "dfsMove env = transferBetween (smc_move (env_delegate env)) env"

section \<open>Canonical paths\<close>

definition canonical :: "QtText \<Rightarrow> QString \<Rightarrow> bool" where
  "canonical qt p \<longleftrightarrow> p = [slash] \<or> startsWith p [slash] \<and> last p \<noteq> slash \<and> \<not> qt_isSpace qt (last p)
     \<and> \<not> containsText p doubleSlash \<and> backslash \<notin> set p"

lemma startsWith_slash: "startsWith s [slash] \<longleftrightarrow> s \<noteq> [] \<and> hd s = slash"
  by (cases s) (auto simp: startsWith_def)

lemma startsWith_append: "startsWith (p @ s) (p @ q) \<longleftrightarrow> startsWith s q"
  by (simp add: startsWith_def)

lemma startsWith_iff: "startsWith s p \<longleftrightarrow> (\<exists>t. s = p @ t)"
  by (auto simp: startsWith_def) (metis append_take_drop_id)

lemma chopSlashes_id: "s = [slash] \<or> s = [] \<or> last s \<noteq> slash \<Longrightarrow> chopSlashes s = s"
  by (cases s rule: rev_cases) (auto simp: chopSlashes_def Let_def)

lemma canonical_hd: "canonical qt p \<Longrightarrow> p \<noteq> [] \<and> hd p = slash"
  by (auto simp: canonical_def startsWith_slash)

lemma normalize_canonical:
  assumes "\<not> qt_isSpace qt slash" "canonical qt p"
  shows "normalizeRemotePath qt p = p"
proof (cases "p = [slash]")
  case True
  then show ?thesis using assms(1)
    by (simp add: normalizeRemotePath_def trimmed_id forwardSlashes_def collapseSlashes.simps chopSlashes_id withLeadingSlash_def
        startsWith_def)
next
  case False
  then have p: "startsWith p [slash]" "last p \<noteq> slash" "\<not> qt_isSpace qt (last p)" "\<not> containsText p doubleSlash" "backslash \<notin> set p"
    using assms(2) by (auto simp: canonical_def)
  then have "trimmed qt p = p" using assms(1) by (intro trimmed_id) (auto simp: startsWith_slash)
  then show ?thesis
    using p by (simp add: normalizeRemotePath_def forwardSlashes_id collapseSlashes.simps chopSlashes_id withLeadingSlash_def startsWith_slash)
qed

lemma containsText_append:
  "containsText (s @ t) doubleSlash \<longleftrightarrow>
     containsText s doubleSlash \<or> containsText t doubleSlash \<or> s \<noteq> [] \<and> t \<noteq> [] \<and> last s = slash \<and> hd t = slash"
proof (induction s)
  case (Cons a s)
  then show ?case by (cases s; cases t) auto
qed simp

text \<open>A suffix that may follow a prefix: nothing, or a path of its own.\<close>

lemma suffix_of_canonical:
  assumes "\<not> qt_isSpace qt slash" "canonical qt prefix" "canonical qt p" "isPathPrefix qt prefix p"
  defines "s \<equiv> suffixAfterPrefix qt p prefix"
  shows "s = [] \<or> canonical qt s \<and> s \<noteq> [slash]"
    and "p = (if s = [] then prefix else if prefix = [slash] then s else prefix @ s)"
proof -
  note n = normalize_canonical [OF assms(1,2)] normalize_canonical [OF assms(1,3)]
  show "s = [] \<or> canonical qt s \<and> s \<noteq> [slash]"
  proof (cases "prefix = [slash] \<or> p = prefix")
    case True
    then show ?thesis using assms(3) by (auto simp: s_def suffixAfterPrefix_def n)
  next
    case False
    then obtain t where t: "p = prefix @ slash # t" using assms(4) by (auto simp: isPathPrefix_def n startsWith_iff)
    have n': "normalizeRemotePath qt (prefix @ slash # t) = prefix @ slash # t" using n(2) t by simp
    have "s = slash # t" using False t by (simp add: s_def suffixAfterPrefix_def n(1) n' startsWith_append startsWith_slash Let_def)
    moreover have "p \<noteq> [slash]" using t canonical_hd [OF assms(2)] by (cases prefix) auto
    ultimately show ?thesis
      using assms(3) t by (auto simp: canonical_def startsWith_slash containsText_append)
  qed
  have s: "s = (if prefix = [slash] then (if p = [slash] then [] else p) else if p = prefix then []
      else if \<not> startsWith p (prefix @ [slash]) then [] else drop (length prefix) p)"
    by (simp add: s_def suffixAfterPrefix_def n Let_def)
  show "p = (if s = [] then prefix else if prefix = [slash] then s else prefix @ s)"
  proof (cases "prefix = [slash]")
    case True
    then show ?thesis using canonical_hd [OF assms(3)] by (simp add: s)
  next
    case False
    then have "p = prefix \<or> startsWith p (prefix @ [slash])" using assms(4) by (simp add: isPathPrefix_def n Let_def)
    then show ?thesis using False by (auto simp: s startsWith_iff)
  qed
qed

lemma join_canonical:
  assumes "\<not> qt_isSpace qt slash" "canonical qt prefix" "s = [] \<or> canonical qt s \<and> s \<noteq> [slash]"
  shows "joinRemotePath qt prefix s = (if s = [] then prefix else if prefix = [slash] then s else prefix @ s)"
    and "canonical qt (joinRemotePath qt prefix s)"
    and "isPathPrefix qt prefix (joinRemotePath qt prefix s)"
    and "suffixAfterPrefix qt (joinRemotePath qt prefix s) prefix = s"
proof -
  note n = normalize_canonical [OF assms(1,2)]
  show join: "joinRemotePath qt prefix s = (if s = [] then prefix else if prefix = [slash] then s else prefix @ s)"
    using assms(3) by (auto simp: joinRemotePath_def n canonical_def withLeadingSlash_def forwardSlashes_id chopSlashes_id)
  show c: "canonical qt (joinRemotePath qt prefix s)"
    unfolding join using assms(2,3) by (auto simp: canonical_def startsWith_slash containsText_append)
  note n' = n normalize_canonical [OF assms(1) c]
  show "isPathPrefix qt prefix (joinRemotePath qt prefix s)"
    unfolding isPathPrefix_def Let_def n' unfolding join using assms(3) canonical_hd [of qt s]
    by (cases s) (auto simp: startsWith_append startsWith_slash)
  show "suffixAfterPrefix qt (joinRemotePath qt prefix s) prefix = s"
    unfolding suffixAfterPrefix_def Let_def n' unfolding join using assms(3) canonical_hd [of qt s]
    by (cases s) (auto simp: startsWith_append startsWith_slash)
qed

definition canonicalMapping :: "QtText \<Rightarrow> DfsPathMapping \<Rightarrow> bool" where
  "canonicalMapping qt m \<longleftrightarrow> canonical qt (dpm_originalPrefix m) \<and> canonical qt (dpm_targetPrefix m)"

text \<open>C27: a path below the prefix of a mapping is translated to a path below the prefix of its target, and
  what the target lists there is translated back to exactly the path it came from, for canonical
  paths and every kind of prefix, the root included.\<close>

theorem dfs_mapping_roundtrip:
  assumes "\<not> qt_isSpace qt slash" "canonicalMapping qt m" "canonical qt p" "isPathPrefix qt (dpm_originalPrefix m) p"
  shows "originalPathForMapping qt m (targetPathForMapping qt m p) = p
    \<and> isPathPrefix qt (dpm_targetPrefix m) (targetPathForMapping qt m p) \<and> canonical qt (targetPathForMapping qt m p)"
proof -
  have o: "canonical qt (dpm_originalPrefix m)" and t: "canonical qt (dpm_targetPrefix m)"
    using assms(2) by (simp_all add: canonicalMapping_def)
  note s = suffix_of_canonical [OF assms(1) o assms(3,4)]
  note to = join_canonical [OF assms(1) t s(1)] and original = join_canonical(1) [OF assms(1) o s(1)]
  show ?thesis
    unfolding originalPathForMapping_def targetPathForMapping_def to(4) original using to(2,3) s(2) by simp
qed

definition departmentMapping :: DfsPathMapping where
  "departmentMapping = \<lparr>dpm_connectionKey = [], dpm_originalPrefix = latin1 ''/dept'', dpm_targetConnection = createEmpty,
     dpm_targetPrefix = latin1 ''/data/d1'', dpm_expiresAtUtc = None\<rparr>"

lemma department_canonical:
  "\<not> qt_isSpace asciiText slash" "canonicalMapping asciiText departmentMapping" "canonical asciiText (latin1 ''/dept/a'')"
  "isPathPrefix asciiText (dpm_originalPrefix departmentMapping) (latin1 ''/dept/a'')"
  by code_simp+

theorem dfs_mapping_roundtrip_witness:
  "originalPathForMapping asciiText departmentMapping (targetPathForMapping asciiText departmentMapping (latin1 ''/dept/a'')) =
     latin1 ''/dept/a''"
  using dfs_mapping_roundtrip [OF department_canonical] by blast

text \<open>Normalizing once is not enough: the blank before a trailing slash is left over, and is removed the
  next time, so such a path has several cache keys.\<close>

lemma normalizing_twice_differs:
  "normalizeRemotePath asciiText (latin1 ''/a /'') = latin1 ''/a ''"
  "normalizeRemotePath asciiText (latin1 ''/a '') = latin1 ''/a''"
  by code_simp+

text \<open>The mapping composed for a nested referral is wrong when the prefix of the inner one does not lie
  below the target of the outer one, as the prefix \<open>/\<close> a resolver without paths gives: the listing of
  \<open>/dept/x\<close> names \<open>/dept/data/d1/x/f\<close>.\<close>

lemma nested_root_mapping_misplaced:
  "let inner = departmentMapping\<lparr>dpm_originalPrefix := [slash], dpm_targetPrefix := [slash]\<rparr>;
       listed = targetPathForMapping asciiText inner (targetPathForMapping asciiText departmentMapping (latin1 ''/dept/x'')) in
   listed = latin1 ''/data/d1/x''
   \<and> originalPathForMapping asciiText
       (inner\<lparr>dpm_originalPrefix := originalPathForMapping asciiText departmentMapping (dpm_originalPrefix inner)\<rparr>)
       (listed @ latin1 ''/f'') = latin1 ''/dept/data/d1/x/f''"
  by code_simp

section \<open>The longest fresh mapping\<close>

text \<open>The path cache as \<open>resolvePathAndCache\<close> fills it.\<close>

definition pathCacheSound :: "QtText \<Rightarrow> DfsCache \<Rightarrow> bool" where
  "pathCacheSound qt cache \<longleftrightarrow> distinct (map fst (m_resolvedPathMappings cache))
     \<and> (\<forall>k entry. (k, entry) \<in> set (m_resolvedPathMappings cache) \<longrightarrow> dpe_mappings entry \<noteq> []
          \<and> k = dpm_connectionKey (hd (dpe_mappings entry)) @ [10]
                @ normalizeRemotePath qt (dpm_originalPrefix (hd (dpe_mappings entry)))
          \<and> (\<exists>t. dpe_expiresAtUtc entry = Some t
               \<and> (\<forall>m\<in>set (dpe_mappings entry). \<exists>u. dpm_expiresAtUtc m = Some u \<and> t \<le> u)))"

lemma pathCacheSound_key:
  assumes "pathCacheSound qt cache" "(k, entry) \<in> set (m_resolvedPathMappings cache)"
  shows "k = dpm_connectionKey (hd (dpe_mappings entry)) @ [10] @ normalizeRemotePath qt (dpm_originalPrefix (hd (dpe_mappings entry)))"
  using assms unfolding pathCacheSound_def by fast

lemma bestEntry_Some:
  "bestEntry good best es = Some e \<Longrightarrow> (\<forall>b. best = Some b \<longrightarrow> good b) \<Longrightarrow>
   good e \<and> (best = Some e \<or> e \<in> set es) \<and> (\<forall>b. best = Some b \<longrightarrow> prefixLength b \<le> prefixLength e)
     \<and> (\<forall>x\<in>set es. good x \<longrightarrow> prefixLength x \<le> prefixLength e)"
proof (induction es arbitrary: best)
  case (Cons x es)
  define chosen where "chosen = (if \<not> good x then best
    else case best of None \<Rightarrow> Some x | Some b \<Rightarrow> if prefixLength b < prefixLength x then Some x else Some b)"
  have picked: "\<forall>b. chosen = Some b \<longrightarrow> good b" "chosen = best \<or> chosen = Some x"
    using Cons.prems(2) by (auto simp: chosen_def split: option.splits)
  have longer: "\<forall>b. best = Some b \<longrightarrow> (\<exists>c. chosen = Some c \<and> prefixLength b \<le> prefixLength c)"
    "good x \<longrightarrow> (\<exists>c. chosen = Some c \<and> prefixLength x \<le> prefixLength c)"
    by (auto simp: chosen_def split: option.splits)
  have "bestEntry good chosen es = Some e" using Cons.prems(1) by (simp add: chosen_def)
  from Cons.IH [OF this picked(1)] have e: "good e" "chosen = Some e \<or> e \<in> set es"
    "\<And>b. chosen = Some b \<Longrightarrow> prefixLength b \<le> prefixLength e" "\<forall>y\<in>set es. good y \<longrightarrow> prefixLength y \<le> prefixLength e"
    by blast+
  have "best = Some e \<or> e \<in> set (x # es)" using e(2) picked(2) by auto
  moreover have "\<forall>b. best = Some b \<longrightarrow> prefixLength b \<le> prefixLength e" using longer(1) e(3) by fastforce
  moreover have "good x \<longrightarrow> prefixLength x \<le> prefixLength e" using longer(2) e(3) by fastforce
  ultimately show ?case using e(1,4) by simp
qed simp

lemma bestEntry_None: "bestEntry good best es = None \<Longrightarrow> best = None \<and> (\<forall>x\<in>set es. \<not> good x)"
proof (induction es arbitrary: best)
  case (Cons x es)
  from Cons.IH [OF Cons.prems [unfolded bestEntry.simps]] show ?case by (auto split: if_split_asm option.split_asm)
qed simp

lemma same_length_prefix:
  assumes "\<not> qt_isSpace qt slash" "canonical qt a" "canonical qt b" "canonical qt p" "isPathPrefix qt a p" "isPathPrefix qt b p"
    and "length a = length b"
  shows "a = b"
proof -
  have "take (length x) p = x" if x: "canonical qt x" "isPathPrefix qt x p" for x
  proof -
    have "x = [slash] \<or> p = x \<or> startsWith p (x @ [slash])"
      using x(2) by (simp add: isPathPrefix_def normalize_canonical [OF assms(1) x(1)] normalize_canonical [OF assms(1,4)] Let_def)
    moreover have "take 1 p = [slash]" using canonical_hd [OF assms(4)] by (cases p) auto
    ultimately show ?thesis by (auto simp: startsWith_iff)
  qed
  from this [OF assms(2,5)] this [OF assms(3,6)] show ?thesis using assms(7) by metis
qed

text \<open>C26: the mappings taken from the cache for a path are those of the longest fresh prefix of the path
  that was cached for the connection, whatever the order in which the hash table is walked: an entry
  that matches and is not shorter than any other that matches is the one that is used.\<close>

theorem longest_mapping_wins:
  assumes "\<not> qt_isSpace (env_qt env) slash" "pathCacheSound (env_qt env) cache" "canonical (env_qt env) path"
    and "\<forall>(k, e)\<in>set (m_resolvedPathMappings cache). canonical (env_qt env) (dpm_originalPrefix (hd (dpe_mappings e)))"
    and "(key, entry) \<in> set (m_resolvedPathMappings cache)" "matchingEntry env (cacheKey (env_qt env) c) path w entry"
    and "\<forall>(k, e)\<in>set (m_resolvedPathMappings cache).
           matchingEntry env (cacheKey (env_qt env) c) path w e \<longrightarrow> prefixLength e \<le> prefixLength entry"
  shows "cachedResolvedPathMappings env c path (cache, w) = dpe_mappings entry"
proof -
  let ?qt = "env_qt env" and ?good = "matchingEntry env (cacheKey (env_qt env) c) path w"
  have entry: "entry \<in> set (map snd (m_resolvedPathMappings cache))" using assms(5) by force
  then obtain best where best: "bestEntry ?good None (map snd (m_resolvedPathMappings cache)) = Some best"
    using bestEntry_None assms(6) by (cases "bestEntry ?good None (map snd (m_resolvedPathMappings cache))") blast+
  from bestEntry_Some [OF this] have b: "?good best" "prefixLength entry \<le> prefixLength best"
    "best \<in> set (map snd (m_resolvedPathMappings cache))" using entry assms(6) by auto
  then obtain k where k: "(k, best) \<in> set (m_resolvedPathMappings cache)" by auto
  then have "prefixLength best = prefixLength entry" using assms(7) b by fastforce
  moreover have "canonical ?qt (dpm_originalPrefix (hd (dpe_mappings best)))" "canonical ?qt (dpm_originalPrefix (hd (dpe_mappings entry)))"
    using assms(4,5) k by auto
  ultimately have "dpm_originalPrefix (hd (dpe_mappings best)) = dpm_originalPrefix (hd (dpe_mappings entry))"
    using same_length_prefix [OF assms(1)] assms(3,6) b(1) unfolding matchingEntry_def prefixLength_def by blast
  moreover have "dpm_connectionKey (hd (dpe_mappings best)) = dpm_connectionKey (hd (dpe_mappings entry))"
    using assms(6) b(1) by (simp add: matchingEntry_def)
  ultimately have "k = key" using pathCacheSound_key [OF assms(2) k] pathCacheSound_key [OF assms(2,5)] by simp
  moreover have "distinct (map fst (m_resolvedPathMappings cache))" using assms(2) by (simp add: pathCacheSound_def)
  ultimately have "best = entry" using eq_key_imp_eq_value k assms(5) by fast
  then show ?thesis
    using best by (simp add: cachedResolvedPathMappings_def normalize_canonical [OF assms(1,3)])
qed

text \<open>A client that logs the connections it is used with, and answers for one server only, and a resolver
  that sends every connection there.\<close>

definition loggingCall :: "'a \<Rightarrow> SavedConnection \<Rightarrow> ('a, SavedConnection list) Call" where
  "loggingCall v c w = (if con_server c = latin1 ''dc2'' then succeeded v
     else failedWith v (fromCode AeShareUnavailable CatSmb (latin1 ''bad network name'') True), w @ [c])"

definition loggingClient :: "SavedConnection list SmbClient" where
  "loggingClient = \<lparr>smc_capabilities = \<lambda>c. defaultCapabilities, smc_probeCapabilities = \<lambda>c s ctx. loggingCall emptyReport c,
     smc_listShares = \<lambda>c s ctx. loggingCall [] c, smc_checkConnection = \<lambda>c s ctx. loggingCall True c,
     smc_listDirectory = \<lambda>c s p ctx. loggingCall [] c, smc_createDirectory = \<lambda>c s p ctx. loggingCall True c,
     smc_remove = \<lambda>c s p ctx. loggingCall True c, smc_rename = \<lambda>c s p q ctx. loggingCall True c,
     smc_downloadFile = \<lambda>c s p q ctx. loggingCall True c, smc_uploadFile = \<lambda>c s p q ctx. loggingCall True c,
     smc_copy = \<lambda>c s p d t q ctx w. loggingCall True c (w @ [d]), smc_move = \<lambda>c s p d t q ctx w. loggingCall True c (w @ [d])\<rparr>"

definition dc2 :: SavedConnection where "dc2 = createEmpty\<lparr>con_server := latin1 ''dc2''\<rparr>"

definition dc2Resolver :: "'w DfsReferralResolver" where
  "dc2Resolver = \<lparr>dfr_resolve = \<lambda>c s ctx w. (succeeded (Some dc2), w),
     dfr_resolveTargets = \<lambda>c s ctx w. (succeeded [\<lparr>drc_connection = dc2, drc_ttlSeconds = 300\<rparr>], w),
     dfr_resolvePath = \<lambda>c s p ctx w. (succeeded None, w), dfr_resolvePathTargets = \<lambda>c s p ctx w. (succeeded [], w)\<rparr>"

definition loggingEnv :: "SavedConnection list DfsEnv" where
  "loggingEnv = \<lparr>env_qt = asciiText, env_delegate = loggingClient, env_resolver = dc2Resolver, env_now = \<lambda>w. 0\<rparr>"

abbreviation noCallbacks :: "'w AppContext" where "noCallbacks \<equiv> \<lparr>apc_cancelled = None, apc_progress = None\<rparr>"

definition rootEntry :: DfsPathMappingCacheEntry where
  "rootEntry = \<lparr>dpe_mappings = [departmentMapping\<lparr>dpm_connectionKey := cacheKey asciiText createEmpty, dpm_originalPrefix := [slash],
     dpm_expiresAtUtc := Some 9\<rparr>], dpe_expiresAtUtc = Some 9\<rparr>"

definition departmentEntry :: DfsPathMappingCacheEntry where
  "departmentEntry = \<lparr>dpe_mappings = [departmentMapping\<lparr>dpm_connectionKey := cacheKey asciiText createEmpty, dpm_expiresAtUtc := Some 9\<rparr>],
     dpe_expiresAtUtc = Some 9\<rparr>"

definition twoPrefixes :: DfsCache where
  "twoPrefixes = \<lparr>m_resolvedConnections = [], m_resolvedPathMappings =
     [(pathCacheKey asciiText createEmpty [slash], rootEntry), (pathCacheKey asciiText createEmpty (latin1 ''/dept''), departmentEntry)]\<rparr>"

lemma twoPrefixes_sound:
  "pathCacheSound asciiText twoPrefixes"
  "\<forall>(k, e)\<in>set (m_resolvedPathMappings twoPrefixes). canonical asciiText (dpm_originalPrefix (hd (dpe_mappings e)))"
  "\<forall>(k, e)\<in>set (m_resolvedPathMappings twoPrefixes). prefixLength e \<le> prefixLength departmentEntry"
proof -
  have keys: "pathCacheKey asciiText createEmpty [slash] = cacheKey asciiText createEmpty @ [10] @ normalizeRemotePath asciiText [slash]"
    "pathCacheKey asciiText createEmpty (latin1 ''/dept'') = cacheKey asciiText createEmpty @ [10] @ normalizeRemotePath asciiText (latin1 ''/dept'')"
    by (simp_all add: pathCacheKey_def)
  have "pathCacheKey asciiText createEmpty [slash] \<noteq> pathCacheKey asciiText createEmpty (latin1 ''/dept'')" by code_simp
  then show "pathCacheSound asciiText twoPrefixes"
    by (auto simp: pathCacheSound_def twoPrefixes_def rootEntry_def departmentEntry_def departmentMapping_def keys)
  show "\<forall>(k, e)\<in>set (m_resolvedPathMappings twoPrefixes). canonical asciiText (dpm_originalPrefix (hd (dpe_mappings e)))" by code_simp
  show "\<forall>(k, e)\<in>set (m_resolvedPathMappings twoPrefixes). prefixLength e \<le> prefixLength departmentEntry" by code_simp
qed

theorem longest_mapping_wins_witness:
  "cachedResolvedPathMappings loggingEnv createEmpty (latin1 ''/dept/a'') (twoPrefixes, []) = dpe_mappings departmentEntry"
proof -
  have env: "env_qt loggingEnv = asciiText" by (simp add: loggingEnv_def)
  show ?thesis
  proof (rule longest_mapping_wins)
    show "\<not> qt_isSpace (env_qt loggingEnv) slash" by code_simp
    show "pathCacheSound (env_qt loggingEnv) twoPrefixes" unfolding env by (rule twoPrefixes_sound)
    show "canonical (env_qt loggingEnv) (latin1 ''/dept/a'')" by code_simp
    show "\<forall>(k, e)\<in>set (m_resolvedPathMappings twoPrefixes). canonical (env_qt loggingEnv) (dpm_originalPrefix (hd (dpe_mappings e)))"
      unfolding env by (rule twoPrefixes_sound)
    show "(pathCacheKey asciiText createEmpty (latin1 ''/dept''), departmentEntry) \<in> set (m_resolvedPathMappings twoPrefixes)"
      by (simp add: twoPrefixes_def)
    show "matchingEntry loggingEnv (cacheKey (env_qt loggingEnv) createEmpty) (latin1 ''/dept/a'') [] departmentEntry"
      by code_simp
    show "\<forall>(k, e)\<in>set (m_resolvedPathMappings twoPrefixes).
        matchingEntry loggingEnv (cacheKey (env_qt loggingEnv) createEmpty) (latin1 ''/dept/a'') [] e \<longrightarrow>
        prefixLength e \<le> prefixLength departmentEntry"
      using twoPrefixes_sound(3) by blast
  qed
qed

section \<open>Where a client goes\<close>

text \<open>The caches name allowed connections only, and the world satisfies \<open>I\<close>.\<close>

definition cacheConfined :: "(SavedConnection \<Rightarrow> bool) \<Rightarrow> DfsCache \<Rightarrow> bool" where
  "cacheConfined allowed cache \<longleftrightarrow>
     (\<forall>k e. (k, e) \<in> set (m_resolvedConnections cache) \<longrightarrow> (\<forall>t\<in>set (dce_targets e). allowed t))
     \<and> (\<forall>k e. (k, e) \<in> set (m_resolvedPathMappings cache) \<longrightarrow> (\<forall>m\<in>set (dpe_mappings e). allowed (dpm_targetConnection m)))"

definition safeState :: "QtText \<Rightarrow> (SavedConnection \<Rightarrow> bool) \<Rightarrow> ('w \<Rightarrow> bool) \<Rightarrow> DfsCache \<times> 'w \<Rightarrow> bool" where
  "safeState qt allowed I st \<longleftrightarrow> cacheConfined allowed (fst st) \<and> pathCacheSound qt (fst st) \<and> I (snd st)"

definition resolverConfined :: "'w DfsReferralResolver \<Rightarrow> (SavedConnection \<Rightarrow> bool) \<Rightarrow> ('w \<Rightarrow> bool) \<Rightarrow> bool" where
  "resolverConfined resolver allowed I \<longleftrightarrow>
     (\<forall>c secret ctx w. allowed c \<longrightarrow> I w \<longrightarrow> I (snd (dfr_resolveTargets resolver c secret ctx w))
        \<and> (\<forall>t\<in>set (res_value (fst (dfr_resolveTargets resolver c secret ctx w))). allowed (drc_connection t)))
     \<and> (\<forall>c secret path ctx w. allowed c \<longrightarrow> I w \<longrightarrow> I (snd (dfr_resolvePathTargets resolver c secret path ctx w))
        \<and> (\<forall>p\<in>set (res_value (fst (dfr_resolvePathTargets resolver c secret path ctx w))). allowed (drp_connection p)))"

lemma update_elements: "x \<in> set (AList.update k v xs) \<Longrightarrow> x = (k, v) \<or> x \<in> set xs"
  by (induction xs) (auto split: if_split_asm)

lemma delete_elements: "x \<in> set (AList.delete k xs) \<Longrightarrow> x \<in> set xs"
  by (auto simp: AList.delete_eq)

lemma earlier_foldl:
  "\<forall>m\<in>set ms. \<exists>u. f m = Some u \<Longrightarrow> ms \<noteq> [] \<or> (\<exists>s. start = Some s) \<Longrightarrow>
   \<exists>t. foldl (\<lambda>e m. earlier e (f m)) start ms = Some t \<and> (\<forall>s. start = Some s \<longrightarrow> t \<le> s)
     \<and> (\<forall>m\<in>set ms. \<exists>u. f m = Some u \<and> t \<le> u)"
proof (induction ms arbitrary: start)
  case (Cons m ms)
  obtain u where u: "f m = Some u" using Cons.prems(1) by auto
  then obtain s where s: "earlier start (f m) = Some s" "s \<le> u" "\<forall>x. start = Some x \<longrightarrow> s \<le> x"
    by (cases start) (auto simp: earlier_def)
  then obtain t where "foldl (\<lambda>e m. earlier e (f m)) (Some s) ms = Some t" "t \<le> s" "\<forall>m\<in>set ms. \<exists>u. f m = Some u \<and> t \<le> u"
    using Cons.IH [of "Some s"] Cons.prems(1) by auto
  then show ?case using s u by fastforce
qed auto

text \<open>A freshly cached list of mappings keeps the cache sound.\<close>

lemma pathCacheSound_update:
  assumes "pathCacheSound qt cache" "dpe_mappings e \<noteq> []"
    and "k = dpm_connectionKey (hd (dpe_mappings e)) @ [10] @ normalizeRemotePath qt (dpm_originalPrefix (hd (dpe_mappings e)))"
    and "dpe_expiresAtUtc e = Some t" "\<forall>m\<in>set (dpe_mappings e). \<exists>u. dpm_expiresAtUtc m = Some u \<and> t \<le> u"
  shows "pathCacheSound qt (cache\<lparr>m_resolvedPathMappings := AList.update k e (m_resolvedPathMappings cache)\<rparr>)"
  using assms by (auto simp: pathCacheSound_def distinct_update dest!: update_elements)

lemma forget_safe:
  "safeState qt allowed I st \<Longrightarrow> safeState qt allowed I (forgetCachedConnection env c st)"
  "safeState qt allowed I st \<Longrightarrow> safeState qt allowed I (forgetCachedPathMapping env c prefix st)"
  by (cases st; auto simp: safeState_def forgetCachedConnection_def forgetCachedPathMapping_def cacheConfined_def pathCacheSound_def
      distinct_delete dest!: delete_elements)+

lemma cached_connections_allowed:
  "safeState qt allowed I st \<Longrightarrow> t \<in> set (cachedResolvedConnections env c st) \<Longrightarrow> allowed t"
  by (cases "map_of (m_resolvedConnections (fst st)) (cacheKey (env_qt env) c)")
    (auto simp: safeState_def cacheConfined_def cachedResolvedConnections_def dest!: map_of_SomeD split: if_split_asm)

lemma cached_mappings_allowed:
  assumes "safeState qt allowed I st" "m \<in> set (cachedResolvedPathMappings env c path st)"
  shows "allowed (dpm_targetConnection m)"
proof -
  obtain entry where e: "bestEntry (matchingEntry env (cacheKey (env_qt env) c) (normalizeRemotePath (env_qt env) path) (snd st)) None
      (map snd (m_resolvedPathMappings (fst st))) = Some entry" "m \<in> set (dpe_mappings entry)"
    using assms(2) by (cases "bestEntry (matchingEntry env (cacheKey (env_qt env) c) (normalizeRemotePath (env_qt env) path) (snd st)) None
      (map snd (m_resolvedPathMappings (fst st)))") (simp_all add: cachedResolvedPathMappings_def)
  then obtain k where "(k, entry) \<in> set (m_resolvedPathMappings (fst st))" using bestEntry_Some [OF e(1)] by auto
  then show ?thesis using e(2) assms(1) by (auto simp: safeState_def cacheConfined_def)
qed

lemma resolveAndCache_safe:
  assumes "resolverConfined (env_resolver env) allowed I" "allowed c" "safeState qt allowed I st"
    and "resolveAndCache env c secret ctx st = (ts, st')"
  shows "safeState qt allowed I st' \<and> (\<forall>t\<in>set ts. allowed t)"
proof -
  obtain r w where r: "dfr_resolveTargets (env_resolver env) c secret ctx (snd st) = (r, w)" by force
  have "I w" "\<forall>t\<in>set (res_value r). allowed (drc_connection t)"
    using assms(1-3) r unfolding resolverConfined_def safeState_def by (metis fst_conv snd_conv)+
  then show ?thesis
    using assms(3,4) by (auto simp: resolveAndCache_def r Let_def safeState_def cacheConfined_def pathCacheSound_def
        split: if_split_asm dest!: update_elements)
qed

lemma resolvePathAndCache_safe:
  assumes "resolverConfined (env_resolver env) allowed I" "allowed c" "safeState (env_qt env) allowed I st"
    and "resolvePathAndCache env c secret path ctx st = (ms, st')"
  shows "safeState (env_qt env) allowed I st' \<and> (\<forall>m\<in>set ms. allowed (dpm_targetConnection m))"
proof -
  obtain r w where r: "dfr_resolvePathTargets (env_resolver env) c secret path ctx (snd st) = (r, w)" by force
  have w: "I w" "\<forall>p\<in>set (res_value r). allowed (drp_connection p)"
    using assms(1-3) r unfolding resolverConfined_def safeState_def by (metis fst_conv snd_conv)+
  show ?thesis
  proof (cases "\<not> ok r \<or> res_value r = []")
    case True
    then show ?thesis using assms(3,4) w by (auto simp: resolvePathAndCache_def r safeState_def)
  next
    case False
    define e where "e = \<lparr>dpe_mappings = ms, dpe_expiresAtUtc = foldl (\<lambda>e m. earlier e (dpm_expiresAtUtc m)) None ms\<rparr>"
    define k where "k = pathCacheKey (env_qt env) c (dpm_originalPrefix (hd ms))"
    have ms: "ms = map (mappingOf env c path w) (res_value r)"
      and st': "st' = (fst st\<lparr>m_resolvedPathMappings := AList.update k e (m_resolvedPathMappings (fst st))\<rparr>, w)"
      using assms(4) False by (auto simp: resolvePathAndCache_def r Let_def e_def k_def)
    have ne: "ms \<noteq> []" using False ms by simp
    have times: "\<forall>m\<in>set ms. \<exists>u. dpm_expiresAtUtc m = Some u" by (auto simp: ms mappingOf_def expiresAtForTtl_def)
    obtain t where "dpe_expiresAtUtc e = Some t" "\<forall>m\<in>set (dpe_mappings e). \<exists>u. dpm_expiresAtUtc m = Some u \<and> t \<le> u"
      using earlier_foldl [OF times, of None] ne by (auto simp: e_def)
    moreover have "k = dpm_connectionKey (hd (dpe_mappings e)) @ [10] @ normalizeRemotePath (env_qt env) (dpm_originalPrefix (hd (dpe_mappings e)))"
      using False by (simp add: k_def e_def pathCacheKey_def ms hd_map mappingOf_def)
    ultimately have "pathCacheSound (env_qt env) (fst st')"
      unfolding st' fst_conv using assms(3) ne by (intro pathCacheSound_update) (auto simp: safeState_def e_def)
    moreover have "\<forall>m\<in>set ms. allowed (dpm_targetConnection m)" using w by (auto simp: ms mappingOf_def)
    moreover from this have "cacheConfined allowed (fst st')"
      using assms(3) by (auto simp: st' safeState_def cacheConfined_def e_def dest!: update_elements)
    ultimately show ?thesis using w by (simp add: safeState_def st')
  qed
qed

text \<open>Calls that keep the state safe on allowed connections.\<close>

definition confinedOn :: "(SavedConnection \<Rightarrow> bool) \<Rightarrow> (DfsCache \<times> 'w \<Rightarrow> bool) \<Rightarrow> (SavedConnection \<Rightarrow> ('a, 'w) DfsCall) \<Rightarrow> bool" where
  "confinedOn allowed safe operation \<longleftrightarrow> (\<forall>t st. allowed t \<longrightarrow> safe st \<longrightarrow> safe (snd (operation t st)))"

lemma confinedOn_step:
  "confinedOn allowed safe operation \<Longrightarrow> allowed t \<Longrightarrow> safe st \<Longrightarrow> operation t st = (r, st') \<Longrightarrow> safe st'"
  unfolding confinedOn_def by (metis snd_conv)

lemma tryCachedTargets_safe:
  assumes "confinedOn allowed (safeState qt allowed I) operation"
  shows "\<forall>t\<in>set ts. allowed t \<Longrightarrow> safeState qt allowed I st \<Longrightarrow>
    safeState qt allowed I (snd (tryCachedTargets env blank c operation ts lastError st))"
proof (induction ts arbitrary: lastError st)
  case (Cons t ts)
  obtain r st' where r: "operation t st = (r, st')" by (rule prod.exhaust)
  then have "safeState qt allowed I st'" using confinedOn_step [OF assms _ _ r] Cons.prems by simp
  then show ?case using Cons by (simp add: r Let_def forget_safe)
qed simp

lemma tryTargets_safe:
  assumes "confinedOn allowed safe operation"
  shows "\<forall>t\<in>set ts. allowed t \<Longrightarrow> safe st \<Longrightarrow> safe (snd (tryTargets blank operation ts lastError st))"
proof (induction ts arbitrary: lastError st)
  case (Cons t ts)
  obtain r st' where r: "operation t st = (r, st')" by (rule prod.exhaust)
  then have "safe st'" using confinedOn_step [OF assms _ _ r] Cons.prems by simp
  then show ?case using Cons by (simp add: r Let_def)
qed simp

lemma runWithDfsFallback_safe:
  assumes op: "confinedOn allowed (safeState (env_qt env) allowed I) operation"
    and resolver: "resolverConfined (env_resolver env) allowed I" and c: "allowed c" and st: "safeState (env_qt env) allowed I st"
  shows "safeState (env_qt env) allowed I (snd (runWithDfsFallback env blank c secret ctx operation st))"
proof -
  obtain early st1 where early: "tryCachedTargets env blank c operation (cachedResolvedConnections env c st) None st = (early, st1)" by (rule prod.exhaust)
  have st1: "safeState (env_qt env) allowed I st1"
    using tryCachedTargets_safe [OF op, of "cachedResolvedConnections env c st" st env blank c None] cached_connections_allowed [OF st] st early
    by auto
  obtain r st2 where r: "operation c st1 = (r, st2)" by (rule prod.exhaust)
  then have st2: "safeState (env_qt env) allowed I st2" using confinedOn_step [OF op c st1] by simp
  obtain ts st3 where ts: "resolveAndCache env c secret ctx st2 = (ts, st3)" by (rule prod.exhaust)
  then have st3: "safeState (env_qt env) allowed I st3" "\<forall>t\<in>set ts. allowed t"
    using resolveAndCache_safe [OF resolver c st2] by auto
  have "safeState (env_qt env) allowed I (snd (tryTargets blank operation ts None st3))"
    by (rule tryTargets_safe [OF op st3(2,1)])
  then show ?thesis
    using st1 st2 by (auto simp: runWithDfsFallback_def early r ts Let_def split: option.split prod.split)
qed

text \<open>A call on a connection and a path, and one on a mapping.\<close>

definition confinedOnPaths ::
  "(SavedConnection \<Rightarrow> bool) \<Rightarrow> (DfsCache \<times> 'w \<Rightarrow> bool) \<Rightarrow> (SavedConnection \<Rightarrow> QString \<Rightarrow> ('a, 'w) DfsCall) \<Rightarrow> bool" where
  "confinedOnPaths allowed safe operation \<longleftrightarrow> (\<forall>t path st. allowed t \<longrightarrow> safe st \<longrightarrow> safe (snd (operation t path st)))"

definition confinedNested ::
  "(SavedConnection \<Rightarrow> bool) \<Rightarrow> (DfsCache \<times> 'w \<Rightarrow> bool) \<Rightarrow>
   (DfsPathMapping \<Rightarrow> QString \<Rightarrow> AppError \<Rightarrow> DfsCache \<times> 'w \<Rightarrow> 'a Result option \<times> DfsCache \<times> 'w) \<Rightarrow> bool" where
  "confinedNested allowed safe nested \<longleftrightarrow>
     (\<forall>m path e st. allowed (dpm_targetConnection m) \<longrightarrow> safe st \<longrightarrow> safe (snd (nested m path e st)))"

lemma confinedOnPaths_at: "confinedOnPaths allowed safe operation \<Longrightarrow> confinedOn allowed safe (\<lambda>c. operation c path)"
  by (simp add: confinedOnPaths_def confinedOn_def)

lemma confinedOnPaths_step:
  "confinedOnPaths allowed safe operation \<Longrightarrow> allowed t \<Longrightarrow> safe st \<Longrightarrow> operation t path st = (r, st') \<Longrightarrow> safe st'"
  unfolding confinedOnPaths_def by (metis snd_conv)

lemma confinedNested_step:
  "confinedNested allowed safe nested \<Longrightarrow> allowed (dpm_targetConnection m) \<Longrightarrow> safe st \<Longrightarrow> nested m path e st = (d, st') \<Longrightarrow> safe st'"
  unfolding confinedNested_def by (metis snd_conv)

lemma tryNestedMappings_safe:
  assumes op: "confinedOnPaths allowed safe operation" and deeper: "confinedNested allowed safe deeper"
  shows "\<forall>m\<in>set ms. allowed (dpm_targetConnection m) \<Longrightarrow> safe st \<Longrightarrow>
    safe (snd (tryNestedMappings env blank operation rebase deeper outer mappedPath ms lastError st))"
proof (induction ms arbitrary: lastError st)
  case (Cons m ms)
  define nestedPath where "nestedPath = targetPathForMapping (env_qt env) m mappedPath"
  obtain r st1 where r: "operation (dpm_targetConnection m) nestedPath st = (r, st1)" by (rule prod.exhaust)
  have st1: "safe st1" using confinedOnPaths_step [OF op _ _ r] Cons.prems by simp
  obtain d st2 where d: "deeper m nestedPath (res_error r) st1 = (d, st2)" by (rule prod.exhaust)
  have st2: "safe st2" using confinedNested_step [OF deeper _ st1 d] Cons.prems(1) by simp
  show ?case using Cons st1 st2 r d by (simp add: Let_def nestedPath_def)
qed simp

lemma tryNestedPathMappings_safe:
  assumes op: "confinedOnPaths allowed (safeState (env_qt env) allowed I) operation"
    and resolver: "resolverConfined (env_resolver env) allowed I"
  shows "confinedNested allowed (safeState (env_qt env) allowed I) (tryNestedPathMappings levels env blank secret ctx operation rebase)"
proof (induction levels)
  case (Suc levels)
  have "safeState (env_qt env) allowed I (snd (tryNestedPathMappings (Suc levels) env blank secret ctx operation rebase m path e st))"
    if outer: "allowed (dpm_targetConnection m)" "safeState (env_qt env) allowed I st" for m path e st
  proof -
  let ?cached = "cachedResolvedPathMappings env (dpm_targetConnection m) path st"
  obtain ms st1 where ms: "(if ?cached = [] then resolvePathAndCache env (dpm_targetConnection m) secret path ctx st else (?cached, st)) = (ms, st1)"
    by (rule prod.exhaust)
  have st1: "safeState (env_qt env) allowed I st1 \<and> (\<forall>n\<in>set ms. allowed (dpm_targetConnection n))"
  proof (cases "?cached = []")
    case True
    then show ?thesis using ms resolvePathAndCache_safe [OF resolver outer] by simp
  next
    case False
    then show ?thesis using ms cached_mappings_allowed [OF outer(2)] outer(2) by auto
  qed
  have "safeState (env_qt env) allowed I (snd (tryNestedMappings env blank operation rebase
      (tryNestedPathMappings levels env blank secret ctx operation rebase) m path ms None st1))"
    using tryNestedMappings_safe [OF op Suc] st1 by blast
  then show ?thesis
    unfolding tryNestedPathMappings.simps Let_def ms prod.case using outer(2) by simp
  qed
  then show ?case by (simp add: confinedNested_def)
qed (simp add: confinedNested_def)

lemma tryMappings_safe:
  assumes op: "confinedOnPaths allowed (safeState qt allowed I) operation"
    and nested: "confinedNested allowed (safeState qt allowed I) nested"
  shows "\<forall>m\<in>set ms. allowed (dpm_targetConnection m) \<Longrightarrow> safeState qt allowed I st \<Longrightarrow>
    safeState qt allowed I (snd (tryMappings env blank operation rebase nested path ms lastError st))
    \<and> safeState qt allowed I (snd (tryCachedMappings env blank c operation rebase nested path ms lastError st))"
proof (induction ms arbitrary: lastError st)
  case (Cons m ms)
  define mappedPath where "mappedPath = targetPathForMapping (env_qt env) m path"
  obtain r st1 where r: "operation (dpm_targetConnection m) mappedPath st = (r, st1)" by (rule prod.exhaust)
  have st1: "safeState qt allowed I st1" using confinedOnPaths_step [OF op _ _ r] Cons.prems by simp
  obtain d st2 where d: "nested m mappedPath (res_error r) st1 = (d, st2)" by (rule prod.exhaust)
  have st2: "safeState qt allowed I st2" using confinedNested_step [OF nested _ st1 d] Cons.prems(1) by simp
  show ?case using Cons st1 st2 r d by (simp add: Let_def forget_safe flip: mappedPath_def)
qed simp

lemma runWithPathDfsFallback_safe:
  assumes op: "confinedOnPaths allowed (safeState (env_qt env) allowed I) operation"
    and resolver: "resolverConfined (env_resolver env) allowed I" and c: "allowed c" and st: "safeState (env_qt env) allowed I st"
  shows "safeState (env_qt env) allowed I (snd (runWithPathDfsFallback env blank c secret remotePath ctx operation rebase st))"
proof -
  let ?path = "normalizeRemotePath (env_qt env) remotePath"
    and ?nested = "tryNestedPathMappings kMaxNestedDfsDepth env blank secret ctx operation rebase"
  note attempts = tryMappings_safe [OF op tryNestedPathMappings_safe [OF op resolver]]
  obtain early st1 where early:
    "tryCachedMappings env blank c operation rebase ?nested ?path (cachedResolvedPathMappings env c ?path st) None st = (early, st1)" by (rule prod.exhaust)
  have cached: "\<forall>m\<in>set (cachedResolvedPathMappings env c ?path st). allowed (dpm_targetConnection m)"
    using cached_mappings_allowed [OF st] by blast
  have "safeState (env_qt env) allowed I (snd (tryCachedMappings env blank c operation rebase ?nested ?path
      (cachedResolvedPathMappings env c ?path st) None st))"
    using attempts [OF cached st] by blast
  then have st1: "safeState (env_qt env) allowed I st1" using early by simp
  obtain r st2 where r: "runWithDfsFallback env blank c secret ctx (\<lambda>candidate. operation candidate ?path) st1 = (r, st2)" by (rule prod.exhaust)
  then have st2: "safeState (env_qt env) allowed I st2" using runWithDfsFallback_safe [OF confinedOnPaths_at [OF op] resolver c st1] by (metis snd_conv)
  obtain ms st3 where ms: "resolvePathAndCache env c secret ?path ctx st2 = (ms, st3)" by (rule prod.exhaust)
  then have st3: "safeState (env_qt env) allowed I st3" "\<forall>m\<in>set ms. allowed (dpm_targetConnection m)"
    using resolvePathAndCache_safe [OF resolver c st2] by auto
  have "safeState (env_qt env) allowed I (snd (tryMappings env blank operation rebase ?nested ?path ms None st3))"
    using attempts [OF st3(2,1)] by blast
  then show ?thesis
    using st1 st2 by (auto simp: runWithPathDfsFallback_def early r ms Let_def split: option.split prod.split)
qed

text \<open>A request to the client, and what is left of the caches and the world after it.\<close>

datatype DfsRequest = CheckRequest | ListRequest QString | CreateRequest QString | RemoveRequest QString
  | RenameRequest QString QString | DownloadRequest QString QString | UploadRequest QString QString
  | CopyRequest QString SavedConnection Secret QString | MoveRequest QString SavedConnection Secret QString

fun dfsRun :: "'w DfsEnv \<Rightarrow> SavedConnection \<Rightarrow> Secret \<Rightarrow> 'w AppContext \<Rightarrow> DfsRequest \<Rightarrow> DfsCache \<times> 'w \<Rightarrow> DfsCache \<times> 'w" where
  "dfsRun env c secret ctx CheckRequest st = snd (dfsCheckConnection env c secret ctx st)"
| "dfsRun env c secret ctx (ListRequest p) st = snd (dfsListDirectory env c secret p ctx st)"
| "dfsRun env c secret ctx (CreateRequest p) st = snd (dfsCreateDirectory env c secret p ctx st)"
| "dfsRun env c secret ctx (RemoveRequest p) st = snd (dfsRemove env c secret p ctx st)"
| "dfsRun env c secret ctx (RenameRequest p q) st = snd (dfsRename env c secret p q ctx st)"
| "dfsRun env c secret ctx (DownloadRequest p l) st = snd (dfsDownloadFile env c secret p l ctx st)"
| "dfsRun env c secret ctx (UploadRequest l p) st = snd (dfsUploadFile env c secret l p ctx st)"
| "dfsRun env c secret ctx (CopyRequest p d s q) st = snd (dfsCopy env c secret p d s q ctx st)"
| "dfsRun env c secret ctx (MoveRequest p d s q) st = snd (dfsMove env c secret p d s q ctx st)"

fun requestAllowed :: "(SavedConnection \<Rightarrow> bool) \<Rightarrow> DfsRequest \<Rightarrow> bool" where
  "requestAllowed allowed (CopyRequest p d s q) = allowed d"
| "requestAllowed allowed (MoveRequest p d s q) = allowed d"
| "requestAllowed allowed _ = True"

text \<open>What the delegate keeps when it works on allowed connections.\<close>

definition delegateConfined :: "'w SmbClient \<Rightarrow> (SavedConnection \<Rightarrow> bool) \<Rightarrow> ('w \<Rightarrow> bool) \<Rightarrow> bool" where
  "delegateConfined client allowed I \<longleftrightarrow> (\<forall>c s ctx w. allowed c \<longrightarrow> I w \<longrightarrow>
     I (snd (smc_checkConnection client c s ctx w))
     \<and> (\<forall>p. I (snd (smc_listDirectory client c s p ctx w)) \<and> I (snd (smc_createDirectory client c s p ctx w))
          \<and> I (snd (smc_remove client c s p ctx w)))
     \<and> (\<forall>p q. I (snd (smc_rename client c s p q ctx w)) \<and> I (snd (smc_downloadFile client c s p q ctx w))
          \<and> I (snd (smc_uploadFile client c s p q ctx w)))
     \<and> (\<forall>p d t q. allowed d \<longrightarrow> I (snd (smc_copy client c s p d t q ctx w)) \<and> I (snd (smc_move client c s p d t q ctx w))))"

lemma delegateConfined_dests:
  assumes "delegateConfined client allowed I" "allowed c" "I w"
  shows "I (snd (smc_checkConnection client c s ctx w))" "I (snd (smc_listDirectory client c s p ctx w))"
    "I (snd (smc_createDirectory client c s p ctx w))" "I (snd (smc_remove client c s p ctx w))"
    "I (snd (smc_rename client c s p q ctx w))" "I (snd (smc_downloadFile client c s p q ctx w))"
    "I (snd (smc_uploadFile client c s p q ctx w))"
    "allowed d \<Longrightarrow> I (snd (smc_copy client c s p d t q ctx w))" "allowed d \<Longrightarrow> I (snd (smc_move client c s p d t q ctx w))"
  using assms unfolding delegateConfined_def by blast+

lemma onDelegate_safe:
  "safeState qt allowed I st \<Longrightarrow> I (snd (call (snd st))) \<Longrightarrow> safeState qt allowed I (snd (onDelegate call st))"
  by (cases "call (snd st)") (simp add: onDelegate_def safeState_def)

lemma safeState_world: "safeState qt allowed I st \<Longrightarrow> I (snd st)"
  by (simp add: safeState_def)

lemma delegate_on_path:
  "(\<And>t path w. allowed t \<Longrightarrow> I w \<Longrightarrow> I (snd (call t path w))) \<Longrightarrow>
   confinedOnPaths allowed (safeState qt allowed I) (\<lambda>t path. onDelegate (call t path))"
  by (simp add: confinedOnPaths_def onDelegate_safe safeState_world)

lemma delegate_on_target:
  "(\<And>t w. allowed t \<Longrightarrow> I w \<Longrightarrow> I (snd (call t w))) \<Longrightarrow> confinedOn allowed (safeState qt allowed I) (\<lambda>t. onDelegate (call t))"
  by (simp add: confinedOn_def onDelegate_safe safeState_world)

lemma cachedResolvedPathMapping_allowed:
  "safeState qt allowed I st \<Longrightarrow> cachedResolvedPathMapping env c path st = Some m \<Longrightarrow> allowed (dpm_targetConnection m)"
  using cached_mappings_allowed [of qt allowed I st m env c path]
  by (auto simp: cachedResolvedPathMapping_def split: list.splits)

lemma cachedEnd_allowed:
  assumes "allowed c" "safeState qt allowed I st"
  shows "allowed (fst (cachedEnd env c path st))"
proof (cases "cachedResolvedPathMapping env c path st")
  case None
  then show ?thesis
    using assms(1) cached_connections_allowed [OF assms(2), of _ env c]
    by (cases "cachedResolvedConnections env c st") (simp_all add: cachedEnd_def cachedResolvedConnection_def)
next
  case (Some m)
  then show ?thesis using cachedResolvedPathMapping_allowed [OF assms(2)] by (simp add: cachedEnd_def)
qed

lemma renameWithReferrals_safe:
  assumes "delegateConfined (env_delegate env) allowed I" and resolver: "resolverConfined (env_resolver env) allowed I"
    and c: "allowed c" and st: "safeState (env_qt env) allowed I st"
  shows "safeState (env_qt env) allowed I (snd (renameWithReferrals env c secret p q ctx st))"
proof -
  note delegate = delegateConfined_dests [OF assms(1)]
  obtain r st1 where r: "runWithDfsFallback env False c secret ctx
      (\<lambda>candidate. onDelegate (smc_rename (env_delegate env) candidate secret p q ctx)) st = (r, st1)" by (rule prod.exhaust)
  then have st1: "safeState (env_qt env) allowed I st1"
    using runWithDfsFallback_safe [OF delegate_on_target resolver c st] delegate(5) by (metis snd_conv)
  obtain ms st2 where ms: "resolvePathAndCache env c secret p ctx st1 = (ms, st2)" by (rule prod.exhaust)
  then have st2: "safeState (env_qt env) allowed I st2" "\<forall>m\<in>set ms. allowed (dpm_targetConnection m)"
    using resolvePathAndCache_safe [OF resolver c st1] by auto
  then show ?thesis
    using st1 delegate(5) safeState_world [OF st2(1)]
    by (cases ms) (simp_all add: renameWithReferrals_def r ms Let_def onDelegate_safe)
qed

lemma dfsRename_safe:
  assumes "delegateConfined (env_delegate env) allowed I" "resolverConfined (env_resolver env) allowed I" "allowed c"
    and st: "safeState (env_qt env) allowed I st"
  shows "safeState (env_qt env) allowed I (snd (dfsRename env c secret p q ctx st))"
proof -
  note rename = renameWithReferrals_safe [OF assms(1-3)]
  let ?p = "normalizeRemotePath (env_qt env) p" and ?q = "normalizeRemotePath (env_qt env) q"
  show ?thesis
  proof (cases "cachedResolvedPathMapping env c ?p st")
    case None
    then show ?thesis by (simp add: dfsRename_def rename st)
  next
    case source: (Some m)
    show ?thesis
    proof (cases "cachedResolvedPathMapping env c ?q st")
      case None
      then show ?thesis by (simp add: dfsRename_def rename st source)
    next
      case target: (Some n)
      obtain r st1 where r: "onDelegate (smc_rename (env_delegate env) (dpm_targetConnection m) secret
          (targetPathForMapping (env_qt env) m ?p) (targetPathForMapping (env_qt env) n ?q) ctx) st = (r, st1)" by (rule prod.exhaust)
      have "allowed (dpm_targetConnection m)" by (rule cachedResolvedPathMapping_allowed [OF st source])
      then have "safeState (env_qt env) allowed I st1"
        using onDelegate_safe [OF st, of "smc_rename (env_delegate env) (dpm_targetConnection m) secret
          (targetPathForMapping (env_qt env) m ?p) (targetPathForMapping (env_qt env) n ?q) ctx"] r
          delegateConfined_dests(5) [OF assms(1) _ safeState_world [OF st]] by simp
      then show ?thesis by (simp add: dfsRename_def source target r Let_def rename st forget_safe)
    qed
  qed
qed

text \<open>A copy or a move, where \<open>operation\<close> is the call of the delegate.\<close>

lemma resolvedEnd_allowed:
  "allowed (fst before) \<Longrightarrow> \<forall>m\<in>set ms. allowed (dpm_targetConnection m) \<Longrightarrow> allowed (fst (resolvedEnd env ms path before))"
  by (cases ms) (auto simp: resolvedEnd_def)

lemma transferBetween_safe:
  assumes operation: "\<And>c s p d t q w. allowed c \<Longrightarrow> allowed d \<Longrightarrow> I w \<Longrightarrow> I (snd (operation c s p d t q ctx w))"
    and resolver: "resolverConfined (env_resolver env) allowed I" and c: "allowed c" "allowed d"
    and st: "safeState (env_qt env) allowed I st"
  shows "safeState (env_qt env) allowed I (snd (transferBetween operation env c s p d t q ctx st))"
proof -
  let ?qt = "env_qt env"
  let ?p = "normalizeRemotePath ?qt p" and ?q = "normalizeRemotePath ?qt q"
  have step: "safeState ?qt allowed I (snd (onDelegate (operation a s x b t y ctx) st'))"
    if "allowed a" "allowed b" "safeState ?qt allowed I st'" for a x b y st'
    using onDelegate_safe [OF that(3)] operation [OF that(1,2) safeState_world [OF that(3)]] by blast
  obtain a x where from_end: "cachedEnd env c ?p st = (a, x)" by (rule prod.exhaust)
  obtain b y where to_end: "cachedEnd env d ?q st = (b, y)" by (rule prod.exhaust)
  have ends: "allowed a" "allowed b"
    using cachedEnd_allowed [OF c(1) st, of env ?p] cachedEnd_allowed [OF c(2) st, of env ?q] by (simp_all add: from_end to_end)
  obtain r st1 where r: "onDelegate (operation a s x b t y ctx) st = (r, st1)" by (rule prod.exhaust)
  have st1: "safeState ?qt allowed I st1" using step [OF ends st, of x y] by (simp add: r)
  obtain ms st2 where ms: "resolvePathAndCache env c s ?p ctx st1 = (ms, st2)" by (rule prod.exhaust)
  have st2: "safeState ?qt allowed I st2 \<and> (\<forall>m\<in>set ms. allowed (dpm_targetConnection m))"
    by (rule resolvePathAndCache_safe [OF resolver c(1) st1 ms])
  obtain ns st3 where ns: "resolvePathAndCache env d t (parentRemotePath ?qt ?q) ctx st2 = (ns, st3)" by (rule prod.exhaust)
  have st3: "safeState ?qt allowed I st3 \<and> (\<forall>m\<in>set ns. allowed (dpm_targetConnection m))"
    using resolvePathAndCache_safe [OF resolver c(2) _ ns] st2 by blast
  obtain ss st4 where ss: "resolveAndCache env c s ctx st1 = (ss, st4)" by (rule prod.exhaust)
  have st4: "safeState ?qt allowed I st4 \<and> (\<forall>e\<in>set ss. allowed e)" by (rule resolveAndCache_safe [OF resolver c(1) st1 ss])
  obtain ts st5 where ts: "resolveAndCache env d t ctx st4 = (ts, st5)" by (rule prod.exhaust)
  have st5: "safeState ?qt allowed I st5 \<and> (\<forall>e\<in>set ts. allowed e)"
    using resolveAndCache_safe [OF resolver c(2) _ ts] st4 by blast
  obtain a' x' where from': "resolvedEnd env ms ?p (a, x) = (a', x')" by (rule prod.exhaust)
  obtain b' y' where to': "resolvedEnd env ns ?q (b, y) = (b', y')" by (rule prod.exhaust)
  have ends': "allowed a'" "allowed b'"
    using resolvedEnd_allowed [of allowed "(a, x)" ms env ?p] resolvedEnd_allowed [of allowed "(b, y)" ns env ?q] ends st2 st3
    by (simp_all add: from' to')
  have "allowed (case ss of [] \<Rightarrow> c | e # es \<Rightarrow> e)" "allowed (case ts of [] \<Rightarrow> d | e # es \<Rightarrow> e)"
    using st4 st5 c by (simp_all split: list.split)
  from step [OF this] step [OF ends'] show ?thesis
    using st1 st3 st5 by (simp add: transferBetween_def from_end to_end r ms ns ss ts from' to' Let_def)
qed

text \<open>C24: whatever it is asked to do and whatever fails on the way, the client works only with connections
  that are allowed, when the connection it is asked for is (both of them, for a copy or a move) and
  the resolver names allowed ones: an invariant of the outside world that every call of the delegate
  on allowed connections keeps still holds, and the caches name allowed connections only and stay
  well formed. So a request never reaches a server that no referral led to.\<close>

theorem dfs_stays_on_allowed_targets:
  assumes "delegateConfined (env_delegate env) allowed I" "resolverConfined (env_resolver env) allowed I"
    and "allowed c" "requestAllowed allowed request" "safeState (env_qt env) allowed I st"
  shows "safeState (env_qt env) allowed I (dfsRun env c secret ctx request st)"
proof -
  note delegate = delegateConfined_dests [OF assms(1)]
  note on_target = runWithDfsFallback_safe [OF delegate_on_target assms(2,3,5)]
  note on_path = runWithPathDfsFallback_safe [OF delegate_on_path assms(2,3,5)]
  note transfer = transferBetween_safe [OF _ assms(2,3) _ assms(5)]
  show ?thesis
  proof (cases request)
    case (RenameRequest p q)
    then show ?thesis using dfsRename_safe [OF assms(1,2,3,5)] by simp
  next
    case (CopyRequest p d s q)
    then show ?thesis using transfer [OF delegate(8)] assms(4) by (simp add: dfsCopy_def)
  next
    case (MoveRequest p d s q)
    then show ?thesis using transfer [OF delegate(9)] assms(4) by (simp add: dfsMove_def)
  qed (simp_all add: dfsCheckConnection_def dfsListDirectory_def dfsCreateDirectory_def dfsRemove_def dfsDownloadFile_def
      dfsUploadFile_def on_target on_path delegate)
qed

lemma logging_confined:
  "delegateConfined (env_delegate loggingEnv) allowed (\<lambda>w. list_all allowed w)"
  "allowed dc2 \<Longrightarrow> resolverConfined (env_resolver loggingEnv) allowed (\<lambda>w. list_all allowed w)"
  "safeState (env_qt loggingEnv) allowed (\<lambda>w. list_all allowed w) (emptyCache, [])"
  by (simp_all add: loggingEnv_def delegateConfined_def loggingClient_def loggingCall_def resolverConfined_def dc2Resolver_def
      safeState_def emptyCache_def cacheConfined_def pathCacheSound_def)

theorem dfs_stays_on_allowed_targets_witness:
  "let allowed = (\<lambda>c. c = createEmpty \<or> c = dc2);
       st = dfsRun loggingEnv createEmpty None noCallbacks (ListRequest (latin1 ''/a'')) (emptyCache, []) in
   snd st = [createEmpty, dc2] \<and> safeState asciiText allowed (\<lambda>w. list_all allowed w) st"
proof -
  let ?allowed = "\<lambda>c. c = createEmpty \<or> c = dc2"
  have "safeState (env_qt loggingEnv) ?allowed (\<lambda>w. list_all ?allowed w)
      (dfsRun loggingEnv createEmpty None noCallbacks (ListRequest (latin1 ''/a'')) (emptyCache, []))"
    by (rule dfs_stays_on_allowed_targets [OF logging_confined(1) logging_confined(2)]) (simp_all add: logging_confined)
  moreover have "snd (dfsRun loggingEnv createEmpty None noCallbacks (ListRequest (latin1 ''/a'')) (emptyCache, [])) = [createEmpty, dc2]"
    by code_simp
  ultimately show ?thesis by (simp add: Let_def loggingEnv_def)
qed

section \<open>The order of the targets\<close>

text \<open>The calls on a list of targets one after the other: their results and the state behind them.\<close>

primrec attempts ::
  "(SavedConnection \<Rightarrow> ('a, 'w) DfsCall) \<Rightarrow> SavedConnection list \<Rightarrow> DfsCache \<times> 'w \<Rightarrow> 'a Result list \<times> DfsCache \<times> 'w" where
  "attempts operation [] st = ([], st)"
| "attempts operation (t # ts) st = (let (r, st) = operation t st; (rs, st) = attempts operation ts st in (r # rs, st))"

definition decisive :: "'a Result \<Rightarrow> bool" where
  "decisive r \<longleftrightarrow> ok r \<or> \<not> isTargetFailoverError (res_error r)"

lemma tryTargets_decided:
  "attempts operation before st = (rs, st1) \<Longrightarrow> \<forall>r\<in>set rs. \<not> decisive r \<Longrightarrow> operation t st1 = (r, st2) \<Longrightarrow> decisive r \<Longrightarrow>
   tryTargets blank operation (before @ t # after) lastError st = (Some r, st2)"
  by (induction before arbitrary: rs st lastError) (auto simp: decisive_def split: prod.splits)

lemma tryTargets_exhausted:
  "attempts operation ts st = (rs, st1) \<Longrightarrow> \<forall>r\<in>set rs. \<not> decisive r \<Longrightarrow>
   tryTargets blank operation ts lastError st =
     (if rs = [] then map_option (failedWith blank) lastError else Some (failedWith blank (res_error (last rs))), st1)"
  by (induction ts arbitrary: rs st lastError) (auto simp: decisive_def split: prod.splits)

text \<open>C25: when nothing is cached and the share itself is gone, the targets the resolver names are tried in its
  order: the first that answers, or that fails in a way another target would not mend, decides the
  result, and no later target is called; when every target is out of reach the result is the error of
  the last one. When the resolver names none, the error of the share is reported.\<close>

theorem failover_in_order:
  assumes "cachedResolvedConnections env c st = []" "operation c st = (r0, st0)"
    and "\<not> ok r0" "looksLikeShareDfsReferralFailure (env_qt env) (res_error r0)"
    and "resolveAndCache env c secret ctx st0 = (before @ targets, st1)"
    and "attempts operation before st1 = (rs, st2)" "\<forall>r\<in>set rs. \<not> decisive r"
    and "targets = [] \<or> (\<exists>after. targets = t # after) \<and> operation t st2 = (r, st3) \<and> decisive r"
  shows "runWithDfsFallback env blank c secret ctx operation st =
    (if targets \<noteq> [] then (r, st3) else (if rs = [] then r0 else failedWith blank (res_error (last rs)), st2))"
proof (cases targets)
  case Nil
  then show ?thesis
    using assms(1-5) tryTargets_exhausted [OF assms(6,7), of blank None] by (simp add: runWithDfsFallback_def)
next
  case (Cons a after)
  then have "a = t" "operation t st2 = (r, st3)" "decisive r" using assms(8) by auto
  then show ?thesis
    using assms(1-5) Cons tryTargets_decided [OF assms(6,7), of t r st3 blank after None] by (simp add: runWithDfsFallback_def)
qed


theorem failover_in_order_witness:
  "fst (runWithDfsFallback loggingEnv False createEmpty None noCallbacks (\<lambda>c. onDelegate (loggingCall True c)) (emptyCache, [])) = succeeded True"
proof -
  define st1 where "st1 = snd (resolveAndCache loggingEnv createEmpty None noCallbacks (emptyCache, [createEmpty]))"
  have world: "con_server dc2 = latin1 ''dc2''" "con_server createEmpty = []" "latin1 ''dc2'' \<noteq> []" by code_simp+
  have resolved: "resolveAndCache loggingEnv createEmpty None noCallbacks (emptyCache, [createEmpty]) = ([] @ [dc2], st1)"
    by (simp add: st1_def resolveAndCache_def loggingEnv_def dc2Resolver_def Let_def)
  have first: "onDelegate (loggingCall True createEmpty) (emptyCache, []) = (fst (loggingCall True createEmpty []), emptyCache, [createEmpty])"
    by (simp add: onDelegate_def loggingCall_def)
  have second: "onDelegate (loggingCall True dc2) st1 = (succeeded True, fst st1, snd st1 @ [dc2])"
    by (simp add: onDelegate_def loggingCall_def world)
  have referral: "\<not> ok (fst (loggingCall True createEmpty []))"
    "looksLikeShareDfsReferralFailure (env_qt loggingEnv) (res_error (fst (loggingCall True createEmpty [])))"
    "cachedResolvedConnections loggingEnv createEmpty (emptyCache, []) = []" by code_simp+
  have "runWithDfsFallback loggingEnv False createEmpty None noCallbacks (\<lambda>c. onDelegate (loggingCall True c)) (emptyCache, []) =
      (if [dc2] \<noteq> [] then (succeeded True, fst st1, snd st1 @ [dc2])
       else (if [] = ([] :: bool Result list) then fst (loggingCall True createEmpty []) else failedWith False (res_error (last ([] :: bool Result list))), st1))"
    by (rule failover_in_order [where operation = "\<lambda>c. onDelegate (loggingCall True c)" and before = "[]" and t = dc2, OF referral(3) first referral(1,2) resolved])
      (simp_all add: second decisive_def)
  then show ?thesis by simp
qed

text \<open>When nothing is cached for the connection and for the path, and the answer of the server is not one a
  referral can explain, the client is transparent: the listing is the one the wrapped client gives for
  the normalized path, no referral is asked for and nothing is cached.\<close>

lemma dfs_transparent:
  assumes "cachedResolvedPathMappings env c (normalizeRemotePath (env_qt env) path) st = []" "cachedResolvedConnections env c st = []"
    and "smc_listDirectory (env_delegate env) c secret (normalizeRemotePath (env_qt env) path) ctx (snd st) = (r, w)"
    and "ok r \<or> \<not> mayHavePathDfsReferral (env_qt env) (res_error r)"
  shows "dfsListDirectory env c secret path ctx st = (r, fst st, w)"
proof -
  have "ok r \<or> \<not> looksLikeShareDfsReferralFailure (env_qt env) (res_error r)"
    using assms(4) by (auto simp: mayHavePathDfsReferral_def looksLikeDfsReferralFailure_def)
  then have "runWithDfsFallback env [] c secret ctx (\<lambda>candidate. onDelegate (smc_listDirectory (env_delegate env) candidate secret
      (normalizeRemotePath (env_qt env) path) ctx)) st = (r, fst st, w)"
    using assms(2,3) by (simp add: runWithDfsFallback_def onDelegate_def)
  then show ?thesis using assms(1,4) by (simp add: dfsListDirectory_def runWithPathDfsFallback_def Let_def)
qed

lemma dfs_transparent_witness:
  "dfsListDirectory (loggingEnv\<lparr>env_delegate := loggingClient\<lparr>smc_listDirectory := \<lambda>c s p ctx w. (succeeded [], w @ [c])\<rparr>\<rparr>)
     createEmpty None (latin1 ''a//b'') noCallbacks (emptyCache, []) = (succeeded [], emptyCache, [createEmpty])"
proof -
  let ?env = "loggingEnv\<lparr>env_delegate := loggingClient\<lparr>smc_listDirectory := \<lambda>c s p ctx w. (succeeded [], w @ [c])\<rparr>\<rparr>"
  have "dfsListDirectory ?env createEmpty None (latin1 ''a//b'') noCallbacks (emptyCache, []) =
      (succeeded [], fst (emptyCache, []::SavedConnection list), [createEmpty])"
    by (rule dfs_transparent) (simp_all add: cachedResolvedPathMappings_def cachedResolvedConnections_def emptyCache_def)
  then show ?thesis by simp
qed

end
