(* ===== verification/NativeBackend.thy ===== *)
theory NativeBackend
  imports SmbClients NtlmProvider DirectTcp Rpc Dfs
begin

text \<open>
  The bridge between the application and the native library, which \<open>NativeSmbClient.cpp\<close> and
  \<open>NativeDfsReferralResolver.cpp\<close> (\<open>src/src/infrastructure/smb\<close>) each declare for themselves: the
  endpoint, the secret and the configuration of a saved connection, the context of an operation,
  and the connection that is built from a TCP transport, an NTLMv2 provider and the connector. The
  conversions of Qt (UTF-8, numbers), the log sanitizer and the system are arguments (\<open>NativeEnv\<close>).

  A connection carries the state of its transports and of its session; what lies outside the
  process is handed to every operation and taken back (\<open>inside\<close>, \<open>outside\<close>). The two classes
  use a connection through the record \<open>NativeApi\<close>; \<open>nativeApi\<close> is the one the program builds.
\<close>

section \<open>The environment\<close>

record 'v NativeEnv =
  nve_qt :: QtText
  nve_toStdString :: "QString \<Rightarrow> bytes"
  nve_fromStdString :: "bytes \<Rightarrow> QString"
  nve_toUShort :: "QString \<Rightarrow> u16 option"
  nve_machineHostName :: QString
  nve_sanitize :: "QString option \<Rightarrow> QString \<Rightarrow> QString"
  nve_sockets :: "'v Sockets"
  nve_entropy :: "'v Entropy"
  nve_sha512 :: "bytes \<Rightarrow> bytes"
  nve_timeoutSeconds :: int

text \<open>The error of the library with the secret of the call among the words to hide.\<close>

definition nativeAppError :: "'v NativeEnv \<Rightarrow> Secret \<Rightarrow> ProtocolError \<Rightarrow> AppError" where
  "nativeAppError env secret e =
     makeNativeSmbError (nve_sanitize env
       (case secret of None \<Rightarrow> None
        | Some s \<Rightarrow> if sec_bytes s = [] then None else Some (nve_fromStdString env (sec_bytes s)))) e"

section \<open>Endpoints\<close>

definition lastIndexOf :: "u16 \<Rightarrow> QString \<Rightarrow> nat option" where
  "lastIndexOf c s = map_option (\<lambda>i. length s - 1 - i) (indexOf c (rev s))"

abbreviation (input) colonChar :: u16 where "colonChar \<equiv> 58"

definition portOf :: "'v NativeEnv \<Rightarrow> QString \<Rightarrow> u16 option" where
  "portOf env s = (case nve_toUShort env s of Some port \<Rightarrow> if 0 < port then Some port else None | None \<Rightarrow> None)"

text \<open>\<open>[host]:port\<close>, then \<open>host:port\<close> with one colon, else the host on port 445.\<close>

definition bracketedEndpoint :: "'v NativeEnv \<Rightarrow> QString \<Rightarrow> DirectTcpEndpoint option" where
  "bracketedEndpoint env host =
     (if \<not> startsWith host [91] then None
      else case indexOf 93 host of
        None \<Rightarrow> None
      | Some closingBracket \<Rightarrow>
          if 0 < closingBracket \<and> startsWith (drop (closingBracket + 1) host) [colonChar]
          then map_option (\<lambda>port. \<lparr>ep_host = nve_toStdString env (take (closingBracket - 1) (drop 1 host)), ep_port = port\<rparr>)
                 (portOf env (drop (closingBracket + 2) host))
          else None)"

definition portedEndpoint :: "'v NativeEnv \<Rightarrow> QString \<Rightarrow> DirectTcpEndpoint option" where
  "portedEndpoint env host =
     (case lastIndexOf colonChar host of
        None \<Rightarrow> None
      | Some colon \<Rightarrow>
          if 0 < colon \<and> indexOf colonChar host = Some colon
          then map_option (\<lambda>port. \<lparr>ep_host = nve_toStdString env (take colon host), ep_port = port\<rparr>)
                 (portOf env (drop (colon + 1) host))
          else None)"

definition endpointForServer :: "'v NativeEnv \<Rightarrow> QString \<Rightarrow> DirectTcpEndpoint" where
  "endpointForServer env server =
     (let host = trimmed (nve_qt env) server in
      case bracketedEndpoint env host of
        Some endpoint \<Rightarrow> endpoint
      | None \<Rightarrow> (case portedEndpoint env host of
          Some endpoint \<Rightarrow> endpoint
        | None \<Rightarrow> \<lparr>ep_host = nve_toStdString env host, ep_port = 445\<rparr>))"

section \<open>Configurations\<close>

definition backSlashes :: "QString \<Rightarrow> QString" where
  "backSlashes s = map (\<lambda>c. if c = slash then backslash else c) s"

text \<open>The tree of the pipes of a server.\<close>

definition ipcConnection :: "SavedConnection \<Rightarrow> SavedConnection" where
  "ipcConnection c = c\<lparr>con_share := latin1 ''IPC$'',
     con_normalizedUri := latin1 ''smb://'' @ con_server c @ latin1 ''/IPC$''\<rparr>"

fun toNativeAuthMode :: "AuthType \<Rightarrow> AuthMode" where
  "toNativeAuthMode AuthPassword = PasswordMode"
| "toNativeAuthMode AuthGuest = GuestMode"
| "toNativeAuthMode AuthAnonymous = AnonymousMode"
| "toNativeAuthMode AuthCurrentUser = CurrentUserMode"

definition signingPolicyForAuthType :: "AuthType \<Rightarrow> SecurityPolicy" where
  "signingPolicyForAuthType authType = Preferred"

definition nativeTimeout :: "int \<Rightarrow> int" where
  "nativeTimeout timeoutSeconds = 1000 * max 1 timeoutSeconds"

definition nativeConfig :: "'v NativeEnv \<Rightarrow> SavedConnection \<Rightarrow> int \<Rightarrow> ConnectionConfig" where
  "nativeConfig env c timeoutSeconds =
     \<lparr>cfg_server = ep_host (endpointForServer env (con_server c)), cfg_share = nve_toStdString env (con_share c),
      cfg_normalizedUri = nve_toStdString env (con_normalizedUri c), cfg_domain = nve_toStdString env (con_domain c),
      cfg_username = nve_toStdString env (con_username c), cfg_authMode = toNativeAuthMode (con_authType c),
      cfg_dialectFamily = Smb2AndSmb3, cfg_signing = signingPolicyForAuthType (con_authType c),
      cfg_encryption = Preferred, cfg_timeout = nativeTimeout timeoutSeconds\<rparr>"

definition nativeSecret :: "Secret \<Rightarrow> bytes" where
  "nativeSecret secret = (case secret of None \<Rightarrow> [] | Some s \<Rightarrow> sec_bytes s)"

text \<open>The progress of the library counts in \<open>uint64_t\<close>, the one of the application in \<open>qint64\<close>.\<close>

definition nativeContext :: "'v AppContext \<Rightarrow> int \<Rightarrow> 'v OperationContext" where
  "nativeContext ctx timeoutSeconds =
     \<lparr>ctx_timeout = nativeTimeout timeoutSeconds, ctx_cancellationToken = None,
      ctx_cancellationCallback = apc_cancelled ctx,
      ctx_progressCallback = map_option (\<lambda>callback n all.
        callback \<lparr>tpr_bytesTransferred = sint n, tpr_totalBytes = sint all\<rparr>) (apc_progress ctx)\<rparr>"

text \<open>A random GUID of version 4.\<close>

definition randomClientGuid :: "'v Entropy \<Rightarrow> 'v \<Rightarrow> bytes \<times> 'v" where
  "randomClientGuid entropy v =
     (let (guid, v) = randomBytes entropy 16 v in
      (guid[6 := (guid ! 6 AND 0x0F) OR 0x40, 8 := (guid ! 8 AND 0x3F) OR 0x80], v))"

definition nativeTokenOptions :: "bytes \<Rightarrow> 'r NtlmV2TokenProviderOptions" where
  "nativeTokenOptions workstation =
     \<lparr>npo_workstation = workstation, npo_negotiateFlags = 0xA2888235, npo_useServerTimestamp = True,
      npo_omitLmResponse = False, npo_useSpnego = True, npo_fixedClientChallenge = None, npo_fixedTimestamp = None,
      npo_clientChallengeGenerator = None, npo_timestampProvider = None\<rparr>"

definition nativeConnectorOptions :: "'v NativeEnv \<Rightarrow> SavedConnection \<Rightarrow> bytes \<Rightarrow> NativeSmbConnectorOptions" where
  "nativeConnectorOptions env c guid =
     \<lparr>nco_config = nativeConfig env c (nve_timeoutSeconds env),
      nco_negotiateOptions = \<lparr>neg_dialects = [Smb202, Smb210, Smb300, Smb302, Smb311], neg_signing = Required,
        neg_capabilities = 0, neg_clientGuid = guid\<rparr>,
      nco_firstSessionMessageId = 1, nco_maxSessionSetupRounds = 8\<rparr>"

section \<open>The inside and the outside of a connection\<close>

type_synonym 'v Wired = "'v Tcp NtlmV2State Smb3State"

definition wiredTcp :: "'v Wired \<Rightarrow> 'v Tcp" where "wiredTcp w = ntlm_outside (enc_outside w)"

definition withTcp :: "'v Tcp \<Rightarrow> 'v Wired \<Rightarrow> 'v Wired" where
  "withTcp t = enc_outside_update (ntlm_outside_update (\<lambda>_. t))"

definition outside :: "'v Wired \<Rightarrow> 'v" where "outside w = tcp_outside (wiredTcp w)"

definition inside :: "'v \<Rightarrow> 'v Wired \<Rightarrow> 'v Wired" where
  "inside v w = withTcp ((wiredTcp w)\<lparr>tcp_outside := v\<rparr>) w"

text \<open>A context of the outside used inside, and a context of the stack used by its wire.\<close>

definition insideContext :: "'v OperationContext \<Rightarrow> 'v Wired OperationContext" where
  "insideContext ctx =
     (let ask = map_option (\<lambda>f w. let (b, v) = f (outside w) in (b, inside v w)) in
      \<lparr>ctx_timeout = ctx_timeout ctx, ctx_cancellationToken = ask (ctx_cancellationToken ctx),
       ctx_cancellationCallback = ask (ctx_cancellationCallback ctx),
       ctx_progressCallback = map_option (\<lambda>f n all w. inside (f n all (outside w)) w) (ctx_progressCallback ctx)\<rparr>)"

definition wireContext :: "'v Wired \<Rightarrow> 'v Wired OperationContext \<Rightarrow> 'v Tcp OperationContext" where
  "wireContext w ctx =
     (let ask = map_option (\<lambda>f t. let (b, w') = f (withTcp t w) in (b, wiredTcp w')) in
      \<lparr>ctx_timeout = ctx_timeout ctx, ctx_cancellationToken = ask (ctx_cancellationToken ctx),
       ctx_cancellationCallback = ask (ctx_cancellationCallback ctx),
       ctx_progressCallback = map_option (\<lambda>f n all t. wiredTcp (f n all (withTcp t w))) (ctx_progressCallback ctx)\<rparr>)"

definition wireTransport :: "'v Tcp Transport \<Rightarrow> 'v Wired Transport" where
  "wireTransport transport frame ctx w =
     (let (r, t) = transport frame (wireContext w ctx) (wiredTcp w) in (r, withTcp t w))"

definition tcpEntropy :: "'v Entropy \<Rightarrow> 'v Tcp Entropy" where
  "tcpEntropy entropy =
     \<lparr>sys_random_device = calling (sys_random_device entropy), sys_clock = calling (sys_clock entropy)\<rparr>"

definition freshWired :: "'v \<Rightarrow> 'v Wired" where
  "freshWired v = newSmb3State \<lparr>m_lastNegotiateMessage = [], m_sessionBaseKey = (\<lambda>i. 0),
     ntlm_outside = \<lparr>tcp_outside = v, m_socket = - 1, tcp_handles = [], tcp_sent = [], tcp_received = []\<rparr>\<rparr>"

section \<open>Connections\<close>

record 'v NativeConnected =
  ntc_connection :: "'v Wired Connection"
  ntc_state :: "'v Wired NativeSmbConnectedState"

text \<open>The units of fuel of the socket loops, of a listing and of the depth of a deleted tree.\<close>

record NativeFuel =
  nfu_socket :: nat
  nfu_queries :: nat
  nfu_depth :: nat

definition closeWire :: "'v Sockets \<Rightarrow> 'v Wired \<Rightarrow> 'v" where
  "closeWire os w = tcp_outside (close os (wiredTcp w))"

definition openNativeConnection ::
  "NativeFuel \<Rightarrow> 'v NativeEnv \<Rightarrow> SavedConnection \<Rightarrow> Secret \<Rightarrow> 'v AppContext \<Rightarrow> 'v \<Rightarrow>
   'v NativeConnected DecodeResult outcome \<times> 'v" where
  "openNativeConnection fuel env c secret ctx v =
     (let (cancelled, v) = cancellationRequested ctx v in
      if cancelled then (Value (failure EcCancelled ''Operation was cancelled.''), v)
      else
        let endpoint = endpointForServer env (con_server c);
            (guid, v) = randomClientGuid (nve_entropy env) v;
            provider = ntlmTokenProvider (tcpEntropy (nve_entropy env)) (nativeSecret secret)
              (nativeTokenOptions (nve_toStdString env (nve_machineHostName env)));
            (r, s) = connect (nve_sha512 env) (Some (wireTransport (exchange (nfu_socket fuel) (nve_sockets env) endpoint)))
              provider (nativeConnectorOptions env c guid) (insideContext (nativeContext ctx (nve_timeoutSeconds env)))
              \<lparr>net_world = freshWired v, net_sent = []\<rparr> in
        case r of
          Value (Success st) \<Rightarrow>
            (Value (Success \<lparr>ntc_connection = newConnection st (net_world s), ntc_state = st\<rparr>), outside (net_world s))
        | Value (Failure e) \<Rightarrow> (Value (Failure e), closeWire (nve_sockets env) (net_world s))
        | Thrown m \<Rightarrow> (Thrown m, closeWire (nve_sockets env) (net_world s))
        | Fault \<Rightarrow> (Fault, outside (net_world s))
        | NoFuel \<Rightarrow> (NoFuel, outside (net_world s)))"

text \<open>An operation of the connection, run on the state of the outside at the call.\<close>

definition onConnection ::
  "('v Wired Transport \<Rightarrow> 'v Wired OperationContext \<Rightarrow> 'v Wired Connection \<Rightarrow> 'a \<times> 'v Wired Connection) \<Rightarrow>
   'v OperationContext \<Rightarrow> 'v NativeConnected \<times> 'v \<Rightarrow> 'a \<times> 'v NativeConnected \<times> 'v" where
  "onConnection operation ctx st =
     (let (n, v) = st;
          (r, s) = operation (exchangeOver (ncs_transport (ntc_state n))) (insideContext ctx)
            ((ntc_connection n)\<lparr>net_world := inside v (net_world (ntc_connection n))\<rparr>) in
      (r, n\<lparr>ntc_connection := s\<rparr>, outside (net_world s)))"

text \<open>The end of the scope of a connection: it logs off, then its transport closes the socket.\<close>

definition closeConnection :: "'v Sockets \<Rightarrow> 'v NativeConnected \<Rightarrow> 'v \<Rightarrow> 'v" where
  "closeConnection os n v =
     closeWire os (net_world (destroy (Some (exchangeOver (ncs_transport (ntc_state n))))
       ((ntc_connection n)\<lparr>net_world := inside v (net_world (ntc_connection n))\<rparr>)))"

section \<open>What the clients use of a connection\<close>

type_synonym ('c, 'v, 'a) NativeOp = "'c \<times> 'v \<Rightarrow> 'a DecodeResult outcome \<times> 'c \<times> 'v"

record ('c, 'v) NativeApi =
  nap_open :: "SavedConnection \<Rightarrow> Secret \<Rightarrow> 'v AppContext \<Rightarrow> 'v \<Rightarrow> 'c DecodeResult outcome \<times> 'v"
  nap_close :: "'c \<Rightarrow> 'v \<Rightarrow> 'v"
  nap_negotiated :: "'c \<Rightarrow> NegotiatedConnection"
  nap_session :: "'c \<Rightarrow> SessionSetupResponse"
  nap_tree :: "'c \<Rightarrow> TreeConnectResult"
  nap_listShares :: "bytes \<Rightarrow> 'v OperationContext \<Rightarrow> ('c, 'v, NativeShareList) NativeOp"
  nap_getDfsReferrals :: "bytes \<Rightarrow> 'v OperationContext \<Rightarrow> ('c, 'v, NativeDfsReferralResult) NativeOp"
  nap_listDirectory :: "bytes \<Rightarrow> 'v OperationContext \<Rightarrow> ('c, 'v, NativeRemoteEntry list) NativeOp"
  nap_statObject :: "bytes \<Rightarrow> 'v OperationContext \<Rightarrow> ('c, 'v, NativeStatResult) NativeOp"
  nap_createDirectory :: "bytes \<Rightarrow> 'v OperationContext \<Rightarrow> ('c, 'v, bytes) NativeOp"
  nap_deleteObject :: "bytes \<Rightarrow> bool \<Rightarrow> 'v OperationContext \<Rightarrow> ('c, 'v, bytes) NativeOp"
  nap_deleteTree :: "bytes \<Rightarrow> 'v OperationContext \<Rightarrow> ('c, 'v, bytes) NativeOp"
  nap_renameObject :: "bytes \<Rightarrow> bytes \<Rightarrow> bool \<Rightarrow> 'v OperationContext \<Rightarrow> ('c, 'v, bytes) NativeOp"
  nap_openFileForRead :: "bytes \<Rightarrow> 'v OperationContext \<Rightarrow> ('c, 'v, NativeFileHandle) NativeOp"
  nap_readFileChunk :: "FileId \<Rightarrow> u32 \<Rightarrow> u64 \<Rightarrow> 'v OperationContext \<Rightarrow> ('c, 'v, NativeReadResult) NativeOp"
  nap_closeFileHandle :: "FileId \<Rightarrow> 'v OperationContext \<Rightarrow> ('c, 'v, bool) NativeOp"
  nap_readFileOnce :: "bytes \<Rightarrow> u32 \<Rightarrow> u64 \<Rightarrow> 'v OperationContext \<Rightarrow> ('c, 'v, NativeReadResult) NativeOp"
  nap_writeFileOnce :: "bytes \<Rightarrow> bytes \<Rightarrow> u64 \<Rightarrow> 'v OperationContext \<Rightarrow> ('c, 'v, NativeWriteResult) NativeOp"
  nap_copyFileServerSide :: "bytes \<Rightarrow> bytes \<Rightarrow> u64 \<Rightarrow> 'v OperationContext \<Rightarrow> ('c, 'v, bytes) NativeOp"

definition nativeApi :: "NativeFuel \<Rightarrow> 'v NativeEnv \<Rightarrow> ('v NativeConnected, 'v) NativeApi" where
  "nativeApi fuel env =
     \<lparr>nap_open = openNativeConnection fuel env, nap_close = closeConnection (nve_sockets env),
      nap_negotiated = (\<lambda>n. ncs_negotiated (ntc_state n)), nap_session = (\<lambda>n. ncs_session (ntc_state n)),
      nap_tree = (\<lambda>n. ncs_tree (ntc_state n)),
      nap_listShares = (\<lambda>server. onConnection (\<lambda>t. Rpc.listShares t server)),
      nap_getDfsReferrals = (\<lambda>path. onConnection (\<lambda>t. getDfsReferrals t path)),
      nap_listDirectory = (\<lambda>path. onConnection (\<lambda>t. listDirectory (nfu_queries fuel) t path)),
      nap_statObject = (\<lambda>path. onConnection (\<lambda>t. statObject t path)),
      nap_createDirectory = (\<lambda>path. onConnection (\<lambda>t. createDirectory t path)),
      nap_deleteObject = (\<lambda>path directory. onConnection (\<lambda>t. deleteObject t path directory)),
      nap_deleteTree = (\<lambda>path. onConnection (\<lambda>t. deleteTree (nfu_depth fuel) (nfu_queries fuel) t path)),
      nap_renameObject = (\<lambda>path target replaceIfExists. onConnection (\<lambda>t. renameObject t path target replaceIfExists)),
      nap_openFileForRead = (\<lambda>path. onConnection (\<lambda>t. openFileForRead t path)),
      nap_readFileChunk = (\<lambda>fileId len offset. onConnection (\<lambda>t. readFileChunk t fileId len offset)),
      nap_closeFileHandle = (\<lambda>fileId. onConnection (\<lambda>t. closeFileHandle t fileId)),
      nap_readFileOnce = (\<lambda>path len offset. onConnection (\<lambda>t. readFileOnce t path len offset)),
      nap_writeFileOnce = (\<lambda>path data offset. onConnection (\<lambda>t. writeFileOnce t path data offset)),
      nap_copyFileServerSide = (\<lambda>path target n. onConnection (\<lambda>t. copyFileServerSide t path target n))\<rparr>"

section \<open>Programs over connections\<close>

text \<open>\<open>if (!x.ok) return failure(appError(x.error))\<close> after a call of a connection, on the state \<open>'s\<close> of
  the caller.\<close>

definition onNative ::
  "('s \<Rightarrow> 'a DecodeResult outcome \<times> 's) \<Rightarrow> (ProtocolError \<Rightarrow> 's \<Rightarrow> 'b outcome \<times> 's) \<Rightarrow>
   ('a \<Rightarrow> 's \<Rightarrow> 'b outcome \<times> 's) \<Rightarrow> 's \<Rightarrow> 'b outcome \<times> 's" where
  "onNative call onError continue s =
     (case call s of
        (Value (Success x), s) \<Rightarrow> continue x s
      | (Value (Failure e), s) \<Rightarrow> onError e s
      | (Thrown m, s) \<Rightarrow> (Thrown m, s)
      | (Fault, s) \<Rightarrow> (Fault, s)
      | (NoFuel, s) \<Rightarrow> (NoFuel, s))"

definition returning :: "'b \<Rightarrow> 's \<Rightarrow> 'b outcome \<times> 's" where "returning r s = (Value r, s)"

text \<open>The scope of a connection: it is closed however the body ends.\<close>

definition withConnection ::
  "('c, 'v) NativeApi \<Rightarrow> SavedConnection \<Rightarrow> Secret \<Rightarrow> 'v AppContext \<Rightarrow> (ProtocolError \<Rightarrow> 'b) \<Rightarrow>
   ('c \<times> 'v \<Rightarrow> 'b outcome \<times> 'c \<times> 'v) \<Rightarrow> 'v \<Rightarrow> 'b outcome \<times> 'v" where
  "withConnection api c secret ctx onError body v =
     (case nap_open api c secret ctx v of
        (Value (Success n), v) \<Rightarrow> let (r, n, v) = body (n, v) in (r, nap_close api n v)
      | (Value (Failure e), v) \<Rightarrow> (Value (onError e), v)
      | (Thrown m, v) \<Rightarrow> (Thrown m, v)
      | (Fault, v) \<Rightarrow> (Fault, v)
      | (NoFuel, v) \<Rightarrow> (NoFuel, v))"

end
