(* ===== verification/NativeClient.thy ===== *)
theory NativeClient
  imports NativeBackend
begin

text \<open>
  The client on top of the native library (\<open>src/src/infrastructure/smb/NativeSmbClient.cpp\<close>). Every
  operation opens a connection of its own, works through it and closes it. A program runs on the
  connections it holds and the outside world; its outcome is a result of the application or an
  exception that the library let through. Local files (\<open>QFile\<close>) are the argument \<open>LocalFiles\<close>; the
  loops over the chunks of a file take fuel, one unit for one turn.
\<close>

section \<open>Files and values\<close>

text \<open>A file is a handle; opening gives the message of a failure instead, a read its message when an
  error occurred, and a write the number of bytes written.\<close>

record 'v LocalFiles =
  lfs_openRead :: "QString \<Rightarrow> 'v \<Rightarrow> (QString + nat) \<times> 'v"
  lfs_openTruncate :: "QString \<Rightarrow> 'v \<Rightarrow> (QString + nat) \<times> 'v"
  lfs_size :: "nat \<Rightarrow> 'v \<Rightarrow> int \<times> 'v"
  lfs_atEnd :: "nat \<Rightarrow> 'v \<Rightarrow> bool \<times> 'v"
  lfs_read :: "nat \<Rightarrow> nat \<Rightarrow> 'v \<Rightarrow> (bytes \<times> QString option) \<times> 'v"
  lfs_write :: "nat \<Rightarrow> bytes \<Rightarrow> 'v \<Rightarrow> (int \<times> QString) \<times> 'v"
  lfs_close :: "nat \<Rightarrow> 'v \<Rightarrow> 'v"

record ('c, 'v) NativeSmb =
  nsc_api :: "('c, 'v) NativeApi"
  nsc_env :: "'v NativeEnv"
  nsc_files :: "'v LocalFiles"
  nsc_fuel :: nat

abbreviation (input) kUnixEpochAsFiletime :: u64 where "kUnixEpochAsFiletime \<equiv> 116444736000000000"
abbreviation (input) kChunkSize :: u64 where "kChunkSize \<equiv> 64 * 1024"
abbreviation (input) kDownloadChunkSize :: u64 where "kDownloadChunkSize \<equiv> 64 * 1024"

definition localIoError :: "QString \<Rightarrow> AppError" where
  "localIoError details = fromCode AeLocalIoError CatTransfer details False"

definition cancelledFailure :: "bool Result" where
  "cancelledFailure = failedWith False (fromCode AeOperationCancelled CatTransfer (latin1 ''Operation was cancelled.'') False)"

definition appFailure :: "('c, 'v) NativeSmb \<Rightarrow> Secret \<Rightarrow> 'a \<Rightarrow> ProtocolError \<Rightarrow> 'a Result" where
  "appFailure m secret blank e = failedWith blank (nativeAppError (nsc_env m) secret e)"

definition dialectName :: "Dialect \<Rightarrow> QString" where
  "dialectName dialect =
     (if dialect = Smb202 then latin1 ''SMB 2.0.2'' else if dialect = Smb210 then latin1 ''SMB 2.1''
      else if dialect = Smb300 then latin1 ''SMB 3.0'' else if dialect = Smb302 then latin1 ''SMB 3.0.2''
      else if dialect = Smb311 then latin1 ''SMB 3.1.1'' else latin1 ''SMB unknown'')"

definition normalizeNativePath :: "QtText \<Rightarrow> QString \<Rightarrow> QString" where
  "normalizeNativePath qt remotePath =
     backSlashes (dropWhile (\<lambda>c. c = slash \<or> c = backslash) (trimmed qt remotePath))"

definition childPath :: "QtText \<Rightarrow> QString \<Rightarrow> QString \<Rightarrow> QString" where
  "childPath qt parent name =
     (let normalizedParent = normalizeNativePath qt parent in
      if normalizedParent = [] then name else normalizedParent @ [backslash] @ name)"

definition sameRemoteTree :: "QtText \<Rightarrow> SavedConnection \<Rightarrow> SavedConnection \<Rightarrow> bool" where
  "sameRemoteTree qt l r =
     (if con_id l \<noteq> [] \<and> con_id l = con_id r then True
      else
        let sameAddress = (con_server l \<noteq> [] \<and> con_share l \<noteq> [] \<and> sameText qt (con_server l) (con_server r)
              \<and> sameText qt (con_share l) (con_share r));
            sameUri = (con_normalizedUri l \<noteq> [] \<and> sameText qt (con_normalizedUri l) (con_normalizedUri r)) in
        if \<not> sameAddress \<and> \<not> sameUri then False
        else sameText qt (con_domain l) (con_domain r) \<and> sameText qt (con_username l) (con_username r)
             \<and> con_authType l = con_authType r)"

text \<open>A time of the server counts 100 nanoseconds from 1601.\<close>

definition filetimeToDateTime :: "u64 \<Rightarrow> QDateTime" where
  "filetimeToDateTime filetime =
     (if filetime \<le> kUnixEpochAsFiletime then None
      else Some (sint ((filetime - kUnixEpochAsFiletime) div 10000)))"

definition attributesString :: "u32 \<Rightarrow> QString" where
  "attributesString attributes =
     latin1 (''0x'' @ map (\<lambda>i. ''0123456789abcdef'' ! unat (drop_bit (4 * i) attributes AND 15)) (rev [0..<8]))"

definition toCoreEntry :: "'v NativeEnv \<Rightarrow> QString \<Rightarrow> NativeRemoteEntry \<Rightarrow> RemoteFileEntry" where
  "toCoreEntry env parentPath entry =
     (let name = nve_fromStdString env (nre_name entry) in
      \<lparr>rfe_name = name, rfe_remotePath = childPath (nve_qt env) parentPath name,
       rfe_type = (if nre_reparsePoint entry then TypeSymlink else if nre_directory entry then TypeDirectory else TypeFile),
       rfe_size = sint (nre_size entry), rfe_modifiedAt = filetimeToDateTime (nre_lastWriteTime entry),
       rfe_attributes = attributesString (nre_attributes entry), rfe_permissions = [],
       rfe_isHidden = startsWith name [46]\<rparr>)"

definition toCoreShare :: "'v NativeEnv \<Rightarrow> NativeShareInfo \<Rightarrow> SmbShareInfo" where
  "toCoreShare env share =
     \<lparr>shi_name = nve_fromStdString env (nsi_name share), shi_type = latin1 (nsi_type share),
      shi_comment = nve_fromStdString env (nsi_comment share), shi_hidden = nsi_hidden share, shi_dfs = False\<rparr>"

section \<open>Requests that need one connection\<close>

definition nativeCapabilities :: "SavedConnection \<Rightarrow> SmbClientCapabilities" where
  "nativeCapabilities c = defaultCapabilities
     \<lparr>cap_canSetBasicMetadata := True, cap_canReadExtendedAttributes := True, cap_canWriteExtendedAttributes := True,
      cap_canReadSecurityDescriptor := True, cap_canWriteSecurityDescriptor := True, cap_canWatchDirectory := True,
      cap_canUsePosixMode := False, cap_canUsePosixOwner := False, cap_canBrowseShares := True,
      cap_unsupportedAdvancedOperationsReason :=
        latin1 ''POSIX chmod/chown are not supported by the native SMB2/SMB3 backend yet.''\<rparr>"

definition contextOf :: "('c, 'v) NativeSmb \<Rightarrow> 'v AppContext \<Rightarrow> 'v OperationContext" where
  "contextOf m ctx = nativeContext ctx (nve_timeoutSeconds (nsc_env m))"

definition pathBytes :: "('c, 'v) NativeSmb \<Rightarrow> QString \<Rightarrow> bytes" where
  "pathBytes m remotePath = nve_toStdString (nsc_env m) (normalizeNativePath (nve_qt (nsc_env m)) remotePath)"

definition connected ::
  "('c, 'v) NativeSmb \<Rightarrow> SavedConnection \<Rightarrow> Secret \<Rightarrow> 'v AppContext \<Rightarrow> 'a \<Rightarrow>
   ('c \<times> 'v \<Rightarrow> 'a Result outcome \<times> 'c \<times> 'v) \<Rightarrow> 'v \<Rightarrow> 'a Result outcome \<times> 'v" where
  "connected m c secret ctx blank = withConnection (nsc_api m) c secret ctx (appFailure m secret blank)"

text \<open>A call whose failure is the failure of the operation.\<close>

definition require ::
  "('c, 'v) NativeSmb \<Rightarrow> Secret \<Rightarrow> 'b \<Rightarrow> ('s \<Rightarrow> 'a DecodeResult outcome \<times> 's) \<Rightarrow>
   ('a \<Rightarrow> 's \<Rightarrow> 'b Result outcome \<times> 's) \<Rightarrow> 's \<Rightarrow> 'b Result outcome \<times> 's" where
  "require m secret blank call = onNative call (\<lambda>e. returning (appFailure m secret blank e))"

definition probeNative ::
  "('c, 'v) NativeSmb \<Rightarrow> SavedConnection \<Rightarrow> Secret \<Rightarrow> 'v AppContext \<Rightarrow> 'v \<Rightarrow> SmbCapabilityReport Result outcome \<times> 'v" where
  "probeNative m c secret ctx = connected m c secret ctx emptyReport (\<lambda>(n, v).
     let negotiated = nap_negotiated (nsc_api m) n; session = nap_session (nsc_api m) n; tree = nap_tree (nsc_api m) n in
     (Value (succeeded \<lparr>crp_serverAvailable = True, crp_shareAvailable = True,
        crp_dialect = dialectName (ngc_dialect negotiated), crp_signingRequired = ngc_signingRequired negotiated,
        crp_encryptionSupported = ngc_encryptionSupported negotiated,
        crp_encryptionRequired = (tre_requiresEncryption tree \<or> ssr_encryptData session),
        crp_dfsSupported = (ngc_capabilities negotiated AND CapDfs \<noteq> 0),
        crp_shareDfs = tre_isDfs tree, crp_shareDfsRoot = tre_isDfsRoot tree,
        crp_capabilities = nativeCapabilities c\<rparr>), n, v))"

definition listSharesNative ::
  "('c, 'v) NativeSmb \<Rightarrow> SavedConnection \<Rightarrow> Secret \<Rightarrow> 'v AppContext \<Rightarrow> 'v \<Rightarrow> SmbShareInfo list Result outcome \<times> 'v" where
  "listSharesNative m c secret ctx v =
     (let (cancelled, v) = cancellationRequested ctx v in
      if cancelled then (Value (failedWith [] (res_error cancelledFailure)), v)
      else connected m (ipcConnection c) secret ctx []
        (require m secret [] (nap_listShares (nsc_api m) (ep_host (endpointForServer (nsc_env m) (con_server c))) (contextOf m ctx))
           (\<lambda>shares. returning (succeeded (map (toCoreShare (nsc_env m)) (nsl_shares shares))))) v)"

definition checkConnectionNative ::
  "('c, 'v) NativeSmb \<Rightarrow> SavedConnection \<Rightarrow> Secret \<Rightarrow> 'v AppContext \<Rightarrow> 'v \<Rightarrow> bool Result outcome \<times> 'v" where
  "checkConnectionNative m c secret ctx = connected m c secret ctx False (returning (succeeded True))"

definition listDirectoryNative ::
  "('c, 'v) NativeSmb \<Rightarrow> SavedConnection \<Rightarrow> Secret \<Rightarrow> QString \<Rightarrow> 'v AppContext \<Rightarrow> 'v \<Rightarrow>
   RemoteFileEntry list Result outcome \<times> 'v" where
  "listDirectoryNative m c secret remotePath ctx = connected m c secret ctx []
     (require m secret [] (nap_listDirectory (nsc_api m) (pathBytes m remotePath) (contextOf m ctx)) (\<lambda>listing.
        returning (succeeded (map (toCoreEntry (nsc_env m) (normalizeNativePath (nve_qt (nsc_env m)) remotePath)) listing))))"

definition createDirectoryNative ::
  "('c, 'v) NativeSmb \<Rightarrow> SavedConnection \<Rightarrow> Secret \<Rightarrow> QString \<Rightarrow> 'v AppContext \<Rightarrow> 'v \<Rightarrow> bool Result outcome \<times> 'v" where
  "createDirectoryNative m c secret remotePath ctx = connected m c secret ctx False
     (require m secret False (nap_createDirectory (nsc_api m) (pathBytes m remotePath) (contextOf m ctx)) (\<lambda>_.
        returning (succeeded True)))"

definition removeNative ::
  "('c, 'v) NativeSmb \<Rightarrow> SavedConnection \<Rightarrow> Secret \<Rightarrow> QString \<Rightarrow> 'v AppContext \<Rightarrow> 'v \<Rightarrow> bool Result outcome \<times> 'v" where
  "removeNative m c secret remotePath ctx = connected m c secret ctx False
     (let path = pathBytes m remotePath in
      require m secret False (nap_statObject (nsc_api m) path (contextOf m ctx)) (\<lambda>stat.
      require m secret False
        (if nst_directory stat \<and> \<not> nst_reparsePoint stat then nap_deleteTree (nsc_api m) path (contextOf m ctx)
         else nap_deleteObject (nsc_api m) path (nst_directory stat) (contextOf m ctx)) (\<lambda>_.
      returning (succeeded True))))"

definition renameNative ::
  "('c, 'v) NativeSmb \<Rightarrow> SavedConnection \<Rightarrow> Secret \<Rightarrow> QString \<Rightarrow> QString \<Rightarrow> 'v AppContext \<Rightarrow> 'v \<Rightarrow> bool Result outcome \<times> 'v" where
  "renameNative m c secret sourceRemotePath targetRemotePath ctx = connected m c secret ctx False
     (require m secret False
        (nap_renameObject (nsc_api m) (pathBytes m sourceRemotePath) (pathBytes m targetRemotePath) True (contextOf m ctx)) (\<lambda>_.
      returning (succeeded True)))"

section \<open>Downloads and uploads\<close>

definition askToken :: "'v AppContext \<Rightarrow> 'c \<times> 'v \<Rightarrow> bool \<times> 'c \<times> 'v" where
  "askToken ctx s = (let (n, v) = s; (cancelled, v) = cancellationRequested ctx v in (cancelled, n, v))"

definition chunkOf :: "u64 \<Rightarrow> u64 \<Rightarrow> u64 \<Rightarrow> u32" where
  "chunkOf limit amount offset = ucast (min limit (amount - offset))"

fun downloadLoop ::
  "nat \<Rightarrow> ('c, 'v) NativeSmb \<Rightarrow> Secret \<Rightarrow> 'v AppContext \<Rightarrow> nat \<Rightarrow> NativeFileHandle \<Rightarrow> u64 \<Rightarrow>
   'c \<times> 'v \<Rightarrow> bool Result outcome \<times> 'c \<times> 'v" where
  "downloadLoop 0 m secret ctx file opened offset s = (NoFuel, s)"
| "downloadLoop (Suc turns) m secret ctx file opened offset s =
     (if \<not> offset < nfh_size opened then (Value (succeeded True), s)
      else
        let (cancelled, s) = askToken ctx s in
        if cancelled then (Value cancelledFailure, s)
        else require m secret False
          (nap_readFileChunk (nsc_api m) (nfh_fileId opened) (chunkOf kDownloadChunkSize (nfh_size opened) offset) offset (contextOf m ctx))
          (\<lambda>chunk (n, v).
             let ((written, message), v) = lfs_write (nsc_files m) file (nrr_data chunk) v in
             if written \<noteq> int (length (nrr_data chunk)) then (Value (failedWith False (localIoError message)), n, v)
             else
               let offset = offset + word_of_nat (length (nrr_data chunk));
                   v = SmbClients.reportProgress ctx \<lparr>tpr_bytesTransferred = sint offset, tpr_totalBytes = sint (nfh_size opened)\<rparr> v in
               if nrr_data chunk = [] then (Value (succeeded True), n, v)
               else downloadLoop turns m secret ctx file opened offset (n, v)) s)"

text \<open>The local file is closed before the connection, and the remote file before both; its close is not
  looked at.\<close>

definition closingRemoteFile ::
  "('c, 'v) NativeSmb \<Rightarrow> 'v AppContext \<Rightarrow> FileId \<Rightarrow> 'b Result outcome \<times> 'c \<times> 'v \<Rightarrow> 'b Result outcome \<times> 'c \<times> 'v" where
  "closingRemoteFile m ctx fileId ended =
     (case ended of
        (Value r, s) \<Rightarrow> onNative (nap_closeFileHandle (nsc_api m) fileId (contextOf m ctx)) (\<lambda>e. returning r) (\<lambda>_. returning r) s
      | (Thrown t, s) \<Rightarrow> (Thrown t, s) | (Fault, s) \<Rightarrow> (Fault, s) | (NoFuel, s) \<Rightarrow> (NoFuel, s))"

definition closingLocalFile :: "('c, 'v) NativeSmb \<Rightarrow> nat \<Rightarrow> 'r \<times> 'c \<times> 'v \<Rightarrow> 'r \<times> 'c \<times> 'v" where
  "closingLocalFile m file ended = (let (r, n, v) = ended in (r, n, lfs_close (nsc_files m) file v))"

definition downloadFileNative ::
  "('c, 'v) NativeSmb \<Rightarrow> SavedConnection \<Rightarrow> Secret \<Rightarrow> QString \<Rightarrow> QString \<Rightarrow> 'v AppContext \<Rightarrow> 'v \<Rightarrow> bool Result outcome \<times> 'v" where
  "downloadFileNative m c secret remotePath localPath ctx = connected m c secret ctx False
     (require m secret False (nap_openFileForRead (nsc_api m) (pathBytes m remotePath) (contextOf m ctx)) (\<lambda>opened (n, v).
        let (local, v) = lfs_openTruncate (nsc_files m) localPath v in
        case local of
          Inl message \<Rightarrow> closingRemoteFile m ctx (nfh_fileId opened) (Value (failedWith False (localIoError message)), n, v)
        | Inr file \<Rightarrow> closingLocalFile m file (closingRemoteFile m ctx (nfh_fileId opened)
            (downloadLoop (nsc_fuel m) m secret ctx file opened 0 (n, v)))))"

text \<open>What stands at the target is deleted first; nothing there is no failure.\<close>

definition clearingTarget ::
  "('c, 'v) NativeSmb \<Rightarrow> Secret \<Rightarrow> ('s \<Rightarrow> NativeStatResult DecodeResult outcome \<times> 's) \<Rightarrow>
   (bool \<Rightarrow> 's \<Rightarrow> bytes DecodeResult outcome \<times> 's) \<Rightarrow> ('s \<Rightarrow> bool Result outcome \<times> 's) \<Rightarrow> 's \<Rightarrow> bool Result outcome \<times> 's" where
  "clearingTarget m secret stat delete continue =
     onNative stat
       (\<lambda>e. if pe_code e \<noteq> EcFileNotFound then returning (appFailure m secret False e) else continue)
       (\<lambda>existing. require m secret False (delete (nst_directory existing)) (\<lambda>_. continue))"

fun uploadLoop ::
  "nat \<Rightarrow> ('c, 'v) NativeSmb \<Rightarrow> Secret \<Rightarrow> 'v AppContext \<Rightarrow> nat \<Rightarrow> bytes \<Rightarrow> int \<Rightarrow> u64 \<Rightarrow>
   'c \<times> 'v \<Rightarrow> bool Result outcome \<times> 'c \<times> 'v" where
  "uploadLoop 0 m secret ctx file path fileSize offset s = (NoFuel, s)"
| "uploadLoop (Suc turns) m secret ctx file path fileSize offset s =
     (let (n, v) = s; (atEnd, v) = lfs_atEnd (nsc_files m) file v in
      if atEnd then (Value (succeeded True), n, v)
      else
        let (cancelled, n, v) = askToken ctx (n, v) in
        if cancelled then (Value cancelledFailure, n, v)
        else
          let ((chunk, problem), v) = lfs_read (nsc_files m) file (unat kChunkSize) v in
          if chunk = [] \<and> problem \<noteq> None then (Value (failedWith False (localIoError (the problem))), n, v)
          else require m secret False (nap_writeFileOnce (nsc_api m) path chunk offset (contextOf m ctx)) (\<lambda>_ (n, v).
            let offset = offset + word_of_nat (length chunk) in
            uploadLoop turns m secret ctx file path fileSize offset
              (n, SmbClients.reportProgress ctx \<lparr>tpr_bytesTransferred = sint offset, tpr_totalBytes = fileSize\<rparr> v)) (n, v))"

definition uploadFileNative ::
  "('c, 'v) NativeSmb \<Rightarrow> SavedConnection \<Rightarrow> Secret \<Rightarrow> QString \<Rightarrow> QString \<Rightarrow> 'v AppContext \<Rightarrow> 'v \<Rightarrow> bool Result outcome \<times> 'v" where
  "uploadFileNative m c secret localPath remotePath ctx = connected m c secret ctx False (\<lambda>(n, v).
     let (local, v) = lfs_openRead (nsc_files m) localPath v; path = pathBytes m remotePath in
     case local of
       Inl message \<Rightarrow> (Value (failedWith False (localIoError message)), n, v)
     | Inr file \<Rightarrow> closingLocalFile m file
         (clearingTarget m secret (nap_statObject (nsc_api m) path (contextOf m ctx))
           (\<lambda>directory. nap_deleteObject (nsc_api m) path directory (contextOf m ctx))
           (\<lambda>(n, v). let (fileSize, v) = lfs_size (nsc_files m) file v in
              uploadLoop (nsc_fuel m) m secret ctx file path fileSize 0 (n, v)) (n, v)))"

section \<open>Copies and moves\<close>

text \<open>A second connection beside the first, and the calls of the two.\<close>

definition besides ::
  "('c, 'v) NativeSmb \<Rightarrow> SavedConnection \<Rightarrow> Secret \<Rightarrow> 'v AppContext \<Rightarrow> 'a \<Rightarrow>
   ('c \<times> 'c \<times> 'v \<Rightarrow> 'a Result outcome \<times> 'c \<times> 'c \<times> 'v) \<Rightarrow> 'c \<times> 'v \<Rightarrow> 'a Result outcome \<times> 'c \<times> 'v" where
  "besides m c secret ctx blank body s =
     (let (source, v) = s in
      case nap_open (nsc_api m) c secret ctx v of
        (Value (Success target), v) \<Rightarrow>
          let (r, source, target, v) = body (source, target, v) in (r, source, nap_close (nsc_api m) target v)
      | (Value (Failure e), v) \<Rightarrow> (Value (appFailure m secret blank e), source, v)
      | (Thrown t, v) \<Rightarrow> (Thrown t, source, v)
      | (Fault, v) \<Rightarrow> (Fault, source, v)
      | (NoFuel, v) \<Rightarrow> (NoFuel, source, v))"

definition onSource :: "('c \<times> 'v \<Rightarrow> 'a \<times> 'c \<times> 'v) \<Rightarrow> 'c \<times> 'c \<times> 'v \<Rightarrow> 'a \<times> 'c \<times> 'c \<times> 'v" where
  "onSource call s = (let (source, target, v) = s; (r, source, v) = call (source, v) in (r, source, target, v))"

definition onTarget :: "('c \<times> 'v \<Rightarrow> 'a \<times> 'c \<times> 'v) \<Rightarrow> 'c \<times> 'c \<times> 'v \<Rightarrow> 'a \<times> 'c \<times> 'c \<times> 'v" where
  "onTarget call s = (let (source, t) = s; (r, t) = call t in (r, source, t))"

definition tellProgress :: "'v AppContext \<Rightarrow> u64 \<Rightarrow> u64 \<Rightarrow> 'c \<times> 'c \<times> 'v \<Rightarrow> 'c \<times> 'c \<times> 'v" where
  "tellProgress ctx n all s = (let (source, target, v) = s in
     (source, target, SmbClients.reportProgress ctx \<lparr>tpr_bytesTransferred = sint n, tpr_totalBytes = sint all\<rparr> v))"

fun copyLoopNative ::
  "nat \<Rightarrow> ('c, 'v) NativeSmb \<Rightarrow> Secret \<Rightarrow> Secret \<Rightarrow> 'v AppContext \<Rightarrow> bytes \<Rightarrow> bytes \<Rightarrow> u64 \<Rightarrow> u64 \<Rightarrow>
   'c \<times> 'c \<times> 'v \<Rightarrow> bool Result outcome \<times> 'c \<times> 'c \<times> 'v" where
  "copyLoopNative 0 m sourceSecret targetSecret ctx sourcePath targetPath amount offset s = (NoFuel, s)"
| "copyLoopNative (Suc turns) m sourceSecret targetSecret ctx sourcePath targetPath amount offset s =
     (if \<not> offset < amount then (Value (succeeded True), s)
      else
        let (cancelled, s) = onTarget (askToken ctx) s in
        if cancelled then (Value cancelledFailure, s)
        else require m sourceSecret False
          (onSource (nap_readFileOnce (nsc_api m) sourcePath (chunkOf kChunkSize amount offset) offset (contextOf m ctx))) (\<lambda>chunk.
          require m targetSecret False
            (onTarget (nap_writeFileOnce (nsc_api m) targetPath (nrr_data chunk) offset (contextOf m ctx))) (\<lambda>_ s.
          let offset = offset + word_of_nat (length (nrr_data chunk)); s = tellProgress ctx offset amount s in
          if nrr_data chunk = [] then (Value (succeeded True), s)
          else copyLoopNative turns m sourceSecret targetSecret ctx sourcePath targetPath amount offset s)) s)"

text \<open>The copy by the server, when both ends are one tree: a failure other than a cancellation clears what
  it left and the copy through the client follows.\<close>

definition serverSideFirst ::
  "('c, 'v) NativeSmb \<Rightarrow> Secret \<Rightarrow> 'v AppContext \<Rightarrow> bytes \<Rightarrow> bytes \<Rightarrow> u64 \<Rightarrow>
   ('c \<times> 'c \<times> 'v \<Rightarrow> bool Result outcome \<times> 'c \<times> 'c \<times> 'v) \<Rightarrow> 'c \<times> 'c \<times> 'v \<Rightarrow> bool Result outcome \<times> 'c \<times> 'c \<times> 'v" where
  "serverSideFirst m sourceSecret ctx sourcePath targetPath amount continue =
     onNative (onSource (nap_copyFileServerSide (nsc_api m) sourcePath targetPath amount (contextOf m ctx)))
       (\<lambda>e. if pe_code e = EcCancelled then returning (appFailure m sourceSecret False e)
             else onNative (onTarget (nap_statObject (nsc_api m) targetPath (contextOf m ctx))) (\<lambda>_. continue)
               (\<lambda>partly. onNative (onTarget (nap_deleteObject (nsc_api m) targetPath (nst_directory partly) (contextOf m ctx)))
                  (\<lambda>_. continue) (\<lambda>_. continue)))
       (\<lambda>_. returning (succeeded True))"

definition copyThrough ::
  "('c, 'v) NativeSmb \<Rightarrow> Secret \<Rightarrow> Secret \<Rightarrow> 'v AppContext \<Rightarrow> bytes \<Rightarrow> bytes \<Rightarrow> u64 \<Rightarrow>
   'c \<times> 'c \<times> 'v \<Rightarrow> bool Result outcome \<times> 'c \<times> 'c \<times> 'v" where
  "copyThrough m sourceSecret targetSecret ctx sourcePath targetPath amount =
     (if amount = 0 then
        require m targetSecret False (onTarget (nap_writeFileOnce (nsc_api m) targetPath [] 0 (contextOf m ctx))) (\<lambda>_ s.
          (Value (succeeded True), tellProgress ctx 0 0 s))
      else copyLoopNative (nsc_fuel m) m sourceSecret targetSecret ctx sourcePath targetPath amount 0)"

definition directoryCopyError :: AppError where
  "directoryCopyError = fromCode AeProtocolUnsupported CatSmb
     (latin1 ''Directory copy is not implemented by the native SMB backend yet.'') False"

definition copyNative ::
  "('c, 'v) NativeSmb \<Rightarrow> SavedConnection \<Rightarrow> Secret \<Rightarrow> QString \<Rightarrow> SavedConnection \<Rightarrow> Secret \<Rightarrow> QString \<Rightarrow>
   'v AppContext \<Rightarrow> 'v \<Rightarrow> bool Result outcome \<times> 'v" where
  "copyNative m sourceC sourceSecret sourceRemotePath targetC targetSecret targetRemotePath ctx =
     connected m sourceC sourceSecret ctx False (besides m targetC targetSecret ctx False
       (let sourcePath = pathBytes m sourceRemotePath; targetPath = pathBytes m targetRemotePath in
        require m sourceSecret False (onSource (nap_statObject (nsc_api m) sourcePath (contextOf m ctx))) (\<lambda>stat.
        if nst_directory stat then returning (failedWith False directoryCopyError)
        else clearingTarget m targetSecret (onTarget (nap_statObject (nsc_api m) targetPath (contextOf m ctx)))
          (\<lambda>directory. onTarget (nap_deleteObject (nsc_api m) targetPath directory (contextOf m ctx)))
          (if sameRemoteTree (nve_qt (nsc_env m)) sourceC targetC
           then serverSideFirst m sourceSecret ctx sourcePath targetPath (nst_size stat)
             (copyThrough m sourceSecret targetSecret ctx sourcePath targetPath (nst_size stat))
           else copyThrough m sourceSecret targetSecret ctx sourcePath targetPath (nst_size stat)))))"

definition moveNative ::
  "('c, 'v) NativeSmb \<Rightarrow> SavedConnection \<Rightarrow> Secret \<Rightarrow> QString \<Rightarrow> SavedConnection \<Rightarrow> Secret \<Rightarrow> QString \<Rightarrow>
   'v AppContext \<Rightarrow> 'v \<Rightarrow> bool Result outcome \<times> 'v" where
  "moveNative m sourceC sourceSecret sourceRemotePath targetC targetSecret targetRemotePath ctx v =
     (if sameRemoteTree (nve_qt (nsc_env m)) sourceC targetC
      then renameNative m sourceC sourceSecret sourceRemotePath targetRemotePath ctx v
      else
        case copyNative m sourceC sourceSecret sourceRemotePath targetC targetSecret targetRemotePath ctx v of
          (Value copied, v) \<Rightarrow> if \<not> ok copied then (Value copied, v) else removeNative m sourceC sourceSecret sourceRemotePath ctx v
        | (Thrown t, v) \<Rightarrow> (Thrown t, v) | (Fault, v) \<Rightarrow> (Fault, v) | (NoFuel, v) \<Rightarrow> (NoFuel, v))"

section \<open>A download delivers the file\<close>

text \<open>The server serves \<open>bytes\<close> at \<open>path\<close>, and the local file system appends what is written to the
  file: \<open>I\<close> holds of the connection and the world as long as it does, and \<open>L\<close> is what the local file
  holds.\<close>

definition servesFile ::
  "('c, 'v) NativeSmb \<Rightarrow> ('c \<Rightarrow> 'v \<Rightarrow> bool) \<Rightarrow> ('v \<Rightarrow> bytes) \<Rightarrow> bytes \<Rightarrow> bytes \<Rightarrow> NativeFileHandle \<Rightarrow> bool" where
  "servesFile m I L path data opened \<longleftrightarrow>
     nfh_size opened = word_of_nat (length data)
     \<and> (\<forall>ctx n v. I n v \<longrightarrow> (\<exists>n' v'. nap_openFileForRead (nsc_api m) path ctx (n, v) = (Value (Success opened), n', v') \<and> I n' v'))
     \<and> (\<forall>ctx n v len offset. I n v \<longrightarrow> (\<exists>n' v' r. nap_readFileChunk (nsc_api m) (nfh_fileId opened) len offset ctx (n, v) =
          (Value (Success \<lparr>nrr_data = take (unat len) (drop (unat offset) data), nrr_dataRemaining = r\<rparr>), n', v')
          \<and> I n' v' \<and> L v' = L v))
     \<and> (\<forall>ctx n v. I n v \<longrightarrow> (\<exists>r n' v'. nap_closeFileHandle (nsc_api m) (nfh_fileId opened) ctx (n, v) = (Value r, n', v') \<and> L v' = L v))"

definition writesFile ::
  "('c, 'v) NativeSmb \<Rightarrow> ('c \<Rightarrow> 'v \<Rightarrow> bool) \<Rightarrow> ('v \<Rightarrow> bytes) \<Rightarrow> 'v AppContext \<Rightarrow> QString \<Rightarrow> nat \<Rightarrow> bool" where
  "writesFile m I L ctx localPath file \<longleftrightarrow>
     (\<forall>n v. I n v \<longrightarrow> (\<exists>v'. lfs_openTruncate (nsc_files m) localPath v = (Inr file, v') \<and> I n v' \<and> L v' = []))
     \<and> (\<forall>n v d. I n v \<longrightarrow> (\<exists>v' message. lfs_write (nsc_files m) file d v = ((int (length d), message), v') \<and> I n v' \<and> L v' = L v @ d))
     \<and> (\<forall>v. L (lfs_close (nsc_files m) file v) = L v) \<and> (\<forall>n v. L (nap_close (nsc_api m) n v) = L v)
     \<and> (\<forall>n v p. I n v \<longrightarrow> I n (SmbClients.reportProgress ctx p v) \<and> L (SmbClients.reportProgress ctx p v) = L v)"

lemma servesFile_read:
  assumes "servesFile m I L path data opened" "I n v"
  obtains n' v' r where "nap_readFileChunk (nsc_api m) (nfh_fileId opened) len offset ctx (n, v) =
      (Value (Success \<lparr>nrr_data = take (unat len) (drop (unat offset) data), nrr_dataRemaining = r\<rparr>), n', v')" "I n' v'" "L v' = L v"
  using assms unfolding servesFile_def by meson

lemma writesFile_write:
  assumes "writesFile m I L ctx localPath file" "I n v"
  obtains v' message where "lfs_write (nsc_files m) file d v = ((int (length d), message), v')" "I n v'" "L v' = L v @ d"
  using assms unfolding writesFile_def by meson

lemma writesFile_progress:
  "writesFile m I L ctx localPath file \<Longrightarrow> I n v \<Longrightarrow> I n (SmbClients.reportProgress ctx p v)"
  "writesFile m I L ctx localPath file \<Longrightarrow> I n v \<Longrightarrow> L (SmbClients.reportProgress ctx p v) = L v"
  by (simp_all add: writesFile_def)

lemma askToken_none: "apc_cancelled ctx = None \<Longrightarrow> askToken ctx s = (False, s)"
  by (cases s) (simp add: askToken_def cancellationRequested_def)

lemma unat_chunkOf:
  assumes "offset \<le> length data" "length data < 2 ^ 64"
  shows "unat (chunkOf kChunkSize (word_of_nat (length data)) (word_of_nat offset)) = min 65536 (length data - offset)"
proof -
  have *: "unat (word_of_nat (length data) - word_of_nat offset :: u64) = length data - offset"
    using assms by (simp add: unat_sub_if' unsigned_of_nat take_bit_nat_eq_self)
  have "unat (min kChunkSize (word_of_nat (length data) - word_of_nat offset)) = min 65536 (length data - offset)"
    using * by (simp add: min_def word_le_nat_alt)
  moreover have "min 65536 (length data - offset) < 2 ^ 32" by (simp add: min_def)
  ultimately show ?thesis unfolding chunkOf_def by (subst unat_ucast_fits) simp_all
qed

lemma downloadLoop_delivers:
  assumes serves: "servesFile m I L path data opened" and writes: "writesFile m I L ctx localPath file"
    and quiet: "apc_cancelled ctx = None" and fits: "length data < 2 ^ 64"
  shows "I n v \<Longrightarrow> offset \<le> length data \<Longrightarrow> L v = take offset data \<Longrightarrow> length data + 65536 \<le> offset + turns * 65536 \<Longrightarrow>
    \<exists>n' v'. downloadLoop turns m secret ctx file opened (word_of_nat offset) (n, v) = (Value (succeeded True), n', v') \<and> I n' v' \<and> L v' = data"
proof (induction turns arbitrary: n v offset)
  case (Suc turns)
  have amount: "nfh_size opened = word_of_nat (length data)" using serves by (simp add: servesFile_def)
  have more: "word_of_nat offset < nfh_size opened \<longleftrightarrow> offset < length data"
    using fits Suc.prems(2) by (simp add: amount word_less_nat_alt unsigned_of_nat take_bit_nat_eq_self)
  show ?case
  proof (cases "offset < length data")
    case False
    then show ?thesis using Suc.prems more by simp
  next
    case True
    define d where "d = take 65536 (drop offset data)"
    have read: "take (unat (chunkOf kDownloadChunkSize (nfh_size opened) (word_of_nat offset))) (drop (unat (word_of_nat offset :: u64)) data) = d"
      using unat_chunkOf [OF Suc.prems(2) fits] fits Suc.prems(2)
      by (simp add: d_def amount unsigned_of_nat take_bit_nat_eq_self min_def)
    obtain n1 v1 r where 1: "nap_readFileChunk (nsc_api m) (nfh_fileId opened)
        (chunkOf kDownloadChunkSize (nfh_size opened) (word_of_nat offset)) (word_of_nat offset) (contextOf m ctx) (n, v) =
        (Value (Success \<lparr>nrr_data = d, nrr_dataRemaining = r\<rparr>), n1, v1)" "I n1 v1" "L v1 = L v"
      using servesFile_read [OF serves Suc.prems(1)] unfolding read [symmetric] by blast
    obtain v2 message where 2: "lfs_write (nsc_files m) file d v1 = ((int (length d), message), v2)" "I n1 v2" "L v2 = L v1 @ d"
      using writesFile_write [OF writes 1(2)] by blast
    define v3 where "v3 = SmbClients.reportProgress ctx \<lparr>tpr_bytesTransferred = sint (word_of_nat (offset + length d) :: u64),
      tpr_totalBytes = sint (nfh_size opened)\<rparr> v2"
    have 3: "I n1 v3" "L v3 = L v2" unfolding v3_def using writesFile_progress [OF writes 2(2)] by blast+
    have next_offset: "word_of_nat offset + word_of_nat (length d) = (word_of_nat (offset + length d) :: u64)" by simp
    have "\<exists>n' v'. downloadLoop turns m secret ctx file opened (word_of_nat (offset + length d)) (n1, v3) =
        (Value (succeeded True), n', v') \<and> I n' v' \<and> L v' = data"
      by (rule Suc.IH [OF 3(1)]) (use Suc.prems True 1(3) 2(3) 3(2) in \<open>auto simp: d_def take_add min_def\<close>)
    moreover have "d \<noteq> []" using True by (simp add: d_def)
    ultimately show ?thesis
      using True 1(1) 2(1) by (simp add: more askToken_none [OF quiet] require_def onNative_def next_offset v3_def [symmetric] Let_def del: of_nat_add)
  qed
qed simp


section \<open>An upload stores the file\<close>

text \<open>The local file holds \<open>data\<close>, of which \<open>p\<close> bytes are read; \<open>R\<close> is what the server has at
  \<open>path\<close>, where a write at the end appends and creates the file if need be.\<close>

definition readsFile ::
  "('c, 'v) NativeSmb \<Rightarrow> ('c \<Rightarrow> 'v \<Rightarrow> bool) \<Rightarrow> ('v \<Rightarrow> bytes option) \<Rightarrow> ('v \<Rightarrow> nat) \<Rightarrow> 'v AppContext \<Rightarrow> QString \<Rightarrow> nat \<Rightarrow> bytes \<Rightarrow> bool" where
  "readsFile m J R p ctx localPath file data \<longleftrightarrow>
     (\<forall>n v. J n v \<longrightarrow> (\<exists>v'. lfs_openRead (nsc_files m) localPath v = (Inr file, v') \<and> J n v' \<and> R v' = R v \<and> p v' = 0))
     \<and> (\<forall>n v. J n v \<longrightarrow> (\<exists>amount v'. lfs_size (nsc_files m) file v = (amount, v') \<and> J n v' \<and> R v' = R v \<and> p v' = p v))
     \<and> (\<forall>n v. J n v \<longrightarrow> (\<exists>v'. lfs_atEnd (nsc_files m) file v = (length data \<le> p v, v') \<and> J n v' \<and> R v' = R v \<and> p v' = p v))
     \<and> (\<forall>n v k. J n v \<longrightarrow> (\<exists>v'. lfs_read (nsc_files m) file k v = ((take k (drop (p v) data), None), v') \<and> J n v' \<and> R v' = R v
          \<and> p v' = p v + length (take k (drop (p v) data))))
     \<and> (\<forall>v. R (lfs_close (nsc_files m) file v) = R v) \<and> (\<forall>n v. R (nap_close (nsc_api m) n v) = R v)
     \<and> (\<forall>n v q. J n v \<longrightarrow> J n (SmbClients.reportProgress ctx q v) \<and> R (SmbClients.reportProgress ctx q v) = R v
          \<and> p (SmbClients.reportProgress ctx q v) = p v)"

definition storesFile ::
  "('c, 'v) NativeSmb \<Rightarrow> ('c \<Rightarrow> 'v \<Rightarrow> bool) \<Rightarrow> ('v \<Rightarrow> bytes option) \<Rightarrow> ('v \<Rightarrow> nat) \<Rightarrow> bytes \<Rightarrow> bool" where
  "storesFile m J R p path \<longleftrightarrow>
     (\<forall>ctx n v. J n v \<longrightarrow> (\<exists>r n' v'. nap_statObject (nsc_api m) path ctx (n, v) = (Value r, n', v') \<and> J n' v' \<and> R v' = R v \<and> p v' = p v
          \<and> (if R v = None then \<exists>e. r = Failure e \<and> pe_code e = EcFileNotFound else \<exists>st. r = Success st)))
     \<and> (\<forall>ctx directory n v. J n v \<longrightarrow> R v \<noteq> None \<longrightarrow> (\<exists>x n' v'. nap_deleteObject (nsc_api m) path directory ctx (n, v) = (Value (Success x), n', v')
          \<and> J n' v' \<and> R v' = None \<and> p v' = p v))
     \<and> (\<forall>ctx chunk offset n v. J n v \<longrightarrow> unat offset = length (case R v of None \<Rightarrow> [] | Some d \<Rightarrow> d) \<longrightarrow>
          (\<exists>x n' v'. nap_writeFileOnce (nsc_api m) path chunk offset ctx (n, v) = (Value (Success x), n', v') \<and> J n' v'
            \<and> R v' = Some ((case R v of None \<Rightarrow> [] | Some d \<Rightarrow> d) @ chunk) \<and> p v' = p v))"

lemma readsFile_atEnd:
  assumes "readsFile m J R p ctx localPath file data" "J n v"
  obtains v' where "lfs_atEnd (nsc_files m) file v = (length data \<le> p v, v')" "J n v'" "R v' = R v" "p v' = p v"
  using assms unfolding readsFile_def by meson

lemma readsFile_read:
  assumes "readsFile m J R p ctx localPath file data" "J n v"
  obtains v' where "lfs_read (nsc_files m) file k v = ((take k (drop (p v) data), None), v')" "J n v'" "R v' = R v"
    "p v' = p v + length (take k (drop (p v) data))"
  using assms unfolding readsFile_def by meson

lemma readsFile_progress:
  assumes "readsFile m J R p ctx localPath file data" "J n v"
  shows "J n (SmbClients.reportProgress ctx q v)" "R (SmbClients.reportProgress ctx q v) = R v" "p (SmbClients.reportProgress ctx q v) = p v"
  using assms by (simp_all add: readsFile_def)

lemma storesFile_write:
  assumes "storesFile m J R p path" "J n v" "unat offset = length (case R v of None \<Rightarrow> [] | Some d \<Rightarrow> d)"
  obtains x n' v' where "nap_writeFileOnce (nsc_api m) path chunk offset ctx (n, v) = (Value (Success x), n', v')" "J n' v'"
    "R v' = Some ((case R v of None \<Rightarrow> [] | Some d \<Rightarrow> d) @ chunk)" "p v' = p v"
  using assms unfolding storesFile_def by meson

definition uploaded :: "bytes \<Rightarrow> bytes option" where "uploaded d = (if d = [] then None else Some d)"

lemma uploadLoop_stores:
  assumes reads: "readsFile m J R p ctx localPath file data" and stores: "storesFile m J R p path"
    and quiet: "apc_cancelled ctx = None" and fits: "length data < 2 ^ 64"
  shows "J n v \<Longrightarrow> p v \<le> length data \<Longrightarrow> R v = uploaded (take (p v) data) \<Longrightarrow> length data + 65536 \<le> p v + turns * 65536 \<Longrightarrow>
    \<exists>n' v'. uploadLoop turns m secret ctx file path amount (word_of_nat (p v)) (n, v) = (Value (succeeded True), n', v') \<and> R v' = uploaded data"
proof (induction turns arbitrary: n v)
  case (Suc turns)
  obtain v1 where 1: "lfs_atEnd (nsc_files m) file v = (length data \<le> p v, v1)" "J n v1" "R v1 = R v" "p v1 = p v"
    by (rule readsFile_atEnd [OF reads Suc.prems(1)])
  show ?case
  proof (cases "length data \<le> p v")
    case True
    then show ?thesis using 1 Suc.prems by simp
  next
    case False
    define d where "d = take 65536 (drop (p v) data)"
    have d: "d \<noteq> []" using False by (simp add: d_def)
    obtain v2 where 2: "lfs_read (nsc_files m) file 65536 v1 = ((d, None), v2)" "J n v2" "R v2 = R v1" "p v2 = p v + length d"
      using readsFile_read [OF reads 1(2), of 65536] 1(4) unfolding d_def by metis
    have "unat (word_of_nat (p v) :: u64) = length (case R v2 of None \<Rightarrow> [] | Some d \<Rightarrow> d)"
      using Suc.prems(2,3) 1(3) 2(3) fits by (auto simp: uploaded_def unsigned_of_nat take_bit_nat_eq_self)
    then obtain x n3 v3 where 3: "nap_writeFileOnce (nsc_api m) path d (word_of_nat (p v)) (contextOf m ctx) (n, v2) = (Value (Success x), n3, v3)"
      "J n3 v3" "R v3 = Some ((case R v2 of None \<Rightarrow> [] | Some d \<Rightarrow> d) @ d)" "p v3 = p v2"
      using storesFile_write [OF stores 2(2)] by blast
    define v4 where "v4 = SmbClients.reportProgress ctx \<lparr>tpr_bytesTransferred = sint (word_of_nat (p v + length d) :: u64), tpr_totalBytes = amount\<rparr> v3"
    have 4: "J n3 v4" "R v4 = R v3" "p v4 = p v + length d"
      unfolding v4_def using readsFile_progress [OF reads 3(2)] 3(4) 2(4) by simp_all
    have another: "65536 \<le> turns * 65536" using Suc.prems(4) False by (cases turns) simp_all
    have grown: "take (p v + length d) data = take (p v) data @ d" by (auto simp: d_def take_add min_def)
    have "R v4 = Some (take (p v) data @ d)"
      using Suc.prems(3) 1(3) 2(3) 3(3) 4(2) by (simp add: uploaded_def split: if_splits)
    then have "R v4 = uploaded (take (p v4) data)" using d by (simp add: 4(3) grown uploaded_def)
    then have "\<exists>n' v'. uploadLoop turns m secret ctx file path amount (word_of_nat (p v4)) (n3, v4) = (Value (succeeded True), n', v') \<and> R v' = uploaded data"
      by (intro Suc.IH 4(1)) (use Suc.prems(2,4) False 4(3) another in \<open>auto simp: d_def min_def\<close>)
    moreover have "word_of_nat (p v) + word_of_nat (length d) = (word_of_nat (p v + length d) :: u64)" by simp
    ultimately show ?thesis
      using False 1(1) 2(1) 3(1) 4(3) d
      by (simp add: askToken_none [OF quiet] require_def onNative_def v4_def [symmetric] Let_def del: of_nat_add)
  qed
qed simp


section \<open>A server in memory\<close>

text \<open>Files by their paths, one local file, and the number of open connections.\<close>

record Memory =
  mem_remote :: "(bytes \<times> bytes) list"
  mem_opened :: bytes
  mem_local :: bytes
  mem_position :: nat
  mem_connections :: int

definition contentAt :: "bytes \<Rightarrow> Memory \<Rightarrow> bytes" where
  "contentAt path v = (case map_of (mem_remote v) path of None \<Rightarrow> [] | Some d \<Rightarrow> d)"

definition setContent :: "bytes \<Rightarrow> bytes \<Rightarrow> Memory \<Rightarrow> Memory" where
  "setContent path d v = v\<lparr>mem_remote := (path, d) # filter (\<lambda>(k, x). k \<noteq> path) (mem_remote v)\<rparr>"

definition plainStat :: "bytes \<Rightarrow> NativeStatResult" where
  "plainStat d = \<lparr>nst_size = word_of_nat (length d), nst_allocationSize = 0, nst_creationTime = 0, nst_lastAccessTime = 0,
     nst_lastWriteTime = 0, nst_changeTime = 0, nst_attributes = 0, nst_numberOfLinks = 1, nst_directory = False,
     nst_reparsePoint = False, nst_deletePending = False\<rparr>"

definition ifThere :: "bytes \<Rightarrow> (bytes \<Rightarrow> Memory \<Rightarrow> 'a \<times> Memory) \<Rightarrow> (unit, Memory, 'a) NativeOp" where
  "ifThere path f s = (case map_of (mem_remote (snd s)) path of
     None \<Rightarrow> (Value (failure EcFileNotFound ''missing''), s)
   | Some d \<Rightarrow> (let (x, v) = f d (snd s) in (Value (Success x), (), v)))"

definition memoryRead :: "bytes \<Rightarrow> u32 \<Rightarrow> u64 \<Rightarrow> NativeReadResult" where
  "memoryRead d len offset = \<lparr>nrr_data = take (unat len) (drop (unat offset) d), nrr_dataRemaining = 0\<rparr>"

definition unsupported :: "(unit, Memory, 'a) NativeOp" where
  "unsupported s = (Value (failure EcUnsupportedCapability ''unsupported''), s)"

definition memoryApi :: "(unit, Memory) NativeApi" where
  "memoryApi = \<lparr>nap_open = (\<lambda>c secret ctx v. (Value (Success ()), v\<lparr>mem_connections := mem_connections v + 1\<rparr>)),
     nap_close = (\<lambda>n v. v\<lparr>mem_connections := mem_connections v - 1\<rparr>),
     nap_negotiated = (\<lambda>n. \<lparr>ngc_dialect = Smb202, ngc_signingRequired = False, ngc_encryptionSupported = False,
       ngc_capabilities = 0, ngc_maxReadSize = 0, ngc_maxWriteSize = 0, ngc_securityBuffer = [],
       ngc_preauthIntegrityHash = []\<rparr>),
     nap_session = (\<lambda>n. sessionAnswer []),
     nap_tree = (\<lambda>n. \<lparr>tre_treeId = 1, tre_shareType = 1, tre_isDfs = False, tre_isDfsRoot = False,
       tre_requiresEncryption = False, tre_maximalAccess = 0\<rparr>),
     nap_listShares = (\<lambda>server ctx. unsupported), nap_getDfsReferrals = (\<lambda>path ctx. unsupported),
     nap_listDirectory = (\<lambda>path ctx. unsupported),
     nap_statObject = (\<lambda>path ctx. ifThere path (\<lambda>d v. (plainStat d, v))),
     nap_createDirectory = (\<lambda>path ctx. unsupported),
     nap_deleteObject = (\<lambda>path directory ctx. ifThere path (\<lambda>d v. (path, v\<lparr>mem_remote := filter (\<lambda>(k, x). k \<noteq> path) (mem_remote v)\<rparr>))),
     nap_deleteTree = (\<lambda>path ctx. unsupported), nap_renameObject = (\<lambda>path target replaceIfExists ctx. unsupported),
     nap_openFileForRead = (\<lambda>path ctx. ifThere path (\<lambda>d v.
       (\<lparr>nfh_fileId = \<lparr>fid_persistent = 1, fid_volatileId = 1\<rparr>, nfh_size = word_of_nat (length d)\<rparr>, v\<lparr>mem_opened := path\<rparr>))),
     nap_readFileChunk = (\<lambda>fileId len offset ctx s. (Value (Success (memoryRead (contentAt (mem_opened (snd s)) (snd s)) len offset)), s)),
     nap_closeFileHandle = (\<lambda>fileId ctx s. (Value (Success True), s)),
     nap_readFileOnce = (\<lambda>path len offset ctx. ifThere path (\<lambda>d v. (memoryRead d len offset, v))),
     nap_writeFileOnce = (\<lambda>path d offset ctx s. (Value (Success \<lparr>nwr_bytesWritten = word_of_nat (length d), nwr_remaining = 0\<rparr>),
       (), setContent path (take (unat offset) (contentAt path (snd s)) @ d) (snd s))),
     nap_copyFileServerSide = (\<lambda>path target n ctx. unsupported)\<rparr>"

definition memoryFiles :: "Memory LocalFiles" where
  "memoryFiles = \<lparr>lfs_openRead = (\<lambda>path v. (Inr 0, v\<lparr>mem_position := 0\<rparr>)),
     lfs_openTruncate = (\<lambda>path v. (Inr 0, v\<lparr>mem_local := []\<rparr>)), lfs_size = (\<lambda>h v. (int (length (mem_local v)), v)),
     lfs_atEnd = (\<lambda>h v. (length (mem_local v) \<le> mem_position v, v)),
     lfs_read = (\<lambda>h k v. let d = take k (drop (mem_position v) (mem_local v)) in
       ((d, None), v\<lparr>mem_position := mem_position v + length d\<rparr>)),
     lfs_write = (\<lambda>h d v. ((int (length d), []), v\<lparr>mem_local := mem_local v @ d\<rparr>)), lfs_close = (\<lambda>h v. v)\<rparr>"

definition noSockets :: "'v Sockets" where
  "noSockets = \<lparr>os_getaddrinfo = (\<lambda>a b v. ((1, []), v)), os_socket = (\<lambda>a b c v. ((- 1, 1), v)), os_getfl = (\<lambda>h v. ((0, 0), v)),
     os_setfl = (\<lambda>h x v. ((0, 0), v)), os_connect = (\<lambda>h a v. ((- 1, 1), v)), os_select = (\<lambda>h b x y v. ((0, 0), v)),
     os_getsockopt = (\<lambda>h v. ((0, 0, 0), v)), os_send = (\<lambda>h d v. ((- 1, 1), v)), os_recv = (\<lambda>h k v. (Inl 1, v)),
     os_close = (\<lambda>h v. v), os_now = (\<lambda>v. (0, v))\<rparr>"

definition memoryEnv :: "'v NativeEnv" where
  "memoryEnv = \<lparr>nve_qt = asciiText, nve_toStdString = map ucast, nve_fromStdString = map ucast, nve_toUShort = (\<lambda>s. None),
     nve_machineHostName = [], nve_sanitize = (\<lambda>secret s. s), nve_sockets = noSockets, nve_entropy = idleEntropy,
     nve_sha512 = (\<lambda>d. d), nve_timeoutSeconds = 15\<rparr>"

definition memorySmb :: "nat \<Rightarrow> (unit, Memory) NativeSmb" where
  "memorySmb fuel = \<lparr>nsc_api = memoryApi, nsc_env = memoryEnv, nsc_files = memoryFiles, nsc_fuel = fuel\<rparr>"

definition oneFile :: "bytes \<Rightarrow> bytes \<Rightarrow> Memory" where
  "oneFile remote local = \<lparr>mem_remote = [([97], remote)], mem_opened = [97], mem_local = local, mem_position = 0, mem_connections = 0\<rparr>"

abbreviation quietContext :: "'w AppContext" where "quietContext \<equiv> \<lparr>apc_cancelled = None, apc_progress = None\<rparr>"

lemmas memory = memorySmb_def memoryApi_def memoryFiles_def memoryEnv_def ifThere_def

lemma memory_path: "pathBytes (memorySmb fuel) (latin1 ''a'') = [97]"
  by (simp add: pathBytes_def memory latin1_def normalizeNativePath_def backSlashes_def trimmed_def asciiText_def)

definition memoryHandle :: "bytes \<Rightarrow> NativeFileHandle" where
  "memoryHandle d = \<lparr>nfh_fileId = \<lparr>fid_persistent = 1, fid_volatileId = 1\<rparr>, nfh_size = word_of_nat (length d)\<rparr>"

lemma memory_serves:
  "servesFile (memorySmb fuel) (\<lambda>n v. mem_remote v = [([97], d)] \<and> mem_opened v = [97]) mem_local [97] d (memoryHandle d)"
  by (simp add: servesFile_def memory memoryHandle_def memoryRead_def contentAt_def)

lemma memory_serves_a:
  "servesFile (memorySmb fuel) (\<lambda>n v. mem_remote v = [([97], d)] \<and> mem_opened v = [97]) mem_local
     (pathBytes (memorySmb fuel) (latin1 ''a'')) d (memoryHandle d)"
  unfolding memory_path by (rule memory_serves)

lemma memory_writes:
  "writesFile (memorySmb fuel) (\<lambda>n v. mem_remote v = [([97], d)] \<and> mem_opened v = [97]) mem_local quietContext [] 0"
  by (simp add: writesFile_def memory SmbClients.reportProgress_def)

lemma memory_open:
  "nap_open (nsc_api (memorySmb fuel)) c secret ctx (oneFile d e) = (Value (Success ()), (oneFile d e)\<lparr>mem_connections := 1\<rparr>)"
  "mem_remote (oneFile d e) = [([97], d)]" "mem_opened (oneFile d e) = [97]" "mem_local (oneFile d e) = e" "nsc_fuel (memorySmb fuel) = fuel"
  by (simp_all add: memorySmb_def memoryApi_def oneFile_def)


lemma memory_reads:
  "readsFile (memorySmb fuel) (\<lambda>n v. mem_local v = d) (\<lambda>v. map_of (mem_remote v) [97]) mem_position quietContext [] 0 d"
  by (simp add: readsFile_def memory SmbClients.reportProgress_def Let_def)

lemma map_of_without: "map_of (filter (\<lambda>(k, x). k \<noteq> path) xs) path = None"
  by (auto simp: map_of_eq_None_iff)

lemma memory_stores:
  "storesFile (memorySmb fuel) (\<lambda>n v. mem_local v = d) (\<lambda>v. map_of (mem_remote v) [97]) mem_position [97]"
  unfolding storesFile_def
  by (auto simp: memory failure_def failureUsing_def setContent_def contentAt_def map_of_without split: option.split)

lemma memory_stores_a:
  "storesFile (memorySmb fuel) (\<lambda>n v. mem_local v = d) (\<lambda>v. map_of (mem_remote v) [97]) mem_position
     (pathBytes (memorySmb fuel) (latin1 ''a''))"
  unfolding memory_path by (rule memory_stores)


text \<open>A copy of a file onto itself deletes it, since the target is cleared before the source is read.\<close>

lemma copy_onto_itself_destroys:
  "let (r, v) = copyNative (memorySmb 3) createEmpty None (latin1 ''a'') createEmpty None (latin1 ''a'') quietContext (oneFile [1, 2, 3] []) in
   (case r of Value x \<Rightarrow> \<not> ok x | _ \<Rightarrow> False) \<and> mem_remote v = []"
  by code_simp

text \<open>A server that ends a file early is believed: the download of a part is a success.\<close>

lemma short_download_succeeds:
  "let m = memorySmb 3; endless = m\<lparr>nsc_api := (nsc_api m)\<lparr>nap_readFileChunk := \<lambda>fileId len offset ctx s.
         (Value (Success \<lparr>nrr_data = [], nrr_dataRemaining = 0\<rparr>), s)\<rparr>\<rparr>;
       (r, v) = downloadFileNative endless createEmpty None (latin1 ''a'') [] quietContext (oneFile [1, 2, 3] [9]) in
   r = Value (succeeded True) \<and> mem_local v = []"
  by code_simp

section \<open>No connection stays open\<close>

text \<open>\<open>K\<close> counts the connections that are open in the outside world: one more when the library opens one,
  one less when it is closed; nothing else changes it.\<close>

definition steady :: "('s \<Rightarrow> int) \<Rightarrow> ('s \<Rightarrow> 'r \<times> 's) \<Rightarrow> bool" where
  "steady k p \<longleftrightarrow> (\<forall>s. k (snd (p s)) = k s)"

fun openedOne :: "'c DecodeResult outcome \<Rightarrow> int" where
  "openedOne (Value (Success n)) = 1"
| "openedOne r = 0"

definition countsConnections :: "('c, 'v) NativeSmb \<Rightarrow> ('v \<Rightarrow> int) \<Rightarrow> 'v AppContext \<Rightarrow> bool" where
  "countsConnections m K ctx \<longleftrightarrow> (let api = nsc_api m; files = nsc_files m; ops = \<lambda>s. K (snd s) in
     (\<forall>c secret v. K (snd (nap_open api c secret ctx v)) = K v + openedOne (fst (nap_open api c secret ctx v)))
     \<and> (\<forall>n v. K (nap_close api n v) = K v - 1)
     \<and> (\<forall>p x. steady ops (nap_listDirectory api p x) \<and> steady ops (nap_statObject api p x)
          \<and> steady ops (nap_createDirectory api p x) \<and> steady ops (nap_deleteTree api p x) \<and> steady ops (nap_openFileForRead api p x))
     \<and> (\<forall>p b x. steady ops (nap_deleteObject api p b x)) \<and> (\<forall>p q b x. steady ops (nap_renameObject api p q b x))
     \<and> (\<forall>h len offset x. steady ops (nap_readFileChunk api h len offset x)) \<and> (\<forall>h x. steady ops (nap_closeFileHandle api h x))
     \<and> (\<forall>p len offset x. steady ops (nap_readFileOnce api p len offset x))
     \<and> (\<forall>p d offset x. steady ops (nap_writeFileOnce api p d offset x)) \<and> (\<forall>p q n x. steady ops (nap_copyFileServerSide api p q n x))
     \<and> (\<forall>p. steady K (lfs_openRead files p) \<and> steady K (lfs_openTruncate files p))
     \<and> (\<forall>h. steady K (lfs_size files h) \<and> steady K (lfs_atEnd files h) \<and> (\<forall>v. K (lfs_close files h v) = K v))
     \<and> (\<forall>h k. steady K (lfs_read files h k)) \<and> (\<forall>h d. steady K (lfs_write files h d))
     \<and> (\<forall>f. apc_cancelled ctx = Some f \<longrightarrow> steady K f) \<and> (\<forall>f p v. apc_progress ctx = Some f \<longrightarrow> K (f p v) = K v))"

lemma steady_step: "steady k p \<Longrightarrow> p s = (r, s') \<Longrightarrow> k s' = k s"
  unfolding steady_def by (metis snd_conv)

lemma steady_returning: "steady k (returning r)"
  by (simp add: steady_def returning_def)

lemma steady_onNative:
  assumes "steady k call" "\<And>e. steady k (onError e)" "\<And>x. steady k (continue x)"
  shows "steady k (onNative call onError continue)"
proof -
  have "k (snd (onNative call onError continue s)) = k s" for s
  proof -
    obtain r s' where r: "call s = (r, s')" by (rule prod.exhaust)
    then have "k s' = k s" by (rule steady_step [OF assms(1)])
    moreover have "k (snd (onError e s')) = k s'" "k (snd (continue x s')) = k s'" for e x using assms(2,3) by (simp_all add: steady_def)
    ultimately show ?thesis by (simp add: onNative_def r split: outcome.split DecodeResult.split)
  qed
  then show ?thesis by (simp add: steady_def)
qed

lemma steady_require: "steady k call \<Longrightarrow> (\<And>x. steady k (continue x)) \<Longrightarrow> steady k (require m secret blank call continue)"
  unfolding require_def by (intro steady_onNative steady_returning)

lemma steady_if: "steady k p \<Longrightarrow> steady k q \<Longrightarrow> steady k (if b then p else q)"
  by simp

lemma steady_clearingTarget:
  "steady k stat \<Longrightarrow> (\<And>b. steady k (delete b)) \<Longrightarrow> steady k continue \<Longrightarrow> steady k (clearingTarget m secret stat delete continue)"
  unfolding clearingTarget_def by (intro steady_onNative steady_if steady_require steady_returning)

lemmas steady_rules = steady_returning steady_onNative steady_require steady_if steady_clearingTarget

lemma steady_pair:
  "steady (\<lambda>s. K (snd s)) call \<Longrightarrow> steady (\<lambda>s. K (snd (snd s))) (onSource call)"
  "steady (\<lambda>s. K (snd s)) call \<Longrightarrow> steady (\<lambda>s. K (snd (snd s))) (onTarget call)"
  by (auto simp: steady_def onSource_def onTarget_def split: prod.split) (metis snd_conv)+

lemma counted:
  assumes "countsConnections m K ctx"
  shows "steady (\<lambda>s. K (snd s)) (nap_listDirectory (nsc_api m) p x)" "steady (\<lambda>s. K (snd s)) (nap_statObject (nsc_api m) p x)"
    "steady (\<lambda>s. K (snd s)) (nap_createDirectory (nsc_api m) p x)" "steady (\<lambda>s. K (snd s)) (nap_deleteTree (nsc_api m) p x)"
    "steady (\<lambda>s. K (snd s)) (nap_openFileForRead (nsc_api m) p x)" "steady (\<lambda>s. K (snd s)) (nap_deleteObject (nsc_api m) p b x)"
    "steady (\<lambda>s. K (snd s)) (nap_renameObject (nsc_api m) p q b x)" "steady (\<lambda>s. K (snd s)) (nap_readFileChunk (nsc_api m) h len offset x)"
    "steady (\<lambda>s. K (snd s)) (nap_closeFileHandle (nsc_api m) h x)" "steady (\<lambda>s. K (snd s)) (nap_readFileOnce (nsc_api m) p len offset x)"
    "steady (\<lambda>s. K (snd s)) (nap_writeFileOnce (nsc_api m) p d offset x)"
    "steady (\<lambda>s. K (snd s)) (nap_copyFileServerSide (nsc_api m) p q amount x)"
  using assms by (simp_all add: countsConnections_def Let_def)

lemma counted_files:
  assumes "countsConnections m K ctx"
  shows "steady K (lfs_openRead (nsc_files m) l)" "steady K (lfs_openTruncate (nsc_files m) l)" "steady K (lfs_size (nsc_files m) f)"
    "steady K (lfs_atEnd (nsc_files m) f)" "K (lfs_close (nsc_files m) f v) = K v" "steady K (lfs_read (nsc_files m) f k)"
    "steady K (lfs_write (nsc_files m) f d)"
  using assms by (simp_all add: countsConnections_def Let_def)

lemma counted_context:
  assumes "countsConnections m K ctx"
  shows "cancellationRequested ctx v = (b, v') \<Longrightarrow> K v' = K v" "K (SmbClients.reportProgress ctx p v) = K v"
    "steady (\<lambda>s. K (snd s)) (askToken ctx)"
proof -
  have cancelled: "cancellationRequested ctx v = (b, v') \<Longrightarrow> K v' = K v" for v b v'
    using assms steady_step unfolding countsConnections_def Let_def cancellationRequested_def by (cases "apc_cancelled ctx") fastforce+
  then show "cancellationRequested ctx v = (b, v') \<Longrightarrow> K v' = K v" by blast
  show "steady (\<lambda>s. K (snd s)) (askToken ctx)" using cancelled by (auto simp: steady_def askToken_def split: prod.splits)
  show "K (SmbClients.reportProgress ctx p v) = K v"
    using assms unfolding countsConnections_def Let_def SmbClients.reportProgress_def by (cases "apc_progress ctx") simp_all
qed

lemma counted_scope:
  assumes "countsConnections m K ctx"
  shows "nap_open (nsc_api m) c secret ctx v = (r, v') \<Longrightarrow> K v' = K v + openedOne r" "K (nap_close (nsc_api m) n w) = K w - 1"
proof -
  have "K (snd (nap_open (nsc_api m) c secret ctx v)) = K v + openedOne (fst (nap_open (nsc_api m) c secret ctx v))"
    using assms by (simp add: countsConnections_def Let_def)
  then show "nap_open (nsc_api m) c secret ctx v = (r, v') \<Longrightarrow> K v' = K v + openedOne r" by simp
  show "K (nap_close (nsc_api m) n w) = K w - 1" using assms by (simp add: countsConnections_def Let_def)
qed

text \<open>The scope of a connection.\<close>

lemma steady_connected:
  assumes "countsConnections m K ctx" "steady (\<lambda>s. K (snd s)) body"
  shows "K (snd (connected m c secret ctx blank body v)) = K v"
proof -
  obtain r v' where r: "nap_open (nsc_api m) c secret ctx v = (r, v')" by (rule prod.exhaust)
  then have opened: "K v' = K v + openedOne r" by (rule counted_scope(1) [OF assms(1)])
  note closed = counted_scope(2) [OF assms(1)]
  show ?thesis
  proof (cases "\<exists>n. r = Value (Success n)")
    case True
    then obtain n where n: "r = Value (Success n)" by blast
    obtain x n' w where b: "body (n, v') = (x, n', w)" by (rule prod_cases3)
    then have "K w = K v'" using steady_step [OF assms(2) b] by simp
    then show ?thesis using opened by (simp add: connected_def withConnection_def r n b closed)
  next
    case False
    then show ?thesis using opened by (simp add: connected_def withConnection_def r split: outcome.split DecodeResult.split)
  qed
qed

lemma steady_besides:
  assumes "countsConnections m K ctx" "steady (\<lambda>s. K (snd (snd s))) body"
  shows "steady (\<lambda>s. K (snd s)) (besides m c secret ctx blank body)"
proof -
  have "K (snd (snd (besides m c secret ctx blank body (n, v)))) = K v" for n v
  proof -
    obtain r v' where r: "nap_open (nsc_api m) c secret ctx v = (r, v')" by (rule prod.exhaust)
    then have opened: "K v' = K v + openedOne r" by (rule counted_scope(1) [OF assms(1)])
    note closed = counted_scope(2) [OF assms(1)]
    show ?thesis
    proof (cases "\<exists>t. r = Value (Success t)")
      case True
      then obtain t where t: "r = Value (Success t)" by blast
      obtain x n' t' w where b: "body (n, t, v') = (x, n', t', w)" by (rule prod_cases4)
      then have "K w = K v'" using steady_step [OF assms(2) b] by simp
      then show ?thesis using opened by (simp add: besides_def r t b closed)
    next
      case False
      then show ?thesis using opened by (simp add: besides_def r split: outcome.split DecodeResult.split)
    qed
  qed
  then show ?thesis by (simp add: steady_def)
qed

text \<open>The loops.\<close>

lemma steady_downloadLoop:
  assumes "countsConnections m K ctx"
  shows "steady (\<lambda>s. K (snd s)) (downloadLoop turns m secret ctx file opened offset)"
proof (induction turns arbitrary: offset)
  case (Suc turns)
  have "K (snd (snd (downloadLoop (Suc turns) m secret ctx file opened offset s))) = K (snd s)" for s
  proof -
    obtain b s1 where b: "askToken ctx s = (b, s1)" by (rule prod.exhaust)
    have s1: "K (snd s1) = K (snd s)" by (rule steady_step [OF counted_context(3) [OF assms] b])
    let ?k = "\<lambda>chunk (n, v). let ((written, message), v) = lfs_write (nsc_files m) file (nrr_data chunk) v in
      if written \<noteq> int (length (nrr_data chunk)) then (Value (failedWith False (localIoError message)), n, v)
      else let offset = offset + word_of_nat (length (nrr_data chunk));
          v = SmbClients.reportProgress ctx \<lparr>tpr_bytesTransferred = sint offset, tpr_totalBytes = sint (nfh_size opened)\<rparr> v in
        if nrr_data chunk = [] then (Value (succeeded True), n, v) else downloadLoop turns m secret ctx file opened offset (n, v)"
    have "K (snd (snd (?k chunk s))) = K (snd s)" for chunk s
    proof -
      obtain n v where s: "s = (n, v)" by (rule prod.exhaust)
      obtain x v1 where w: "lfs_write (nsc_files m) file (nrr_data chunk) v = (x, v1)" by (rule prod.exhaust)
      have "K v1 = K v" by (rule steady_step [OF counted_files(7) [OF assms] w])
      then show ?thesis using Suc.IH by (cases x) (simp add: s w Let_def steady_def counted_context(2) [OF assms])
    qed
    then have "steady (\<lambda>s. K (snd s)) (?k chunk)" for chunk unfolding steady_def by blast
    then have "steady (\<lambda>s. K (snd s)) (require m secret False (nap_readFileChunk (nsc_api m) (nfh_fileId opened)
        (chunkOf kDownloadChunkSize (nfh_size opened) offset) offset (contextOf m ctx)) ?k)"
      by (intro steady_require counted(8) [OF assms])
    then show ?thesis using s1 unfolding downloadLoop.simps b Let_def [of "(b, s1)"] prod.case steady_def by (simp del: split_paired_All)
  qed
  then show ?case by (simp add: steady_def)
qed (simp add: steady_def)

lemma steady_uploadLoop:
  assumes "countsConnections m K ctx"
  shows "steady (\<lambda>s. K (snd s)) (uploadLoop turns m secret ctx file path amount offset)"
proof (induction turns arbitrary: offset)
  case (Suc turns)
  have "K (snd (snd (uploadLoop (Suc turns) m secret ctx file path amount offset (n, v)))) = K v" for n v
  proof -
    obtain e v1 where e: "lfs_atEnd (nsc_files m) file v = (e, v1)" by (rule prod.exhaust)
    have v1: "K v1 = K v" by (rule steady_step [OF counted_files(4) [OF assms] e])
    obtain b n2 v2 where b: "askToken ctx (n, v1) = (b, n2, v2)" by (rule prod_cases3)
    have v2: "K v2 = K v" using steady_step [OF counted_context(3) [OF assms] b] v1 by simp
    obtain x v3 where x: "lfs_read (nsc_files m) file 65536 v2 = (x, v3)" by (rule prod.exhaust)
    have v3: "K v3 = K v" using steady_step [OF counted_files(6) [OF assms] x] v2 by simp
    obtain chunk problem where chunk: "x = (chunk, problem)" by (rule prod.exhaust)
    let ?k = "\<lambda>_ (n, v). let offset = offset + word_of_nat (length chunk) in uploadLoop turns m secret ctx file path amount offset
      (n, SmbClients.reportProgress ctx \<lparr>tpr_bytesTransferred = sint offset, tpr_totalBytes = amount\<rparr> v)"
    have "steady (\<lambda>s. K (snd s)) (?k y)" for y
      using Suc.IH by (auto simp: steady_def Let_def counted_context(2) [OF assms])
    then have "steady (\<lambda>s. K (snd s)) (require m secret False (nap_writeFileOnce (nsc_api m) path chunk offset (contextOf m ctx)) ?k)"
      by (intro steady_require counted(11) [OF assms])
    then have "K (snd (snd (require m secret False (nap_writeFileOnce (nsc_api m) path chunk offset (contextOf m ctx)) ?k (n2, v3)))) = K v"
      using v3 by (simp add: steady_def)
    then show ?thesis using v1 v2 v3 by (simp add: e b x chunk Let_def)
  qed
  then show ?case by (simp add: steady_def)
qed (simp add: steady_def)

lemma steady_copyLoop:
  assumes "countsConnections m K ctx"
  shows "steady (\<lambda>s. K (snd (snd s))) (copyLoopNative turns m a b ctx p q amount offset)"
proof (induction turns arbitrary: offset)
  case (Suc turns)
  have tell: "K (snd (snd (tellProgress ctx i j s))) = K (snd (snd s))" for i j s
    by (cases s) (simp add: tellProgress_def counted_context(2) [OF assms])
  have "K (snd (snd (snd (copyLoopNative (Suc turns) m a b ctx p q amount offset s)))) = K (snd (snd s))" for s
  proof -
    obtain c s1 where c: "onTarget (askToken ctx) s = (c, s1)" by (rule prod.exhaust)
    have s1: "K (snd (snd s1)) = K (snd (snd s))"
      by (rule steady_step [OF steady_pair(2) [OF counted_context(3) [OF assms]] c])
    let ?k = "\<lambda>chunk. require m b False (onTarget (nap_writeFileOnce (nsc_api m) q (nrr_data chunk) offset (contextOf m ctx))) (\<lambda>_ s.
      let offset = offset + word_of_nat (length (nrr_data chunk)); s = tellProgress ctx offset amount s in
      if nrr_data chunk = [] then (Value (succeeded True), s) else copyLoopNative turns m a b ctx p q amount offset s)"
    have step: "steady (\<lambda>s. K (snd (snd s))) (?k chunk)" for chunk
      by (intro steady_require steady_pair counted(11) [OF assms]) (use Suc.IH in \<open>simp add: steady_def Let_def tell del: split_paired_All\<close>)
    have "steady (\<lambda>s. K (snd (snd s))) (require m a False
        (onSource (nap_readFileOnce (nsc_api m) p (chunkOf kChunkSize amount offset) offset (contextOf m ctx))) ?k)"
      by (rule steady_require [OF steady_pair(1) [OF counted(10) [OF assms]] step])
    then show ?thesis using s1 unfolding copyLoopNative.simps c Let_def [of "(c, s1)"] prod.case steady_def by (simp del: split_paired_All)
  qed
  then show ?case by (simp add: steady_def)
qed (simp add: steady_def)

text \<open>The operations.\<close>

lemma steady_closingRemoteFile:
  fixes ended :: "'b Result outcome \<times> 'c \<times> 'v"
  assumes "countsConnections m K ctx"
  shows "K (snd (snd (closingRemoteFile m ctx h ended))) = K (snd (snd ended))"
proof -
  have "steady (\<lambda>s. K (snd s)) (onNative (nap_closeFileHandle (nsc_api m) h (contextOf m ctx)) (\<lambda>e. returning r) (\<lambda>_. returning r))" for r :: "'b Result"
    by (intro steady_onNative counted(9) [OF assms] steady_returning)
  then show ?thesis by (cases ended; cases "fst ended") (simp_all add: closingRemoteFile_def steady_def)
qed

lemma closingLocalFile_steady:
  assumes "countsConnections m K ctx"
  shows "K (snd (snd (closingLocalFile m file ended))) = K (snd (snd ended))"
  by (cases ended) (simp add: closingLocalFile_def counted_files(5) [OF assms])

lemma steady_download:
  assumes "countsConnections m K ctx"
  shows "K (snd (downloadFileNative m c secret p l ctx v)) = K v"
proof -
  have "K (snd (snd (let (local, v) = lfs_openTruncate (nsc_files m) l v in
      case local of Inl message \<Rightarrow> closingRemoteFile m ctx (nfh_fileId opened) (Value (failedWith False (localIoError message)), n, v)
      | Inr file \<Rightarrow> closingLocalFile m file (closingRemoteFile m ctx (nfh_fileId opened)
          (downloadLoop (nsc_fuel m) m secret ctx file opened 0 (n, v)))))) = K v" for opened n v
  proof -
    obtain r v1 where r: "lfs_openTruncate (nsc_files m) l v = (r, v1)" by (rule prod.exhaust)
    have "K v1 = K v" by (rule steady_step [OF counted_files(2) [OF assms] r])
    then show ?thesis
      using steady_downloadLoop [OF assms, of "nsc_fuel m" secret _ opened 0]
      by (simp add: r closingLocalFile_steady [OF assms] steady_closingRemoteFile [OF assms] steady_def split: sum.split)
  qed
  then show ?thesis
    unfolding downloadFileNative_def
    by (intro steady_connected [OF assms] steady_require counted(5) [OF assms]) (simp add: steady_def)
qed

lemma steady_upload:
  assumes "countsConnections m K ctx"
  shows "K (snd (uploadFileNative m c secret l p ctx v)) = K v"
proof -
  let ?path = "pathBytes m p"
  define stored where "stored = (\<lambda>file. clearingTarget m secret (nap_statObject (nsc_api m) ?path (contextOf m ctx))
      (\<lambda>directory. nap_deleteObject (nsc_api m) ?path directory (contextOf m ctx))
      (\<lambda>(n, v). let (fileSize, v) = lfs_size (nsc_files m) file v in uploadLoop (nsc_fuel m) m secret ctx file ?path fileSize 0 (n, v)))"
  have "K (snd (snd (let (fileSize, v) = lfs_size (nsc_files m) f v in uploadLoop (nsc_fuel m) m secret ctx f ?path fileSize 0 (n, v)))) = K v"
    for f n v
  proof -
    obtain i v1 where i: "lfs_size (nsc_files m) f v = (i, v1)" by (rule prod.exhaust)
    have "K v1 = K v" by (rule steady_step [OF counted_files(3) [OF assms] i])
    then show ?thesis using steady_uploadLoop [OF assms, of "nsc_fuel m" secret f ?path i 0] by (simp add: i steady_def)
  qed
  then have "steady (\<lambda>s. K (snd s)) (stored f)" for f
    unfolding stored_def by (intro steady_clearingTarget counted(2,6) [OF assms]) (simp add: steady_def)
  then have stored: "K (snd (snd (stored f (n, v)))) = K v" for f n v by (simp add: steady_def)
  have body: "K (snd (snd (let (local, v) = lfs_openRead (nsc_files m) l v in
      case local of Inl message \<Rightarrow> (Value (failedWith False (localIoError message)), n, v)
      | Inr file \<Rightarrow> closingLocalFile m file (stored file (n, v))))) = K v" for n v
  proof -
    obtain r v1 where r: "lfs_openRead (nsc_files m) l v = (r, v1)" by (rule prod.exhaust)
    have "K v1 = K v" by (rule steady_step [OF counted_files(1) [OF assms] r])
    then show ?thesis by (simp add: r closingLocalFile_steady [OF assms] stored split: sum.split)
  qed
  show ?thesis
    unfolding uploadFileNative_def
    by (intro steady_connected [OF assms]) (use body [unfolded stored_def] in \<open>simp add: steady_def Let_def\<close>)
qed

lemma steady_tellProgress: "countsConnections m K ctx \<Longrightarrow> K (snd (snd (tellProgress ctx i j s))) = K (snd (snd s))"
  by (cases s) (simp add: tellProgress_def counted_context(2))

lemma steady_copyThrough:
  assumes "countsConnections m K ctx"
  shows "steady (\<lambda>s. K (snd (snd s))) (copyThrough m a b ctx p q amount)"
proof -
  have "steady (\<lambda>s. K (snd (snd s))) (\<lambda>s. (Value (succeeded True), tellProgress ctx 0 0 s))"
    by (simp add: steady_def steady_tellProgress [OF assms] del: split_paired_All)
  then show ?thesis
    unfolding copyThrough_def
    by (intro steady_if steady_require steady_pair counted(11) [OF assms] steady_copyLoop [OF assms])
qed

lemma steady_copy:
  assumes "countsConnections m K ctx"
  shows "K (snd (copyNative m c s p d t q ctx v)) = K v"
  unfolding copyNative_def serverSideFirst_def Let_def
  by (intro steady_connected [OF assms] steady_besides [OF assms] steady_rules steady_pair counted(2,6,12) [OF assms]
      steady_copyThrough [OF assms])

lemma steady_simple:
  assumes "countsConnections m K ctx"
  shows "K (snd (checkConnectionNative m c s ctx v)) = K v" "K (snd (listDirectoryNative m c s p ctx v)) = K v"
    "K (snd (createDirectoryNative m c s p ctx v)) = K v" "K (snd (removeNative m c s p ctx v)) = K v"
    "K (snd (renameNative m c s p q ctx v)) = K v"
  unfolding checkConnectionNative_def listDirectoryNative_def createDirectoryNative_def removeNative_def renameNative_def Let_def
  by (intro steady_connected [OF assms] steady_rules counted [OF assms])+

lemma steady_move:
  assumes "countsConnections m K ctx"
  shows "K (snd (moveNative m c s p d t q ctx v)) = K v"
proof -
  obtain r v1 where r: "copyNative m c s p d t q ctx v = (r, v1)" by (rule prod.exhaust)
  have "K v1 = K v" using steady_copy [OF assms, of c s p d t q v] by (simp add: r)
  then show ?thesis by (simp add: moveNative_def r steady_simple [OF assms] split: outcome.split)
qed


lemma memory_counts: "countsConnections (memorySmb fuel) mem_connections quietContext"
  by (simp add: countsConnections_def memory steady_def unsupported_def setContent_def Let_def split: option.split)


end
