(* ===== verification/NativeResolver.thy ===== *)
theory NativeResolver
  imports NativeClient DfsClient
begin

text \<open>
  The resolver of DFS referrals on top of the native library
  (\<open>src/src/infrastructure/smb/NativeDfsReferralResolver.cpp\<close>): it asks the server of a share, over the
  tree of its pipes, for the referrals of a path and of its parents, and turns the network addresses
  it names into connections with the login of the one it was asked for. \<open>normalizeRemotePath\<close> is
  declared word for word as in \<open>DfsResolvingSmbClient.cpp\<close> and is the definition of \<open>DfsClient\<close>.
\<close>

section \<open>Paths and targets\<close>

record NativeDfsReferralTarget =
  ndt_server :: QString
  ndt_share :: QString
  ndt_targetPathPrefix :: QString

text \<open>\<open>split(c, Qt::KeepEmptyParts)\<close>.\<close>

fun splitKeep :: "u16 \<Rightarrow> QString \<Rightarrow> QString \<Rightarrow> QString list" where
  "splitKeep c [] part = [part]"
| "splitKeep c (x # s) part = (if x = c then part # splitKeep c s [] else splitKeep c s (part @ [x]))"

text \<open>The leading separators are removed in pairs, then the odd one.\<close>

fun dropPairs :: "QString \<Rightarrow> QString" where
  "dropPairs (a # b # s) = (if a = backslash \<and> b = backslash then dropPairs s else a # b # s)"
| "dropPairs s = s"

definition parseNativeDfsReferralTarget :: "QtText \<Rightarrow> QString \<Rightarrow> NativeDfsReferralTarget option" where
  "parseNativeDfsReferralTarget qt networkAddress =
     (let path = dropWhile (\<lambda>c. c = backslash) (dropPairs (backSlashes (trimmed qt networkAddress)));
          parts = splitKeep backslash path [] in
      if length parts < 2 \<or> parts ! 0 = [] \<or> parts ! 1 = [] then None
      else Some \<lparr>ndt_server = parts ! 0, ndt_share = parts ! 1,
        ndt_targetPathPrefix = (if 2 < length parts then normalizeRemotePath qt (slash # joinParts slash (drop 2 parts)) else [slash])\<rparr>)"

definition pathFromSegments :: "QString list \<Rightarrow> nat \<Rightarrow> QString" where
  "pathFromSegments segments count =
     (if count = 0 then [slash] else slash # joinParts slash (take count segments))"

definition pathOfSegments :: "QString list \<Rightarrow> nat \<Rightarrow> nat \<Rightarrow> QString" where
  "pathOfSegments segments start count =
     (if count = 0 \<or> length segments \<le> start then [slash] else slash # joinParts slash (take count (drop start segments)))"

definition remotePathSegments :: "QtText \<Rightarrow> QString \<Rightarrow> QString list" where
  "remotePathSegments qt remotePath =
     (let normalized = normalizeRemotePath qt remotePath in
      if normalized = [slash] then [] else splitParts slash (drop 1 normalized) [])"

definition uncBase :: "QString \<Rightarrow> QString \<Rightarrow> QString" where
  "uncBase serverForUnc share = [backslash, backslash] @ serverForUnc @ [backslash] @ share"

definition requestUncPath :: "QtText \<Rightarrow> SavedConnection \<Rightarrow> QString \<Rightarrow> QString \<Rightarrow> QString" where
  "requestUncPath qt c serverForUnc remotePath =
     (let path = backSlashes (normalizeRemotePath qt remotePath) in
      uncBase serverForUnc (con_share c) @ (if path = [backslash] then [] else path))"

definition sameShare :: "QtText \<Rightarrow> SavedConnection \<Rightarrow> NativeDfsReferralTarget \<Rightarrow> bool" where
  "sameShare qt c target = (sameText qt (con_server c) (ndt_server target) \<and> sameText qt (con_share c) (ndt_share target))"

definition targetUri :: "QString \<Rightarrow> QString \<Rightarrow> QString" where
  "targetUri server share = latin1 ''smb://'' @ server @ [slash] @ share"

definition targetConnectionFor :: "SavedConnection \<Rightarrow> NativeDfsReferralTarget \<Rightarrow> SavedConnection" where
  "targetConnectionFor c target = c\<lparr>con_server := ndt_server target, con_share := ndt_share target,
     con_normalizedUri := targetUri (ndt_server target) (ndt_share target)\<rparr>"

definition startsWithText :: "QtText \<Rightarrow> QString \<Rightarrow> QString \<Rightarrow> bool" where
  "startsWithText qt s p = (length p \<le> length s \<and> sameText qt (take (length p) s) p)"

definition consumedOriginalPrefix :: "QtText \<Rightarrow> QString \<Rightarrow> QString \<Rightarrow> QString \<Rightarrow> u16 \<Rightarrow> QString \<Rightarrow> QString" where
  "consumedOriginalPrefix qt requestPath serverForUnc share pathConsumedBytes fallbackRemotePath =
     (if pathConsumedBytes = 0 then normalizeRemotePath qt fallbackRemotePath
      else
        let consumed = backSlashes (take (unat pathConsumedBytes div 2) requestPath); base = uncBase serverForUnc share in
        if sameText qt consumed base then [slash]
        else if startsWithText qt consumed (base @ [backslash])
        then normalizeRemotePath qt (forwardSlashes (drop (length base) consumed))
        else normalizeRemotePath qt fallbackRemotePath)"

section \<open>The resolver\<close>

record ('c, 'v) NativeDfs =
  ndf_api :: "('c, 'v) NativeApi"
  ndf_env :: "'v NativeEnv"

definition withoutProgress :: "'v AppContext \<Rightarrow> 'v AppContext" where
  "withoutProgress ctx = ctx\<lparr>apc_progress := None\<rparr>"

definition referralContext :: "('c, 'v) NativeDfs \<Rightarrow> 'v AppContext \<Rightarrow> 'v OperationContext" where
  "referralContext d ctx = nativeContext (withoutProgress ctx) (nve_timeoutSeconds (ndf_env d))"

definition referralFailure :: "('c, 'v) NativeDfs \<Rightarrow> Secret \<Rightarrow> ProtocolError \<Rightarrow> 'a list Result" where
  "referralFailure d secret e = failedWith [] (nativeAppError (ndf_env d) secret e)"

definition withIpcConnection ::
  "('c, 'v) NativeDfs \<Rightarrow> SavedConnection \<Rightarrow> Secret \<Rightarrow> 'v AppContext \<Rightarrow>
   ('c \<times> 'v \<Rightarrow> 'a list Result outcome \<times> 'c \<times> 'v) \<Rightarrow> 'v \<Rightarrow> 'a list Result outcome \<times> 'v" where
  "withIpcConnection d c secret ctx =
     withConnection (ndf_api d) (ipcConnection c) secret (withoutProgress ctx) (referralFailure d secret)"

text \<open>The targets an entry names, when it names one on another share; a time to live is cast to \<open>int\<close>.\<close>

definition targetOfEntry :: "('c, 'v) NativeDfs \<Rightarrow> SavedConnection \<Rightarrow> DfsReferralEntry \<Rightarrow> NativeDfsReferralTarget option" where
  "targetOfEntry d c entry =
     (case parseNativeDfsReferralTarget (nve_qt (ndf_env d)) (nve_fromStdString (ndf_env d) (dre_networkAddress entry)) of
        None \<Rightarrow> None
      | Some target \<Rightarrow> if sameShare (nve_qt (ndf_env d)) c target then None else Some target)"

definition ttlOf :: "DfsReferralEntry \<Rightarrow> int" where
  "ttlOf entry = sint (max 1 (dre_timeToLiveSeconds entry))"

fun connectionsFrom :: "('c, 'v) NativeDfs \<Rightarrow> SavedConnection \<Rightarrow> DfsReferralEntry list \<Rightarrow> DfsResolvedConnection list" where
  "connectionsFrom d c [] = []"
| "connectionsFrom d c (entry # entries) =
     (case targetOfEntry d c entry of
        None \<Rightarrow> connectionsFrom d c entries
      | Some target \<Rightarrow> \<lparr>drc_connection = targetConnectionFor c target, drc_ttlSeconds = ttlOf entry\<rparr> # connectionsFrom d c entries)"

definition serverForUnc :: "('c, 'v) NativeDfs \<Rightarrow> SavedConnection \<Rightarrow> QString" where
  "serverForUnc d c = nve_fromStdString (ndf_env d) (ep_host (endpointForServer (ndf_env d) (con_server c)))"

definition resolveTargetsNative ::
  "('c, 'v) NativeDfs \<Rightarrow> SavedConnection \<Rightarrow> Secret \<Rightarrow> 'v AppContext \<Rightarrow> 'v \<Rightarrow> DfsResolvedConnection list Result outcome \<times> 'v" where
  "resolveTargetsNative d c secret ctx =
     (let requestPath = requestUncPath (nve_qt (ndf_env d)) c (serverForUnc d c) [slash] in
      withIpcConnection d c secret ctx
        (onNative (nap_getDfsReferrals (ndf_api d) (nve_toStdString (ndf_env d) requestPath) (referralContext d ctx))
          (\<lambda>e. returning (referralFailure d secret e))
          (\<lambda>referrals. returning (succeeded (connectionsFrom d c (drr_entries (ndr_response referrals)))))))"

fun pathsFrom :: "('c, 'v) NativeDfs \<Rightarrow> SavedConnection \<Rightarrow> QString \<Rightarrow> QString \<Rightarrow> DfsReferralEntry list \<Rightarrow> DfsResolvedPath list" where
  "pathsFrom d c originalPrefix rest [] = []"
| "pathsFrom d c originalPrefix rest (entry # entries) =
     (case targetOfEntry d c entry of
        None \<Rightarrow> pathsFrom d c originalPrefix rest entries
      | Some target \<Rightarrow>
          \<lparr>drp_connection = targetConnectionFor c target, drp_remotePath = rest, drp_originalPathPrefix = originalPrefix,
           drp_targetPathPrefix = ndt_targetPathPrefix target, drp_ttlSeconds = ttlOf entry\<rparr>
          # pathsFrom d c originalPrefix rest entries)"

definition triesParent :: "ErrorCode \<Rightarrow> bool" where
  "triesParent code = (code \<in> {EcFileNotFound, EcShareUnavailable, EcInvalidPath, EcNetworkError})"

text \<open>The loop over the number of segments asked for, from all of them down to none.\<close>

definition referralsAt ::
  "('c, 'v) NativeDfs \<Rightarrow> SavedConnection \<Rightarrow> 'v AppContext \<Rightarrow> QString list \<Rightarrow> nat \<Rightarrow> ('c, 'v, NativeDfsReferralResult) NativeOp" where
  "referralsAt d c ctx segments count =
     nap_getDfsReferrals (ndf_api d) (nve_toStdString (ndf_env d)
       (requestUncPath (nve_qt (ndf_env d)) c (serverForUnc d c) (pathFromSegments segments count))) (referralContext d ctx)"

definition pathsAt :: "('c, 'v) NativeDfs \<Rightarrow> SavedConnection \<Rightarrow> QString list \<Rightarrow> nat \<Rightarrow> NativeDfsReferralResult \<Rightarrow> DfsResolvedPath list" where
  "pathsAt d c segments count referrals =
     (let qt = nve_qt (ndf_env d); prefix = pathFromSegments segments count in
      pathsFrom d c
        (consumedOriginalPrefix qt (requestUncPath qt c (serverForUnc d c) prefix) (serverForUnc d c) (con_share c)
          (drr_pathConsumedBytes (ndr_response referrals)) prefix)
        (pathOfSegments segments count (length segments - count)) (drr_entries (ndr_response referrals)))"

fun referralLoop ::
  "('c, 'v) NativeDfs \<Rightarrow> SavedConnection \<Rightarrow> Secret \<Rightarrow> 'v AppContext \<Rightarrow> QString list \<Rightarrow> nat \<Rightarrow>
   'c \<times> 'v \<Rightarrow> DfsResolvedPath list Result outcome \<times> 'c \<times> 'v" where
  "referralLoop d c secret ctx segments count =
     (let continue = (if count = 0 then returning (succeeded []) else referralLoop d c secret ctx segments (count - 1)) in
      onNative (referralsAt d c ctx segments count)
        (\<lambda>e. if triesParent (pe_code e) then continue else returning (referralFailure d secret e))
        (\<lambda>referrals. if pathsAt d c segments count referrals \<noteq> [] then returning (succeeded (pathsAt d c segments count referrals))
                      else continue))"

declare referralLoop.simps [simp del]

definition resolvePathTargetsNative ::
  "('c, 'v) NativeDfs \<Rightarrow> SavedConnection \<Rightarrow> Secret \<Rightarrow> QString \<Rightarrow> 'v AppContext \<Rightarrow> 'v \<Rightarrow> DfsResolvedPath list Result outcome \<times> 'v" where
  "resolvePathTargetsNative d c secret remotePath ctx =
     (let segments = remotePathSegments (nve_qt (ndf_env d)) remotePath in
      withIpcConnection d c secret ctx (referralLoop d c secret ctx segments (length segments)))"

definition firstOf :: "('a \<Rightarrow> 'b) \<Rightarrow> 'a list Result outcome \<Rightarrow> 'b option Result outcome" where
  "firstOf f r = (case r of
     Value targets \<Rightarrow> if \<not> ok targets then Value (failedWith None (res_error targets))
       else Value (succeeded (case res_value targets of [] \<Rightarrow> None | t # _ \<Rightarrow> Some (f t)))
   | Thrown m \<Rightarrow> Thrown m | Fault \<Rightarrow> Fault | NoFuel \<Rightarrow> NoFuel)"

definition resolveNative ::
  "('c, 'v) NativeDfs \<Rightarrow> SavedConnection \<Rightarrow> Secret \<Rightarrow> 'v AppContext \<Rightarrow> 'v \<Rightarrow> SavedConnection option Result outcome \<times> 'v" where
  "resolveNative d c secret ctx v = apfst (firstOf drc_connection) (resolveTargetsNative d c secret ctx v)"

definition resolvePathNative ::
  "('c, 'v) NativeDfs \<Rightarrow> SavedConnection \<Rightarrow> Secret \<Rightarrow> QString \<Rightarrow> 'v AppContext \<Rightarrow> 'v \<Rightarrow> DfsResolvedPath option Result outcome \<times> 'v" where
  "resolvePathNative d c secret remotePath ctx v = apfst (firstOf (\<lambda>p. p)) (resolvePathTargetsNative d c secret remotePath ctx v)"

section \<open>Addresses are read back\<close>

lemma splitKeep_part: "c \<notin> set a \<Longrightarrow> splitKeep c (a @ c # s) part = (part @ a) # splitKeep c s []"
  by (induction a arbitrary: part) auto

lemma splitKeep_last: "c \<notin> set a \<Longrightarrow> splitKeep c a part = [part @ a]"
  by (induction a arbitrary: part) auto

lemma splitKeep_ne: "splitKeep c s part \<noteq> []"
  by (induction c s part rule: splitKeep.induct) auto

lemma joinParts_splitKeep: "joinParts slash (splitKeep backslash s part) = part @ forwardSlashes s"
proof (induction "backslash :: u16" s part rule: splitKeep.induct)
  case (2 x s part)
  then show ?case
    using splitKeep_ne [of backslash s "[]"] by (cases "splitKeep backslash s []") (auto simp: forwardSlashes_def)
qed simp

lemma forward_backSlashes: "backslash \<notin> set s \<Longrightarrow> forwardSlashes (backSlashes s) = s"
  by (induction s) (auto simp: forwardSlashes_def backSlashes_def)

lemma backSlashes_id: "slash \<notin> set s \<Longrightarrow> backSlashes s = s"
  by (auto simp: backSlashes_def intro!: map_idI)

lemma backSlashes_append [simp]: "backSlashes [] = []" "backSlashes (s @ t) = backSlashes s @ backSlashes t"
  "backSlashes (c # s) = (if c = slash then backslash else c) # backSlashes s" "length (backSlashes s) = length s"
  by (simp_all add: backSlashes_def)

lemma dropPairs_all: "s = [] \<or> hd s \<noteq> backslash \<Longrightarrow> dropWhile (\<lambda>c. c = backslash) (dropPairs (replicate n backslash @ s)) = s"
proof (induction n rule: less_induct)
  case (less n)
  show ?case
  proof (cases "n < 2")
    case True
    then have "n = 0 \<or> n = 1" by auto
    then show ?thesis using less.prems by (cases s; cases "tl s") auto
  next
    case False
    then obtain k where k: "n = Suc (Suc k)" using add_2_eq_Suc le_Suc_ex by (metis not_less)
    then show ?thesis using less by simp
  qed
qed

definition plainName :: "QString \<Rightarrow> bool" where
  "plainName s \<longleftrightarrow> s \<noteq> [] \<and> slash \<notin> set s \<and> backslash \<notin> set s"

text \<open>C39: the network address of a referral, with any number of leading separators, is read back to the
  server, the share and the path it was written from, in canonical form.\<close>

theorem referral_target_read_back:
  assumes "plainName server" "plainName share" "canonical qt path" "\<not> qt_isSpace qt slash" "\<not> qt_isSpace qt backslash"
    and "\<not> qt_isSpace qt (last share)" "0 < n"
  shows "parseNativeDfsReferralTarget qt
      (replicate n backslash @ server @ [backslash] @ share @ (if path = [slash] then [] else backSlashes path)) =
    Some \<lparr>ndt_server = server, ndt_share = share, ndt_targetPathPrefix = path\<rparr>"
proof -
  let ?rest = "server @ [backslash] @ share @ (if path = [slash] then [] else backSlashes path)"
  have clean: "slash \<notin> set (backSlashes path)" "backslash \<notin> set path"
    using assms(3) by (auto simp: backSlashes_def canonical_def)
  have last_path: "path \<noteq> [slash] \<Longrightarrow> path \<noteq> [] \<and> last (backSlashes path) = last path"
    using assms(3) by (auto simp: canonical_def startsWith_slash backSlashes_def last_map)
  have "\<not> qt_isSpace qt (last ?rest)"
    using assms(2,3,6) last_path by (cases "path = [slash]") (auto simp: plainName_def canonical_def backSlashes_def)
  then have "trimmed qt (replicate n backslash @ ?rest) = replicate n backslash @ ?rest"
    using assms(5,7) by (intro trimmed_id) (auto simp: hd_append)
  moreover have "backSlashes (replicate n backslash @ ?rest) = replicate n backslash @ ?rest"
    using assms(1,2) clean by (intro backSlashes_id) (auto simp: plainName_def)
  moreover have "dropWhile (\<lambda>c. c = backslash) (dropPairs (replicate n backslash @ ?rest)) = ?rest"
    using assms(1) by (intro dropPairs_all) (cases server, auto simp: plainName_def)
  moreover have "splitKeep backslash ?rest [] = server # share # (if path = [slash] then [] else splitKeep backslash (backSlashes (tl path)) [])"
  proof (cases "path = [slash]")
    case True
    then show ?thesis using assms(1,2) by (simp add: plainName_def splitKeep_part splitKeep_last)
  next
    case False
    then obtain t where "path = slash # t" using canonical_hd [OF assms(3)] by (cases path) auto
    then show ?thesis using assms(1,2) False by (simp add: plainName_def splitKeep_part)
  qed
  moreover have "normalizeRemotePath qt (slash # forwardSlashes (backSlashes (tl path))) = path" if "path \<noteq> [slash]"
  proof -
    obtain t where t: "path = slash # t" using canonical_hd [OF assms(3)] by (cases path) auto
    then have "forwardSlashes (backSlashes t) = t" using clean(2) by (intro forward_backSlashes) auto
    then show ?thesis using normalize_canonical [OF assms(4,3)] t by simp
  qed
  ultimately show ?thesis
    using assms(1,2) splitKeep_ne [of backslash "backSlashes (tl path)" "[]"]
    by (simp add: parseNativeDfsReferralTarget_def joinParts_splitKeep plainName_def Let_def Suc_le_eq)
qed

theorem referral_target_read_back_witness:
  "parseNativeDfsReferralTarget asciiText (replicate 1 backslash @ latin1 ''dc2'' @ [backslash] @ latin1 ''data'' @ backSlashes (latin1 ''/d/x'')) =
     Some \<lparr>ndt_server = latin1 ''dc2'', ndt_share = latin1 ''data'', ndt_targetPathPrefix = latin1 ''/d/x''\<rparr>"
proof -
  have "plainName (latin1 ''dc2'')" "plainName (latin1 ''data'')" "canonical asciiText (latin1 ''/d/x'')"
    "\<not> qt_isSpace asciiText slash" "\<not> qt_isSpace asciiText backslash" "\<not> qt_isSpace asciiText (last (latin1 ''data''))" by code_simp+
  from referral_target_read_back [OF this, of 1] show ?thesis by (simp add: latin1_def)
qed

section \<open>The prefix a server consumed\<close>

lemma prefix_of_canonical:
  assumes "\<not> qt_isSpace qt slash" "canonical qt q" "canonical qt p" "isPathPrefix qt q p" "q \<noteq> [slash]"
  shows "\<exists>t. p = q @ t"
  using assms(4,5) by (auto simp: isPathPrefix_def normalize_canonical [OF assms(1,2)] normalize_canonical [OF assms(1,3)] startsWith_iff Let_def)

text \<open>C40: when the server has consumed the request up to the end of a prefix of the path, which it counts in
  bytes of UTF-16, the prefix of the mapping is exactly that prefix, the root included; so the mapping
  applies to the path that was asked for.\<close>

theorem consumed_prefix_recovered:
  assumes "\<not> qt_isSpace qt slash" "\<And>s. length (qt_foldCase qt s) = length s"
    and "canonical qt p" "canonical qt q" "isPathPrefix qt q p" "slash \<notin> set (uncBase server (con_share c))"
    and "2 * length (requestUncPath qt c server q) < 65536"
  shows "consumedOriginalPrefix qt (requestUncPath qt c server p) server (con_share c)
      (word_of_nat (2 * length (requestUncPath qt c server q))) fallback = q"
proof -
  let ?base = "uncBase server (con_share c)"
  note n = normalize_canonical [OF assms(1,3)] normalize_canonical [OF assms(1,4)]
  have root: "backSlashes r = [backslash] \<longleftrightarrow> r = [slash]" if "canonical qt r" for r
    using canonical_hd [OF that] by (cases r) (auto simp: backSlashes_def)
  have request: "requestUncPath qt c server r = ?base @ (if r = [slash] then [] else backSlashes r)" if "canonical qt r" for r
    by (simp add: requestUncPath_def normalize_canonical [OF assms(1) that] root [OF that] Let_def)
  define N where "N = length (requestUncPath qt c server q)"
  have N: "0 < N" "2 * N < 65536" using assms(7) by (simp_all add: N_def request [OF assms(4)] uncBase_def)
  have "unat (word_of_nat (2 * N) :: u16) = 2 * N" using N by (simp add: unsigned_of_nat take_bit_nat_eq_self del: of_nat_mult)
  then have bytes: "unat (word_of_nat (2 * N) :: u16) div 2 = N" "(word_of_nat (2 * N) :: u16) \<noteq> 0" using N(1) by auto
  have taken: "take (length (requestUncPath qt c server q)) (requestUncPath qt c server p) = requestUncPath qt c server q"
  proof (cases "q = [slash]")
    case True
    then show ?thesis using request [OF assms(4)] by (simp add: request [OF assms(3)])
  next
    case False
    then obtain t where t: "p = q @ t" using prefix_of_canonical [OF assms(1,4,3,5)] by blast
    moreover have "p \<noteq> [slash]" using False canonical_hd [OF assms(4)] t by (cases q) auto
    ultimately show ?thesis using False request [OF assms(3)] request [OF assms(4)] by simp
  qed
  have clean: "backslash \<notin> set q" using assms(4) by (auto simp: canonical_def)
  have consumed: "backSlashes (requestUncPath qt c server q) = requestUncPath qt c server q"
    using assms(6) by (simp add: request [OF assms(4)] backSlashes_id) (simp add: backSlashes_def)
  show ?thesis
  proof (cases "q = [slash]")
    case True
    then have "requestUncPath qt c server [slash] = ?base" using request [OF assms(4)] by simp
    with True show ?thesis
      using bytes(2) taken consumed unfolding consumedOriginalPrefix_def N_def [symmetric] bytes(1)
      by (simp add: N_def Let_def request [OF assms(4)] sameText_def)
  next
    case False
    have "length (qt_foldCase qt (?base @ backSlashes q)) \<noteq> length (qt_foldCase qt ?base)"
      using canonical_hd [OF assms(4)] by (simp add: assms(2))
    then have "\<not> sameText qt (?base @ backSlashes q) ?base" by (metis sameText_def)
    moreover have "startsWithText qt (?base @ backSlashes q) (?base @ [backslash])"
      using canonical_hd [OF assms(4)] by (cases q) (auto simp: startsWithText_def sameText_def)
    ultimately show ?thesis
      using bytes(2) taken consumed False forward_backSlashes [OF clean] n(2)
      unfolding consumedOriginalPrefix_def N_def [symmetric] bytes(1)
      by (simp add: N_def Let_def request [OF assms(4)])
  qed
qed

theorem consumed_prefix_recovered_witness:
  "consumedOriginalPrefix asciiText (requestUncPath asciiText (createEmpty\<lparr>con_share := latin1 ''s''\<rparr>) (latin1 ''h'') (latin1 ''/dept/a''))
     (latin1 ''h'') (latin1 ''s'') (word_of_nat (2 * length (requestUncPath asciiText (createEmpty\<lparr>con_share := latin1 ''s''\<rparr>)
        (latin1 ''h'') (latin1 ''/dept'')))) [] = latin1 ''/dept''"
proof -
  have c: "con_share (createEmpty\<lparr>con_share := latin1 ''s''\<rparr>) = latin1 ''s''" by simp
  have facts: "\<not> qt_isSpace asciiText slash" "canonical asciiText (latin1 ''/dept/a'')" "canonical asciiText (latin1 ''/dept'')"
    "isPathPrefix asciiText (latin1 ''/dept'') (latin1 ''/dept/a'')" by code_simp+
  have clean: "slash \<notin> set (uncBase (latin1 ''h'') (con_share (createEmpty\<lparr>con_share := latin1 ''s''\<rparr>)))" unfolding c by code_simp
  have short: "2 * length (requestUncPath asciiText (createEmpty\<lparr>con_share := latin1 ''s''\<rparr>) (latin1 ''h'') (latin1 ''/dept'')) < 65536"
    unfolding requestUncPath_def normalize_canonical [OF facts(1,3)]
    by (simp add: uncBase_def latin1_def backSlashes_def Let_def)
  have "length (qt_foldCase asciiText s) = length s" for s by (simp add: asciiText_def)
  note recovered = consumed_prefix_recovered [OF facts(1) this facts(2-4) clean short]
  show ?thesis by (rule recovered [unfolded c])
qed

text \<open>A count that ends inside a name gives a prefix the path does not lie below, and a path that does not lie
  below the prefix of a mapping is sent to the root of its target.\<close>

lemma consumed_inside_a_name:
  "let c = createEmpty\<lparr>con_share := latin1 ''s''\<rparr>; request = requestUncPath asciiText c (latin1 ''h'') (latin1 ''/dept/a'');
       prefix = consumedOriginalPrefix asciiText request (latin1 ''h'') (latin1 ''s'') 18 (latin1 ''/dept/a'');
       m = departmentMapping\<lparr>dpm_originalPrefix := prefix\<rparr> in
   prefix = latin1 ''/dep'' \<and> targetPathForMapping asciiText m (latin1 ''/dept/a'') = latin1 ''/data/d1''"
  by code_simp

section \<open>Whom a referral leads to\<close>

text \<open>A connection to another share with the same login: server, share and address are all that differs.\<close>

definition redirectionOf :: "QtText \<Rightarrow> SavedConnection \<Rightarrow> SavedConnection \<Rightarrow> bool" where
  "redirectionOf qt c t \<longleftrightarrow> (\<exists>server share. t = c\<lparr>con_server := server, con_share := share, con_normalizedUri := targetUri server share\<rparr>
     \<and> server \<noteq> [] \<and> share \<noteq> [] \<and> backslash \<notin> set server \<and> backslash \<notin> set share
     \<and> \<not> (sameText qt (con_server c) server \<and> sameText qt (con_share c) share))"

lemma splitKeep_parts: "x \<in> set (splitKeep c s part) \<Longrightarrow> c \<notin> set part \<Longrightarrow> c \<notin> set x"
  by (induction c s part rule: splitKeep.induct) (auto split: if_split_asm)

lemma parsed_target:
  assumes "parseNativeDfsReferralTarget qt address = Some target"
  shows "ndt_server target \<noteq> []" "ndt_share target \<noteq> []" "backslash \<notin> set (ndt_server target)" "backslash \<notin> set (ndt_share target)"
proof -
  define parts where "parts = splitKeep backslash (dropWhile (\<lambda>c. c = backslash) (dropPairs (backSlashes (trimmed qt address)))) []"
  have parts: "2 \<le> length parts" "parts ! 0 \<noteq> []" "parts ! 1 \<noteq> []" "ndt_server target = parts ! 0" "ndt_share target = parts ! 1"
    using assms unfolding parseNativeDfsReferralTarget_def Let_def parts_def [symmetric] by (auto simp: not_less split: if_split_asm)
  then have "parts ! 0 \<in> set parts" "parts ! 1 \<in> set parts" by (auto intro!: nth_mem)
  moreover have "backslash \<notin> set x" if "x \<in> set parts" for x using splitKeep_parts that unfolding parts_def by fastforce
  ultimately show "ndt_server target \<noteq> []" "ndt_share target \<noteq> []" "backslash \<notin> set (ndt_server target)" "backslash \<notin> set (ndt_share target)"
    using parts(2-5) by simp_all
qed

lemma targetOfEntry_redirects:
  assumes "targetOfEntry d c entry = Some target"
  shows "redirectionOf (nve_qt (ndf_env d)) c (targetConnectionFor c target)"
proof -
  have "parseNativeDfsReferralTarget (nve_qt (ndf_env d)) (nve_fromStdString (ndf_env d) (dre_networkAddress entry)) = Some target"
    "\<not> sameShare (nve_qt (ndf_env d)) c target"
    using assms by (auto simp: targetOfEntry_def split: option.splits if_split_asm)
  with parsed_target [OF this(1)] show ?thesis
    unfolding redirectionOf_def by (intro exI [of _ "ndt_server target"] exI [of _ "ndt_share target"])
      (simp add: targetConnectionFor_def sameShare_def)
qed

lemma connectionsFrom_redirect:
  "t \<in> set (connectionsFrom d c entries) \<Longrightarrow> redirectionOf (nve_qt (ndf_env d)) c (drc_connection t)"
  by (induction d c entries rule: connectionsFrom.induct) (auto split: option.splits dest: targetOfEntry_redirects)

lemma pathsFrom_redirect:
  "t \<in> set (pathsFrom d c prefix rest entries) \<Longrightarrow> redirectionOf (nve_qt (ndf_env d)) c (drp_connection t)"
  by (induction d c prefix rest entries rule: pathsFrom.induct) (auto split: option.splits dest: targetOfEntry_redirects)

lemma onNative_Value:
  "onNative call onError continue s = (Value r, s') \<Longrightarrow>
   (\<exists>e s1. call s = (Value (Failure e), s1) \<and> onError e s1 = (Value r, s'))
   \<or> (\<exists>x s1. call s = (Value (Success x), s1) \<and> continue x s1 = (Value r, s'))"
  by (auto simp: onNative_def split: prod.splits outcome.splits DecodeResult.splits)

lemma referralLoop_Value:
  assumes "referralLoop d c secret ctx segments count s = (Value r, s')"
  shows "(\<exists>e. r = referralFailure d secret e) \<or> r = succeeded [] \<or> (\<exists>x. r = succeeded (pathsAt d c segments count x))
    \<or> (\<exists>s1. 0 < count \<and> referralLoop d c secret ctx segments (count - 1) s1 = (Value r, s'))"
  using assms by (subst (asm) referralLoop.simps) (auto simp: Let_def returning_def dest!: onNative_Value split: if_split_asm)

lemma referralLoop_redirects:
  "referralLoop d c secret ctx segments count s = (Value r, s') \<Longrightarrow> t \<in> set (res_value r) \<Longrightarrow>
   redirectionOf (nve_qt (ndf_env d)) c (drp_connection t)"
proof (induction count arbitrary: s)
  case 0
  from referralLoop_Value [OF 0(1)] show ?case
    using 0(2) by (auto simp: referralFailure_def pathsAt_def Let_def dest: pathsFrom_redirect)
next
  case (Suc count)
  from referralLoop_Value [OF Suc.prems(1)] consider "\<exists>x. r = succeeded (pathsAt d c segments (Suc count) x)"
    | s1 where "referralLoop d c secret ctx segments count s1 = (Value r, s')"
    using Suc.prems(2) by (auto simp: referralFailure_def)
  then show ?case
  proof cases
    case 1
    then show ?thesis using Suc.prems(2) pathsFrom_redirect by (auto simp: pathsAt_def Let_def)
  next
    case 2
    then show ?thesis using Suc.IH Suc.prems(2) by blast
  qed
qed

lemma withConnection_Value:
  "withConnection api c secret ctx onError body v = (Value r, v') \<Longrightarrow>
   (\<exists>e. r = onError e) \<or> (\<exists>n v0 n' v1. body (n, v0) = (Value r, n', v1))"
  by (auto simp: withConnection_def Let_def split: prod.splits outcome.splits DecodeResult.splits)

text \<open>C38: whatever a server answers, every connection the resolver names keeps the login of the one it was
  asked for (user, domain, kind of login, stored credential): only its server, its share and the address
  made of them differ, they are not empty, and they do not lead back to the same share.\<close>

theorem resolver_keeps_login:
  "(resolveTargetsNative d c secret ctx v = (Value r, v') \<longrightarrow>
     (\<forall>t\<in>set (res_value r). redirectionOf (nve_qt (ndf_env d)) c (drc_connection t)))
   \<and> (resolvePathTargetsNative d c secret path ctx v = (Value q, v') \<longrightarrow>
     (\<forall>t\<in>set (res_value q). redirectionOf (nve_qt (ndf_env d)) c (drp_connection t)))"
proof (intro conjI impI ballI)
  fix t assume run: "resolveTargetsNative d c secret ctx v = (Value r, v')" and t: "t \<in> set (res_value r)"
  from withConnection_Value [OF run [unfolded resolveTargetsNative_def withIpcConnection_def Let_def]]
  have "(\<exists>e. r = referralFailure d secret e) \<or> (\<exists>x. r = succeeded (connectionsFrom d c x))"
  proof (elim disjE exE)
    fix n v0 n' v1
    assume "onNative (nap_getDfsReferrals (ndf_api d) (nve_toStdString (ndf_env d)
        (requestUncPath (nve_qt (ndf_env d)) c (serverForUnc d c) [slash])) (referralContext d ctx))
        (\<lambda>e. returning (referralFailure d secret e))
        (\<lambda>referrals. returning (succeeded (connectionsFrom d c (drr_entries (ndr_response referrals))))) (n, v0) = (Value r, n', v1)"
    from onNative_Value [OF this] show ?thesis by (auto simp: returning_def)
  qed blast
  then show "redirectionOf (nve_qt (ndf_env d)) c (drc_connection t)"
    using t connectionsFrom_redirect by (auto simp: referralFailure_def)
next
  fix t assume run: "resolvePathTargetsNative d c secret path ctx v = (Value q, v')" and t: "t \<in> set (res_value q)"
  from withConnection_Value [OF run [unfolded resolvePathTargetsNative_def withIpcConnection_def Let_def]]
  show "redirectionOf (nve_qt (ndf_env d)) c (drp_connection t)"
    using t referralLoop_redirects by (auto simp: referralFailure_def)
qed

text \<open>A server that refers everyone to a share of \<open>dc2\<close>.\<close>

definition dc2Entry :: DfsReferralEntry where
  "dc2Entry = \<lparr>dre_version = 3, dre_serverType = 0, dre_flags = 0, dre_timeToLiveSeconds = 0, dre_dfsPath = [],
     dre_dfsAlternatePath = [], dre_networkAddress = [92, 104, 92, 115], dre_rootTarget = False, dre_nameListReferral = False\<rparr>"

definition referringDfs :: "(unit, Memory) NativeDfs" where
  "referringDfs = \<lparr>ndf_api = memoryApi\<lparr>nap_getDfsReferrals := \<lambda>path ctx s. (Value (Success \<lparr>ndr_response =
     \<lparr>drr_pathConsumedBytes = 0, drr_headerFlags = 0, drr_entries = [dc2Entry]\<rparr>, ndr_messagesUsed = 1\<rparr>), s)\<rparr>,
     ndf_env = memoryEnv\<rparr>"

theorem resolver_keeps_login_witness:
  "\<exists>r v'. resolveTargetsNative referringDfs createEmpty None quietContext (oneFile [] []) = (Value r, v') \<and> res_value r \<noteq> []
     \<and> (\<forall>t\<in>set (res_value r). redirectionOf asciiText createEmpty (drc_connection t))"
proof -
  have "resolveTargetsNative referringDfs createEmpty None quietContext (oneFile [] []) =
      (Value (succeeded (connectionsFrom referringDfs createEmpty [dc2Entry])), oneFile [] [])"
    by (simp add: resolveTargetsNative_def withIpcConnection_def withConnection_def onNative_def returning_def Let_def
        referringDfs_def memoryApi_def)
  moreover have "nve_qt (ndf_env referringDfs) = asciiText" "nve_fromStdString (ndf_env referringDfs) = map ucast"
    by (simp_all add: referringDfs_def memoryEnv_def)
  moreover have "parseNativeDfsReferralTarget asciiText (map ucast (dre_networkAddress dc2Entry)) =
      Some \<lparr>ndt_server = [104], ndt_share = [115], ndt_targetPathPrefix = [slash]\<rparr>" by code_simp
  moreover have "\<not> sameShare asciiText createEmpty \<lparr>ndt_server = [104], ndt_share = [115], ndt_targetPathPrefix = [slash]\<rparr>" by code_simp
  ultimately have "res_value (succeeded (connectionsFrom referringDfs createEmpty [dc2Entry])) \<noteq> []
      \<and> resolveTargetsNative referringDfs createEmpty None quietContext (oneFile [] []) =
        (Value (succeeded (connectionsFrom referringDfs createEmpty [dc2Entry])), oneFile [] [])"
    by (simp add: targetOfEntry_def)
  moreover from this have "\<forall>t\<in>set (res_value (succeeded (connectionsFrom referringDfs createEmpty [dc2Entry]))).
      redirectionOf (nve_qt (ndf_env referringDfs)) createEmpty (drc_connection t)"
    by (intro resolver_keeps_login [THEN conjunct1, THEN mp]) (rule conjunct2)
  moreover have "nve_qt (ndf_env referringDfs) = asciiText" by (simp add: referringDfs_def memoryEnv_def)
  ultimately show ?thesis by metis
qed

end
