(* ===== verification/Spec2Isabelle.thy ===== *)
theory Spec2Isabelle
  imports Prelude NativeTypes Utf16 Header Requests Responses Listings Client Operators Session Rpc Dfs SessionIds
    Wildcards Safety DirectTcp Crypto Signing Encryption Connection Spnego NtlmCrypto Ntlm NtlmProvider
    Core PathNormalizer SmbClients ConnectionServices RecursiveSearch OperationQueue DfsClient NativeBackend NativeClient NativeResolver
begin

text \<open>
  smb-browser: a verification development of the native SMB client (\<open>src/src/native_smb\<close>).
\<close>

end
